(* ===== verification/Pegasus_Prelude.thy ===== *)
theory Pegasus_Prelude
  imports Main "HOL-Library.Word" "HOL-Library.Signed_Division"
begin

text \<open>
  Shared vocabulary of the development: the outcome type of code that may abort
  (\<open>CHECK\<close> macros of \<^verbatim>\<open>src/src/utils/api_utilities.h\<close>, reads out of range, loops
  that never leave), the error codes of \<^verbatim>\<open>src/src/utils/error_code.h\<close> that the
  modelled code returns, the integer conversions of C++, and the generic lemmas on
  lists, modular indices and words that the component theories use.
\<close>

section \<open>Outcomes of code that may abort\<close>

text \<open>
  A failed \<open>CHECK\<close> aborts the process; an index outside a vector is undefined
  behaviour; a loop whose guard can never become false does not return. All three are
  values of \<open>crash\<close>, so that a theorem that a function returns \<open>Inr\<close> excludes them.
\<close>

datatype crash =
    Check_failed string | Out_of_bounds string | Signed_overflow | Division_by_zero | Diverges

type_synonym 'a result = "crash + 'a"

definition bind_result :: "'a result \<Rightarrow> ('a \<Rightarrow> 'b result) \<Rightarrow> 'b result" where
  "bind_result r f = (case r of Inl e \<Rightarrow> Inl e | Inr x \<Rightarrow> f x)"

definition check :: "bool \<Rightarrow> string \<Rightarrow> unit result" where
  "check b msg = (if b then Inr () else Inl (Check_failed msg))"

named_theorems result_simps "evaluation of outcomes"

lemma bind_result_Inr [simp]: "bind_result (Inr x) f = f x"
  by (simp add: bind_result_def)

lemma bind_result_Inl [simp]: "bind_result (Inl e) f = Inl e"
  by (simp add: bind_result_def)

lemma bind_result_eq_Inr [result_simps]:
  "bind_result r f = Inr y \<longleftrightarrow> (\<exists>x. r = Inr x \<and> f x = Inr y)"
  by (cases r) auto

lemma check_eq_Inr [result_simps]: "check b msg = Inr u \<longleftrightarrow> b"
  by (simp add: check_def)

lemma check_True [simp]: "check True msg = Inr ()"
  by (simp add: check_def)

lemma check_False [simp]: "check False msg = Inl (Check_failed msg)"
  by (simp add: check_def)

text \<open>Recursive calls under \<open>bind_result\<close> see the value they continue with.\<close>

lemma bind_result_cong [fundef_cong]:
  "r = r' \<Longrightarrow> (\<And>x. r' = Inr x \<Longrightarrow> f x = g x) \<Longrightarrow> bind_result r f = bind_result r' g"
  by (cases r') (auto simp: bind_result_def)

section \<open>Error codes\<close>

datatype error_code =
    ERR_OK | ERR_UNKNOWN | ERR_TIMEOUT | ERR_BUSY | ERR_FORWARD_TO_OTHERS | ERR_OBJECT_NOT_FOUND
  | ERR_HANDLER_NOT_FOUND | ERR_LEARN_FILE_FAILED | ERR_INVALID_VERSION | ERR_INVALID_PARAMETERS
  | ERR_CAPACITY_EXCEEDED | ERR_INVALID_STATE | ERR_INACTIVE_STATE | ERR_NOT_ENOUGH_MEMBER
  | ERR_FILE_OPERATION_FAILED | ERR_HANDLE_EOF | ERR_WRONG_CHECKSUM | ERR_INVALID_DATA
  | ERR_INCOMPLETE_DATA | ERR_VERSION_OUTDATED | ERR_LOCAL_APP_FAILURE | ERR_NO_NEED_OPERATE
  | ERR_CORRUPTION | ERR_TRY_AGAIN | ERR_APP_NOT_EXIST | ERR_NETWORK_FAILURE
  | ERR_OPERATION_DISABLED | ERR_EXPIRED | ERR_ACL_DENY | ERR_SPLITTING
  | ERR_PARENT_PARTITION_MISUSED | ERR_CHILD_NOT_READY | ERR_DISK_INSUFFICIENT
  | ERR_RDB_CORRUPTION | ERR_DISK_IO_ERROR

text \<open>The status of a replica (\<^verbatim>\<open>idl/metadata.thrift\<close>).\<close>

datatype partition_status =
    PS_INVALID | PS_INACTIVE | PS_ERROR | PS_PRIMARY | PS_SECONDARY | PS_POTENTIAL_SECONDARY
  | PS_PARTITION_SPLIT

section \<open>C++ integers\<close>

text \<open>
  \<open>ballot\<close> and \<open>decree\<close> are \<open>int64_t\<close> and are modelled by \<open>int\<close>: they grow by
  one per view change and per write. The narrowing casts are written out.
\<close>

type_synonym decree = int
type_synonym ballot = int

abbreviation (input) invalid_ballot :: ballot where "invalid_ballot \<equiv> - 1"
abbreviation (input) invalid_decree :: decree where "invalid_decree \<equiv> - 1"
abbreviation (input) invalid_offset :: int where "invalid_offset \<equiv> - 1"
abbreviation (input) invalid_signature :: int where "invalid_signature \<equiv> 0"

text \<open>\<open>static_cast<int>\<close> of a 64-bit value, and an \<open>int\<close> addition (overflow is undefined).\<close>

definition to_int32 :: "int \<Rightarrow> int" where
  "to_int32 x = (x + 2 ^ 31) mod 2 ^ 32 - 2 ^ 31"

definition add_int32 :: "int \<Rightarrow> int \<Rightarrow> int result" where
  "add_int32 a b =
     (if - (2 ^ 31) \<le> a + b \<and> a + b < 2 ^ 31 then Inr (a + b) else Inl Signed_overflow)"

lemma to_int32_id: "- (2 ^ 31) \<le> x \<Longrightarrow> x < 2 ^ 31 \<Longrightarrow> to_int32 x = x"
  by (simp add: to_int32_def)

lemma smod_nonneg: "0 \<le> a \<Longrightarrow> 0 < b \<Longrightarrow> a smod b = a mod (b::int)"
  by (cases "a = 0") (simp_all add: signed_modulo_int_def sgn_1_pos)

section \<open>Bytes\<close>

type_synonym byte = "8 word"
type_synonym bytes = "byte list"

lemma unat_widen:
  fixes w :: "'a::len word"
  assumes "LENGTH('a) \<le> LENGTH('b::len)"
  shows "unat (ucast w :: 'b word) = unat w"
proof -
  have "unat w < 2 ^ LENGTH('a)" by (rule unsigned_less)
  also have "\<dots> \<le> 2 ^ LENGTH('b)" using assms by simp
  finally show ?thesis by (simp add: unsigned_ucast_eq take_bit_nat_eq_self)
qed

section \<open>Lists and indices\<close>

lemma nth_update_if:
  "i < length xs \<Longrightarrow> (xs[i := v]) ! j = (if j = i then v else xs ! j)"
  by simp

text \<open>
  Two offsets below the size of a ring address different slots.
\<close>

lemma ring_inj:
  fixes s n j k :: int
  assumes "0 \<le> j" "j < n" "0 \<le> k" "k < n" "(s + j) mod n = (s + k) mod n"
  shows "j = k"
proof -
  from assms(5) have "(s + j - s) mod n = (s + k - s) mod n"
    by (metis mod_diff_left_eq)
  then have "j mod n = k mod n" by simp
  with assms(1-4) show ?thesis by simp
qed

lemma ring_offset_surj:
  fixes s n i :: int
  assumes "0 \<le> i" "i < n"
  obtains k where "0 \<le> k" "k < n" "i = (s + k) mod n"
proof
  show "0 \<le> (i - s) mod n" "(i - s) mod n < n" using assms by simp_all
  show "i = (s + (i - s) mod n) mod n" using assms by (simp add: mod_simps)
qed

section \<open>Transition systems\<close>

text \<open>A property that holds initially and is kept by every step holds in every reachable state.\<close>

locale stepwise_invariant =
  fixes init :: "'s \<Rightarrow> bool" and step :: "'s \<Rightarrow> 's \<Rightarrow> bool" and inv :: "'s \<Rightarrow> bool"
  assumes inv_init: "init s \<Longrightarrow> inv s"
    and inv_step: "step s s' \<Longrightarrow> inv s \<Longrightarrow> inv s'"
begin

lemma inv_reachable:
  assumes "init s" "step\<^sup>*\<^sup>* s s'"
  shows "inv s'"
  using assms(2) by (induction rule: rtranclp_induct) (auto intro: inv_init [OF assms(1)] inv_step)

end

end
