(* ===== verification/Group_Host_Port.thy ===== *)
theory Group_Host_Port
  imports Pegasus_Prelude
begin

text \<open>
  Host ports and the group of host ports with a leader
  (\<open>rpc_group_host_port\<close> in \<^verbatim>\<open>src/src/rpc/group_host_port.h\<close>), which the replica servers use
  for the list of meta servers. A random index is an argument of the operations that draw
  one.
\<close>

section \<open>Model\<close>

datatype host_port = HP_invalid | HP_ipv4 string "16 word"

record rpc_group_host_port =
  gr_members :: "host_port list"
  gr_leader_index :: int
  gr_update_leader_automatically :: bool

definition group_init :: rpc_group_host_port where
  "group_init = \<lparr>gr_members = [], gr_leader_index = -1, gr_update_leader_automatically = True\<rparr>"

definition group_add :: "host_port \<Rightarrow> rpc_group_host_port \<Rightarrow> (bool \<times> rpc_group_host_port) result" where
  "group_add hp g =
     bind_result (check (hp \<noteq> HP_invalid) ''rpc group host_port member must be ipv4'') (\<lambda>_.
       if hp \<notin> set (gr_members g) then Inr (True, g\<lparr>gr_members := gr_members g @ [hp]\<rparr>)
       else Inr (False, g))"

definition leader_forward :: "rpc_group_host_port \<Rightarrow> rpc_group_host_port" where
  "leader_forward g =
     (if gr_members g = [] then g
      else g\<lparr>gr_leader_index := (gr_leader_index g + 1) mod int (length (gr_members g))\<rparr>)"

text \<open>The position of the first occurrence, as the search loops compute it.\<close>

primrec index_of :: "'a \<Rightarrow> 'a list \<Rightarrow> nat option" where
  "index_of x [] = None"
| "index_of x (y # ys) = (if y = x then Some 0 else map_option Suc (index_of x ys))"

definition set_leader :: "host_port \<Rightarrow> rpc_group_host_port \<Rightarrow> rpc_group_host_port" where
  "set_leader hp g =
     (if hp = HP_invalid then g\<lparr>gr_leader_index := -1\<rparr>
      else case index_of hp (gr_members g) of
             Some i \<Rightarrow> g\<lparr>gr_leader_index := int i\<rparr>
           | None \<Rightarrow> g\<lparr>gr_members := gr_members g @ [hp],
                       gr_leader_index := int (length (gr_members g))\<rparr>)"

definition member_at :: "rpc_group_host_port \<Rightarrow> nat \<Rightarrow> host_port result" where
  "member_at g i = (if i < length (gr_members g) then Inr (gr_members g ! i)
                    else Inl (Out_of_bounds ''_members''))"

definition group_leader :: "rpc_group_host_port \<Rightarrow> host_port result" where
  "group_leader g = (if gr_leader_index g \<ge> 0 then member_at g (nat (gr_leader_index g)) else Inr HP_invalid)"

definition possible_leader :: "nat \<Rightarrow> rpc_group_host_port \<Rightarrow> (host_port \<times> rpc_group_host_port) result" where
  "possible_leader rnd g =
     (if gr_members g = [] then Inr (HP_invalid, g)
      else let g' = (if gr_leader_index g = -1 then g\<lparr>gr_leader_index := int rnd\<rparr> else g)
           in bind_result (member_at g' (nat (gr_leader_index g'))) (\<lambda>hp. Inr (hp, g')))"

definition group_remove :: "host_port \<Rightarrow> rpc_group_host_port \<Rightarrow> (bool \<times> rpc_group_host_port) result" where
  "group_remove hp g =
     (if hp \<notin> set (gr_members g) then Inr (False, g)
      else bind_result
             (if gr_leader_index g \<noteq> -1
              then bind_result (member_at g (nat (gr_leader_index g))) (\<lambda>l. Inr (hp = l))
              else Inr False) (\<lambda>was_leader.
        let g' = (if was_leader then g\<lparr>gr_leader_index := -1\<rparr> else g)
        in Inr (True, g'\<lparr>gr_members := remove1 hp (gr_members g)\<rparr>)))"

definition group_next :: "nat \<Rightarrow> host_port \<Rightarrow> rpc_group_host_port \<Rightarrow> host_port" where
  "group_next rnd current g =
     (if gr_members g = [] then HP_invalid
      else if current = HP_invalid then gr_members g ! rnd
      else case index_of current (gr_members g) of
             None \<Rightarrow> gr_members g ! rnd
           | Some i \<Rightarrow> if Suc i = length (gr_members g) then gr_members g ! 0
                       else gr_members g ! Suc i)"

section \<open>Properties\<close>

text \<open>Members are valid and listed once; the leader index is unset or points to a member.\<close>

definition group_wf :: "rpc_group_host_port \<Rightarrow> bool" where
  "group_wf g \<longleftrightarrow> distinct (gr_members g) \<and> HP_invalid \<notin> set (gr_members g) \<and>
     (gr_leader_index g = -1 \<or>
      0 \<le> gr_leader_index g \<and> gr_leader_index g < int (length (gr_members g)))"

lemma index_of_None: "index_of x xs = None \<longleftrightarrow> x \<notin> set xs"
  by (induction xs) auto

lemma index_of_Some: "index_of x xs = Some i \<Longrightarrow> i < length xs \<and> xs ! i = x"
  by (induction xs arbitrary: i) (auto split: if_splits)

lemma index_of_nth: "distinct xs \<Longrightarrow> i < length xs \<Longrightarrow> index_of (xs ! i) xs = Some i"
proof (induction xs arbitrary: i)
  case (Cons x xs)
  then show ?case by (cases i) auto
qed simp

lemma group_init_wf: "group_wf group_init"
  by (simp add: group_wf_def group_init_def)

lemma group_add_wf: "group_wf g \<Longrightarrow> group_add hp g = Inr (b, g') \<Longrightarrow> group_wf g'"
  by (auto simp: group_wf_def group_add_def result_simps split: if_splits)

lemma set_leader_wf: "group_wf g \<Longrightarrow> group_wf (set_leader hp g)"
  by (auto simp: group_wf_def set_leader_def index_of_None dest: index_of_Some split: option.split)

lemma leader_set_leader:
  assumes "hp \<noteq> HP_invalid"
  shows "group_leader (set_leader hp g) = Inr hp"
  using assms
  by (auto simp: group_leader_def set_leader_def member_at_def dest: index_of_Some split: option.split)

lemma set_leader_members: "set (gr_members g) \<subseteq> set (gr_members (set_leader hp g))"
  by (auto simp: set_leader_def split: option.split)

lemma leader_total:
  assumes "group_wf g"
  shows "\<exists>hp. group_leader g = Inr hp \<and> (hp \<in> set (gr_members g) \<or> hp = HP_invalid)"
  using assms by (auto simp: group_wf_def group_leader_def member_at_def)

lemma group_next_nth:
  assumes "group_wf g" "i < length (gr_members g)"
  shows "group_next rnd (gr_members g ! i) g
    = gr_members g ! (Suc i mod length (gr_members g))"
proof -
  from nth_mem [OF assms(2)] assms(1) have "gr_members g ! i \<noteq> HP_invalid"
    by (auto simp: group_wf_def)
  moreover have "gr_members g \<noteq> []" using assms(2) by auto
  ultimately have "gr_members g ! i \<noteq> HP_invalid" "gr_members g \<noteq> []" by simp_all
  with assms show ?thesis
    by (simp add: group_next_def index_of_nth group_wf_def)
qed

lemma group_next_member:
  assumes "group_wf g" "hp \<in> set (gr_members g)"
  shows "group_next rnd hp g \<in> set (gr_members g)"
proof -
  from assms(2) obtain i where "i < length (gr_members g)" "hp = gr_members g ! i"
    by (metis in_set_conv_nth)
  with group_next_nth [OF assms(1), of i rnd] show ?thesis
    by (metis length_greater_0_conv length_pos_if_in_set assms(2) mod_less_divisor nth_mem)
qed

text \<open>
  Asking a group for the next member is a round robin: starting at the member with index
  \<open>i\<close> and following \<open>next\<close> \<open>k\<close> times gives the member with index \<open>i + k\<close> modulo the size,
  so after as many steps as there are members every member has been tried.
\<close>

theorem group_next_round_robin:
  assumes "group_wf g" "i < length (gr_members g)"
  shows "((\<lambda>hp. group_next rnd hp g) ^^ k) (gr_members g ! i)
      = gr_members g ! ((i + k) mod length (gr_members g))
    \<and> set (gr_members g)
      = (\<lambda>k. ((\<lambda>hp. group_next rnd hp g) ^^ k) (gr_members g ! i)) ` {..< length (gr_members g)}"
proof -
  let ?n = "length (gr_members g)" and ?f = "\<lambda>hp. group_next rnd hp g"
  have n: "0 < ?n" using assms(2) by linarith
  have step: "(?f ^^ k) (gr_members g ! i) = gr_members g ! ((i + k) mod ?n)" for k
  proof (induction k)
    case 0
    show ?case using assms(2) by simp
  next
    case (Suc k)
    have "(i + k) mod ?n < ?n" using n by simp
    then show ?case
      using Suc group_next_nth [OF assms(1), of "(i + k) mod ?n" rnd] by (simp add: mod_Suc_eq)
  qed
  have "x \<in> (\<lambda>k. gr_members g ! ((i + k) mod ?n)) ` {..< ?n}" if "x \<in> set (gr_members g)" for x
  proof -
    from that obtain j where j: "j < ?n" "x = gr_members g ! j" by (metis in_set_conv_nth)
    let ?k = "(j + ?n - i) mod ?n"
    have "(i + ?k) mod ?n = (i + (j + ?n - i)) mod ?n" by (rule mod_add_right_eq)
    also have "\<dots> = j" using assms(2) j(1) by simp
    finally show ?thesis using j(2) n by (intro image_eqI [of _ _ ?k]) simp_all
  qed
  then show ?thesis using step n by auto
qed

definition sample_group :: rpc_group_host_port where
  "sample_group = \<lparr>gr_members = [HP_ipv4 ''a'' 1, HP_ipv4 ''b'' 1, HP_ipv4 ''c'' 1],
     gr_leader_index = 2, gr_update_leader_automatically = False\<rparr>"

theorem group_next_round_robin_witness:
  "((\<lambda>hp. group_next 0 hp sample_group) ^^ 4) (HP_ipv4 ''b'' 1) = HP_ipv4 ''c'' 1"
proof -
  have "group_wf sample_group" "1 < length (gr_members sample_group)"
    by (simp_all add: group_wf_def sample_group_def)
  from group_next_round_robin [OF this, where k = 4 and rnd = 0] show ?thesis
    by (simp add: sample_group_def)
qed

lemma remove1_nth_after:
  assumes "distinct xs" "i < length xs" "i \<le> j" "Suc j < length xs"
  shows "remove1 (xs ! i) xs ! j = xs ! Suc j"
  using assms
proof (induction xs arbitrary: i j)
  case (Cons x xs)
  show ?case
  proof (cases i)
    case 0
    then show ?thesis by simp
  next
    case (Suc i')
    with Cons.prems have "xs ! i' \<noteq> x" by auto
    moreover from Suc Cons.prems(3) obtain j' where "j = Suc j'" by (cases j) auto
    ultimately show ?thesis using Suc Cons by auto
  qed
qed simp

text \<open>
  C39.
  Removing a member of a well-formed group never adjusts the leader index unless the member
  led. So for every member that is listed before the leader, the removal succeeds and the
  leadership silently moves to the member after the old leader; when the leader was the last
  member, the index is past the end afterwards: the invariant of the group is broken and
  reading the leader is out of bounds.
\<close>

theorem group_remove_shifts_leader:
  assumes "group_wf g" "gr_leader_index g = int l" "i < l"
  shows "\<exists>g'. group_remove (gr_members g ! i) g = Inr (True, g') \<and>
    group_leader g = Inr (gr_members g ! l) \<and>
    group_leader g' = (if Suc l < length (gr_members g) then Inr (gr_members g ! Suc l)
                       else Inl (Out_of_bounds ''_members'')) \<and>
    (group_wf g' \<longleftrightarrow> Suc l < length (gr_members g))"
proof -
  have wf: "distinct (gr_members g)" "l < length (gr_members g)" "i < length (gr_members g)"
    "HP_invalid \<notin> set (gr_members g)"
    using assms by (auto simp: group_wf_def)
  then have "gr_members g ! i \<noteq> gr_members g ! l" "gr_members g ! i \<in> set (gr_members g)"
    using assms(3) by (auto simp: nth_eq_iff_index_eq)
  then show ?thesis
    using wf assms remove1_nth_after [OF wf(1,3), of l]
    by (auto simp: group_remove_def group_leader_def member_at_def length_remove1 group_wf_def
        dest: set_remove1_subset [THEN subsetD])
qed

theorem group_remove_shifts_leader_witness:
  "(\<exists>g. group_remove (HP_ipv4 ''a'' 1) sample_group = Inr (True, g) \<and>
      group_leader sample_group = Inr (HP_ipv4 ''c'' 1) \<and>
      group_leader g = Inl (Out_of_bounds ''_members'') \<and> \<not> group_wf g) \<and>
   (\<exists>g. group_remove (HP_ipv4 ''a'' 1) (sample_group\<lparr>gr_leader_index := 1\<rparr>) = Inr (True, g) \<and>
      group_leader (sample_group\<lparr>gr_leader_index := 1\<rparr>) = Inr (HP_ipv4 ''b'' 1) \<and>
      group_leader g = Inr (HP_ipv4 ''c'' 1))"
proof -
  have "group_wf sample_group" "group_wf (sample_group\<lparr>gr_leader_index := 1\<rparr>)"
    by (simp_all add: group_wf_def sample_group_def)
  then show ?thesis
    using group_remove_shifts_leader [of sample_group 2 0]
      group_remove_shifts_leader [of "sample_group\<lparr>gr_leader_index := 1\<rparr>" 1 0]
    by (auto simp: sample_group_def)
qed

end
