(* ===== verification/Failure_Detector.thy ===== *)
theory Failure_Detector
  imports Group_Host_Port "HOL-Library.AList"
begin

text \<open>
  The failure detector between replica servers (workers) and meta servers (masters)
  (\<^verbatim>\<open>src/src/failure_detector/failure_detector.cpp\<close>,
  \<^verbatim>\<open>failure_detector_multimaster.cpp\<close> and
  \<^verbatim>\<open>src/src/meta/meta_server_failure_detector.cpp\<close>). Time stamps are the unsigned 64-bit
  milliseconds of \<open>dsn_now_ms\<close> and periods are unsigned 32-bit milliseconds; both keep their
  width. A reading of the clock is an argument of the operation. The hash maps are
  association lists in iteration order.
\<close>

section \<open>State\<close>

type_synonym time_ms = "64 word"
type_synonym period_ms = "32 word"

text \<open>The periodic task that sends beacons to a master.\<close>

datatype beacon_timer = No_timer | Cancelled | Sending host_port period_ms period_ms

record master_record =
  mr_node :: host_port
  mr_last_send_time_for_beacon_with_ack :: time_ms
  mr_is_alive :: bool
  mr_rejected :: bool
  mr_send_beacon_timer :: beacon_timer

record worker_record =
  wr_node :: host_port
  wr_last_beacon_recv_time :: time_ms
  wr_is_alive :: bool

record failure_detector =
  fd_masters :: "(host_port \<times> master_record) list"
  fd_workers :: "(host_port \<times> worker_record) list"
  fd_check_interval_milliseconds :: period_ms
  fd_beacon_interval_milliseconds :: period_ms
  fd_beacon_timeout_milliseconds :: period_ms
  fd_lease_milliseconds :: period_ms
  fd_grace_milliseconds :: period_ms
  fd_is_started :: bool
  fd_use_allow_list :: bool
  fd_allow_list :: "host_port list"
  fd_beacon_failed_count :: nat

record beacon_msg =
  bm_time :: time_ms
  bm_from_node :: host_port
  bm_to_node :: host_port
  bm_start_time :: "int option"

record beacon_ack =
  ba_time :: time_ms
  ba_this_node :: host_port
  ba_primary_node :: host_port
  ba_is_master :: bool
  ba_allowed :: bool

definition master_record_init :: "host_port \<Rightarrow> time_ms \<Rightarrow> master_record" where
  "master_record_init n t = \<lparr>mr_node = n, mr_last_send_time_for_beacon_with_ack = t,
     mr_is_alive = False, mr_rejected = False, mr_send_beacon_timer = No_timer\<rparr>"

definition worker_record_init :: "host_port \<Rightarrow> time_ms \<Rightarrow> worker_record" where
  "worker_record_init n t = \<lparr>wr_node = n, wr_last_beacon_recv_time = t, wr_is_alive = True\<rparr>"

section \<open>Starting and registration\<close>

definition start_fd :: "period_ms \<Rightarrow> period_ms \<Rightarrow> period_ms \<Rightarrow> period_ms \<Rightarrow> bool \<Rightarrow> failure_detector
    \<Rightarrow> failure_detector" where
  "start_fd check_interval_seconds beacon_interval_seconds lease_seconds grace_seconds use_allow_list fd =
     (let beacon = beacon_interval_seconds * 1000
      in fd\<lparr>fd_check_interval_milliseconds := check_interval_seconds * 1000,
            fd_beacon_interval_milliseconds := beacon,
            fd_beacon_timeout_milliseconds := beacon * 2 div 3,
            fd_lease_milliseconds := lease_seconds * 1000,
            fd_grace_milliseconds := grace_seconds * 1000,
            fd_use_allow_list := use_allow_list, fd_is_started := True\<rparr>)"

definition stop_fd :: "failure_detector \<Rightarrow> failure_detector" where
  "stop_fd fd = (if \<not> fd_is_started fd then fd
                 else fd\<lparr>fd_is_started := False, fd_masters := [], fd_workers := []\<rparr>)"

definition register_master :: "time_ms \<Rightarrow> host_port \<Rightarrow> failure_detector \<Rightarrow> failure_detector" where
  "register_master now target fd =
     (let inserted = (map_of (fd_masters fd) target = None);
          rec = (case map_of (fd_masters fd) target of
                   None \<Rightarrow> master_record_init target now | Some rec \<Rightarrow> rec);
          setup_timer = (inserted \<or> mr_rejected rec);
          rec' = (if \<not> inserted \<and> mr_rejected rec then rec\<lparr>mr_rejected := False\<rparr> else rec);
          rec'' = (if setup_timer
                   then rec'\<lparr>mr_send_beacon_timer :=
                          Sending target (fd_beacon_interval_milliseconds fd) 1\<rparr>
                   else rec')
      in fd\<lparr>fd_masters := AList.update target rec'' (fd_masters fd)\<rparr>)"

text \<open>Cancelling dereferences the timer of the record.\<close>

definition cancel_timer :: "beacon_timer \<Rightarrow> beacon_timer result" where
  "cancel_timer t = (if t = No_timer then Inl (Out_of_bounds ''send_beacon_timer'') else Inr Cancelled)"

definition switch_master :: "host_port \<Rightarrow> host_port \<Rightarrow> period_ms \<Rightarrow> failure_detector
    \<Rightarrow> (bool \<times> failure_detector) result" where
  "switch_master from_node to_node delay_milliseconds fd =
     (case map_of (fd_masters fd) from_node of
        None \<Rightarrow> Inr (False, fd)
      | Some rec \<Rightarrow>
          if map_of (fd_masters fd) to_node \<noteq> None then Inr (False, fd)
          else bind_result (cancel_timer (mr_send_beacon_timer rec)) (\<lambda>_.
            let rec' = rec\<lparr>mr_node := to_node, mr_rejected := False,
                  mr_send_beacon_timer :=
                    Sending to_node (fd_beacon_interval_milliseconds fd) delay_milliseconds\<rparr>
            in Inr (True, fd\<lparr>fd_masters :=
                 AList.delete from_node (AList.update to_node rec' (fd_masters fd))\<rparr>)))"

definition unregister_master :: "host_port \<Rightarrow> failure_detector \<Rightarrow> (bool \<times> failure_detector) result" where
  "unregister_master node fd =
     (case map_of (fd_masters fd) node of
        Some rec \<Rightarrow> bind_result (cancel_timer (mr_send_beacon_timer rec)) (\<lambda>_.
          Inr (True, fd\<lparr>fd_masters := AList.delete node (fd_masters fd)\<rparr>))
      | None \<Rightarrow> Inr (False, fd))"

definition is_master_connected :: "host_port \<Rightarrow> failure_detector \<Rightarrow> bool" where
  "is_master_connected node fd =
     (case map_of (fd_masters fd) node of Some rec \<Rightarrow> mr_is_alive rec | None \<Rightarrow> False)"

definition register_worker :: "time_ms \<Rightarrow> host_port \<Rightarrow> bool \<Rightarrow> failure_detector \<Rightarrow> failure_detector" where
  "register_worker now target is_connected fd =
     (if map_of (fd_workers fd) target \<noteq> None then fd
      else fd\<lparr>fd_workers := AList.update target
                ((worker_record_init target now)\<lparr>wr_is_alive := is_connected\<rparr>) (fd_workers fd)\<rparr>)"

definition unregister_worker :: "host_port \<Rightarrow> failure_detector \<Rightarrow> bool \<times> failure_detector" where
  "unregister_worker node fd =
     (map_of (fd_workers fd) node \<noteq> None, fd\<lparr>fd_workers := AList.delete node (fd_workers fd)\<rparr>)"

definition clear_workers :: "failure_detector \<Rightarrow> failure_detector" where
  "clear_workers fd = fd\<lparr>fd_workers := []\<rparr>"

definition is_worker_connected :: "host_port \<Rightarrow> failure_detector \<Rightarrow> bool" where
  "is_worker_connected node fd =
     (case map_of (fd_workers fd) node of Some rec \<Rightarrow> wr_is_alive rec | None \<Rightarrow> False)"

definition add_allow_list :: "host_port \<Rightarrow> failure_detector \<Rightarrow> failure_detector" where
  "add_allow_list node fd = fd\<lparr>fd_allow_list := List.insert node (fd_allow_list fd)\<rparr>"

definition remove_from_allow_list :: "host_port \<Rightarrow> failure_detector \<Rightarrow> bool \<times> failure_detector" where
  "remove_from_allow_list node fd =
     (node \<in> set (fd_allow_list fd), fd\<lparr>fd_allow_list := removeAll node (fd_allow_list fd)\<rparr>)"

text \<open>Host names are resolved by the system: parsing is a parameter.\<close>

definition set_allow_list :: "(string \<Rightarrow> host_port) \<Rightarrow> string list \<Rightarrow> failure_detector
    \<Rightarrow> failure_detector result" where
  "set_allow_list from_string replica_hps fd =
     bind_result (check (\<not> fd_is_started fd) ''FD is already started'') (\<lambda>_.
       let nodes = map from_string replica_hps
       in Inr (if HP_invalid \<in> set nodes then fd else fold add_allow_list nodes fd))"

section \<open>Expiry\<close>

definition is_time_greater_than :: "time_ms \<Rightarrow> time_ms \<Rightarrow> bool" where
  "is_time_greater_than ts base \<longleftrightarrow> ts > base"

definition master_expires :: "time_ms \<Rightarrow> period_ms \<Rightarrow> period_ms \<Rightarrow> master_record \<Rightarrow> bool" where
  "master_expires now check_interval lease rec \<longleftrightarrow>
     mr_is_alive rec \<and>
     is_time_greater_than now (mr_last_send_time_for_beacon_with_ack rec) \<and>
     now + ucast check_interval - mr_last_send_time_for_beacon_with_ack rec > ucast lease"

definition worker_expires :: "time_ms \<Rightarrow> period_ms \<Rightarrow> worker_record \<Rightarrow> bool" where
  "worker_expires now grace rec \<longleftrightarrow>
     wr_is_alive rec \<and> is_time_greater_than now (wr_last_beacon_recv_time rec) \<and>
     now - wr_last_beacon_recv_time rec > ucast grace"

definition check_masters :: "time_ms \<Rightarrow> failure_detector \<Rightarrow> host_port list \<times> failure_detector" where
  "check_masters now fd =
     (let expires = master_expires now (fd_check_interval_milliseconds fd) (fd_lease_milliseconds fd)
      in (map (mr_node \<circ> snd) (filter (expires \<circ> snd) (fd_masters fd)),
          fd\<lparr>fd_masters := map (\<lambda>(k, rec). (k, if expires rec then rec\<lparr>mr_is_alive := False\<rparr> else rec))
               (fd_masters fd)\<rparr>))"

definition check_workers :: "time_ms \<Rightarrow> failure_detector \<Rightarrow> host_port list \<times> failure_detector" where
  "check_workers now fd =
     (let expires = worker_expires now (fd_grace_milliseconds fd)
      in (map (wr_node \<circ> snd) (filter (expires \<circ> snd) (fd_workers fd)),
          fd\<lparr>fd_workers := map (\<lambda>(k, rec). (k, if expires rec then rec\<lparr>wr_is_alive := False\<rparr> else rec))
               (fd_workers fd)\<rparr>))"

text \<open>
  \<open>check_all_records\<close> reads the clock once per map. It returns the nodes it passes to
  \<open>on_master_disconnected\<close> and to \<open>on_worker_disconnected\<close>.
\<close>

definition check_all_records :: "time_ms \<Rightarrow> time_ms \<Rightarrow> failure_detector
    \<Rightarrow> host_port list \<times> host_port list \<times> failure_detector" where
  "check_all_records now1 now2 fd =
     (if \<not> fd_is_started fd then ([], [], fd)
      else let (ms, fd1) = check_masters now1 fd; (ws, fd2) = check_workers now2 fd1
           in (ms, ws, fd2))"

section \<open>Beacons\<close>

definition send_beacon :: "host_port \<Rightarrow> int \<Rightarrow> host_port \<Rightarrow> time_ms \<Rightarrow> beacon_msg" where
  "send_beacon self process_start target t =
     \<lparr>bm_time = t, bm_from_node = self, bm_to_node = target, bm_start_time = Some process_start\<rparr>"

text \<open>What the reply callback of \<open>send_beacon\<close> passes to \<open>end_ping\<close> when the call failed.\<close>

definition failed_ack :: "beacon_msg \<Rightarrow> beacon_ack" where
  "failed_ack beacon = \<lparr>ba_time = bm_time beacon, ba_this_node = bm_to_node beacon,
     ba_primary_node = HP_invalid, ba_is_master = False, ba_allowed = True\<rparr>"

text \<open>The third result is the node passed to \<open>on_worker_connected\<close>, if any.\<close>

definition on_ping_internal :: "time_ms \<Rightarrow> host_port \<Rightarrow> beacon_msg \<Rightarrow> failure_detector
    \<Rightarrow> beacon_ack \<times> failure_detector \<times> host_port option" where
  "on_ping_internal now self beacon fd =
     (let node = bm_from_node beacon;
          ack = \<lparr>ba_time = bm_time beacon, ba_this_node = bm_to_node beacon, ba_primary_node = self,
                 ba_is_master = True, ba_allowed = True\<rparr>
      in case map_of (fd_workers fd) node of
           None \<Rightarrow>
             if fd_use_allow_list fd \<and> node \<notin> set (fd_allow_list fd)
             then (ack\<lparr>ba_allowed := False\<rparr>, fd, None)
             else (ack, fd\<lparr>fd_workers := AList.update node
                         ((worker_record_init node now)\<lparr>wr_is_alive := True\<rparr>) (fd_workers fd)\<rparr>,
                   Some node)
         | Some rec \<Rightarrow>
             if is_time_greater_than now (wr_last_beacon_recv_time rec)
             then (ack, fd\<lparr>fd_workers := AList.update node
                         (rec\<lparr>wr_last_beacon_recv_time := now, wr_is_alive := True\<rparr>) (fd_workers fd)\<rparr>,
                   if wr_is_alive rec then None else Some node)
             else (ack, fd, None))"

text \<open>
  \<open>end_ping_internal\<close> returns whether the acknowledgement was applicable, and the node
  passed to \<open>on_master_connected\<close>, if any.
\<close>

definition end_ping_internal :: "time_ms \<Rightarrow> error_code \<Rightarrow> beacon_ack \<Rightarrow> failure_detector
    \<Rightarrow> (bool \<times> failure_detector \<times> host_port option) result" where
  "end_ping_internal now err ack fd =
     (let fd = (if err \<noteq> ERR_OK then fd\<lparr>fd_beacon_failed_count := fd_beacon_failed_count fd + 1\<rparr> else fd);
          node = ba_this_node ack
      in case map_of (fd_masters fd) node of
           None \<Rightarrow> Inr (False, fd, None)
         | Some rec \<Rightarrow>
             if \<not> ba_allowed ack
             then bind_result (cancel_timer (mr_send_beacon_timer rec)) (\<lambda>t.
                    Inr (False, fd\<lparr>fd_masters := AList.update node
                           (rec\<lparr>mr_rejected := True, mr_send_beacon_timer := t\<rparr>) (fd_masters fd)\<rparr>, None))
             else if \<not> is_time_greater_than (ba_time ack) (mr_last_send_time_for_beacon_with_ack rec)
             then Inr (False, fd, None)
             else if err \<noteq> ERR_OK then Inr (True, fd, None)
             else if \<not> ba_is_master ack then Inr (True, fd, None)
             else let rec1 = rec\<lparr>mr_last_send_time_for_beacon_with_ack := ba_time ack,
                                 mr_rejected := False\<rparr>;
                      connect = (\<not> mr_is_alive rec1 \<and>
                        is_time_greater_than now (mr_last_send_time_for_beacon_with_ack rec1) \<and>
                        now - mr_last_send_time_for_beacon_with_ack rec1 \<le> ucast (fd_lease_milliseconds fd));
                      rec2 = (if connect then rec1\<lparr>mr_is_alive := True\<rparr> else rec1)
                  in Inr (True, fd\<lparr>fd_masters := AList.update node rec2 (fd_masters fd)\<rparr>,
                          if connect then Some node else None))"

end
