(* ===== verification/Failure_Detector_Roles.thy ===== *)
theory Failure_Detector_Roles
  imports Failure_Detector
begin

text \<open>
  The two users of the failure detector: a replica server that follows the leader among
  several meta servers (\<open>slave_failure_detector_with_multimaster\<close>), and a meta server
  (\<open>meta_server_failure_detector\<close>) with its bookkeeping of unstable replica servers.
\<close>

section \<open>Replica server\<close>

record slave_detector =
  sl_fd :: failure_detector
  sl_meta_servers :: rpc_group_host_port

definition slave_on_master_disconnected :: "host_port list \<Rightarrow> slave_detector \<Rightarrow> bool result" where
  "slave_on_master_disconnected nodes s =
     bind_result (group_leader (sl_meta_servers s)) (\<lambda>leader. Inr (leader \<in> set nodes))"

definition slave_on_master_connected :: "host_port \<Rightarrow> slave_detector \<Rightarrow> bool result" where
  "slave_on_master_connected node s =
     bind_result (group_leader (sl_meta_servers s)) (\<lambda>leader. Inr (leader = node))"

text \<open>
  A check of the records; the boolean tells whether the master-disconnected callback ran. A
  replica server has no workers: expiring one is a failed check.
\<close>

definition slave_check_all_records :: "time_ms \<Rightarrow> time_ms \<Rightarrow> slave_detector
    \<Rightarrow> (bool \<times> slave_detector) result" where
  "slave_check_all_records now1 now2 s =
     (case check_all_records now1 now2 (sl_fd s) of (ms, ws, fd) \<Rightarrow>
       bind_result (if ms \<noteq> [] then slave_on_master_disconnected ms s else Inr False) (\<lambda>called.
       bind_result (check (ws = []) ''invalid execution flow'') (\<lambda>_.
         Inr (called, s\<lparr>sl_fd := fd\<rparr>))))"

text \<open>Following another meta server after a failed or misdirected beacon.\<close>

definition follow_next :: "nat \<Rightarrow> host_port \<Rightarrow> slave_detector \<Rightarrow> slave_detector result" where
  "follow_next rnd node s =
     (let nxt = group_next rnd node (sl_meta_servers s)
      in if nxt \<noteq> node
         then bind_result (switch_master node nxt 1000 (sl_fd s)) (\<lambda>(_, fd).
                Inr (s\<lparr>sl_meta_servers := set_leader nxt (sl_meta_servers s), sl_fd := fd\<rparr>))
         else Inr s)"

definition slave_end_ping :: "time_ms \<Rightarrow> nat \<Rightarrow> error_code \<Rightarrow> beacon_ack \<Rightarrow> slave_detector
    \<Rightarrow> (bool \<times> slave_detector) result" where
  "slave_end_ping now rnd err ack s =
     bind_result (end_ping_internal now err ack (sl_fd s)) (\<lambda>(applicable, fd, connected).
       let s1 = s\<lparr>sl_fd := fd\<rparr>; node = ba_this_node ack
       in bind_result (case connected of None \<Rightarrow> Inr False
                        | Some n \<Rightarrow> slave_on_master_connected n s1) (\<lambda>called.
          if \<not> applicable then Inr (called, s1)
          else bind_result (group_leader (sl_meta_servers s1)) (\<lambda>leader.
            bind_result (check (node = leader) ''CHECK_EQ'') (\<lambda>_.
            bind_result
              (if err \<noteq> ERR_OK then follow_next rnd node s1
               else if ba_is_master ack then Inr s1
               else if ba_primary_node ack = HP_invalid then follow_next rnd node s1
               else bind_result (switch_master node (ba_primary_node ack) 0 (sl_fd s1)) (\<lambda>(_, fd).
                      Inr (s1\<lparr>sl_meta_servers := set_leader (ba_primary_node ack) (sl_meta_servers s1),
                              sl_fd := fd\<rparr>)))
              (\<lambda>s2. Inr (called, s2))))))"

text \<open>
  A replica server talks to exactly one meta server, the leader of its group, and has a
  timer for it.
\<close>

definition slave_follows :: "slave_detector \<Rightarrow> host_port \<Rightarrow> bool" where
  "slave_follows s leader \<longleftrightarrow>
     group_wf (sl_meta_servers s) \<and> group_leader (sl_meta_servers s) = Inr leader \<and>
     leader \<noteq> HP_invalid \<and> fd_workers (sl_fd s) = [] \<and>
     (\<exists>rec. fd_masters (sl_fd s) = [(leader, rec)] \<and> mr_node rec = leader \<and>
        mr_send_beacon_timer rec \<noteq> No_timer)"

lemma slave_follows_leader_member:
  assumes "slave_follows s leader"
  shows "leader \<in> set (gr_members (sl_meta_servers s))"
  using assms leader_total [of "sl_meta_servers s"] by (auto simp: slave_follows_def)

lemma switch_master_follows:
  assumes "slave_follows s leader" "nxt \<noteq> HP_invalid" "nxt \<noteq> leader"
  shows "\<exists>fd. switch_master leader nxt delay (sl_fd s) = Inr (True, fd) \<and>
    slave_follows (s\<lparr>sl_meta_servers := set_leader nxt (sl_meta_servers s), sl_fd := fd\<rparr>) nxt"
proof -
  from assms(1) obtain rec where rec: "fd_masters (sl_fd s) = [(leader, rec)]"
    "mr_send_beacon_timer rec \<noteq> No_timer" "group_wf (sl_meta_servers s)" "fd_workers (sl_fd s) = []"
    by (auto simp: slave_follows_def)
  with assms(2,3) show ?thesis
    by (simp add: slave_follows_def switch_master_def cancel_timer_def set_leader_wf leader_set_leader
        AList.delete_eq)
qed

lemma follow_next_follows:
  assumes "slave_follows s leader"
  shows "\<exists>s'. follow_next rnd leader s = Inr s' \<and>
    slave_follows s' (group_next rnd leader (sl_meta_servers s))"
proof (cases "group_next rnd leader (sl_meta_servers s) = leader")
  case True
  with assms show ?thesis by (simp add: follow_next_def)
next
  case False
  let ?n = "group_next rnd leader (sl_meta_servers s)"
  have "group_wf (sl_meta_servers s)" using assms by (simp add: slave_follows_def)
  with group_next_member [OF this slave_follows_leader_member [OF assms], of rnd]
  have "?n \<noteq> HP_invalid" by (auto simp: group_wf_def)
  from switch_master_follows [OF assms this False, of 1000] False show ?thesis
    by (auto simp: follow_next_def Let_def)
qed

lemma end_ping_internal_follows:
  assumes "slave_follows s leader"
  shows "\<exists>applicable fd connected. end_ping_internal now err ack (sl_fd s)
      = Inr (applicable, fd, connected) \<and> slave_follows (s\<lparr>sl_fd := fd\<rparr>) leader \<and>
    (applicable \<longrightarrow> ba_this_node ack = leader) \<and> connected \<in> {None, Some leader}"
proof -
  from assms obtain rec where rec: "fd_masters (sl_fd s) = [(leader, rec)]"
    "mr_send_beacon_timer rec \<noteq> No_timer" "mr_node rec = leader"
    by (auto simp: slave_follows_def)
  show ?thesis
    using assms rec
    by (cases "ba_this_node ack = leader")
      (auto simp: end_ping_internal_def slave_follows_def cancel_timer_def Let_def)
qed

text \<open>
  Handling the outcome of a beacon never fails a check on a replica server: it keeps
  talking to exactly one meta server, and that is the leader of its group. A failed beacon
  or an acknowledgement by a non-leader that knows no leader moves to the next meta server,
  one that names a leader moves to it, everything else stays.
\<close>

theorem slave_end_ping_follows:
  assumes "slave_follows s leader"
  shows "\<exists>called s' leader'. slave_end_ping now rnd err ack s = Inr (called, s') \<and>
    slave_follows s' leader' \<and>
    (leader' = leader \<or>
     leader' = group_next rnd leader (sl_meta_servers s) \<and> (err \<noteq> ERR_OK \<or> ba_primary_node ack = HP_invalid) \<or>
     leader' = ba_primary_node ack \<and> err = ERR_OK \<and> \<not> ba_is_master ack)"
proof -
  from end_ping_internal_follows [OF assms, of now err ack] obtain ap fd connected where
    e: "end_ping_internal now err ack (sl_fd s) = Inr (ap, fd, connected)"
      "slave_follows (s\<lparr>sl_fd := fd\<rparr>) leader" "ap \<longrightarrow> ba_this_node ack = leader"
      "connected \<in> {None, Some leader}" by blast
  let ?s = "s\<lparr>sl_fd := fd\<rparr>" and ?nxt = "group_next rnd leader (sl_meta_servers s)"
  have l: "group_leader (sl_meta_servers s) = Inr leader" using assms by (simp add: slave_follows_def)
  obtain called where called: "(case connected of None \<Rightarrow> Inr False
      | Some n \<Rightarrow> slave_on_master_connected n ?s) = (Inr called :: bool result)"
    using e(4) l by (cases connected) (auto simp: slave_on_master_connected_def)
  show ?thesis
  proof (cases ap)
    case False
    with e called show ?thesis by (auto simp: slave_end_ping_def)
  next
    case True
    have run: "slave_end_ping now rnd err ack s = bind_result
        (if err \<noteq> ERR_OK then follow_next rnd leader ?s
         else if ba_is_master ack then Inr ?s
         else if ba_primary_node ack = HP_invalid then follow_next rnd leader ?s
         else bind_result (switch_master leader (ba_primary_node ack) 0 fd) (\<lambda>(_, fd').
                Inr (?s\<lparr>sl_meta_servers := set_leader (ba_primary_node ack) (sl_meta_servers s),
                        sl_fd := fd'\<rparr>)))
        (\<lambda>s2. Inr (called, s2))"
      using e(1) called l True e(3) unfolding slave_end_ping_def by (simp cong: if_cong)
    from follow_next_follows [OF e(2), of rnd] obtain s' where
      s': "follow_next rnd leader ?s = Inr s'" "slave_follows s' ?nxt" by auto
    consider "err \<noteq> ERR_OK" | "err = ERR_OK" "ba_is_master ack"
      | "err = ERR_OK" "\<not> ba_is_master ack" "ba_primary_node ack = HP_invalid"
      | "err = ERR_OK" "\<not> ba_is_master ack" "ba_primary_node ack = leader" "leader \<noteq> HP_invalid"
      | "err = ERR_OK" "\<not> ba_is_master ack" "ba_primary_node ack \<noteq> leader"
        "ba_primary_node ack \<noteq> HP_invalid" by blast
    then show ?thesis
    proof cases
      case 4
      have "switch_master leader leader 0 fd = Inr (False, fd)"
        using e(2) by (auto simp: slave_follows_def switch_master_def)
      then have "slave_end_ping now rnd err ack s
          = Inr (called, ?s\<lparr>sl_meta_servers := set_leader leader (sl_meta_servers s)\<rparr>)"
        using 4 unfolding run by simp
      moreover have "slave_follows (?s\<lparr>sl_meta_servers := set_leader leader (sl_meta_servers s)\<rparr>) leader"
        using e(2) 4 by (auto simp: slave_follows_def set_leader_wf leader_set_leader)
      ultimately show ?thesis by blast
    next
      case 5
      from switch_master_follows [OF e(2) 5(4,3), of 0] obtain fd' where
        fd': "switch_master leader (ba_primary_node ack) 0 fd = Inr (True, fd')"
        "slave_follows (?s\<lparr>sl_meta_servers := set_leader (ba_primary_node ack) (sl_meta_servers s),
           sl_fd := fd'\<rparr>) (ba_primary_node ack)" by auto
      have "slave_end_ping now rnd err ack s = Inr (called,
          ?s\<lparr>sl_meta_servers := set_leader (ba_primary_node ack) (sl_meta_servers s), sl_fd := fd'\<rparr>)"
        using 5 fd'(1) unfolding run by simp
      with fd'(2) 5 show ?thesis by blast
    qed (use e(2) s' in \<open>unfold run; auto\<close>)+
  qed
qed

section \<open>Meta server\<close>

record worker_stability =
  ws_last_start_time_ms :: int
  ws_unstable_restart_count :: int

record meta_detector =
  md_fd :: failure_detector
  md_is_leader :: bool
  md_election_moment :: time_ms
  md_stability :: "(host_port \<times> worker_stability) list"

definition meta_is_worker_connected :: "time_ms \<Rightarrow> host_port \<Rightarrow> meta_detector \<Rightarrow> bool" where
  "meta_is_worker_connected now node md =
     (if md_election_moment md + ucast (fd_grace_milliseconds (md_fd md)) < now then True
      else is_worker_connected node (md_fd md))"

definition reset_stability_stat :: "host_port \<Rightarrow> meta_detector \<Rightarrow> meta_detector" where
  "reset_stability_stat node md =
     (case map_of (md_stability md) node of
        None \<Rightarrow> md
      | Some w \<Rightarrow> md\<lparr>md_stability :=
          AList.update node (w\<lparr>ws_unstable_restart_count := 0\<rparr>) (md_stability md)\<rparr>)"

definition leader_initialize :: "time_ms \<Rightarrow> host_port \<Rightarrow> host_port \<Rightarrow> meta_detector \<Rightarrow> meta_detector result" where
  "leader_initialize now self owner md =
     bind_result (check (owner \<noteq> HP_invalid) ''parse to host_port failed'') (\<lambda>_.
     bind_result (check (owner = self) ''acquire leader return success, but owner not match'') (\<lambda>_.
       Inr (md\<lparr>md_is_leader := True, md_election_moment := now\<rparr>)))"

text \<open>
  The new statistics of one replica server. The clock and the flag
  \<open>stable_rs_min_running_seconds\<close> are unsigned 64-bit numbers, so the differences are
  converted to unsigned before they are compared.
\<close>

definition next_stability :: "time_ms \<Rightarrow> time_ms \<Rightarrow> int \<Rightarrow> worker_stability \<Rightarrow> worker_stability" where
  "next_stability now min_running_seconds start_time w =
     (if start_time = ws_last_start_time_ms w
      then if now - word_of_int (ws_last_start_time_ms w) \<ge> min_running_seconds * 1000
              \<and> ws_unstable_restart_count w > 0
           then w\<lparr>ws_unstable_restart_count := 0\<rparr> else w
      else if start_time > ws_last_start_time_ms w
      then let w' = (if word_of_int (start_time - ws_last_start_time_ms w) < min_running_seconds * 1000
                     then w\<lparr>ws_unstable_restart_count := ws_unstable_restart_count w + 1\<rparr>
                     else if ws_unstable_restart_count w > 0 then w\<lparr>ws_unstable_restart_count := 0\<rparr>
                     else w)
           in w'\<lparr>ws_last_start_time_ms := start_time\<rparr>
      else w)"

definition update_stability_stat :: "time_ms \<Rightarrow> time_ms \<Rightarrow> int \<Rightarrow> host_port \<Rightarrow> int \<Rightarrow> meta_detector
    \<Rightarrow> bool \<times> meta_detector" where
  "update_stability_stat now min_running_seconds max_unstable node start_time md =
     (case map_of (md_stability md) node of
        None \<Rightarrow> (True, md\<lparr>md_stability := AList.update node
                   \<lparr>ws_last_start_time_ms = start_time, ws_unstable_restart_count = 0\<rparr> (md_stability md)\<rparr>)
      | Some w \<Rightarrow>
          let w' = next_stability now min_running_seconds start_time w
          in (ws_unstable_restart_count w' < max_unstable,
              md\<lparr>md_stability := AList.update node w' (md_stability md)\<rparr>))"

text \<open>
  \<open>get_leader\<close>: a leader answers for itself; another meta server asks the cache of the
  distributed lock service, whose answer is a parameter (\<open>None\<close> for an error).
\<close>

definition get_leader :: "host_port \<Rightarrow> host_port option \<Rightarrow> meta_detector \<Rightarrow> bool \<times> host_port" where
  "get_leader self cached_owner md =
     (if md_is_leader md then (True, self)
      else case cached_owner of
             None \<Rightarrow> (False, HP_invalid)
           | Some owner \<Rightarrow> if owner = HP_invalid then (False, HP_invalid) else (owner = self, owner))"

text \<open>\<open>on_ping\<close> answers with an acknowledgement, or stays silent towards an unstable server.\<close>

definition meta_on_ping :: "time_ms \<Rightarrow> time_ms \<Rightarrow> int \<Rightarrow> host_port \<Rightarrow> host_port option \<Rightarrow> beacon_msg
    \<Rightarrow> meta_detector \<Rightarrow> beacon_ack option \<times> meta_detector \<times> host_port option" where
  "meta_on_ping now min_running_seconds max_unstable self cached_owner beacon md =
     (let (stable, md1) =
            (case bm_start_time beacon of
               None \<Rightarrow> (True, md)
             | Some t \<Rightarrow> update_stability_stat now min_running_seconds max_unstable
                           (bm_from_node beacon) t md)
      in if \<not> stable then (None, md1, None)
         else let (is_master, leader) = get_leader self cached_owner md1
              in if \<not> is_master
                 then (Some \<lparr>ba_time = bm_time beacon, ba_this_node = bm_to_node beacon,
                             ba_primary_node = leader, ba_is_master = False, ba_allowed = True\<rparr>,
                       md1, None)
                 else let (ack, fd, connected) = on_ping_internal now self beacon (md_fd md1)
                      in (Some ack, md1\<lparr>md_fd := fd\<rparr>, connected))"

text \<open>
  C38.
  The override \<open>is_worker_connected\<close> of a meta server is meant to treat unknown replica
  servers as alive during the first grace period after its election. The comparison is
  inverted: after the grace period every node counts as connected, even one whose record
  has been declared dead, and within it an unknown node counts as disconnected.
\<close>

theorem meta_is_worker_connected_inverted:
  fixes e now :: time_ms and g :: period_ms
  assumes "md_election_moment md = e" "fd_grace_milliseconds (md_fd md) = g"
    "unat e + unat g < 2 ^ 64"
  shows "(unat now > unat e + unat g \<longrightarrow> meta_is_worker_connected now node md) \<and>
    (unat now \<le> unat e + unat g \<longrightarrow>
       map_of (fd_workers (md_fd md)) node = None \<longrightarrow> \<not> meta_is_worker_connected now node md)"
proof -
  have "unat (e + ucast g) = unat e + unat g"
    using assms(3) by (subst unat_add_lem [THEN iffD1]) (simp_all add: unat_widen)
  then show ?thesis
    using assms(1,2) by (simp add: meta_is_worker_connected_def is_worker_connected_def word_less_nat_alt)
qed

definition sample_detector :: failure_detector where
  "sample_detector = \<lparr>fd_masters = [], fd_workers = [], fd_check_interval_milliseconds = 2000,
     fd_beacon_interval_milliseconds = 3000, fd_beacon_timeout_milliseconds = 2000,
     fd_lease_milliseconds = 9000, fd_grace_milliseconds = 10000, fd_is_started = True,
     fd_use_allow_list = False, fd_allow_list = [], fd_beacon_failed_count = 0\<rparr>"

definition sample_slave :: slave_detector where
  "sample_slave = \<lparr>sl_fd = register_master 100 (HP_ipv4 ''c'' 1) sample_detector,
     sl_meta_servers = sample_group\<rparr>"

theorem slave_end_ping_follows_witness:
  "slave_follows sample_slave (HP_ipv4 ''c'' 1) \<and>
   (\<exists>called s' leader'. slave_end_ping 200 0 ERR_TIMEOUT
        (failed_ack (send_beacon (HP_ipv4 ''r'' 1) 0 (HP_ipv4 ''c'' 1) 150)) sample_slave
        = Inr (called, s') \<and> slave_follows s' leader' \<and>
      leader' \<in> {HP_ipv4 ''c'' 1, HP_ipv4 ''a'' 1})"
proof -
  let ?ack = "failed_ack (send_beacon (HP_ipv4 ''r'' 1) 0 (HP_ipv4 ''c'' 1) 150)"
  have f: "slave_follows sample_slave (HP_ipv4 ''c'' 1)"
    by (simp add: slave_follows_def sample_slave_def sample_group_def sample_detector_def
        register_master_def master_record_init_def group_wf_def group_leader_def member_at_def Let_def)
  have "group_next 0 (HP_ipv4 ''c'' 1) (sl_meta_servers sample_slave) = HP_ipv4 ''a'' 1"
    by (simp add: sample_slave_def sample_group_def group_next_def)
  with f slave_end_ping_follows [OF f, of 200 0 ERR_TIMEOUT ?ack] show ?thesis by auto
qed

theorem meta_is_worker_connected_inverted_witness:
  "\<exists>md. \<not> is_worker_connected (HP_ipv4 ''r'' 1) (md_fd md) \<and>
     meta_is_worker_connected 20000 (HP_ipv4 ''r'' 1) md \<and>
     \<not> meta_is_worker_connected 5000 (HP_ipv4 ''r'' 1) md"
proof -
  let ?md = "\<lparr>md_fd = sample_detector, md_is_leader = True, md_election_moment = 1000, md_stability = []\<rparr>"
  have "\<not> is_worker_connected (HP_ipv4 ''r'' 1) (md_fd ?md)"
    by (simp add: is_worker_connected_def sample_detector_def)
  moreover have "meta_is_worker_connected 20000 (HP_ipv4 ''r'' 1) ?md \<and>
     \<not> meta_is_worker_connected 5000 (HP_ipv4 ''r'' 1) ?md"
    using meta_is_worker_connected_inverted [of ?md 1000 10000 20000 "HP_ipv4 ''r'' 1"]
      meta_is_worker_connected_inverted [of ?md 1000 10000 5000 "HP_ipv4 ''r'' 1"]
    by (simp add: sample_detector_def)
  ultimately show ?thesis by blast
qed

end
