(* ===== verification/Perfect_Detector.thy ===== *)
theory Perfect_Detector
  imports Failure_Detector
begin

text \<open>
  The safety of failure detection between one replica server and one meta server. The
  system composes the two detectors with a network that may lose, duplicate and reorder
  beacons and acknowledgements. Both clocks run at the same rate but may differ by a fixed
  offset. The only promises used of the environment are that the check timer of the replica
  server fires within every check interval and that the reply of a call is not delivered
  after its timeout.
\<close>

section \<open>System\<close>

record detector_pair =
  dp_worker :: host_port
  dp_master :: host_port
  dp_skew :: nat
  dp_process_start :: int
  dp_check_seconds :: period_ms
  dp_beacon_seconds :: period_ms
  dp_lease_seconds :: period_ms
  dp_grace_seconds :: period_ms

record fd_system =
  fs_now :: nat
  fs_last_check :: nat
  fs_worker :: failure_detector
  fs_master :: failure_detector
  fs_beacons :: "beacon_msg set"
  fs_acks :: "beacon_ack set"

definition blank_detector :: failure_detector where
  "blank_detector = \<lparr>fd_masters = [], fd_workers = [], fd_check_interval_milliseconds = 0,
     fd_beacon_interval_milliseconds = 0, fd_beacon_timeout_milliseconds = 0,
     fd_lease_milliseconds = 0, fd_grace_milliseconds = 0, fd_is_started = False,
     fd_use_allow_list = False, fd_allow_list = [], fd_beacon_failed_count = 0\<rparr>"

definition start_pair :: "detector_pair \<Rightarrow> bool \<Rightarrow> failure_detector" where
  "start_pair c use_allow_list = start_fd (dp_check_seconds c) (dp_beacon_seconds c) (dp_lease_seconds c)
     (dp_grace_seconds c) use_allow_list blank_detector"

definition fd_initial :: "detector_pair \<Rightarrow> fd_system \<Rightarrow> bool" where
  "fd_initial c s \<longleftrightarrow>
     (\<exists>use allowed. fs_worker s = register_master (of_nat (fs_now s)) (dp_master c) (start_pair c False) \<and>
       fs_master s = fold add_allow_list allowed (start_pair c use)) \<and>
     fs_last_check s = fs_now s \<and> fs_beacons s = {} \<and> fs_acks s = {} \<and>
     fs_now s + dp_skew c + 2 ^ 32 < 2 ^ 64"

abbreviation (input) worker_clock :: "fd_system \<Rightarrow> time_ms" where
  "worker_clock s \<equiv> of_nat (fs_now s)"

abbreviation (input) master_clock :: "detector_pair \<Rightarrow> fd_system \<Rightarrow> time_ms" where
  "master_clock c s \<equiv> of_nat (fs_now s + dp_skew c)"

inductive fd_step :: "detector_pair \<Rightarrow> fd_system \<Rightarrow> fd_system \<Rightarrow> bool" for c where
  Tick: "\<lbrakk>fs_now s \<le> t; t \<le> fs_last_check s + unat (fd_check_interval_milliseconds (fs_worker s));
      t + dp_skew c + 2 ^ 32 < 2 ^ 64\<rbrakk>
    \<Longrightarrow> fd_step c s (s\<lparr>fs_now := t\<rparr>)"
| Worker_check: "check_all_records (worker_clock s) (worker_clock s) (fs_worker s) = (ms, ws, fd)
    \<Longrightarrow> fd_step c s (s\<lparr>fs_worker := fd, fs_last_check := fs_now s\<rparr>)"
| Master_check: "check_all_records (master_clock c s) (master_clock c s) (fs_master s) = (ms, ws, fd)
    \<Longrightarrow> fd_step c s (s\<lparr>fs_master := fd\<rparr>)"
| Send: "b = send_beacon (dp_worker c) (dp_process_start c) (dp_master c) (worker_clock s)
    \<Longrightarrow> fd_step c s (s\<lparr>fs_beacons := insert b (fs_beacons s)\<rparr>)"
| Deliver_beacon: "\<lbrakk>b \<in> fs_beacons s;
      on_ping_internal (master_clock c s) (dp_master c) b (fs_master s) = (ack, fd, connected)\<rbrakk>
    \<Longrightarrow> fd_step c s (s\<lparr>fs_master := fd, fs_acks := insert ack (fs_acks s)\<rparr>)"
| Deliver_ack: "\<lbrakk>ack \<in> fs_acks s;
      fs_now s \<le> unat (ba_time ack) + unat (fd_beacon_timeout_milliseconds (fs_worker s));
      end_ping_internal (worker_clock s) ERR_OK ack (fs_worker s) = Inr (applicable, fd, connected)\<rbrakk>
    \<Longrightarrow> fd_step c s (s\<lparr>fs_worker := fd\<rparr>)"
| Ping_failed: "\<lbrakk>b \<in> fs_beacons s; err \<noteq> ERR_OK;
      end_ping_internal (worker_clock s) err (failed_ack b) (fs_worker s) = Inr (applicable, fd, connected)\<rbrakk>
    \<Longrightarrow> fd_step c s (s\<lparr>fs_worker := fd\<rparr>)"

text \<open>
  The configured periods: a beacon call and one check interval fit into the lease, and the
  lease is not longer than the grace period.
\<close>

definition periods_ok :: "detector_pair \<Rightarrow> bool" where
  "periods_ok c \<longleftrightarrow>
     (let fd = start_pair c False
      in unat (fd_beacon_timeout_milliseconds fd) + unat (fd_check_interval_milliseconds fd)
           \<le> unat (fd_lease_milliseconds fd) \<and>
         unat (fd_lease_milliseconds fd) \<le> unat (fd_grace_milliseconds fd))"

section \<open>Expiry without wrap-around\<close>

lemma unat_clock: "n < 2 ^ 64 \<Longrightarrow> unat (of_nat n :: time_ms) = n"
  by (simp add: unsigned_of_nat take_bit_nat_eq_self)

lemma unat_add_period:
  fixes t :: time_ms and p :: period_ms
  assumes "unat t + 2 ^ 32 < 2 ^ 64"
  shows "unat (t + ucast p) = unat t + unat p"
proof -
  have "unat p < 2 ^ 32" using unsigned_less [of p] by simp
  with assms show ?thesis by (subst unat_add_lem [THEN iffD1]) (simp_all add: unat_widen)
qed

lemma master_expires_iff:
  assumes "unat now + 2 ^ 32 < 2 ^ 64"
  shows "master_expires now ci lease rec \<longleftrightarrow> mr_is_alive rec \<and>
    unat (mr_last_send_time_for_beacon_with_ack rec) < unat now \<and>
    unat now + unat ci > unat (mr_last_send_time_for_beacon_with_ack rec) + unat lease"
proof -
  let ?l = "mr_last_send_time_for_beacon_with_ack rec"
  have "unat (now + ucast ci - ?l) = unat now + unat ci - unat ?l" if "unat ?l < unat now"
    using that unat_add_period [OF assms, of ci]
    by (simp add: unat_sub word_le_nat_alt)
  then show ?thesis
    by (auto simp: master_expires_def is_time_greater_than_def word_less_nat_alt unat_widen)
qed

lemma worker_expires_iff:
  "worker_expires now grace rec \<longleftrightarrow> wr_is_alive rec \<and>
    unat (wr_last_beacon_recv_time rec) + unat grace < unat now"
proof -
  let ?l = "wr_last_beacon_recv_time rec"
  have "unat (now - ?l) = unat now - unat ?l" if "unat ?l < unat now"
    using that by (simp add: unat_sub word_le_nat_alt)
  then show ?thesis
    by (auto simp: worker_expires_def is_time_greater_than_def word_less_nat_alt unat_widen)
qed

section \<open>The handlers\<close>

definition same_periods :: "failure_detector \<Rightarrow> failure_detector \<Rightarrow> bool" where
  "same_periods fd fd' \<longleftrightarrow>
     fd_check_interval_milliseconds fd' = fd_check_interval_milliseconds fd \<and>
     fd_beacon_timeout_milliseconds fd' = fd_beacon_timeout_milliseconds fd \<and>
     fd_lease_milliseconds fd' = fd_lease_milliseconds fd \<and>
     fd_grace_milliseconds fd' = fd_grace_milliseconds fd \<and> fd_is_started fd' = fd_is_started fd"

lemma same_periods_refl [simp]: "same_periods fd fd"
  by (simp add: same_periods_def)

lemma same_periods_trans [trans]: "same_periods a b \<Longrightarrow> same_periods b d \<Longrightarrow> same_periods a d"
  by (simp add: same_periods_def)

lemma map_of_map_snd: "map_of (map (\<lambda>(k, r). (k, f r)) xs) k = map_option f (map_of xs k)"
  by (induction xs) auto

lemma check_all_records_spec:
  assumes "check_all_records t1 t2 fd = (ms, ws, fd')" "fd_is_started fd"
  shows "same_periods fd fd'"
    "map_of (fd_masters fd') k = map_option (\<lambda>rec.
       if master_expires t1 (fd_check_interval_milliseconds fd) (fd_lease_milliseconds fd) rec
       then rec\<lparr>mr_is_alive := False\<rparr> else rec) (map_of (fd_masters fd) k)"
    "map_of (fd_workers fd') k = map_option (\<lambda>rec.
       if worker_expires t2 (fd_grace_milliseconds fd) rec
       then rec\<lparr>wr_is_alive := False\<rparr> else rec) (map_of (fd_workers fd) k)"
  using assms
  by (auto simp: check_all_records_def check_masters_def check_workers_def same_periods_def
      map_of_map_snd Let_def split: prod.splits)

lemma on_ping_internal_spec:
  assumes "on_ping_internal t self b fd = (ack, fd', connected)"
  shows "same_periods fd fd'" "ba_this_node ack = bm_to_node b" "ba_time ack = bm_time b"
    "ba_allowed ack \<Longrightarrow> \<exists>w. map_of (fd_workers fd') (bm_from_node b) = Some w \<and> t \<le> wr_last_beacon_recv_time w"
    "map_of (fd_workers fd) k = Some w \<Longrightarrow>
       \<exists>w'. map_of (fd_workers fd') k = Some w' \<and> wr_last_beacon_recv_time w \<le> wr_last_beacon_recv_time w'"
    "map_of (fd_workers fd') k = Some w' \<Longrightarrow>
       map_of (fd_workers fd) k = Some w' \<or> wr_last_beacon_recv_time w' = t \<and> wr_is_alive w'"
  using assms
  by (auto simp: on_ping_internal_def same_periods_def update_conv' worker_record_init_def
      is_time_greater_than_def Let_def split: option.splits if_splits)

lemma end_ping_internal_spec:
  assumes "end_ping_internal t err ack fd = Inr (applicable, fd', connected)"
    "map_of (fd_masters fd) k = Some rec"
  shows "same_periods fd fd'"
    "\<exists>rec'. map_of (fd_masters fd') k = Some rec' \<and>
       (mr_last_send_time_for_beacon_with_ack rec' = mr_last_send_time_for_beacon_with_ack rec \<and>
        mr_is_alive rec' = mr_is_alive rec \<or>
        k = ba_this_node ack \<and> err = ERR_OK \<and> ba_allowed ack \<and>
        mr_last_send_time_for_beacon_with_ack rec' = ba_time ack)"
  using assms
  by (auto simp: end_ping_internal_def same_periods_def update_conv' result_simps
      Let_def split: option.splits if_splits)

section \<open>Invariant\<close>

definition timing_inv :: "detector_pair \<Rightarrow> fd_system \<Rightarrow> bool" where
  "timing_inv c s \<longleftrightarrow>
     same_periods (start_pair c False) (fs_worker s) \<and> same_periods (start_pair c False) (fs_master s) \<and>
     fs_now s + dp_skew c + 2 ^ 32 < 2 ^ 64 \<and> fs_last_check s \<le> fs_now s \<and>
     fs_now s \<le> fs_last_check s + unat (fd_check_interval_milliseconds (fs_worker s)) \<and>
     (\<forall>b \<in> fs_beacons s. bm_from_node b = dp_worker c \<and> bm_to_node b = dp_master c \<and>
        unat (bm_time b) \<le> fs_now s)"

definition master_inv :: "detector_pair \<Rightarrow> fd_system \<Rightarrow> bool" where
  "master_inv c s \<longleftrightarrow>
     (\<forall>w. map_of (fd_workers (fs_master s)) (dp_worker c) = Some w \<longrightarrow>
        unat (wr_last_beacon_recv_time w) \<le> fs_now s + dp_skew c \<and>
        (\<not> wr_is_alive w \<longrightarrow> unat (wr_last_beacon_recv_time w) +
           unat (fd_grace_milliseconds (fs_master s)) < fs_now s + dp_skew c)) \<and>
     (\<forall>a \<in> fs_acks s. ba_this_node a = dp_master c \<and> unat (ba_time a) \<le> fs_now s \<and>
        (ba_allowed a \<longrightarrow> (\<exists>w. map_of (fd_workers (fs_master s)) (dp_worker c) = Some w \<and>
           unat (ba_time a) + dp_skew c \<le> unat (wr_last_beacon_recv_time w))))"

text \<open>The replica server trusts its meta server only while its lease covers the next check.\<close>

definition worker_inv :: "detector_pair \<Rightarrow> fd_system \<Rightarrow> bool" where
  "worker_inv c s \<longleftrightarrow>
     (\<exists>rec. map_of (fd_masters (fs_worker s)) (dp_master c) = Some rec \<and>
       (let last = unat (mr_last_send_time_for_beacon_with_ack rec)
        in last \<le> fs_now s \<and>
           (mr_is_alive rec \<longrightarrow>
              fs_last_check s + unat (fd_check_interval_milliseconds (fs_worker s))
                \<le> last + unat (fd_lease_milliseconds (fs_worker s)) \<and>
              (\<exists>w. map_of (fd_workers (fs_master s)) (dp_worker c) = Some w \<and>
                 last + dp_skew c \<le> unat (wr_last_beacon_recv_time w)))))"

definition pair_inv :: "detector_pair \<Rightarrow> fd_system \<Rightarrow> bool" where
  "pair_inv c s \<longleftrightarrow> timing_inv c s \<and> master_inv c s \<and> worker_inv c s"

lemma fold_add_allow_list:
  "same_periods fd (fold add_allow_list xs fd) \<and> fd_workers (fold add_allow_list xs fd) = fd_workers fd"
  by (induction xs arbitrary: fd) (auto simp: add_allow_list_def same_periods_def)

lemma start_pair_facts [simp]:
  "fd_workers (start_pair c u) = []" "fd_masters (start_pair c u) = []"
  "same_periods (start_pair c False) (start_pair c u)" "fd_is_started (start_pair c u)"
  by (simp_all add: start_pair_def start_fd_def blank_detector_def same_periods_def Let_def)

lemma pair_inv_initial:
  assumes "fd_initial c s"
  shows "pair_inv c s"
proof -
  from assms obtain u al where
    w: "fs_worker s = register_master (worker_clock s) (dp_master c) (start_pair c False)" and
    m: "fs_master s = fold add_allow_list al (start_pair c u)" and
    r: "fs_last_check s = fs_now s" "fs_beacons s = {}" "fs_acks s = {}"
       "fs_now s + dp_skew c + 2 ^ 32 < 2 ^ 64"
    by (auto simp: fd_initial_def)
  have "same_periods (start_pair c False) (fs_worker s)"
    by (simp add: w register_master_def same_periods_def Let_def)
  moreover have "same_periods (start_pair c False) (fs_master s)" "fd_workers (fs_master s) = []"
    using fold_add_allow_list [of "start_pair c u" al]
      same_periods_trans [OF start_pair_facts(3) [of c u], of "fs_master s"] m by auto
  moreover have "map_of (fd_masters (fs_worker s)) (dp_master c) = Some
      ((master_record_init (dp_master c) (worker_clock s))\<lparr>mr_send_beacon_timer :=
         Sending (dp_master c) (fd_beacon_interval_milliseconds (start_pair c False)) 1\<rparr>)"
    by (simp add: w register_master_def Let_def update_conv' master_record_init_def)
  ultimately show ?thesis
    using r unat_clock [of "fs_now s"]
    by (simp add: pair_inv_def timing_inv_def master_inv_def worker_inv_def master_record_init_def)
qed

lemma pair_inv_tick:
  assumes "pair_inv c s" "fs_now s \<le> t"
    "t \<le> fs_last_check s + unat (fd_check_interval_milliseconds (fs_worker s))"
    "t + dp_skew c + 2 ^ 32 < 2 ^ 64"
  shows "pair_inv c (s\<lparr>fs_now := t\<rparr>)"
proof -
  have "timing_inv c (s\<lparr>fs_now := t\<rparr>)"
    using assms by (force simp: pair_inv_def timing_inv_def)
  moreover have "master_inv c (s\<lparr>fs_now := t\<rparr>)"
    using assms(1,2) by (fastforce simp: pair_inv_def master_inv_def)
  moreover have "worker_inv c (s\<lparr>fs_now := t\<rparr>)"
    using assms(1,2) by (auto simp: pair_inv_def worker_inv_def Let_def)
  ultimately show ?thesis by (simp add: pair_inv_def)
qed

lemma pair_inv_worker_check:
  assumes inv: "pair_inv c s" and ok: "periods_ok c"
    and run: "check_all_records (worker_clock s) (worker_clock s) (fs_worker s) = (ms, ws, fd)"
  shows "pair_inv c (s\<lparr>fs_worker := fd, fs_last_check := fs_now s\<rparr>)"
proof -
  from inv have t: "timing_inv c s" and m: "master_inv c s" and w: "worker_inv c s"
    by (simp_all add: pair_inv_def)
  from t have started: "fd_is_started (fs_worker s)" and now: "fs_now s + 2 ^ 32 < 2 ^ 64"
    and per: "same_periods (start_pair c False) (fs_worker s)"
    by (auto simp: timing_inv_def same_periods_def)
  note sp = check_all_records_spec [OF run started]
  have clk: "unat (worker_clock s) = fs_now s" using now by (intro unat_clock) simp
  have ci: "unat (fd_check_interval_milliseconds (fs_worker s)) \<le> unat (fd_lease_milliseconds (fs_worker s))"
    using ok per by (auto simp: periods_ok_def Let_def same_periods_def)
  from w obtain rec where rec: "map_of (fd_masters (fs_worker s)) (dp_master c) = Some rec"
    "unat (mr_last_send_time_for_beacon_with_ack rec) \<le> fs_now s"
    "mr_is_alive rec \<Longrightarrow> (\<exists>w. map_of (fd_workers (fs_master s)) (dp_worker c) = Some w \<and>
       unat (mr_last_send_time_for_beacon_with_ack rec) + dp_skew c \<le> unat (wr_last_beacon_recv_time w))"
    by (auto simp: worker_inv_def Let_def)
  let ?ex = "master_expires (worker_clock s) (fd_check_interval_milliseconds (fs_worker s))
    (fd_lease_milliseconds (fs_worker s)) rec"
  have "worker_inv c (s\<lparr>fs_worker := fd, fs_last_check := fs_now s\<rparr>)"
    using sp(1) sp(2) [of "dp_master c"] rec ci clk now master_expires_iff [of "worker_clock s"
        "fd_check_interval_milliseconds (fs_worker s)" "fd_lease_milliseconds (fs_worker s)" rec]
    by (cases ?ex) (auto simp: worker_inv_def Let_def same_periods_def not_less)
  moreover have "timing_inv c (s\<lparr>fs_worker := fd, fs_last_check := fs_now s\<rparr>)"
    using t same_periods_trans [OF per sp(1)] by (simp add: timing_inv_def)
  moreover have "master_inv c (s\<lparr>fs_worker := fd, fs_last_check := fs_now s\<rparr>)"
    using m by (simp add: master_inv_def)
  ultimately show ?thesis by (simp add: pair_inv_def)
qed

lemma pair_inv_master_check:
  assumes inv: "pair_inv c s"
    and run: "check_all_records (master_clock c s) (master_clock c s) (fs_master s) = (ms, ws, fd)"
  shows "pair_inv c (s\<lparr>fs_master := fd\<rparr>)"
proof -
  from inv have t: "timing_inv c s" and m: "master_inv c s" and w: "worker_inv c s"
    by (simp_all add: pair_inv_def)
  from t have started: "fd_is_started (fs_master s)" and now: "fs_now s + dp_skew c + 2 ^ 32 < 2 ^ 64"
    and per: "same_periods (start_pair c False) (fs_master s)"
    by (auto simp: timing_inv_def same_periods_def)
  note sp = check_all_records_spec [OF run started]
  have clk: "unat (master_clock c s) = fs_now s + dp_skew c" using now by (intro unat_clock) simp
  have kept: "\<exists>w'. map_of (fd_workers fd) (dp_worker c) = Some w' \<and> n \<le> unat (wr_last_beacon_recv_time w')"
    if "\<exists>w. map_of (fd_workers (fs_master s)) (dp_worker c) = Some w \<and> n \<le> unat (wr_last_beacon_recv_time w)" for n
  proof -
    from that obtain w where w: "map_of (fd_workers (fs_master s)) (dp_worker c) = Some w"
      "n \<le> unat (wr_last_beacon_recv_time w)" by blast
    with sp(3) [of "dp_worker c"] obtain w' where "map_of (fd_workers fd) (dp_worker c) = Some w'"
      "wr_last_beacon_recv_time w' = wr_last_beacon_recv_time w"
      by (cases "worker_expires (master_clock c s) (fd_grace_milliseconds (fs_master s)) w") simp_all
    with w(2) show ?thesis by simp
  qed
  have "master_inv c (s\<lparr>fs_master := fd\<rparr>)"
    using m sp(1) sp(3) [of "dp_worker c"] clk worker_expires_iff [of "master_clock c s"]
    by (cases "map_of (fd_workers (fs_master s)) (dp_worker c)")
      (auto simp: master_inv_def same_periods_def split: if_splits)
  moreover have "timing_inv c (s\<lparr>fs_master := fd\<rparr>)"
    using t same_periods_trans [OF per sp(1)] by (simp add: timing_inv_def)
  moreover have "worker_inv c (s\<lparr>fs_master := fd\<rparr>)"
    using w kept by (fastforce simp: worker_inv_def Let_def)
  ultimately show ?thesis by (simp add: pair_inv_def)
qed

lemma pair_inv_deliver_beacon:
  assumes inv: "pair_inv c s" and b: "b \<in> fs_beacons s"
    and run: "on_ping_internal (master_clock c s) (dp_master c) b (fs_master s) = (ack, fd, connected)"
  shows "pair_inv c (s\<lparr>fs_master := fd, fs_acks := insert ack (fs_acks s)\<rparr>)"
proof -
  let ?s = "s\<lparr>fs_master := fd, fs_acks := insert ack (fs_acks s)\<rparr>"
  from inv have t: "timing_inv c s" and m: "master_inv c s" and w: "worker_inv c s"
    by (simp_all add: pair_inv_def)
  from t b have now: "fs_now s + dp_skew c + 2 ^ 32 < 2 ^ 64"
    and per: "same_periods (start_pair c False) (fs_master s)"
    and bm: "bm_from_node b = dp_worker c" "bm_to_node b = dp_master c" "unat (bm_time b) \<le> fs_now s"
    by (auto simp: timing_inv_def)
  note sp = on_ping_internal_spec [OF run]
  have clk: "unat (master_clock c s) = fs_now s + dp_skew c" using now by (intro unat_clock) simp
  have grow: "\<exists>w'. map_of (fd_workers fd) (dp_worker c) = Some w' \<and> n \<le> unat (wr_last_beacon_recv_time w')"
    if "\<exists>w. map_of (fd_workers (fs_master s)) (dp_worker c) = Some w \<and> n \<le> unat (wr_last_beacon_recv_time w)" for n
    using that sp(5) [of "dp_worker c"] by (force simp: word_le_nat_alt)
  have new: "ba_allowed ack \<Longrightarrow> \<exists>w. map_of (fd_workers fd) (dp_worker c) = Some w \<and>
      unat (ba_time ack) + dp_skew c \<le> unat (wr_last_beacon_recv_time w)"
    using sp(3,4) bm clk by (force simp: word_le_nat_alt)
  have recs: "unat (wr_last_beacon_recv_time w) \<le> fs_now s + dp_skew c \<and>
      (\<not> wr_is_alive w \<longrightarrow> unat (wr_last_beacon_recv_time w) +
         unat (fd_grace_milliseconds fd) < fs_now s + dp_skew c)"
    if "map_of (fd_workers fd) (dp_worker c) = Some w" for w
    using sp(6) [OF that] m sp(1) clk by (auto simp: master_inv_def same_periods_def)
  have "ba_this_node a = dp_master c \<and> unat (ba_time a) \<le> fs_now s \<and>
      (ba_allowed a \<longrightarrow> (\<exists>w. map_of (fd_workers fd) (dp_worker c) = Some w \<and>
         unat (ba_time a) + dp_skew c \<le> unat (wr_last_beacon_recv_time w)))"
    if "a \<in> insert ack (fs_acks s)" for a
  proof (cases "a = ack")
    case True
    with new sp(2,3) bm show ?thesis by simp
  next
    case False
    with that m grow [of "unat (ba_time a) + dp_skew c"] show ?thesis by (auto simp: master_inv_def)
  qed
  with recs have "master_inv c ?s" by (simp add: master_inv_def)
  moreover have "timing_inv c ?s"
    using t same_periods_trans [OF per sp(1)] by (simp add: timing_inv_def)
  moreover have "worker_inv c ?s"
    using w grow by (fastforce simp: worker_inv_def Let_def)
  ultimately show ?thesis by (simp add: pair_inv_def)
qed

lemma pair_inv_end_ping:
  assumes inv: "pair_inv c s" and ok: "periods_ok c"
    and run: "end_ping_internal (worker_clock s) err ack (fs_worker s) = Inr (applicable, fd, connected)"
    and ack: "err = ERR_OK \<Longrightarrow> ack \<in> fs_acks s \<and>
      fs_now s \<le> unat (ba_time ack) + unat (fd_beacon_timeout_milliseconds (fs_worker s))"
  shows "pair_inv c (s\<lparr>fs_worker := fd\<rparr>)"
proof -
  from inv have t: "timing_inv c s" and m: "master_inv c s" and w: "worker_inv c s"
    by (simp_all add: pair_inv_def)
  from t have per: "same_periods (start_pair c False) (fs_worker s)" by (simp add: timing_inv_def)
  have fit: "unat (fd_beacon_timeout_milliseconds (fs_worker s))
      + unat (fd_check_interval_milliseconds (fs_worker s)) \<le> unat (fd_lease_milliseconds (fs_worker s))"
    using ok per by (auto simp: periods_ok_def Let_def same_periods_def)
  from w obtain rec where rec: "map_of (fd_masters (fs_worker s)) (dp_master c) = Some rec"
    and old: "unat (mr_last_send_time_for_beacon_with_ack rec) \<le> fs_now s"
      "mr_is_alive rec \<Longrightarrow> fs_last_check s + unat (fd_check_interval_milliseconds (fs_worker s))
         \<le> unat (mr_last_send_time_for_beacon_with_ack rec) + unat (fd_lease_milliseconds (fs_worker s)) \<and>
        (\<exists>w. map_of (fd_workers (fs_master s)) (dp_worker c) = Some w \<and>
           unat (mr_last_send_time_for_beacon_with_ack rec) + dp_skew c \<le> unat (wr_last_beacon_recv_time w))"
    by (auto simp: worker_inv_def Let_def)
  note sp = end_ping_internal_spec [OF run rec]
  from sp(2) obtain rec' where rec': "map_of (fd_masters fd) (dp_master c) = Some rec'"
    and upd: "mr_last_send_time_for_beacon_with_ack rec' = mr_last_send_time_for_beacon_with_ack rec \<and>
        mr_is_alive rec' = mr_is_alive rec \<or>
        err = ERR_OK \<and> ba_allowed ack \<and> mr_last_send_time_for_beacon_with_ack rec' = ba_time ack"
    by blast
  from upd have "worker_inv c (s\<lparr>fs_worker := fd\<rparr>)"
  proof
    assume "mr_last_send_time_for_beacon_with_ack rec' = mr_last_send_time_for_beacon_with_ack rec \<and>
        mr_is_alive rec' = mr_is_alive rec"
    with old rec' sp(1) show ?thesis by (simp add: worker_inv_def Let_def same_periods_def)
  next
    assume u: "err = ERR_OK \<and> ba_allowed ack \<and> mr_last_send_time_for_beacon_with_ack rec' = ba_time ack"
    with ack m have "unat (ba_time ack) \<le> fs_now s"
      "\<exists>w. map_of (fd_workers (fs_master s)) (dp_worker c) = Some w \<and>
         unat (ba_time ack) + dp_skew c \<le> unat (wr_last_beacon_recv_time w)"
      by (auto simp: master_inv_def)
    moreover have "fs_last_check s + unat (fd_check_interval_milliseconds (fs_worker s))
        \<le> unat (ba_time ack) + unat (fd_lease_milliseconds (fs_worker s))"
      using ack u fit t unfolding timing_inv_def by linarith
    ultimately show ?thesis
      using u rec' sp(1) by (simp add: worker_inv_def Let_def same_periods_def)
  qed
  moreover have "fd_check_interval_milliseconds fd = fd_check_interval_milliseconds (fs_worker s)"
    using sp(1) by (simp add: same_periods_def)
  then have "timing_inv c (s\<lparr>fs_worker := fd\<rparr>)"
    using t same_periods_trans [OF per sp(1)] by (simp add: timing_inv_def)
  moreover have "master_inv c (s\<lparr>fs_worker := fd\<rparr>)" using m by (simp add: master_inv_def)
  ultimately show ?thesis by (simp add: pair_inv_def)
qed

lemma pair_inv_step:
  assumes "fd_step c s s'" "periods_ok c" "pair_inv c s"
  shows "pair_inv c s'"
  using assms(1)
proof cases
  case Tick
  with assms(3) pair_inv_tick show ?thesis by simp
next
  case Worker_check
  with assms(2,3) pair_inv_worker_check show ?thesis by simp
next
  case Master_check
  with assms(3) pair_inv_master_check show ?thesis by simp
next
  case (Send b)
  have "unat (worker_clock s) = fs_now s"
    using assms(3) by (intro unat_clock) (simp add: pair_inv_def timing_inv_def)
  with Send assms(3) show ?thesis
    by (auto simp: pair_inv_def timing_inv_def master_inv_def worker_inv_def send_beacon_def)
next
  case Deliver_beacon
  with assms(3) pair_inv_deliver_beacon show ?thesis by simp
next
  case Deliver_ack
  with assms(2,3) pair_inv_end_ping show ?thesis by simp
next
  case Ping_failed
  show ?thesis unfolding Ping_failed(1)
    by (rule pair_inv_end_ping [OF assms(3,2) Ping_failed(4)]) (use Ping_failed in simp)
qed

interpretation detector: stepwise_invariant "\<lambda>(c, s). fd_initial c s \<and> periods_ok c"
  "\<lambda>(c, s) (c', s'). c' = c \<and> fd_step c s s'" "\<lambda>(c, s). periods_ok c \<and> pair_inv c s"
  by unfold_locales (auto intro: pair_inv_initial pair_inv_step)

lemma fd_reachable_lift:
  "(fd_step c)\<^sup>*\<^sup>* s s' \<Longrightarrow> (\<lambda>(c, s) (c', s'). c' = c \<and> fd_step c s s')\<^sup>*\<^sup>* (c, s) (c, s')"
proof (induction rule: rtranclp_induct)
  case (step y z)
  then show ?case by (auto intro: rtranclp.rtrancl_into_rtrancl)
qed simp

text \<open>
  C3.
  The failure detector is perfect: in every reachable state, whenever the meta server has
  declared the replica server dead, the replica server has already noticed on its own that
  it is disconnected. It needs that a beacon call and a check interval fit into the lease
  and that the lease does not exceed the grace period; messages may be lost, duplicated
  and reordered, and the two clocks need not agree.
\<close>

theorem detector_perfect:
  assumes "periods_ok c" "fd_initial c s0" "(fd_step c)\<^sup>*\<^sup>* s0 s"
    and "map_of (fd_workers (fs_master s)) (dp_worker c) = Some w" "\<not> wr_is_alive w"
  shows "\<not> is_master_connected (dp_master c) (fs_worker s)"
proof
  assume conn: "is_master_connected (dp_master c) (fs_worker s)"
  from detector.inv_reachable [of "(c, s0)" "(c, s)"] assms(1,2) fd_reachable_lift [OF assms(3)]
  have t: "timing_inv c s" and m: "master_inv c s" and wi: "worker_inv c s"
    by (simp_all add: pair_inv_def)
  from m assms(4,5) have dead: "unat (wr_last_beacon_recv_time w)
      + unat (fd_grace_milliseconds (fs_master s)) < fs_now s + dp_skew c"
    by (simp add: master_inv_def)
  from conn obtain rec where rec: "map_of (fd_masters (fs_worker s)) (dp_master c) = Some rec"
    "mr_is_alive rec" by (auto simp: is_master_connected_def split: option.splits)
  with wi assms(4) have
    "fs_last_check s + unat (fd_check_interval_milliseconds (fs_worker s))
       \<le> unat (mr_last_send_time_for_beacon_with_ack rec) + unat (fd_lease_milliseconds (fs_worker s))"
    "unat (mr_last_send_time_for_beacon_with_ack rec) + dp_skew c \<le> unat (wr_last_beacon_recv_time w)"
    by (simp_all add: worker_inv_def Let_def)
  moreover have "fs_now s \<le> fs_last_check s + unat (fd_check_interval_milliseconds (fs_worker s))"
    "unat (fd_lease_milliseconds (fs_worker s)) \<le> unat (fd_grace_milliseconds (fs_master s))"
    using t assms(1) by (auto simp: timing_inv_def periods_ok_def Let_def same_periods_def)
  ultimately show False using dead by linarith
qed

text \<open>A run in which the replica server falls silent after its first beacon.\<close>

definition sample_pair :: detector_pair where
  "sample_pair = \<lparr>dp_worker = HP_ipv4 ''replica'' 34801, dp_master = HP_ipv4 ''meta'' 34601,
     dp_skew = 5, dp_process_start = 0, dp_check_seconds = 2, dp_beacon_seconds = 3,
     dp_lease_seconds = 9, dp_grace_seconds = 10\<rparr>"

definition silent_run :: "nat \<Rightarrow> nat \<Rightarrow> bool \<Rightarrow> fd_system" where
  "silent_run now last_check dead =
     (let b = send_beacon (dp_worker sample_pair) 0 (dp_master sample_pair) 0
      in \<lparr>fs_now = now, fs_last_check = last_check,
          fs_worker = register_master 0 (dp_master sample_pair) (start_pair sample_pair False),
          fs_master = (start_pair sample_pair False)\<lparr>fd_workers := [(dp_worker sample_pair,
            \<lparr>wr_node = dp_worker sample_pair, wr_last_beacon_recv_time = 5, wr_is_alive = \<not> dead\<rparr>)]\<rparr>,
          fs_beacons = {b},
          fs_acks = {\<lparr>ba_time = 0, ba_this_node = dp_master sample_pair,
            ba_primary_node = dp_master sample_pair, ba_is_master = True, ba_allowed = True\<rparr>}\<rparr>)"

lemma silent_start:
  "\<exists>s0. fd_initial sample_pair s0 \<and> (fd_step sample_pair)\<^sup>*\<^sup>* s0 (silent_run 0 0 False)"
proof -
  let ?b = "send_beacon (dp_worker sample_pair) 0 (dp_master sample_pair) 0"
  let ?s0 = "\<lparr>fs_now = 0, fs_last_check = 0,
    fs_worker = register_master 0 (dp_master sample_pair) (start_pair sample_pair False),
    fs_master = start_pair sample_pair False, fs_beacons = {}, fs_acks = {}\<rparr>"
  let ?s1 = "?s0\<lparr>fs_beacons := {?b}\<rparr>"
  have "\<exists>use allowed. start_pair sample_pair False = fold add_allow_list allowed (start_pair sample_pair use)"
    by (intro exI [of _ False] exI [of _ "[]"]) simp
  then have "fd_initial sample_pair ?s0"
    by (simp add: fd_initial_def sample_pair_def)
  moreover have "fd_step sample_pair ?s0 ?s1"
    using fd_step.Send [OF refl, of sample_pair ?s0] by (simp add: sample_pair_def)
  moreover
  let ?ack = "\<lparr>ba_time = 0, ba_this_node = dp_master sample_pair,
    ba_primary_node = dp_master sample_pair, ba_is_master = True, ba_allowed = True\<rparr>"
  have "on_ping_internal (master_clock sample_pair ?s1) (dp_master sample_pair) ?b (fs_master ?s1)
      = (?ack, fs_master (silent_run 0 0 False), Some (dp_worker sample_pair))"
    by (simp add: silent_run_def on_ping_internal_def sample_pair_def send_beacon_def
        start_pair_def start_fd_def blank_detector_def worker_record_init_def Let_def)
  from fd_step.Deliver_beacon [OF _ this]
  have "fd_step sample_pair ?s1 (silent_run 0 0 False)"
    by (simp add: silent_run_def Let_def)
  ultimately show ?thesis by (meson converse_rtranclp_into_rtranclp r_into_rtranclp)
qed

lemma silent_wait:
  assumes "n \<le> t" "t \<le> n + 2000" "t < 2 ^ 32"
  shows "(fd_step sample_pair)\<^sup>*\<^sup>* (silent_run n n dead) (silent_run t t dead)"
proof -
  let ?w = "fs_worker (silent_run n n dead)"
  have tick: "fd_step sample_pair (silent_run n n dead) (silent_run t n dead)"
    using fd_step.Tick [of "silent_run n n dead" t sample_pair] assms
    by (simp add: silent_run_def sample_pair_def register_master_def start_pair_def start_fd_def Let_def)
  have "check_all_records (of_nat t) (of_nat t) ?w = ([], [], ?w)"
    by (simp add: silent_run_def check_all_records_def check_masters_def check_workers_def
        register_master_def start_pair_def start_fd_def blank_detector_def master_expires_def
        master_record_init_def Let_def)
  then have "fd_step sample_pair (silent_run t n dead) (silent_run t t dead)"
    using fd_step.Worker_check [of "silent_run t n dead" "[]" "[]" ?w sample_pair]
    by (simp add: silent_run_def Let_def)
  with tick show ?thesis by (meson converse_rtranclp_into_rtranclp r_into_rtranclp)
qed

lemma silent_dead: "fd_step sample_pair (silent_run 10001 10001 False) (silent_run 10001 10001 True)"
proof -
  let ?m = "\<lambda>dead. fs_master (silent_run 10001 10001 dead)"
  have "check_all_records (of_nat 10006) (of_nat 10006) (?m False) = ([], [dp_worker sample_pair], ?m True)"
    by (simp add: silent_run_def check_all_records_def check_masters_def check_workers_def
        start_pair_def start_fd_def blank_detector_def worker_expires_def is_time_greater_than_def
        sample_pair_def Let_def)
  then show ?thesis
    using fd_step.Master_check [where c = sample_pair and s = "silent_run 10001 10001 False"]
    by (simp add: silent_run_def Let_def sample_pair_def)
qed

theorem detector_perfect_witness:
  "\<exists>s0 s. fd_initial sample_pair s0 \<and> (fd_step sample_pair)\<^sup>*\<^sup>* s0 s \<and>
     is_worker_connected (dp_worker sample_pair) (fs_master s) = False \<and>
     \<not> is_master_connected (dp_master sample_pair) (fs_worker s)"
proof -
  from silent_start obtain s0 where s0: "fd_initial sample_pair s0"
    "(fd_step sample_pair)\<^sup>*\<^sup>* s0 (silent_run 0 0 False)" by blast
  have "(fd_step sample_pair)\<^sup>*\<^sup>* (silent_run 0 0 False) (silent_run 10001 10001 False)"
    using silent_wait [of 0 2000 False] silent_wait [of 2000 4000 False] silent_wait [of 4000 6000 False]
      silent_wait [of 6000 8000 False] silent_wait [of 8000 10000 False] silent_wait [of 10000 10001 False]
    by (simp; meson rtranclp_trans)
  with s0(2) silent_dead have run: "(fd_step sample_pair)\<^sup>*\<^sup>* s0 (silent_run 10001 10001 True)"
    by (meson rtranclp.rtrancl_into_rtrancl rtranclp_trans)
  have "periods_ok sample_pair"
    by (simp add: periods_ok_def start_pair_def start_fd_def sample_pair_def Let_def)
  moreover have "map_of (fd_workers (fs_master (silent_run 10001 10001 True))) (dp_worker sample_pair)
      = Some \<lparr>wr_node = dp_worker sample_pair, wr_last_beacon_recv_time = 5, wr_is_alive = False\<rparr>"
    by (simp add: silent_run_def Let_def)
  ultimately have "\<not> is_master_connected (dp_master sample_pair) (fs_worker (silent_run 10001 10001 True))"
    using detector_perfect [OF _ s0(1) run] by simp
  moreover have "is_worker_connected (dp_worker sample_pair) (fs_master (silent_run 10001 10001 True)) = False"
    by (simp add: silent_run_def is_worker_connected_def Let_def)
  ultimately show ?thesis using s0(1) run by blast
qed

end
