(* ===== verification/Byte_Codec.thy ===== *)
theory Byte_Codec
  imports Pegasus_Prelude "HOL-Library.List_Lexorder"
begin

text \<open>
  Wire serialization in network byte order (\<open>data_output\<close> and \<open>data_input\<close> in
  \<^verbatim>\<open>src/src/utils/endians.h\<close>) and the order of byte strings, which is the order of the keys
  in the storage engine.
\<close>

section \<open>Model\<close>

text \<open>The big-endian bytes of a number, most significant first.\<close>

primrec be_bytes :: "nat \<Rightarrow> nat \<Rightarrow> bytes" where
  "be_bytes 0 v = []"
| "be_bytes (Suc n) v = be_bytes n (v div 256) @ [of_nat v]"

definition be_value :: "bytes \<Rightarrow> nat" where
  "be_value bs = foldl (\<lambda>a b. a * 256 + unat b) 0 bs"

text \<open>A \<open>data_output\<close> is the buffer written so far and the room that is left in it.\<close>

type_synonym data_output = "bytes \<times> nat"

definition write_unsigned :: "nat \<Rightarrow> nat \<Rightarrow> data_output \<Rightarrow> data_output result" where
  "write_unsigned sz v out =
     (if snd out \<ge> sz then Inr (fst out @ be_bytes sz v, snd out - sz)
      else Inl (Out_of_bounds ''data_output''))"

definition write_u8 :: "8 word \<Rightarrow> data_output \<Rightarrow> data_output result" where
  "write_u8 v = write_unsigned 1 (unat v)"

definition write_u16 :: "16 word \<Rightarrow> data_output \<Rightarrow> data_output result" where
  "write_u16 v = write_unsigned 2 (unat v)"

definition write_u32 :: "32 word \<Rightarrow> data_output \<Rightarrow> data_output result" where
  "write_u32 v = write_unsigned 4 (unat v)"

definition write_u64 :: "64 word \<Rightarrow> data_output \<Rightarrow> data_output result" where
  "write_u64 v = write_unsigned 8 (unat v)"

definition read_unsigned :: "nat \<Rightarrow> bytes \<Rightarrow> (nat \<times> bytes) result" where
  "read_unsigned sz inp =
     bind_result (check (length inp \<ge> sz) ''CHECK_GE(_size, sz)'') (\<lambda>_.
       Inr (be_value (take sz inp), drop sz inp))"

definition read_u8 :: "bytes \<Rightarrow> (8 word \<times> bytes) result" where
  "read_u8 inp = bind_result (read_unsigned 1 inp) (\<lambda>(v, rest). Inr (of_nat v, rest))"

definition read_u16 :: "bytes \<Rightarrow> (16 word \<times> bytes) result" where
  "read_u16 inp = bind_result (read_unsigned 2 inp) (\<lambda>(v, rest). Inr (of_nat v, rest))"

definition read_u32 :: "bytes \<Rightarrow> (32 word \<times> bytes) result" where
  "read_u32 inp = bind_result (read_unsigned 4 inp) (\<lambda>(v, rest). Inr (of_nat v, rest))"

definition read_u64 :: "bytes \<Rightarrow> (64 word \<times> bytes) result" where
  "read_u64 inp = bind_result (read_unsigned 8 inp) (\<lambda>(v, rest). Inr (of_nat v, rest))"

definition skip_input :: "nat \<Rightarrow> bytes \<Rightarrow> bytes result" where
  "skip_input sz inp = bind_result (check (length inp \<ge> sz) ''CHECK_GE(_size, sz)'') (\<lambda>_. Inr (drop sz inp))"

section \<open>Round trips\<close>

lemma length_be_bytes [simp]: "length (be_bytes n v) = n"
  by (induction n arbitrary: v) simp_all

lemma be_bytes_Cons: "be_bytes (Suc n) v = of_nat (v div 256 ^ n) # be_bytes n v"
proof (induction n arbitrary: v)
  case (Suc n)
  have "be_bytes (Suc (Suc n)) v = of_nat (v div 256 div 256 ^ n) # be_bytes n (v div 256) @ [of_nat v]"
    unfolding be_bytes.simps(2) [of "Suc n" v] Suc by simp
  also have "be_bytes n (v div 256) @ [of_nat v] = be_bytes (Suc n) v" by simp
  finally show ?case by (simp only: div_mult2_eq [symmetric] power_Suc)
qed simp

lemma be_bytes_4:
  "be_bytes 4 v = [of_nat (v div 16777216), of_nat (v div 65536), of_nat (v div 256), of_nat v]"
proof -
  have "be_bytes 4 v = be_bytes (Suc (Suc (Suc (Suc 0)))) v" by (rule arg_cong) simp
  then show ?thesis by (simp only: be_bytes_Cons be_bytes.simps(1)) simp
qed

lemma be_value_append_single: "be_value (bs @ [b]) = be_value bs * 256 + unat b"
  by (simp add: be_value_def)

lemma be_value_Nil [simp]: "be_value [] = 0"
  by (simp add: be_value_def)

lemma unat_byte_of_nat: "unat (of_nat v :: byte) = v mod 256"
  by (simp add: unsigned_of_nat take_bit_eq_mod)

lemma be_value_be_bytes [simp]: "v < 256 ^ n \<Longrightarrow> be_value (be_bytes n v) = v"
proof (induction n arbitrary: v)
  case (Suc n)
  then have "v div 256 < 256 ^ n" by (simp add: less_mult_imp_div_less mult.commute)
  with Suc.IH show ?case by (simp add: be_value_append_single unat_byte_of_nat)
qed simp

lemma be_value_less: "be_value bs < 256 ^ length bs"
proof (induction bs rule: rev_induct)
  case (snoc b bs)
  have "unat b < 256" using unsigned_less [of b] by simp
  with snoc show ?case by (simp add: be_value_append_single)
qed simp

lemma be_bytes_be_value: "be_bytes (length bs) (be_value bs) = bs"
proof (induction bs rule: rev_induct)
  case (snoc b bs)
  have b: "unat b < 256" using unsigned_less [of b] by simp
  then have "(be_value bs * 256 + unat b) div 256 = be_value bs" by simp
  moreover have "(of_nat (be_value bs * 256 + unat b) :: byte) = b"
    using b by (simp only: word_unat_eq_iff unat_byte_of_nat) simp
  ultimately show ?case using snoc by (simp add: be_value_append_single)
qed simp

lemma unat_word_less: "unat (w :: 'a::len word) < 2 ^ LENGTH('a)"
  by (rule unsigned_less)

lemma read_write:
  assumes "v < 256 ^ n"
  shows "read_unsigned n (be_bytes n v @ rest) = Inr (v, rest)"
  using assms by (simp add: read_unsigned_def)

lemma read_u8_be [simp]: "read_u8 (be_bytes 1 (unat v) @ rest) = Inr (v, rest)"
  using unat_word_less [of v] read_write [of "unat v" 1 rest] by (simp add: read_u8_def)

lemma read_u16_be [simp]: "read_u16 (be_bytes 2 (unat v) @ rest) = Inr (v, rest)"
  using unat_word_less [of v] read_write [of "unat v" 2 rest] by (simp add: read_u16_def)

lemma read_u32_be [simp]: "read_u32 (be_bytes 4 (unat v) @ rest) = Inr (v, rest)"
  using unat_word_less [of v] read_write [of "unat v" 4 rest] by (simp add: read_u32_def)

lemma read_u64_be [simp]: "read_u64 (be_bytes 8 (unat v) @ rest) = Inr (v, rest)"
  using unat_word_less [of v] read_write [of "unat v" 8 rest] by (simp add: read_u64_def)

lemma skip_input_append [simp]: "length xs = n \<Longrightarrow> skip_input n (xs @ ys) = Inr ys"
  by (simp add: skip_input_def)

lemma write_unsigned_room [simp]:
  "sz \<le> room \<Longrightarrow> write_unsigned sz v (buf, room) = Inr (buf @ be_bytes sz v, room - sz)"
  by (simp add: write_unsigned_def)

section \<open>The order of byte strings\<close>

text \<open>Byte strings that start with the same bytes are ordered by the rest.\<close>

lemma append_less_append [simp]: "xs @ ys < xs @ (zs :: 'a::order list) \<longleftrightarrow> ys < zs"
  by (induction xs) auto

lemma less_append: "ys \<noteq> [] \<Longrightarrow> xs < xs @ (ys :: 'a::order list)"
proof -
  assume "ys \<noteq> []"
  then have "[] < ys" by (cases ys) auto
  then show ?thesis using append_less_append [of xs "[]" ys] by simp
qed

end
