(* ===== verification/Crc.thy ===== *)
theory Crc
  imports Pegasus_Prelude
begin

unbundle bit_operations_syntax

text \<open>
  The cyclic redundancy checks of \<^verbatim>\<open>src/src/utils/crc.cpp\<close>. The template \<open>crc_generator\<close> is
  modelled over any word length with the polynomial as a parameter; \<open>crc32\<close> and \<open>crc64\<close> are
  its two instances, with the literal tables of the source. The central operation is the
  multiplication by \<open>x\<close> of a residue in reversed bit order, a linear map on words.
\<close>

section \<open>Model\<close>

definition crc_msb :: "'a::len word" where
  "crc_msb = push_bit (LENGTH('a) - 1) 1"

definition crc_shift :: "'a::len word \<Rightarrow> 'a word \<Rightarrow> 'a word" where
  "crc_shift poly b = (if b AND 1 = 1 then drop_bit 1 b XOR poly else drop_bit 1 b)"

text \<open>One table look-up.\<close>

definition crc_step :: "'a::len word list \<Rightarrow> 'a word \<Rightarrow> byte \<Rightarrow> 'a word" where
  "crc_step table uCrc d = table ! unat (ucast (uCrc XOR ucast d) :: byte) XOR drop_bit 8 uCrc"

text \<open>The inner loop of \<open>compute\<close>, unrolled sixteen times in the source.\<close>

function crc_unrolled :: "'a::len word list \<Rightarrow> nat \<Rightarrow> bytes \<Rightarrow> 'a word \<Rightarrow> nat \<times> bytes \<times> 'a word" where
  "crc_unrolled table uBytes pData uCrc =
     (if uBytes > 15
      then crc_unrolled table (uBytes - 16) (drop 16 pData) (foldl (crc_step table) uCrc (take 16 pData))
      else (uBytes, pData, uCrc))"
  by pat_completeness auto
termination by (relation "measure (\<lambda>(_, n, _, _). n)") auto

declare crc_unrolled.simps [simp del]

lemma crc_unrolled_bound: "fst (crc_unrolled table n p c) \<le> 15"
  by (induction table n p c rule: crc_unrolled.induct)
    (subst crc_unrolled.simps, simp)

function crc_blocks :: "'a::len word list \<Rightarrow> nat \<Rightarrow> bytes \<Rightarrow> 'a word \<Rightarrow> nat \<times> bytes \<times> 'a word" where
  "crc_blocks table uSize pData uCrc =
     (if uSize > 15
      then let uBytes = min 0x80000000 uSize;
               res = crc_unrolled table uBytes pData uCrc
           in crc_blocks table (uSize - uBytes + fst res) (fst (snd res)) (snd (snd res))
      else (uSize, pData, uCrc))"
  by pat_completeness auto
termination
proof (relation "measure (\<lambda>(_, n, _, _). n)", goal_cases)
  case (2 table uSize pData uCrc uBytes res)
  with crc_unrolled_bound [of table uBytes pData uCrc] show ?case by auto
qed simp

declare crc_blocks.simps [simp del]

definition crc_compute :: "'a::len word list \<Rightarrow> bytes \<Rightarrow> 'a word \<Rightarrow> 'a word" where
  "crc_compute table pSrc uCrc =
     (case crc_blocks table (length pSrc) pSrc (NOT uCrc) of
        (uSize, pData, c) \<Rightarrow> NOT (foldl (crc_step table) c (take uSize pData)))"

text \<open>The loop of \<open>MulPoly\<close> ends because shifting a word left eventually gives zero.\<close>

lemma push_bit_least_less:
  fixes a :: "'a::len word"
  assumes "push_bit 1 a \<noteq> 0"
  shows "(LEAST n. push_bit n (push_bit 1 a) = 0) < (LEAST n. push_bit n a = 0)"
proof -
  have "push_bit (LENGTH('a)) a = 0" by (simp add: bit_eq_iff bit_push_bit_iff)
  moreover have "push_bit 0 a \<noteq> 0" using assms by auto
  ultimately have "(LEAST n. push_bit n a = 0) = Suc (LEAST n. push_bit (Suc n) a = 0)"
    by (rule Least_Suc)
  then show ?thesis by (simp add: push_bit_push_bit)
qed

function mul_poly_loop :: "'a::len word \<Rightarrow> 'a word \<Rightarrow> 'a word \<Rightarrow> 'a word \<Rightarrow> 'a word" where
  "mul_poly_loop poly a b r =
     (let r' = (if a AND crc_msb \<noteq> 0 then r XOR b else r);
          b' = crc_shift poly b; a' = push_bit 1 a
      in if a' \<noteq> 0 then mul_poly_loop poly a' b' r' else r')"
  by pat_completeness auto
termination
  by (relation "measure (\<lambda>(_, a, _, _). LEAST n. push_bit n a = 0)") (use push_bit_least_less in auto)

declare mul_poly_loop.simps [simp del]

definition MulPoly :: "'a::len word \<Rightarrow> 'a word \<Rightarrow> 'a word \<Rightarrow> 'a word" where
  "MulPoly poly a b = (if a = 0 then 0 else mul_poly_loop poly a b 0)"

function x_n_loop :: "'a::len word \<Rightarrow> 'a word list \<Rightarrow> nat \<Rightarrow> nat \<Rightarrow> 'a word \<Rightarrow> 'a word" where
  "x_n_loop poly uX2N uSize i r =
     (if uSize \<noteq> 0
      then x_n_loop poly uX2N (uSize div 2) (i + 1) (if odd uSize then MulPoly poly r (uX2N ! i) else r)
      else r)"
  by pat_completeness auto
termination by (relation "measure (\<lambda>(_, _, n, _, _). n)") auto

declare x_n_loop.simps [simp del]

definition ComputeX_N :: "'a::len word \<Rightarrow> 'a word list \<Rightarrow> nat \<Rightarrow> 'a word" where
  "ComputeX_N poly uX2N uSize = x_n_loop poly uX2N uSize 0 crc_msb"

definition ConvertInitialCrc :: "'a::len word \<Rightarrow> 'a word list \<Rightarrow> 'a word \<Rightarrow> 'a word \<Rightarrow> 'a word \<Rightarrow> nat
    \<Rightarrow> 'a word" where
  "ConvertInitialCrc poly uX2N uNew uOld uCrc uSize =
     uCrc XOR MulPoly poly (ComputeX_N poly uX2N uSize) (uNew XOR uOld)"

definition concatenate :: "'a::len word \<Rightarrow> 'a word list \<Rightarrow> 'a word \<Rightarrow> 'a word \<Rightarrow> 'a word \<Rightarrow> nat
    \<Rightarrow> 'a word \<Rightarrow> 'a word \<Rightarrow> nat \<Rightarrow> 'a word" where
  "concatenate poly uX2N uInitialCrcAB uInitialCrcA uFinalCrcA uSizeA uInitialCrcB uFinalCrcB uSizeB =
     (let uInitialCrcAB = NOT uInitialCrcAB; uInitialCrcA = NOT uInitialCrcA;
          uFinalCrcA = NOT uFinalCrcA; uInitialCrcB = NOT uInitialCrcB; uFinalCrcB = NOT uFinalCrcB;
          uX_nA = ComputeX_N poly uX2N uSizeA;
          uFinalCrcA = uFinalCrcA XOR MulPoly poly uX_nA uInitialCrcA;
          uX_nB = ComputeX_N poly uX2N uSizeB;
          uFinalCrcB = uFinalCrcB XOR MulPoly poly uX_nB uInitialCrcB;
          uFinalCrcAB = uFinalCrcB XOR MulPoly poly uFinalCrcA uX_nB;
          uFinalCrcAB = uFinalCrcAB XOR MulPoly poly uInitialCrcAB (MulPoly poly uX_nA uX_nB)
      in NOT uFinalCrcAB)"

text \<open>The two loops of \<open>InitializeTables\<close>.\<close>

primrec x2n_entry :: "'a::len word \<Rightarrow> nat \<Rightarrow> 'a word" where
  "x2n_entry poly 0 = drop_bit 8 crc_msb"
| "x2n_entry poly (Suc i) = MulPoly poly (x2n_entry poly i) (x2n_entry poly i)"

definition crc_table_entry :: "'a::len word \<Rightarrow> nat \<Rightarrow> 'a word" where
  "crc_table_entry poly i = (crc_shift poly ^^ 8) (of_nat i)"

section \<open>The linear map\<close>

lemma bit_crc_shift:
  "bit (crc_shift poly b) i \<longleftrightarrow> (bit b (Suc i) \<noteq> (bit b 0 \<and> bit poly i))"
proof -
  have "b AND 1 = 1 \<longleftrightarrow> bit b 0"
    by (simp add: and_one_eq bit_0 mod_2_eq_odd)
  then show ?thesis by (simp add: crc_shift_def bit_xor_iff bit_drop_bit_eq)
qed

lemma crc_shift_xor: "crc_shift poly (a XOR b) = crc_shift poly a XOR crc_shift poly b"
  by (rule bit_eqI) (auto simp: bit_crc_shift bit_xor_iff)

lemma crc_shift_0 [simp]: "crc_shift poly 0 = 0"
  by (rule bit_eqI) (simp add: bit_crc_shift)

lemma crc_shift_even: "\<not> bit b 0 \<Longrightarrow> crc_shift poly b = drop_bit 1 b"
  by (rule bit_eqI) (simp add: bit_crc_shift bit_drop_bit_eq)

abbreviation crc_pow :: "'a::len word \<Rightarrow> nat \<Rightarrow> 'a word \<Rightarrow> 'a word" where
  "crc_pow poly n \<equiv> crc_shift poly ^^ n"

lemma crc_pow_xor: "crc_pow poly n (a XOR b) = crc_pow poly n a XOR crc_pow poly n b"
  by (induction n) (simp_all add: crc_shift_xor)

lemma crc_pow_0 [simp]: "crc_pow poly n 0 = 0"
  by (induction n) simp_all

lemma crc_pow_add: "crc_pow poly (m + n) b = crc_pow poly m (crc_pow poly n b)"
  by (simp add: funpow_add)

lemma crc_pow_swap: "crc_pow poly m (crc_pow poly n b) = crc_pow poly n (crc_pow poly m b)"
  by (metis add.commute crc_pow_add)

text \<open>As long as only zeros fall out at the low end, the map is a right shift.\<close>

lemma crc_pow_drop_bit:
  assumes "\<forall>i < n. \<not> bit b i"
  shows "crc_pow poly n b = drop_bit n b"
  using assms
proof (induction n)
  case (Suc n)
  then have "crc_pow poly n b = drop_bit n b" by simp
  moreover have "\<not> bit (drop_bit n b) 0" using Suc.prems by (simp add: bit_drop_bit_eq)
  ultimately show ?case by (simp add: crc_shift_even drop_bit_drop_bit add.commute)
qed simp

section \<open>Multiplication\<close>

primrec xor_sum :: "(nat \<Rightarrow> 'a::len word) \<Rightarrow> nat \<Rightarrow> 'a word" where
  "xor_sum f 0 = 0"
| "xor_sum f (Suc n) = xor_sum f n XOR f n"

lemma xor_sum_xor: "xor_sum (\<lambda>i. f i XOR g i) n = xor_sum f n XOR xor_sum g n"
  by (induction n) (simp_all add: ac_simps)

lemma xor_sum_cong: "(\<And>i. i < n \<Longrightarrow> f i = g i) \<Longrightarrow> xor_sum f n = xor_sum g n"
  by (induction n) simp_all

lemma xor_sum_0: "(\<And>i. i < n \<Longrightarrow> f i = 0) \<Longrightarrow> xor_sum f n = 0"
  by (induction n) simp_all

lemma xor_sum_single: "m < n \<Longrightarrow> (\<And>i. i < n \<Longrightarrow> i \<noteq> m \<Longrightarrow> f i = 0) \<Longrightarrow> xor_sum f n = f m"
proof (induction n)
  case (Suc n)
  show ?case
  proof (cases "m = n")
    case True
    with Suc.prems have "xor_sum f n = 0" by (intro xor_sum_0) simp
    with True show ?thesis by simp
  next
    case False
    with Suc show ?thesis by simp
  qed
qed simp

lemma xor_sum_extend:
  "m \<le> n \<Longrightarrow> (\<And>i. m \<le> i \<Longrightarrow> i < n \<Longrightarrow> f i = 0) \<Longrightarrow> xor_sum f n = xor_sum f m"
proof (induction n)
  case (Suc n)
  then show ?case by (cases "m = Suc n") auto
qed simp

lemma crc_pow_xor_sum: "crc_pow poly k (xor_sum f n) = xor_sum (\<lambda>i. crc_pow poly k (f i)) n"
  by (induction n) (simp_all add: crc_pow_xor)

lemma bit_xor_sum: "bit (xor_sum f n) j \<longleftrightarrow> odd (card {i. i < n \<and> bit (f i) j})"
proof (induction n)
  case (Suc n)
  have "{i. i < Suc n \<and> bit (f i) j} = (if bit (f n) j then insert n {i. i < n \<and> bit (f i) j}
      else {i. i < n \<and> bit (f i) j})"
    by (auto simp: less_Suc_eq)
  with Suc show ?case by (simp add: bit_xor_iff)
qed simp

definition crc_mul :: "'a::len word \<Rightarrow> 'a word \<Rightarrow> 'a word \<Rightarrow> 'a word" where
  "crc_mul poly a b =
     xor_sum (\<lambda>i. if bit a (LENGTH('a) - 1 - i) then crc_pow poly i b else 0) (LENGTH('a))"

lemma bit_unit: "bit (2 ^ k :: 'a::len word) i \<longleftrightarrow> i = k \<and> k < LENGTH('a)"
  by (auto simp: bit_exp_iff)

lemma bit_crc_msb: "bit (crc_msb :: 'a::len word) i \<longleftrightarrow> i = LENGTH('a) - 1"
  by (auto simp: crc_msb_def bit_unit)

lemma and_crc_msb: "a AND crc_msb \<noteq> 0 \<longleftrightarrow> bit (a :: 'a::len word) (LENGTH('a) - 1)"
proof -
  have "bit (a AND crc_msb) i \<longleftrightarrow> i = LENGTH('a) - 1 \<and> bit a i" for i
    by (auto simp: bit_and_iff bit_crc_msb)
  then show ?thesis by (metis bit_0_eq bit_eqI bot_apply bot_bool_def)
qed

lemma crc_pow_msb:
  assumes "i < LENGTH('a::len)"
  shows "crc_pow poly i (crc_msb :: 'a word) = 2 ^ (LENGTH('a) - 1 - i)"
proof -
  have "\<not> bit (crc_msb :: 'a word) k" if "k < i" for k
    using assms that unfolding bit_crc_msb by linarith
  then have "crc_pow poly i (crc_msb :: 'a word) = drop_bit i crc_msb"
    by (intro crc_pow_drop_bit) simp
  also have "\<dots> = 2 ^ (LENGTH('a) - 1 - i)"
    using assms by (intro bit_eqI) (auto simp: bit_drop_bit_eq bit_crc_msb bit_unit)
  finally show ?thesis .
qed

text \<open>Every residue is the sum of the powers of \<open>x\<close> that its bits select.\<close>

lemma crc_mul_msb: "crc_mul poly b crc_msb = (b :: 'a::len word)"
proof (rule bit_eqI)
  fix j
  assume "possible_bit TYPE('a word) j"
  then have j: "j < LENGTH('a)" by simp
  let ?f = "\<lambda>i. if bit b (LENGTH('a) - 1 - i) then crc_pow poly i crc_msb else (0 :: 'a word)"
  have sel: "bit (?f i) j \<longleftrightarrow> bit b j \<and> i = LENGTH('a) - 1 - j" if "i < LENGTH('a)" for i
    using that j crc_pow_msb [OF that, of poly] by (auto simp: bit_unit)
  have "{i. i < LENGTH('a) \<and> bit (?f i) j} = {i. i < LENGTH('a) \<and> bit b j \<and> i = LENGTH('a) - 1 - j}"
    using sel by blast
  also have "\<dots> = (if bit b j then {LENGTH('a) - 1 - j} else {})" using j by auto
  finally show "bit (crc_mul poly b crc_msb) j = bit b j"
    by (simp add: crc_mul_def bit_xor_sum)
qed

lemma crc_mul_xor_right: "crc_mul poly a (b XOR c) = crc_mul poly a b XOR crc_mul poly a c"
  unfolding crc_mul_def xor_sum_xor [symmetric]
  by (rule xor_sum_cong) (simp add: crc_pow_xor)

lemma crc_mul_pow: "crc_mul poly a (crc_pow poly n b) = crc_pow poly n (crc_mul poly a b)"
  unfolding crc_mul_def crc_pow_xor_sum
  by (rule xor_sum_cong) (simp add: crc_pow_swap)

lemma crc_mul_0 [simp]: "crc_mul poly a 0 = 0" "crc_mul poly 0 b = 0"
  by (simp_all add: crc_mul_def xor_sum_0)

lemma crc_mul_xor_sum: "crc_mul poly a (xor_sum f n) = xor_sum (\<lambda>i. crc_mul poly a (f i)) n"
  by (induction n) (simp_all add: crc_mul_xor_right)

lemma crc_mul_commute: "crc_mul poly a b = crc_mul poly b (a :: 'a::len word)"
proof -
  have "crc_mul poly a b = crc_mul poly a (crc_mul poly b crc_msb)" by (simp add: crc_mul_msb)
  also have "\<dots> = xor_sum (\<lambda>i. crc_mul poly a
      (if bit b (LENGTH('a) - 1 - i) then crc_pow poly i crc_msb else 0)) (LENGTH('a))"
    by (subst (2) crc_mul_def) (rule crc_mul_xor_sum)
  also have "\<dots> = crc_mul poly b a"
    unfolding crc_mul_def [of poly b a]
    by (rule xor_sum_cong) (simp add: crc_mul_pow crc_mul_msb)
  finally show ?thesis .
qed

lemma crc_mul_pow_msb:
  "crc_mul poly (crc_pow poly n crc_msb) b = crc_pow poly n b"
  "crc_mul poly b (crc_pow poly n crc_msb) = crc_pow poly n b"
  by (simp_all add: crc_mul_commute [of poly "crc_pow poly n crc_msb"] crc_mul_pow crc_mul_msb)

section \<open>The loops\<close>

lemma bit_push_bit_word: "bit (push_bit k a :: 'a::len word) i \<longleftrightarrow> i < LENGTH('a) \<and> k \<le> i \<and> bit a (i - k)"
  by (auto simp: bit_push_bit_iff)

lemma mul_poly_loop_sum:
  fixes a0 :: "'a::len word"
  assumes "k < LENGTH('a)"
  shows "mul_poly_loop poly (push_bit k a0) (crc_pow poly k b)
      (xor_sum (\<lambda>i. if bit a0 (LENGTH('a) - 1 - i) then crc_pow poly i b else 0) k)
    = crc_mul poly a0 b"
  using assms
proof (induction "LENGTH('a) - k" arbitrary: k rule: less_induct)
  case less
  let ?f = "\<lambda>i. if bit a0 (LENGTH('a) - 1 - i) then crc_pow poly i b else 0"
  let ?a' = "push_bit (Suc k) a0"
  have top: "push_bit k a0 AND crc_msb \<noteq> 0 \<longleftrightarrow> bit a0 (LENGTH('a) - 1 - k)"
    using less.prems by (simp add: and_crc_msb bit_push_bit_word)
  have step: "mul_poly_loop poly (push_bit k a0) (crc_pow poly k b) (xor_sum ?f k) =
      (if ?a' \<noteq> 0 then mul_poly_loop poly ?a' (crc_pow poly (Suc k) b) (xor_sum ?f (Suc k))
       else xor_sum ?f (Suc k))"
    by (subst mul_poly_loop.simps) (simp add: top Let_def push_bit_push_bit)
  show ?case
  proof (cases "?a' = 0")
    case False
    have "?a' = 0" if "\<not> Suc k < LENGTH('a)"
      by (rule bit_eqI) (use that in \<open>simp add: bit_push_bit_word del: push_bit_Suc\<close>)
    with False have "Suc k < LENGTH('a)" by blast
    with False step less.hyps [of "Suc k"] show ?thesis by simp
  next
    case True
    have "\<not> bit a0 (LENGTH('a) - 1 - i)" if "Suc k \<le> i" "i < LENGTH('a)" for i
    proof
      assume "bit a0 (LENGTH('a) - 1 - i)"
      moreover have "LENGTH('a) - 1 - i + Suc k < LENGTH('a)" using that by linarith
      ultimately have "bit ?a' (LENGTH('a) - 1 - i + Suc k)"
        by (simp add: bit_push_bit_word del: push_bit_Suc)
      with True show False by simp
    qed
    then have "xor_sum ?f (LENGTH('a)) = xor_sum ?f (Suc k)"
      using less.prems by (intro xor_sum_extend) simp_all
    with True step show ?thesis by (simp add: crc_mul_def)
  qed
qed

lemma MulPoly_correct: "MulPoly poly a b = crc_mul poly a b"
  using mul_poly_loop_sum [of 0 poly a b] by (simp add: MulPoly_def)

lemma x2n_entry_correct:
  assumes "8 < LENGTH('a::len)"
  shows "x2n_entry poly i = crc_pow poly (8 * 2 ^ i) (crc_msb :: 'a word)"
proof (induction i)
  case 0
  have "\<not> bit (crc_msb :: 'a word) k" if "k < 8" for k
    using assms that unfolding bit_crc_msb by linarith
  then show ?case by (simp add: crc_pow_drop_bit)
next
  case (Suc i)
  then show ?case
    by (simp add: MulPoly_correct crc_mul_pow_msb crc_pow_add [symmetric] mult_2)
qed

lemma x_n_loop_correct:
  assumes "8 < LENGTH('a::len)" "\<forall>j < m. uX2N ! j = x2n_entry poly j" "uSize * 2 ^ i < 2 ^ m"
  shows "x_n_loop poly uX2N uSize i (crc_pow poly k (crc_msb :: 'a word))
    = crc_pow poly (8 * (uSize * 2 ^ i) + k) crc_msb"
  using assms(3)
proof (induction uSize arbitrary: i k rule: less_induct)
  case (less n)
  show ?case
  proof (cases "n = 0")
    case True
    then show ?thesis by (subst x_n_loop.simps) simp
  next
    case False
    then have "(2 :: nat) ^ i \<le> n * 2 ^ i" by simp
    then have "(2 :: nat) ^ i < 2 ^ m" using less.prems by linarith
    then have im: "i < m" by simp
    let ?r = "if odd n then MulPoly poly (crc_pow poly k crc_msb) (uX2N ! i) else crc_pow poly k crc_msb"
    have r: "?r = crc_pow poly (8 * ((n mod 2) * 2 ^ i) + k) crc_msb"
      using im assms(1,2)
      by (simp add: MulPoly_correct x2n_entry_correct crc_mul_pow_msb crc_pow_add [symmetric]
          odd_iff_mod_2_eq_one even_iff_mod_2_eq_zero add.commute)
    have "n div 2 * 2 \<le> n" by simp
    then have "n div 2 * 2 * 2 ^ i \<le> n * 2 ^ i" by (rule mult_le_mono1)
    moreover have "(n div 2) * 2 ^ Suc i = n div 2 * 2 * 2 ^ i" by simp
    ultimately have small: "(n div 2) * 2 ^ Suc i < 2 ^ m" using less.prems by linarith
    have "x_n_loop poly uX2N (n div 2) (Suc i) ?r
        = crc_pow poly (8 * ((n div 2) * 2 ^ Suc i) + (8 * ((n mod 2) * 2 ^ i) + k)) crc_msb"
      unfolding r by (rule less.IH [OF _ small]) (use False in simp)
    also have "8 * ((n div 2) * 2 ^ Suc i) + (8 * ((n mod 2) * 2 ^ i) + k) = 8 * (n * 2 ^ i) + k"
    proof -
      have "n * 2 ^ i = (n div 2 * 2 + n mod 2) * 2 ^ i" by simp
      then show ?thesis by (simp only: distrib_right power_Suc) simp
    qed
    finally show ?thesis using False by (subst x_n_loop.simps) simp
  qed
qed

definition x2n_table_ok :: "'a::len word \<Rightarrow> 'a word list \<Rightarrow> bool" where
  "x2n_table_ok poly uX2N \<longleftrightarrow> uX2N = map (x2n_entry poly) [0..<64]"

definition crc_table_ok :: "'a::len word \<Rightarrow> 'a word list \<Rightarrow> bool" where
  "crc_table_ok poly table \<longleftrightarrow> table = map (crc_table_entry poly) [0..<256]"

lemma ComputeX_N_correct:
  assumes "8 < LENGTH('a::len)" "x2n_table_ok poly uX2N" "uSize < 2 ^ 64"
  shows "ComputeX_N poly uX2N uSize = crc_pow poly (8 * uSize) (crc_msb :: 'a word)"
  using x_n_loop_correct [OF assms(1), of 64 uX2N poly uSize 0 0] assms(2,3)
  by (simp add: ComputeX_N_def x2n_table_ok_def)

text \<open>One table look-up multiplies by \<open>x\<close> eight times.\<close>

lemma crc_step_correct:
  fixes c :: "'a::len word"
  assumes "8 \<le> LENGTH('a)" "crc_table_ok poly table"
  shows "crc_step table c d = crc_pow poly 8 (c XOR ucast d)"
proof -
  let ?v = "c XOR ucast d"
  let ?lo = "ucast (ucast ?v :: byte) :: 'a word" and ?hi = "push_bit 8 (drop_bit 8 ?v) :: 'a word"
  have lo: "of_nat (unat (ucast ?v :: byte)) = ?lo" by (rule of_nat_unat)
  have split: "?v = ?hi XOR ?lo"
    by (rule bit_eqI) (auto simp: bit_xor_iff bit_push_bit_word bit_drop_bit_eq bit_ucast_iff)
  have hi: "crc_pow poly 8 ?hi = drop_bit 8 ?v"
  proof -
    have "crc_pow poly 8 ?hi = drop_bit 8 ?hi"
      by (rule crc_pow_drop_bit) (auto simp: bit_push_bit_word bit_xor_iff)
    also have "\<dots> = drop_bit 8 ?v"
      by (rule bit_eqI)
        (auto simp: bit_drop_bit_eq bit_push_bit_word bit_xor_iff dest: bit_imp_le_length)
    finally show ?thesis .
  qed
  have dv: "drop_bit 8 ?v = drop_bit 8 c"
    by (rule bit_eqI) (auto simp: bit_drop_bit_eq bit_xor_iff bit_ucast_iff dest: bit_imp_le_length)
  have "unat (ucast ?v :: byte) < 256" using unsigned_less [of "ucast ?v :: byte"] by simp
  then have "crc_step table c d = crc_pow poly 8 ?lo XOR drop_bit 8 c"
    using assms(2) by (simp add: crc_step_def crc_table_ok_def crc_table_entry_def lo)
  also have "drop_bit 8 c = crc_pow poly 8 ?hi" by (rule sym [OF trans [OF hi dv]])
  also have "crc_pow poly 8 ?lo XOR crc_pow poly 8 ?hi = crc_pow poly 8 ?hi XOR crc_pow poly 8 ?lo"
    by (rule xor.commute)
  also have "\<dots> = crc_pow poly 8 ?v" unfolding crc_pow_xor [symmetric] split [symmetric] ..
  finally show ?thesis .
qed

section \<open>Checksums of byte strings\<close>

text \<open>The reference: a bytewise fold of the linear map, between two complements.\<close>

primrec crc_fold :: "'a::len word \<Rightarrow> bytes \<Rightarrow> 'a word \<Rightarrow> 'a word" where
  "crc_fold poly [] c = c"
| "crc_fold poly (d # ds) c = crc_fold poly ds (crc_pow poly 8 (c XOR ucast d))"

lemma crc_fold_append: "crc_fold poly (xs @ ys) c = crc_fold poly ys (crc_fold poly xs c)"
  by (induction xs arbitrary: c) simp_all

lemma crc_fold_xor: "crc_fold poly xs (a XOR b) = crc_pow poly (8 * length xs) a XOR crc_fold poly xs b"
proof (induction xs arbitrary: a b)
  case (Cons d ds)
  have "crc_fold poly (d # ds) (a XOR b)
      = crc_fold poly ds (crc_pow poly 8 a XOR crc_pow poly 8 (b XOR ucast d))"
    by (simp only: crc_fold.simps xor.assoc crc_pow_xor)
  also have "\<dots> = crc_pow poly (8 * length ds) (crc_pow poly 8 a) XOR crc_fold poly (d # ds) b"
    by (simp only: Cons crc_fold.simps)
  also have "crc_pow poly (8 * length ds) (crc_pow poly 8 a) = crc_pow poly (8 * length (d # ds)) a"
    unfolding crc_pow_add [symmetric] by (simp add: add.commute)
  finally show ?case .
qed simp

lemma crc_fold_init: "crc_fold poly xs c = crc_pow poly (8 * length xs) c XOR crc_fold poly xs 0"
  using crc_fold_xor [of poly xs c 0] by simp

lemma foldl_crc_step:
  assumes "8 \<le> LENGTH('a::len)" "crc_table_ok poly (table :: 'a word list)"
  shows "foldl (crc_step table) c xs = crc_fold poly xs c"
  by (induction xs arbitrary: c) (simp_all add: crc_step_correct [OF assms])

lemma crc_unrolled_fold:
  assumes "n \<le> length p" "crc_unrolled table n p c = (n', p', c')"
  shows "n' \<le> n \<and> p' = drop (n - n') p \<and> c' = foldl (crc_step table) c (take (n - n') p)"
  using assms
proof (induction table n p c rule: crc_unrolled.induct)
  case (1 table n p c)
  show ?case
  proof (cases "n > 15")
    case False
    with "1.prems" show ?thesis by (simp add: crc_unrolled.simps [of table n])
  next
    case True
    with "1.prems" have "n - 16 \<le> length (drop 16 p)" "crc_unrolled table (n - 16) (drop 16 p)
        (foldl (crc_step table) c (take 16 p)) = (n', p', c')"
      by (simp_all add: crc_unrolled.simps [of table n])
    note IH = "1.IH" [OF True this]
    then have "n' \<le> n - 16" by blast
    with True have k: "n - n' = 16 + (n - 16 - n')" by linarith
    show ?thesis using IH True unfolding k take_add by (auto simp: add.commute)
  qed
qed

lemma crc_blocks_fold:
  assumes "n = length p" "crc_blocks table n p c = (n', p', c')"
  shows "n' = length p' \<and> foldl (crc_step table) c' (take n' p') = foldl (crc_step table) c p"
  using assms
proof (induction table n p c rule: crc_blocks.induct)
  case (1 table n p c)
  show ?case
  proof (cases "n > 15")
    case False
    with "1.prems" show ?thesis by (auto simp: crc_blocks.simps [of table "length p"])
  next
    case True
    let ?u = "min 0x80000000 n"
    obtain k p1 c1 where r: "crc_unrolled table ?u p c = (k, p1, c1)" by (cases "crc_unrolled table ?u p c")
    have "?u \<le> length p" using "1.prems" by simp
    from crc_unrolled_fold [OF this r]
    have u: "k \<le> ?u" "p1 = drop (?u - k) p" "c1 = foldl (crc_step table) c (take (?u - k) p)" by auto
    have rec: "crc_blocks table (n - ?u + k) p1 c1 = (n', p', c')"
      using "1.prems" True r by (simp add: crc_blocks.simps [of table "length p"] Let_def)
    have "n - ?u + k = length p1" using u "1.prems" by simp
    from "1.IH" [OF True refl refl] this rec r
    have "n' = length p' \<and> foldl (crc_step table) c' (take n' p') = foldl (crc_step table) c1 p1" by auto
    moreover have "foldl (crc_step table) c1 p1 = foldl (crc_step table) c p"
      unfolding u(2,3) by (metis append_take_drop_id foldl_append)
    ultimately show ?thesis by auto
  qed
qed

lemma crc_compute_fold:
  assumes "8 \<le> LENGTH('a::len)" "crc_table_ok poly (table :: 'a word list)"
  shows "crc_compute table xs c = NOT (crc_fold poly xs (NOT c))"
proof -
  obtain n p c' where r: "crc_blocks table (length xs) xs (NOT c) = (n, p, c')"
    by (cases "crc_blocks table (length xs) xs (NOT c)")
  from crc_blocks_fold [OF refl r]
  have "foldl (crc_step table) c' (take n p) = foldl (crc_step table) (NOT c) xs" by blast
  with r show ?thesis by (simp add: crc_compute_def foldl_crc_step [OF assms])
qed

text \<open>What the template guarantees for any polynomial, once its tables are initialised.\<close>

locale crc_instance =
  fixes poly :: "'a::len word" and table uX2N :: "'a word list"
  assumes wide: "8 < LENGTH('a)"
    and table_ok: "crc_table_ok poly table" and x2n_ok: "x2n_table_ok poly uX2N"
begin

lemma compute_append:
  "crc_compute table (xs @ ys) c = crc_compute table ys (crc_compute table xs c)"
  using wide by (simp add: crc_compute_fold [OF _ table_ok] crc_fold_append)

lemma mul_x_n:
  assumes "n < 2 ^ 64"
  shows "MulPoly poly (ComputeX_N poly uX2N n) b = crc_pow poly (8 * n) b"
    "MulPoly poly b (ComputeX_N poly uX2N n) = crc_pow poly (8 * n) b"
  by (simp_all add: ComputeX_N_correct [OF wide x2n_ok assms] MulPoly_correct crc_mul_pow_msb)

lemma concatenate_correct:
  assumes "length xs < 2 ^ 64" "length ys < 2 ^ 64"
  shows "concatenate poly uX2N ab a (crc_compute table xs a) (length xs) b (crc_compute table ys b) (length ys)
    = crc_compute table (xs @ ys) ab"
proof -
  note fold = crc_compute_fold [OF less_imp_le [OF wide] table_ok]
  have cancel: "crc_fold poly zs c XOR crc_pow poly (8 * length zs) c = crc_fold poly zs 0" for zs c
    by (subst crc_fold_init) (simp add: xor.commute xor.left_commute)
  have "MulPoly poly (NOT ab) (MulPoly poly (ComputeX_N poly uX2N (length xs)) (ComputeX_N poly uX2N (length ys)))
      = crc_pow poly (8 * length (xs @ ys)) (NOT ab)"
    by (simp add: ComputeX_N_correct [OF wide x2n_ok assms(1)] ComputeX_N_correct [OF wide x2n_ok assms(2)]
        MulPoly_correct crc_mul_pow_msb crc_pow_add [symmetric] distrib_left ac_simps)
  moreover have "crc_fold poly ys 0 XOR crc_pow poly (8 * length ys) (crc_fold poly xs 0)
      = crc_fold poly (xs @ ys) 0"
    by (simp add: crc_fold_append crc_fold_init [of poly ys "crc_fold poly xs 0"] xor.commute)
  ultimately show ?thesis
    unfolding concatenate_def Let_def fold
    by (simp add: mul_x_n [OF assms(1)] mul_x_n [OF assms(2)] cancel
        crc_fold_init [of poly "xs @ ys" "NOT ab"] xor.commute)
qed

lemma convert_initial_correct:
  assumes "length xs < 2 ^ 64"
  shows "ConvertInitialCrc poly uX2N new old (crc_compute table xs old) (length xs) = crc_compute table xs new"
proof -
  note fold = crc_compute_fold [OF less_imp_le [OF wide] table_ok]
  have n: "new XOR old = NOT new XOR NOT old" by (simp add: bit_eq_iff bit_xor_iff bit_not_iff)
  show ?thesis
    unfolding ConvertInitialCrc_def fold mul_x_n(1) [OF assms] n crc_pow_xor
      crc_fold_init [of poly xs "NOT new"] crc_fold_init [of poly xs "NOT old"]
    by (rule bit_eqI) (auto simp: bit_xor_iff bit_not_iff)
qed

end

end
