(* ===== verification/Crc_Tables.thy ===== *)
theory Crc_Tables
  imports Crc
begin

unbundle bit_operations_syntax

text \<open>
  The two instances of \<open>crc_generator\<close> in \<^verbatim>\<open>src/src/utils/crc.cpp\<close> with their literal tables,
  and the checksum functions exported to the rest of the system.
\<close>

section \<open>Model\<close>

definition BIT64 :: "nat \<Rightarrow> 64 word" where
  "BIT64 n = push_bit (63 - n) 1"

definition BIT32 :: "nat \<Rightarrow> 32 word" where
  "BIT32 n = push_bit (31 - n) 1"

definition crc64_POLY :: "64 word" where
  "crc64_POLY =
     BIT64 63 + BIT64 61 + BIT64 59 + BIT64 58 + BIT64 56 + BIT64 55 + BIT64 52 +
     BIT64 49 + BIT64 48 + BIT64 47 + BIT64 46 + BIT64 44 + BIT64 41 + BIT64 37 +
     BIT64 36 + BIT64 34 + BIT64 32 + BIT64 31 + BIT64 28 + BIT64 26 + BIT64 23 +
     BIT64 22 + BIT64 19 + BIT64 16 + BIT64 13 + BIT64 12 + BIT64 10 + BIT64 9 + BIT64 6 +
     BIT64 4 + BIT64 3 + BIT64 0"

definition crc32_POLY :: "32 word" where
  "crc32_POLY =
     BIT32 28 + BIT32 27 + BIT32 26 + BIT32 25 + BIT32 23 + BIT32 22 + BIT32 20 +
     BIT32 19 + BIT32 18 + BIT32 14 + BIT32 13 + BIT32 11 + BIT32 10 + BIT32 9 + BIT32 8 +
     BIT32 6 + BIT32 0"

definition crc32_uX2N :: "32 word list" where
  "crc32_uX2N =
    [0x00800000, 0x00008000, 0x82f63b78, 0x6ea2d55c, 0x18b8ea18, 0x510ac59a, 0xb82be955,
     0xb8fdb1e7, 0x88e56f72, 0x74c360a4, 0xe4172b16, 0x0d65762a, 0x35d73a62, 0x28461564,
     0xbf455269, 0xe2ea32dc, 0xfe7740e6, 0xf946610b, 0x3c204f8f, 0x538586e3, 0x59726915,
     0x734d5309, 0xbc1ac763, 0x7d0722cc, 0xd289cabe, 0xe94ca9bc, 0x05b74f3f, 0xa51e1f42,
     0x40000000, 0x20000000, 0x08000000, 0x00800000, 0x00008000, 0x82f63b78, 0x6ea2d55c,
     0x18b8ea18, 0x510ac59a, 0xb82be955, 0xb8fdb1e7, 0x88e56f72, 0x74c360a4, 0xe4172b16,
     0x0d65762a, 0x35d73a62, 0x28461564, 0xbf455269, 0xe2ea32dc, 0xfe7740e6, 0xf946610b,
     0x3c204f8f, 0x538586e3, 0x59726915, 0x734d5309, 0xbc1ac763, 0x7d0722cc, 0xd289cabe,
     0xe94ca9bc, 0x05b74f3f, 0xa51e1f42, 0x40000000, 0x20000000, 0x08000000, 0x00800000,
     0x00008000]"

definition crc32_table :: "32 word list" where
  "crc32_table =
    [0x00000000, 0xf26b8303, 0xe13b70f7, 0x1350f3f4, 0xc79a971f, 0x35f1141c, 0x26a1e7e8,
     0xd4ca64eb, 0x8ad958cf, 0x78b2dbcc, 0x6be22838, 0x9989ab3b, 0x4d43cfd0, 0xbf284cd3,
     0xac78bf27, 0x5e133c24, 0x105ec76f, 0xe235446c, 0xf165b798, 0x030e349b, 0xd7c45070,
     0x25afd373, 0x36ff2087, 0xc494a384, 0x9a879fa0, 0x68ec1ca3, 0x7bbcef57, 0x89d76c54,
     0x5d1d08bf, 0xaf768bbc, 0xbc267848, 0x4e4dfb4b, 0x20bd8ede, 0xd2d60ddd, 0xc186fe29,
     0x33ed7d2a, 0xe72719c1, 0x154c9ac2, 0x061c6936, 0xf477ea35, 0xaa64d611, 0x580f5512,
     0x4b5fa6e6, 0xb93425e5, 0x6dfe410e, 0x9f95c20d, 0x8cc531f9, 0x7eaeb2fa, 0x30e349b1,
     0xc288cab2, 0xd1d83946, 0x23b3ba45, 0xf779deae, 0x05125dad, 0x1642ae59, 0xe4292d5a,
     0xba3a117e, 0x4851927d, 0x5b016189, 0xa96ae28a, 0x7da08661, 0x8fcb0562, 0x9c9bf696,
     0x6ef07595, 0x417b1dbc, 0xb3109ebf, 0xa0406d4b, 0x522bee48, 0x86e18aa3, 0x748a09a0,
     0x67dafa54, 0x95b17957, 0xcba24573, 0x39c9c670, 0x2a993584, 0xd8f2b687, 0x0c38d26c,
     0xfe53516f, 0xed03a29b, 0x1f682198, 0x5125dad3, 0xa34e59d0, 0xb01eaa24, 0x42752927,
     0x96bf4dcc, 0x64d4cecf, 0x77843d3b, 0x85efbe38, 0xdbfc821c, 0x2997011f, 0x3ac7f2eb,
     0xc8ac71e8, 0x1c661503, 0xee0d9600, 0xfd5d65f4, 0x0f36e6f7, 0x61c69362, 0x93ad1061,
     0x80fde395, 0x72966096, 0xa65c047d, 0x5437877e, 0x4767748a, 0xb50cf789, 0xeb1fcbad,
     0x197448ae, 0x0a24bb5a, 0xf84f3859, 0x2c855cb2, 0xdeeedfb1, 0xcdbe2c45, 0x3fd5af46,
     0x7198540d, 0x83f3d70e, 0x90a324fa, 0x62c8a7f9, 0xb602c312, 0x44694011, 0x5739b3e5,
     0xa55230e6, 0xfb410cc2, 0x092a8fc1, 0x1a7a7c35, 0xe811ff36, 0x3cdb9bdd, 0xceb018de,
     0xdde0eb2a, 0x2f8b6829, 0x82f63b78, 0x709db87b, 0x63cd4b8f, 0x91a6c88c, 0x456cac67,
     0xb7072f64, 0xa457dc90, 0x563c5f93, 0x082f63b7, 0xfa44e0b4, 0xe9141340, 0x1b7f9043,
     0xcfb5f4a8, 0x3dde77ab, 0x2e8e845f, 0xdce5075c, 0x92a8fc17, 0x60c37f14, 0x73938ce0,
     0x81f80fe3, 0x55326b08, 0xa759e80b, 0xb4091bff, 0x466298fc, 0x1871a4d8, 0xea1a27db,
     0xf94ad42f, 0x0b21572c, 0xdfeb33c7, 0x2d80b0c4, 0x3ed04330, 0xccbbc033, 0xa24bb5a6,
     0x502036a5, 0x4370c551, 0xb11b4652, 0x65d122b9, 0x97baa1ba, 0x84ea524e, 0x7681d14d,
     0x2892ed69, 0xdaf96e6a, 0xc9a99d9e, 0x3bc21e9d, 0xef087a76, 0x1d63f975, 0x0e330a81,
     0xfc588982, 0xb21572c9, 0x407ef1ca, 0x532e023e, 0xa145813d, 0x758fe5d6, 0x87e466d5,
     0x94b49521, 0x66df1622, 0x38cc2a06, 0xcaa7a905, 0xd9f75af1, 0x2b9cd9f2, 0xff56bd19,
     0x0d3d3e1a, 0x1e6dcdee, 0xec064eed, 0xc38d26c4, 0x31e6a5c7, 0x22b65633, 0xd0ddd530,
     0x0417b1db, 0xf67c32d8, 0xe52cc12c, 0x1747422f, 0x49547e0b, 0xbb3ffd08, 0xa86f0efc,
     0x5a048dff, 0x8ecee914, 0x7ca56a17, 0x6ff599e3, 0x9d9e1ae0, 0xd3d3e1ab, 0x21b862a8,
     0x32e8915c, 0xc083125f, 0x144976b4, 0xe622f5b7, 0xf5720643, 0x07198540, 0x590ab964,
     0xab613a67, 0xb831c993, 0x4a5a4a90, 0x9e902e7b, 0x6cfbad78, 0x7fab5e8c, 0x8dc0dd8f,
     0xe330a81a, 0x115b2b19, 0x020bd8ed, 0xf0605bee, 0x24aa3f05, 0xd6c1bc06, 0xc5914ff2,
     0x37faccf1, 0x69e9f0d5, 0x9b8273d6, 0x88d28022, 0x7ab90321, 0xae7367ca, 0x5c18e4c9,
     0x4f48173d, 0xbd23943e, 0xf36e6f75, 0x0105ec76, 0x12551f82, 0xe03e9c81, 0x34f4f86a,
     0xc69f7b69, 0xd5cf889d, 0x27a40b9e, 0x79b737ba, 0x8bdcb4b9, 0x988c474d, 0x6ae7c44e,
     0xbe2da0a5, 0x4c4623a6, 0x5f16d052, 0xad7d5351]"

definition crc64_uX2N :: "64 word list" where
  "crc64_uX2N =
    [0x0080000000000000, 0x0000800000000000, 0x0000000080000000, 0x9a6c9329ac4bc9b5,
     0x10f4bb0f129310d6, 0x70f05dcea2ebd226, 0x311211205672822d, 0x2fc297db0f46c96e,
     0xca4d536fabf7da84, 0xfb4cdc3b379ee6ed, 0xea261148df25140a, 0x59ccb2c07aa6c9b4,
     0x20b3674a839af27a, 0x2d8e1986da94d583, 0x42cdf4c20337635d, 0x1d78724bf0f26839,
     0xb96c84e0afb34bd5, 0x5d2e1fcd2df0a3ea, 0xcd9506572332be42, 0x23bda2427f7d690f,
     0x347a953232374f07, 0x1c2a807ac2a8ceea, 0x9b92ad0e14fe1460, 0x2574114889f670b2,
     0x4a84a6c45e3bf520, 0x915bbac21cd1c7ff, 0xb0290ec579f291f5, 0xcf2548505c624e6e,
     0xb154f27bf08a8207, 0xce4e92344baf7d35, 0x51da8d7e057c5eb3, 0x9fb10823f5be15df,
     0x73b825b3ff1f71cf, 0x5db436c5406ebb74, 0xfa7ed8f3ec3f2bca, 0xc4d58efdc61b9ef6,
     0xa7e39e61e855bd45, 0x97ad46f9dd1bf2f1, 0x1a0abb01f853ee6b, 0x3f0827c3348f8215,
     0x4eb68c4506134607, 0x4a46f6de5df34e0a, 0x2d855d6a1c57a8dd, 0x8688da58e1115812,
     0x5232f417fc7c7300, 0xa4080fb2e767d8da, 0xd515a7e17693e562, 0x1181f7c862e94226,
     0x9e23cd058204ca91, 0x9b8992c57a0aed82, 0xb2c0afb84609b6ff, 0x2f7160553a5ea018,
     0x3cd378b5c99f2722, 0x814054ad61a3b058, 0xbf766189fce806d8, 0x85a5e898ac49f86f,
     0x34830d11bc84f346, 0x9644d95b173c8c1c, 0x150401ac9ac759b1, 0xebe1f7f46fb00eba,
     0x8ee4ce0c2e2bd662, 0x4000000000000000, 0x2000000000000000, 0x0800000000000000]"

definition crc64_table :: "64 word list" where
  "crc64_table =
    [0x0000000000000000, 0x7f6ef0c830358979, 0xfedde190606b12f2, 0x81b31158505e9b8b,
     0xc962e5739841b68f, 0xb60c15bba8743ff6, 0x37bf04e3f82aa47d, 0x48d1f42bc81f2d04,
     0xa61cecb46814fe75, 0xd9721c7c5821770c, 0x58c10d24087fec87, 0x27affdec384a65fe,
     0x6f7e09c7f05548fa, 0x1010f90fc060c183, 0x91a3e857903e5a08, 0xeecd189fa00bd371,
     0x78e0ff3b88be6f81, 0x078e0ff3b88be6f8, 0x863d1eabe8d57d73, 0xf953ee63d8e0f40a,
     0xb1821a4810ffd90e, 0xceecea8020ca5077, 0x4f5ffbd87094cbfc, 0x30310b1040a14285,
     0xdefc138fe0aa91f4, 0xa192e347d09f188d, 0x2021f21f80c18306, 0x5f4f02d7b0f40a7f,
     0x179ef6fc78eb277b, 0x68f0063448deae02, 0xe943176c18803589, 0x962de7a428b5bcf0,
     0xf1c1fe77117cdf02, 0x8eaf0ebf2149567b, 0x0f1c1fe77117cdf0, 0x7072ef2f41224489,
     0x38a31b04893d698d, 0x47cdebccb908e0f4, 0xc67efa94e9567b7f, 0xb9100a5cd963f206,
     0x57dd12c379682177, 0x28b3e20b495da80e, 0xa900f35319033385, 0xd66e039b2936bafc,
     0x9ebff7b0e12997f8, 0xe1d10778d11c1e81, 0x606216208142850a, 0x1f0ce6e8b1770c73,
     0x8921014c99c2b083, 0xf64ff184a9f739fa, 0x77fce0dcf9a9a271, 0x08921014c99c2b08,
     0x4043e43f0183060c, 0x3f2d14f731b68f75, 0xbe9e05af61e814fe, 0xc1f0f56751dd9d87,
     0x2f3dedf8f1d64ef6, 0x50531d30c1e3c78f, 0xd1e00c6891bd5c04, 0xae8efca0a188d57d,
     0xe65f088b6997f879, 0x9931f84359a27100, 0x1882e91b09fcea8b, 0x67ec19d339c963f2,
     0xd75adabd7a6e2d6f, 0xa8342a754a5ba416, 0x29873b2d1a053f9d, 0x56e9cbe52a30b6e4,
     0x1e383fcee22f9be0, 0x6156cf06d21a1299, 0xe0e5de5e82448912, 0x9f8b2e96b271006b,
     0x71463609127ad31a, 0x0e28c6c1224f5a63, 0x8f9bd7997211c1e8, 0xf0f5275142244891,
     0xb824d37a8a3b6595, 0xc74a23b2ba0eecec, 0x46f932eaea507767, 0x3997c222da65fe1e,
     0xafba2586f2d042ee, 0xd0d4d54ec2e5cb97, 0x5167c41692bb501c, 0x2e0934dea28ed965,
     0x66d8c0f56a91f461, 0x19b6303d5aa47d18, 0x980521650afae693, 0xe76bd1ad3acf6fea,
     0x09a6c9329ac4bc9b, 0x76c839faaaf135e2, 0xf77b28a2faafae69, 0x8815d86aca9a2710,
     0xc0c42c4102850a14, 0xbfaadc8932b0836d, 0x3e19cdd162ee18e6, 0x41773d1952db919f,
     0x269b24ca6b12f26d, 0x59f5d4025b277b14, 0xd846c55a0b79e09f, 0xa72835923b4c69e6,
     0xeff9c1b9f35344e2, 0x90973171c366cd9b, 0x1124202993385610, 0x6e4ad0e1a30ddf69,
     0x8087c87e03060c18, 0xffe938b633338561, 0x7e5a29ee636d1eea, 0x0134d92653589793,
     0x49e52d0d9b47ba97, 0x368bddc5ab7233ee, 0xb738cc9dfb2ca865, 0xc8563c55cb19211c,
     0x5e7bdbf1e3ac9dec, 0x21152b39d3991495, 0xa0a63a6183c78f1e, 0xdfc8caa9b3f20667,
     0x97193e827bed2b63, 0xe877ce4a4bd8a21a, 0x69c4df121b863991, 0x16aa2fda2bb3b0e8,
     0xf86737458bb86399, 0x8709c78dbb8deae0, 0x06bad6d5ebd3716b, 0x79d4261ddbe6f812,
     0x3105d23613f9d516, 0x4e6b22fe23cc5c6f, 0xcfd833a67392c7e4, 0xb0b6c36e43a74e9d,
     0x9a6c9329ac4bc9b5, 0xe50263e19c7e40cc, 0x64b172b9cc20db47, 0x1bdf8271fc15523e,
     0x530e765a340a7f3a, 0x2c608692043ff643, 0xadd397ca54616dc8, 0xd2bd67026454e4b1,
     0x3c707f9dc45f37c0, 0x431e8f55f46abeb9, 0xc2ad9e0da4342532, 0xbdc36ec59401ac4b,
     0xf5129aee5c1e814f, 0x8a7c6a266c2b0836, 0x0bcf7b7e3c7593bd, 0x74a18bb60c401ac4,
     0xe28c6c1224f5a634, 0x9de29cda14c02f4d, 0x1c518d82449eb4c6, 0x633f7d4a74ab3dbf,
     0x2bee8961bcb410bb, 0x548079a98c8199c2, 0xd53368f1dcdf0249, 0xaa5d9839ecea8b30,
     0x449080a64ce15841, 0x3bfe706e7cd4d138, 0xba4d61362c8a4ab3, 0xc52391fe1cbfc3ca,
     0x8df265d5d4a0eece, 0xf29c951de49567b7, 0x732f8445b4cbfc3c, 0x0c41748d84fe7545,
     0x6bad6d5ebd3716b7, 0x14c39d968d029fce, 0x95708ccedd5c0445, 0xea1e7c06ed698d3c,
     0xa2cf882d2576a038, 0xdda178e515432941, 0x5c1269bd451db2ca, 0x237c997575283bb3,
     0xcdb181ead523e8c2, 0xb2df7122e51661bb, 0x336c607ab548fa30, 0x4c0290b2857d7349,
     0x04d364994d625e4d, 0x7bbd94517d57d734, 0xfa0e85092d094cbf, 0x856075c11d3cc5c6,
     0x134d926535897936, 0x6c2362ad05bcf04f, 0xed9073f555e26bc4, 0x92fe833d65d7e2bd,
     0xda2f7716adc8cfb9, 0xa54187de9dfd46c0, 0x24f29686cda3dd4b, 0x5b9c664efd965432,
     0xb5517ed15d9d8743, 0xca3f8e196da80e3a, 0x4b8c9f413df695b1, 0x34e26f890dc31cc8,
     0x7c339ba2c5dc31cc, 0x035d6b6af5e9b8b5, 0x82ee7a32a5b7233e, 0xfd808afa9582aa47,
     0x4d364994d625e4da, 0x3258b95ce6106da3, 0xb3eba804b64ef628, 0xcc8558cc867b7f51,
     0x8454ace74e645255, 0xfb3a5c2f7e51db2c, 0x7a894d772e0f40a7, 0x05e7bdbf1e3ac9de,
     0xeb2aa520be311aaf, 0x944455e88e0493d6, 0x15f744b0de5a085d, 0x6a99b478ee6f8124,
     0x224840532670ac20, 0x5d26b09b16452559, 0xdc95a1c3461bbed2, 0xa3fb510b762e37ab,
     0x35d6b6af5e9b8b5b, 0x4ab846676eae0222, 0xcb0b573f3ef099a9, 0xb465a7f70ec510d0,
     0xfcb453dcc6da3dd4, 0x83daa314f6efb4ad, 0x0269b24ca6b12f26, 0x7d0742849684a65f,
     0x93ca5a1b368f752e, 0xeca4aad306bafc57, 0x6d17bb8b56e467dc, 0x12794b4366d1eea5,
     0x5aa8bf68aecec3a1, 0x25c64fa09efb4ad8, 0xa4755ef8cea5d153, 0xdb1bae30fe90582a,
     0xbcf7b7e3c7593bd8, 0xc399472bf76cb2a1, 0x422a5673a732292a, 0x3d44a6bb9707a053,
     0x759552905f188d57, 0x0afba2586f2d042e, 0x8b48b3003f739fa5, 0xf42643c80f4616dc,
     0x1aeb5b57af4dc5ad, 0x6585ab9f9f784cd4, 0xe436bac7cf26d75f, 0x9b584a0fff135e26,
     0xd389be24370c7322, 0xace74eec0739fa5b, 0x2d545fb4576761d0, 0x523aaf7c6752e8a9,
     0xc41748d84fe75459, 0xbb79b8107fd2dd20, 0x3acaa9482f8c46ab, 0x45a459801fb9cfd2,
     0x0d75adabd7a6e2d6, 0x721b5d63e7936baf, 0xf3a84c3bb7cdf024, 0x8cc6bcf387f8795d,
     0x620ba46c27f3aa2c, 0x1d6554a417c62355, 0x9cd645fc4798b8de, 0xe3b8b53477ad31a7,
     0xab69411fbfb21ca3, 0xd407b1d78f8795da, 0x55b4a08fdfd90e51, 0x2ada5047efec8728]"

definition crc32_calc :: "bytes \<Rightarrow> 32 word \<Rightarrow> 32 word" where
  "crc32_calc ptr init_crc = crc_compute crc32_table ptr init_crc"

definition crc64_calc :: "bytes \<Rightarrow> 64 word \<Rightarrow> 64 word" where
  "crc64_calc ptr init_crc = crc_compute crc64_table ptr init_crc"

text \<open>Both functions pass zero instead of their first argument on to \<open>concatenate\<close>.\<close>

definition crc32_concat :: "32 word \<Rightarrow> 32 word \<Rightarrow> 32 word \<Rightarrow> nat \<Rightarrow> 32 word \<Rightarrow> 32 word \<Rightarrow> nat \<Rightarrow> 32 word" where
  "crc32_concat xy_init x_init x_final x_size y_init y_final y_size =
     concatenate crc32_POLY crc32_uX2N 0 x_init x_final x_size y_init y_final y_size"

definition crc64_concat :: "32 word \<Rightarrow> 64 word \<Rightarrow> 64 word \<Rightarrow> nat \<Rightarrow> 64 word \<Rightarrow> 64 word \<Rightarrow> nat \<Rightarrow> 64 word" where
  "crc64_concat xy_init x_init x_final x_size y_init y_final y_size =
     concatenate crc64_POLY crc64_uX2N 0 x_init x_final x_size y_init y_final y_size"

section \<open>The literal tables\<close>

text \<open>Multiplication in Horner form, from the low end of the first factor.\<close>

primrec mul_horner :: "'a::len word \<Rightarrow> 'a word \<Rightarrow> nat \<Rightarrow> 'a word \<Rightarrow> 'a word \<Rightarrow> 'a word" where
  "mul_horner poly b 0 a acc = acc"
| "mul_horner poly b (Suc n) a acc =
     mul_horner poly b n (drop_bit 1 a) (if odd a then crc_shift poly acc XOR b else crc_shift poly acc)"

lemma crc_shift_xor_sum: "crc_shift poly (xor_sum f n) = xor_sum (\<lambda>i. crc_shift poly (f i)) n"
  using crc_pow_xor_sum [of 1 poly f n] by simp

lemma xor_sum_Suc_left: "xor_sum f (Suc n) = f 0 XOR xor_sum (\<lambda>i. f (Suc i)) n"
  by (induction n) (simp_all add: xor.assoc)

lemma mul_horner_sum:
  fixes a :: "'a::len word"
  assumes "k + n \<le> LENGTH('a)"
  shows "mul_horner poly b n (drop_bit k a)
      (xor_sum (\<lambda>i. if bit a (k - 1 - i) then crc_pow poly i b else 0) k)
    = xor_sum (\<lambda>i. if bit a (k + n - 1 - i) then crc_pow poly i b else 0) (k + n)"
  using assms
proof (induction n arbitrary: k)
  case (Suc n)
  let ?f = "\<lambda>k i. if bit a (k - 1 - i) then crc_pow poly i b else 0"
  have "xor_sum (?f (Suc k)) (Suc k) = (if bit a k then b else 0) XOR xor_sum (\<lambda>i. ?f (Suc k) (Suc i)) k"
    unfolding xor_sum_Suc_left by simp
  also have "xor_sum (\<lambda>i. ?f (Suc k) (Suc i)) k = crc_shift poly (xor_sum (?f k) k)"
    unfolding crc_shift_xor_sum by (rule xor_sum_cong) simp
  finally have acc: "(if odd (drop_bit k a) then crc_shift poly (xor_sum (?f k) k) XOR b
      else crc_shift poly (xor_sum (?f k) k)) = xor_sum (?f (Suc k)) (Suc k)"
    by (simp add: bit_iff_odd_drop_bit [symmetric] xor.commute)
  have "mul_horner poly b (Suc n) (drop_bit k a) (xor_sum (?f k) k)
      = mul_horner poly b n (drop_bit (Suc k) a) (xor_sum (?f (Suc k)) (Suc k))"
    by (simp only: mul_horner.simps acc drop_bit_drop_bit plus_1_eq_Suc)
  also have "\<dots> = xor_sum (\<lambda>i. if bit a (Suc k + n - 1 - i) then crc_pow poly i b else 0) (Suc k + n)"
    using Suc.prems by (intro Suc.IH) simp
  finally show ?case by simp
qed simp

lemma MulPoly_horner: "MulPoly poly a b = mul_horner poly b (LENGTH('a)) (a :: 'a::len word) 0"
  using mul_horner_sum [where k = 0 and n = "LENGTH('a)" and a = a and b = b and poly = poly] by (simp add: MulPoly_correct crc_mul_def)

fun square_chain :: "'a::len word \<Rightarrow> 'a word list \<Rightarrow> bool" where
  "square_chain poly (x # y # zs) \<longleftrightarrow> MulPoly poly x x = y \<and> square_chain poly (y # zs)"
| "square_chain poly zs \<longleftrightarrow> True"

lemma square_chain_x2n:
  "square_chain poly (x # xs) \<Longrightarrow> x = x2n_entry poly k \<Longrightarrow>
   x # xs = map (x2n_entry poly) [k..<k + length (x # xs)]"
proof (induction xs arbitrary: x k)
  case (Cons y ys)
  then have y: "y = x2n_entry poly (Suc k)" "square_chain poly (y # ys)" by simp_all
  from Cons.IH [OF y(2,1)] have "y # ys = map (x2n_entry poly) [Suc k..<Suc k + length (y # ys)]" .
  with Cons.prems(2) show ?case by (simp add: upt_conv_Cons del: upt_Suc)
qed simp

lemma x2n_table_okI:
  assumes "square_chain poly xs" "length xs = 64" "hd xs = drop_bit 8 crc_msb"
  shows "x2n_table_ok poly xs"
proof (cases xs)
  case (Cons x ys)
  with square_chain_x2n [of poly x ys 0] assms(1,3)
  have "xs = map (x2n_entry poly) [0..<0 + length xs]" by (simp del: upt_Suc)
  then show ?thesis unfolding x2n_table_ok_def assms(2) by simp
qed (use assms in simp)

text \<open>The byte table is linear, so it is determined by its entries at powers of two.\<close>

definition grow_table :: "'a::len word list \<Rightarrow> 'a word \<Rightarrow> 'a word list" where
  "grow_table t b = t @ map (\<lambda>x. b XOR x) t"

lemma crc_table_entry_split:
  assumes "j < 2 ^ k"
  shows "crc_table_entry poly (2 ^ k + j) = crc_table_entry poly (2 ^ k) XOR (crc_table_entry poly j :: 'a::len word)"
proof -
  have "(2 ^ k + j) = (2 ^ k :: nat) XOR j"
  proof (rule disjunctive_add_eq_xor, rule bit_eqI)
    fix n
    have "\<not> bit j k" using assms by (simp add: bit_iff_odd)
    then show "bit ((2 ^ k :: nat) AND j) n = bit (0 :: nat) n"
      by (auto simp: bit_and_iff bit_exp_iff)
  qed
  then have "(of_nat (2 ^ k + j) :: 'a word) = of_nat (2 ^ k) XOR of_nat j"
    by (simp add: of_nat_xor_eq)
  then show ?thesis by (simp only: crc_table_entry_def crc_pow_xor)
qed

lemma grow_table_entries:
  "map (crc_table_entry poly) [0..<2 ^ Suc k]
    = grow_table (map (crc_table_entry poly) [0..<2 ^ k]) (crc_table_entry poly (2 ^ k))"
proof -
  have "[0..<2 ^ Suc k] = [0..<2 ^ k] @ map (\<lambda>j. 2 ^ k + j) [0..<2 ^ k]"
    by (rule nth_equalityI) (auto simp: nth_append)
  then show ?thesis by (simp add: grow_table_def crc_table_entry_split)
qed

lemma crc_table_okI:
  assumes "xs = foldl grow_table [0] (map (\<lambda>k. (crc_shift poly ^^ 8) (2 ^ k)) [0..<8])"
  shows "crc_table_ok poly xs"
proof -
  have "foldl grow_table [0] (map (\<lambda>k. crc_table_entry poly (2 ^ k)) [0..<n])
      = map (crc_table_entry poly) [0..<2 ^ n]" for n
  proof (induction n)
    case 0
    show ?case by (simp add: crc_table_entry_def)
  next
    case (Suc n)
    then show ?case by (simp only: grow_table_entries) simp
  qed
  from this [of 8] assms show ?thesis
    by (simp add: crc_table_ok_def crc_table_entry_def)
qed

lemma crc64_POLY_value: "crc64_POLY = 0x9a6c9329ac4bc9b5"
  by (simp add: crc64_POLY_def BIT64_def)

lemma crc32_POLY_value: "crc32_POLY = 0x82f63b78"
  by (simp add: crc32_POLY_def BIT32_def)

lemma upt_8: "[0..<8] = [0, 1, 2, 3, 4, 5, 6, 7 :: nat]"
  by (simp add: upt_rec)

lemma funpow_8: "(f ^^ 8) x = f (f (f (f (f (f (f (f x)))))))"
  by (simp add: eval_nat_numeral)

lemma crc_basis32:
  "map (\<lambda>k. (crc_shift crc32_POLY ^^ 8) (2 ^ k)) [0..<8] =
    [0xf26b8303, 0xe13b70f7, 0xc79a971f, 0x8ad958cf, 0x105ec76f, 0x20bd8ede, 0x417b1dbc, 0x82f63b78]"
  unfolding upt_8 funpow_8 crc32_POLY_value by (simp add: crc_shift_def)

lemma crc32_table_ok: "crc_table_ok crc32_POLY crc32_table"
proof (rule crc_table_okI)
  show "crc32_table = foldl grow_table [0] (map (\<lambda>k. (crc_shift crc32_POLY ^^ 8) (2 ^ k)) [0..<8])"
    unfolding crc_basis32 by (simp add: grow_table_def crc32_table_def)
qed

lemma crc_basis64:
  "map (\<lambda>k. (crc_shift crc64_POLY ^^ 8) (2 ^ k)) [0..<8] =
    [0x7f6ef0c830358979, 0xfedde190606b12f2, 0xc962e5739841b68f, 0xa61cecb46814fe75,
     0x78e0ff3b88be6f81, 0xf1c1fe77117cdf02, 0xd75adabd7a6e2d6f, 0x9a6c9329ac4bc9b5]"
  unfolding upt_8 funpow_8 crc64_POLY_value by (simp add: crc_shift_def)

lemma crc64_table_ok: "crc_table_ok crc64_POLY crc64_table"
proof (rule crc_table_okI)
  show "crc64_table = foldl grow_table [0] (map (\<lambda>k. (crc_shift crc64_POLY ^^ 8) (2 ^ k)) [0..<8])"
    unfolding crc_basis64 by (simp add: grow_table_def crc64_table_def)
qed

text \<open>The same computation on natural numbers, which the simplifier evaluates quickly.\<close>

primrec horner_nat :: "nat \<Rightarrow> nat \<Rightarrow> nat \<Rightarrow> nat \<Rightarrow> nat \<Rightarrow> nat" where
  "horner_nat p b 0 a acc = acc"
| "horner_nat p b (Suc n) a acc = horner_nat p b n (a div 2)
     ((if odd acc then acc div 2 XOR p else acc div 2) XOR (if odd a then b else 0))"

lemma horner_nat_numeral:
  "horner_nat p b (numeral n) a acc = horner_nat p b (pred_numeral n) (a div 2)
     ((if odd acc then acc div 2 XOR p else acc div 2) XOR (if odd a then b else 0))"
  by (simp add: numeral_eq_Suc)

lemma drop_bit_1_of_nat:
  assumes "a < 2 ^ LENGTH('a::len)"
  shows "drop_bit 1 (of_nat a :: 'a word) = of_nat (a div 2)"
proof (rule bit_eqI)
  fix i
  assume "possible_bit TYPE('a word) i"
  then have i: "i < LENGTH('a)" by simp
  have "\<not> bit a (LENGTH('a))" using assms by (simp add: bit_iff_odd)
  then have "Suc i < LENGTH('a)" if "bit a (Suc i)" using that i by (cases "Suc i = LENGTH('a)") auto
  moreover have "bit (a div 2) i = bit a (Suc i)" by (simp add: bit_Suc)
  ultimately show "bit (drop_bit 1 (of_nat a :: 'a word)) i = bit (of_nat (a div 2) :: 'a word) i"
    using i by (auto simp: bit_drop_bit_eq bit_of_nat_iff)
qed

lemma xor_nat_less: "m < 2 ^ k \<Longrightarrow> n < 2 ^ k \<Longrightarrow> m XOR n < (2 ^ k :: nat)"
  by (metis take_bit_nat_eq_self take_bit_nat_less_exp take_bit_xor)

lemma mul_horner_nat:
  assumes "p < 2 ^ LENGTH('a::len)" "b < 2 ^ LENGTH('a)" "a < 2 ^ LENGTH('a)" "acc < 2 ^ LENGTH('a)"
  shows "mul_horner (of_nat p :: 'a word) (of_nat b) n (of_nat a) (of_nat acc) = of_nat (horner_nat p b n a acc)"
  using assms(3,4)
proof (induction n arbitrary: a acc)
  case (Suc n)
  let ?s = "if odd acc then acc div 2 XOR p else acc div 2"
  have one: "(of_nat acc :: 'a word) AND 1 = 1 \<longleftrightarrow> odd acc" by (simp add: and_one_eq mod_2_eq_odd)
  have s: "crc_shift (of_nat p) (of_nat acc :: 'a word) = of_nat ?s"
    unfolding crc_shift_def one drop_bit_1_of_nat [OF Suc.prems(2)] by (simp add: of_nat_xor_eq)
  have small: "acc div 2 < 2 ^ LENGTH('a)" "a div 2 < 2 ^ LENGTH('a)" using Suc.prems by auto
  have "?s < 2 ^ LENGTH('a)" using small assms(1) by (simp add: xor_nat_less)
  then have "?s XOR (if odd a then b else 0) < 2 ^ LENGTH('a)" using assms(2) by (simp add: xor_nat_less)
  moreover have "(if odd (of_nat a :: 'a word) then of_nat ?s XOR of_nat b else of_nat ?s)
      = (of_nat (?s XOR (if odd a then b else 0)) :: 'a word)"
    by (simp add: of_nat_xor_eq)
  ultimately show ?case
    using Suc.IH [OF small(2), of "?s XOR (if odd a then b else 0)"]
    by (simp only: mul_horner.simps horner_nat.simps s drop_bit_1_of_nat [OF Suc.prems(1)])
qed simp

lemma MulPoly_nat:
  assumes "p < 2 ^ LENGTH('a::len)" "b < 2 ^ LENGTH('a)" "a < 2 ^ LENGTH('a)"
  shows "MulPoly (of_nat p :: 'a word) (of_nat a) (of_nat b) = of_nat (horner_nat p b (LENGTH('a)) a 0)"
  using mul_horner_nat [OF assms, of 0 "LENGTH('a)"] by (simp add: MulPoly_horner)

lemma MulPoly_numeral64:
  assumes "numeral p < (2 ^ 64 :: nat)" "numeral a < (2 ^ 64 :: nat)"
  shows "MulPoly (numeral p :: 64 word) (numeral a) (numeral a)
     = of_nat (horner_nat (numeral p) (numeral a) 64 (numeral a) 0)"
  using MulPoly_nat [where 'a = 64, of "numeral p" "numeral a" "numeral a"] assms by simp

lemma MulPoly_numeral32:
  assumes "numeral p < (2 ^ 32 :: nat)" "numeral a < (2 ^ 32 :: nat)"
  shows "MulPoly (numeral p :: 32 word) (numeral a) (numeral a)
     = of_nat (horner_nat (numeral p) (numeral a) 32 (numeral a) 0)"
  using MulPoly_nat [where 'a = 32, of "numeral p" "numeral a" "numeral a"] assms by simp
lemma crc32_uX2N_ok: "x2n_table_ok crc32_POLY crc32_uX2N"
proof (rule x2n_table_okI)
  show "square_chain crc32_POLY crc32_uX2N"
    by (simp add: crc32_uX2N_def crc32_POLY_value MulPoly_numeral32 horner_nat_numeral)
qed (simp_all add: crc32_uX2N_def crc_msb_def)

lemma crc64_uX2N_ok: "x2n_table_ok crc64_POLY crc64_uX2N"
proof (rule x2n_table_okI)
  show "square_chain crc64_POLY crc64_uX2N"
    by (simp add: crc64_uX2N_def crc64_POLY_value MulPoly_numeral64 horner_nat_numeral)
qed (simp_all add: crc64_uX2N_def crc_msb_def)

section \<open>The exported functions\<close>

interpretation crc32: crc_instance crc32_POLY crc32_table crc32_uX2N
  by unfold_locales (simp_all add: crc32_table_ok crc32_uX2N_ok)

interpretation crc64: crc_instance crc64_POLY crc64_table crc64_uX2N
  by unfold_locales (simp_all add: crc64_table_ok crc64_uX2N_ok)

text \<open>
  C27.
  The literal tables of the source are the ones \<open>InitializeTables\<close> would compute, and the
  unrolled, table-driven \<open>crc64_calc\<close> is the bytewise long division by the polynomial:
  starting from the complemented initial value, every byte is added and the remainder is
  multiplied by \<open>x\<close> eight times, and the result is complemented.
\<close>

theorem crc64_calc_reference:
  "crc64_calc data init = NOT (crc_fold crc64_POLY data (NOT init)) \<and>
   crc64_table = map (crc_table_entry crc64_POLY) [0..<256] \<and>
   crc64_uX2N = map (x2n_entry crc64_POLY) [0..<64]"
  using crc64_table_ok crc64_uX2N_ok
  by (simp only: crc64_calc_def crc_compute_fold [OF less_imp_le [OF crc64.wide] crc64_table_ok]
      crc_table_ok_def x2n_table_ok_def simp_thms)

text \<open>
  C28.
  \<open>crc32_concat\<close> and \<open>crc64_concat\<close> compute the checksum of a concatenation from the
  checksums of the parts, without the data, for any initial values of the parts. The
  result is the checksum with initial value zero whatever \<open>xy_init\<close> is passed.
\<close>

theorem crc_concat_correct:
  assumes "length xs < 2 ^ 64" "length ys < 2 ^ 64"
  shows "crc64_concat xy_init a (crc64_calc xs a) (length xs) b (crc64_calc ys b) (length ys)
      = crc64_calc (xs @ ys) 0 \<and>
    crc32_concat xy_init c (crc32_calc xs c) (length xs) d (crc32_calc ys d) (length ys)
      = crc32_calc (xs @ ys) 0"
  unfolding crc64_concat_def crc64_calc_def crc32_concat_def crc32_calc_def
  by (intro conjI crc64.concatenate_correct [OF assms] crc32.concatenate_correct [OF assms])

lemma crc64_calc_Nil: "crc64_calc [] init = init"
  by (simp add: crc64_calc_def crc_compute_fold [OF less_imp_le [OF crc64.wide] crc64_table_ok])

theorem crc_concat_correct_witness:
  "crc64_concat 1 5 (crc64_calc [2] 5) 1 6 (crc64_calc [3] 6) 1 = crc64_calc [2, 3] 0 \<and>
   crc64_concat 1 0 (crc64_calc [] 0) 0 0 (crc64_calc [] 0) 0 \<noteq> crc64_calc ([] @ []) 1"
proof -
  have "crc64_concat 1 0 (crc64_calc [] 0) 0 0 (crc64_calc [] 0) 0 = crc64_calc ([] @ []) 0"
    using crc_concat_correct [where xs = "[]" and ys = "[]" and xy_init = 1 and a = 0 and b = 0] by simp
  moreover have "crc64_concat 1 5 (crc64_calc [2] 5) 1 6 (crc64_calc [3] 6) 1 = crc64_calc [2, 3] 0"
    using crc_concat_correct [where xs = "[2]" and ys = "[3]" and xy_init = 1 and a = 5 and b = 6] by simp
  ultimately show ?thesis by (simp add: crc64_calc_Nil)
qed

end
