(* ===== verification/Key_Schema.thy ===== *)
theory Key_Schema
  imports Byte_Codec Crc_Tables "HOL-Library.Sublist"
begin

unbundle bit_operations_syntax

text \<open>
  The layout of the keys in the storage engine (\<^verbatim>\<open>src/src/base/pegasus_key_schema.h\<close>): the
  length of the hash key in two bytes, the hash key and the sort key. The hash of a key
  decides which partition serves it; the next key bounds the range of a scan.
\<close>

section \<open>Model\<close>

definition pegasus_generate_key :: "bytes \<Rightarrow> bytes \<Rightarrow> bytes result" where
  "pegasus_generate_key hash_key sortkey =
     bind_result (check (length hash_key < 65535) ''CHECK_LT(hash_key.length(), UINT16_MAX)'') (\<lambda>_.
       if 2 + length hash_key + length sortkey \<ge> 2 ^ 31 then Inl (Out_of_bounds ''make_shared_array'')
       else Inr (be_bytes 2 (length hash_key) @ hash_key @ sortkey))"

text \<open>
  The adjacent next key: the trailing 0xFF bytes are dropped and the byte before them is
  incremented. The pointer must not run out of the buffer.
\<close>

definition increment_last :: "bytes \<Rightarrow> bytes result" where
  "increment_last buf =
     (case dropWhile (\<lambda>b. b = 0xFF) (rev buf) of
        [] \<Rightarrow> Inl (Out_of_bounds ''next_blob'')
      | b # rest \<Rightarrow> Inr (rev ((b + 1) # rest)))"

definition pegasus_generate_next_blob :: "bytes \<Rightarrow> bytes result" where
  "pegasus_generate_next_blob hash_key =
     bind_result (check (length hash_key < 65535) ''CHECK_LT(hash_key.length(), UINT16_MAX)'') (\<lambda>_.
       increment_last (be_bytes 2 (length hash_key) @ hash_key))"

definition pegasus_generate_next_blob_sort :: "bytes \<Rightarrow> bytes \<Rightarrow> bytes result" where
  "pegasus_generate_next_blob_sort hash_key sortkey =
     bind_result (pegasus_generate_key hash_key sortkey) increment_last"

definition pegasus_restore_key :: "bytes \<Rightarrow> (bytes \<times> bytes) result" where
  "pegasus_restore_key key =
     bind_result (check (length key \<ge> 2) ''CHECK_GE(key.length(), 2)'') (\<lambda>_.
       let hash_key_len = be_value (take 2 key)
       in bind_result (if hash_key_len > 0
                       then bind_result (check (length key \<ge> 2 + hash_key_len) ''CHECK_GE'') (\<lambda>_.
                              Inr (take hash_key_len (drop 2 key)))
                       else Inr []) (\<lambda>hash_key.
          Inr (hash_key, if length key > 2 + hash_key_len then drop (2 + hash_key_len) key else [])))"

definition pegasus_key_hash :: "bytes \<Rightarrow> 64 word result" where
  "pegasus_key_hash key =
     bind_result (check (length key \<ge> 2) ''CHECK_GE(key.size(), 2)'') (\<lambda>_.
       let hash_key_len = be_value (take 2 key)
       in if hash_key_len > 0
          then bind_result (check (length key \<ge> 2 + hash_key_len) ''CHECK_GE'') (\<lambda>_.
                 Inr (crc64_calc (take hash_key_len (drop 2 key)) 0))
          else Inr (crc64_calc (drop 2 key) 0))"

definition pegasus_hash_key_hash :: "bytes \<Rightarrow> 64 word" where
  "pegasus_hash_key_hash hash_key = crc64_calc hash_key 0"

text \<open>Both signed 32-bit arguments are converted to unsigned 64-bit numbers.\<close>

definition check_pegasus_key_hash :: "bytes \<Rightarrow> 32 word \<Rightarrow> 32 word \<Rightarrow> bool result" where
  "check_pegasus_key_hash key pidx partition_version =
     bind_result (pegasus_key_hash key) (\<lambda>hash. Inr (hash AND scast partition_version = scast pidx))"

section \<open>Round trip and order\<close>

lemma be_value_length_prefix:
  assumes "length hk < 65535"
  shows "be_value (take 2 (be_bytes 2 (length hk) @ xs)) = length hk"
  using assms be_value_be_bytes [of "length hk" 2] by simp

lemma generate_key_eq:
  assumes "length hk < 65535" "2 + length hk + length sk < 2 ^ 31"
  shows "pegasus_generate_key hk sk = Inr (be_bytes 2 (length hk) @ hk @ sk)"
  using assms by (simp add: pegasus_generate_key_def)

lemma generate_key_Inr:
  "pegasus_generate_key hk sk = Inr k \<longleftrightarrow>
     length hk < 65535 \<and> 2 + length hk + length sk < 2 ^ 31 \<and> k = be_bytes 2 (length hk) @ hk @ sk"
  by (auto simp: pegasus_generate_key_def result_simps)

text \<open>
  C25.
  A generated key can be split again into exactly the hash key and the sort key it was made
  of, and it orders the records of one hash key by their sort keys.
\<close>

theorem restore_generate_key:
  assumes "length hash_key < 65535" "2 + length hash_key + length sortkey < 2 ^ 31"
    "2 + length hash_key + length sortkey' < 2 ^ 31"
  shows "\<exists>key key'. pegasus_generate_key hash_key sortkey = Inr key \<and>
    pegasus_generate_key hash_key sortkey' = Inr key' \<and>
    pegasus_restore_key key = Inr (hash_key, sortkey) \<and> (key < key' \<longleftrightarrow> sortkey < sortkey')"
proof -
  let ?p = "be_bytes 2 (length hash_key)"
  have "pegasus_restore_key (?p @ hash_key @ sortkey) = Inr (hash_key, sortkey)"
    using be_value_length_prefix [OF assms(1), of "hash_key @ sortkey"]
    by (simp add: pegasus_restore_key_def Let_def)
  moreover have "?p @ hash_key @ sortkey < ?p @ hash_key @ sortkey' \<longleftrightarrow> sortkey < sortkey'"
    by (simp only: append_less_append)
  ultimately show ?thesis
    using generate_key_eq [OF assms(1,2)] generate_key_eq [OF assms(1,3)] by blast
qed

theorem restore_generate_key_witness:
  "\<exists>key. pegasus_generate_key [7] [1, 2] = Inr key \<and> pegasus_restore_key key = Inr ([7], [1, 2])"
  using restore_generate_key [of "[7]" "[1, 2]" "[1, 3]"] by auto

section \<open>The next key\<close>

lemma byte_le_max: "(b :: byte) \<le> 0xFF"
  by (simp add: word_le_nat_alt) (use unat_word_less [of b] in simp)

lemma byte_Suc:
  assumes "(b :: byte) \<noteq> 0xFF"
  shows "x < b + 1 \<longleftrightarrow> x \<le> b" "b < b + 1"
proof -
  have "unat b \<noteq> 255" using assms by (metis (mono_tags) of_nat_numeral of_nat_unat ucast_id)
  then have "unat b < 255" using unat_word_less [of b] by simp
  then have "unat (b + 1) = unat b + 1" by (subst unat_add_lem [THEN iffD1]) simp_all
  then show "x < b + 1 \<longleftrightarrow> x \<le> b" "b < b + 1"
    by (simp_all add: word_less_nat_alt word_le_nat_alt less_Suc_eq_le)
qed

lemma increment_last_total:
  assumes "\<not> (\<forall>b \<in> set buf. b = 0xFF)"
  shows "\<exists>nxt. increment_last buf = Inr nxt"
proof (cases "dropWhile (\<lambda>b. b = 0xFF) (rev buf)")
  case Nil
  with assms show ?thesis by (simp only: dropWhile_eq_Nil_conv set_rev)
qed (simp add: increment_last_def)

lemma increment_last_split:
  assumes "increment_last buf = Inr nxt"
  obtains pre b n where "buf = pre @ [b] @ replicate n 0xFF" "b \<noteq> 0xFF" "nxt = pre @ [b + 1]"
proof -
  from assms obtain b rest where d: "dropWhile (\<lambda>b. b = 0xFF) (rev buf) = b # rest"
    and nxt: "nxt = rev rest @ [b + 1]"
    by (auto simp: increment_last_def split: list.splits)
  let ?ff = "takeWhile (\<lambda>b. b = 0xFF) (rev buf)"
  have ff: "replicate (length ?ff) 0xFF = ?ff"
    by (rule replicate_length_same) (auto dest: set_takeWhileD)
  have "rev buf = ?ff @ b # rest" using d takeWhile_dropWhile_id [of "\<lambda>b. b = 0xFF" "rev buf"] by simp
  then have "rev (rev buf) = rev (?ff @ b # rest)" by (rule arg_cong)
  then have "buf = rev rest @ [b] @ rev (replicate (length ?ff) 0xFF)" unfolding ff by simp
  then have "buf = rev rest @ [b] @ replicate (length ?ff) 0xFF" by (simp only: rev_replicate)
  moreover have "b \<noteq> 0xFF" using hd_dropWhile [of "\<lambda>b. b = 0xFF" "rev buf"] d by simp
  ultimately show thesis using that nxt by blast
qed

text \<open>A string that is at least all-0xFF of some length starts with that many 0xFF bytes.\<close>

lemma replicate_max_le:
  "replicate n (0xFF :: byte) \<le> xs \<longleftrightarrow> prefix (replicate n 0xFF) xs"
proof (induction n arbitrary: xs)
  case (Suc n)
  show ?case
  proof (cases xs)
    case (Cons x ys)
    have "\<not> 0xFF < x" using byte_le_max [of x] by simp
    with Cons Suc show ?thesis by auto
  qed simp
qed simp

lemma append_le_append [simp]: "xs @ ys \<le> xs @ (zs :: 'a::order list) \<longleftrightarrow> ys \<le> zs"
  by (induction xs) auto

lemma range_is_prefix_aux:
  assumes "b \<noteq> 0xFF"
  shows "pre @ [b] @ replicate n 0xFF \<le> xs \<and> xs < pre @ [b + 1]
    \<longleftrightarrow> prefix (pre @ [b] @ replicate n (0xFF :: byte)) xs"
proof (induction pre arbitrary: xs)
  case Nil
  show ?case
  proof (cases xs)
    case (Cons x ys)
    have "x < b + 1 \<or> x = b + 1 \<and> ys < [] \<longleftrightarrow> x \<le> b" using byte_Suc(1) [OF assms, of x] by simp
    then show ?thesis
      using Cons replicate_max_le [of n ys] byte_Suc(2) [OF assms] by auto
  qed simp
next
  case (Cons p pre)
  show ?case
  proof (cases xs)
    case (Cons x ys)
    with Cons.IH [of ys] show ?thesis by auto
  qed simp
qed

text \<open>
  C23.
  For every admissible hash key the loop that computes the next key stays inside its
  buffer, and the keys between the encoded hash key and the computed bound are exactly the
  keys that start with it. So a scan over that range visits all records of the hash key and
  no other.
\<close>

theorem next_blob_range:
  assumes "length hash_key < 65535"
  shows "\<exists>nxt. pegasus_generate_next_blob hash_key = Inr nxt \<and>
    (\<forall>key. be_bytes 2 (length hash_key) @ hash_key \<le> key \<and> key < nxt
       \<longleftrightarrow> prefix (be_bytes 2 (length hash_key) @ hash_key) key)"
proof -
  let ?p = "be_bytes 2 (length hash_key) @ hash_key"
  have "\<not> (\<forall>b \<in> set ?p. b = 0xFF)"
  proof
    assume ff: "\<forall>b \<in> set ?p. b = 0xFF"
    have "be_value (be_bytes 2 (length hash_key)) = length hash_key"
      using assms by simp
    moreover have "be_bytes 2 (length hash_key) = [0xFF, 0xFF]"
      using ff by (simp add: numeral_2_eq_2)
    ultimately have "length hash_key = 65535" by (simp add: be_value_def)
    with assms show False by simp
  qed
  from increment_last_total [OF this] obtain nxt where nxt: "increment_last ?p = Inr nxt" ..
  from increment_last_split [OF this] obtain pre b n where
    "?p = pre @ [b] @ replicate n 0xFF" "b \<noteq> 0xFF" "nxt = pre @ [b + 1]" .
  with range_is_prefix_aux [of b pre n] assms nxt show ?thesis
    by (auto simp: pegasus_generate_next_blob_def)
qed

theorem next_blob_range_witness:
  "pegasus_generate_next_blob [1, 0xFF, 0xFF] = Inr [0, 3, 2] \<and>
   (\<exists>nxt. pegasus_generate_next_blob [1, 0xFF, 0xFF] = Inr nxt \<and>
     [0, 3, 1, 0xFF, 0xFF, 9] < nxt)"
proof -
  have enc: "be_bytes 2 (length [1, 0xFF, 0xFF :: byte]) @ [1, 0xFF, 0xFF] = [0, 3, 1, 0xFF, 0xFF]"
    by (simp add: numeral_2_eq_2)
  have run: "pegasus_generate_next_blob [1, 0xFF, 0xFF] = Inr [0, 3, 2]"
    using enc by (simp add: pegasus_generate_next_blob_def increment_last_def)
  from next_blob_range [of "[1, 0xFF, 0xFF]"] obtain nxt where
    nxt: "pegasus_generate_next_blob [1, 0xFF, 0xFF] = Inr nxt" and
    iff: "\<And>key. [0, 3, 1, 0xFF, 0xFF] \<le> key \<and> key < nxt \<longleftrightarrow> prefix [0, 3, 1, 0xFF, 0xFF] key"
    unfolding enc by auto
  have "prefix [0, 3, 1, 0xFF, 0xFF] [0, 3, 1, 0xFF, 0xFF, 9 :: byte]" by simp
  with iff nxt run show ?thesis by blast
qed

section \<open>Partitions\<close>

lemma key_hash_generated:
  assumes "pegasus_generate_key hk sk = Inr key"
  shows "pegasus_key_hash key = Inr (if hk = [] then crc64_calc sk 0 else pegasus_hash_key_hash hk)"
proof -
  from assms have k: "length hk < 65535" "key = be_bytes 2 (length hk) @ hk @ sk"
    by (simp_all add: generate_key_Inr)
  from be_value_length_prefix [OF k(1), of "hk @ sk"] k(2) show ?thesis
    by (simp add: pegasus_key_hash_def pegasus_hash_key_hash_def Let_def)
qed

lemma scast_small:
  assumes "n < 2 ^ 31"
  shows "(scast (of_nat n :: 32 word) :: 64 word) = of_nat n"
proof -
  have "sint (of_nat n :: 32 word) = int n"
    using assms by (simp add: signed_of_nat signed_take_bit_int_eq_self)
  then show ?thesis by (simp add: scast_eq)
qed

lemma partition_mask:
  assumes "k \<le> 31"
  shows "(h :: 64 word) AND scast (of_nat (2 ^ k - 1) :: 32 word) = of_nat (unat h mod 2 ^ k)"
proof -
  have "(2 :: nat) ^ k \<le> 2 ^ 31" using assms by (intro power_increasing) simp_all
  moreover have "(0 :: nat) < 2 ^ k" by simp
  ultimately have "(2 :: nat) ^ k - 1 < 2 ^ 31" by linarith
  then have "(scast (of_nat (2 ^ k - 1) :: 32 word) :: 64 word) = mask k"
    by (simp only: scast_small) (simp add: mask_eq_exp_minus_1 of_nat_diff)
  then have "h AND scast (of_nat (2 ^ k - 1) :: 32 word) = take_bit k h"
    by (simp add: take_bit_eq_mask)
  also have "\<dots> = of_nat (take_bit k (unat h))"
    by (metis of_nat_unat ucast_id take_bit_of_nat)
  finally show ?thesis by (simp add: take_bit_eq_mod)
qed

lemma check_hash_eq:
  assumes "pegasus_key_hash key = Inr h" "k \<le> 31" "p < 2 ^ k"
  shows "check_pegasus_key_hash key (of_nat p) (of_nat (2 ^ k - 1)) = Inr (unat h mod 2 ^ k = p)"
proof -
  have "(2 :: nat) ^ k \<le> 2 ^ 31" using assms(2) by (intro power_increasing) simp_all
  moreover have "unat h mod 2 ^ k < 2 ^ k" by simp
  ultimately have small: "p < 2 ^ 31" "unat h mod 2 ^ k < 2 ^ 31" using assms(3)
    by linarith+
  have "(of_nat (unat h mod 2 ^ k) :: 64 word) = of_nat p \<longleftrightarrow> unat h mod 2 ^ k = p"
    using small by (simp add: word_unat_eq_iff unsigned_of_nat take_bit_nat_eq_self)
  then show ?thesis
    using assms(1) scast_small [OF small(1)] partition_mask [OF assms(2), of h]
    by (simp only: check_pegasus_key_hash_def bind_result_Inr)
qed

lemma mod_split: "p < 2 ^ k \<Longrightarrow>
    n mod 2 ^ k = p \<longleftrightarrow> n mod 2 ^ Suc k = p \<or> n mod 2 ^ Suc k = p + 2 ^ k" for n :: nat
proof -
  assume p: "p < 2 ^ k"
  have "n mod (2 * 2 ^ k) = n mod 2 ^ k \<or> n mod (2 * 2 ^ k) = n mod 2 ^ k + 2 ^ k"
    using mod_mult2_eq [of n "2 ^ k" 2] by (cases "even (n div 2 ^ k)")
      (simp_all add: mult.commute even_iff_mod_2_eq_zero odd_iff_mod_2_eq_one)
  moreover have "n mod 2 ^ k < 2 ^ k" by simp
  ultimately show ?thesis using p unfolding power_Suc by linarith
qed

text \<open>The hash that chooses the partition of a key: of the hash key, or of the sort key if that is empty.\<close>

definition routing_hash :: "bytes \<Rightarrow> bytes \<Rightarrow> 64 word" where
  "routing_hash hk sk = (if hk = [] then crc64_calc sk 0 else pegasus_hash_key_hash hk)"

text \<open>
  C24.
  With \<open>2 ^ k\<close> partitions, and the partition version one less, every generated key is served
  by exactly one partition: the one whose index is the routing hash modulo the number of
  partitions. The routing hash is the hash of the hash key, so that all keys with the same
  hash key are served together, except for an empty hash key, where the sort key is hashed.
  When the number of partitions is doubled by a split, the keys of a partition \<open>p\<close> go to the
  partitions \<open>p\<close> and \<open>p + 2 ^ k\<close> and nowhere else.
\<close>

theorem partition_serves_unique:
  assumes "pegasus_generate_key hk sk = Inr key" "k < 31"
  shows "(\<exists>!p. p < 2 ^ k \<and> check_pegasus_key_hash key (of_nat p) (of_nat (2 ^ k - 1)) = Inr True) \<and>
    (\<forall>p < 2 ^ k.
      check_pegasus_key_hash key (of_nat p) (of_nat (2 ^ k - 1)) = Inr (p = unat (routing_hash hk sk) mod 2 ^ k) \<and>
      (check_pegasus_key_hash key (of_nat p) (of_nat (2 ^ k - 1)) = Inr True \<longleftrightarrow>
         check_pegasus_key_hash key (of_nat p) (of_nat (2 ^ Suc k - 1)) = Inr True \<or>
         check_pegasus_key_hash key (of_nat (p + 2 ^ k)) (of_nat (2 ^ Suc k - 1)) = Inr True))"
proof -
  let ?h = "routing_hash hk sk"
  have h: "pegasus_key_hash key = Inr ?h" using key_hash_generated [OF assms(1)] by (simp add: routing_hash_def)
  have one: "check_pegasus_key_hash key (of_nat p) (of_nat (2 ^ k - 1)) = Inr (unat ?h mod 2 ^ k = p)"
    if "p < 2 ^ k" for p
    using assms that by (intro check_hash_eq [OF h]) simp_all
  have two: "check_pegasus_key_hash key (of_nat p) (of_nat (2 ^ Suc k - 1)) = Inr (unat ?h mod 2 ^ Suc k = p)"
    if "p < 2 ^ Suc k" for p
    using assms(2) that by (intro check_hash_eq [OF h]) simp_all
  have unique: "\<exists>!p. p < 2 ^ k \<and> check_pegasus_key_hash key (of_nat p) (of_nat (2 ^ k - 1)) = Inr True"
  proof (rule ex1I [of _ "unat ?h mod 2 ^ k"])
    have lt: "unat ?h mod 2 ^ k < 2 ^ k" by simp
    show "unat ?h mod 2 ^ k < 2 ^ k \<and>
        check_pegasus_key_hash key (of_nat (unat ?h mod 2 ^ k)) (of_nat (2 ^ k - 1)) = Inr True"
      using lt one [OF lt] by (simp only: simp_thms)
  next
    fix p
    assume "p < 2 ^ k \<and> check_pegasus_key_hash key (of_nat p) (of_nat (2 ^ k - 1)) = Inr True"
    then show "p = unat ?h mod 2 ^ k" using one [of p] by (metis sum.inject(2))
  qed
  moreover have "check_pegasus_key_hash key (of_nat p) (of_nat (2 ^ k - 1)) = Inr (p = unat ?h mod 2 ^ k) \<and>
      (check_pegasus_key_hash key (of_nat p) (of_nat (2 ^ k - 1)) = Inr True \<longleftrightarrow>
         check_pegasus_key_hash key (of_nat p) (of_nat (2 ^ Suc k - 1)) = Inr True \<or>
         check_pegasus_key_hash key (of_nat (p + 2 ^ k)) (of_nat (2 ^ Suc k - 1)) = Inr True)" if p: "p < 2 ^ k" for p
  proof
    show "check_pegasus_key_hash key (of_nat p) (of_nat (2 ^ k - 1)) = Inr (p = unat ?h mod 2 ^ k)"
      unfolding one [OF p] by (simp only: eq_commute [of p])
    have lt: "p < 2 ^ Suc k" "p + 2 ^ k < 2 ^ Suc k" using p by simp_all
    show "check_pegasus_key_hash key (of_nat p) (of_nat (2 ^ k - 1)) = Inr True \<longleftrightarrow>
        check_pegasus_key_hash key (of_nat p) (of_nat (2 ^ Suc k - 1)) = Inr True \<or>
        check_pegasus_key_hash key (of_nat (p + 2 ^ k)) (of_nat (2 ^ Suc k - 1)) = Inr True"
      unfolding one [OF p] two [OF lt(1)] two [OF lt(2)] by (simp only: sum.inject mod_split [OF p] eq_True)
  qed
  ultimately show ?thesis by blast
qed

theorem partition_serves_unique_witness:
  "\<exists>key. pegasus_generate_key [7] [1] = Inr key \<and>
     (\<exists>!p. p < 2 ^ 3 \<and> check_pegasus_key_hash key (of_nat p) (of_nat (2 ^ 3 - 1)) = Inr True) \<and>
     check_pegasus_key_hash key (of_nat 3) (of_nat (2 ^ 3 - 1)) = Inr (3 = unat (pegasus_hash_key_hash [7]) mod 2 ^ 3)"
proof -
  have key: "pegasus_generate_key [7] [1] = Inr (be_bytes 2 (length [7 :: byte]) @ [7] @ [1])"
    by (rule generate_key_eq) simp_all
  have "(3 :: nat) < 31" "(3 :: nat) < 2 ^ 3" "routing_hash [7] [1] = pegasus_hash_key_hash [7]"
    by (simp_all add: routing_hash_def)
  note r = this
  note all = partition_serves_unique [OF key r(1)]
  from all [THEN conjunct2, rule_format, OF r(2), THEN conjunct1] key all [THEN conjunct1]
  show ?thesis unfolding r(3) by blast
qed

end
