(* ===== verification/Value_Schema.thy ===== *)
theory Value_Schema
  imports Byte_Codec
begin

unbundle bit_operations_syntax

text \<open>
  The layouts of the values in the storage engine (\<^verbatim>\<open>src/src/base/pegasus_value_schema.h\<close>,
  \<^verbatim>\<open>value_schema_v0.cpp\<close>, \<^verbatim>\<open>value_schema_v1.cpp\<close>, \<^verbatim>\<open>value_schema_v2.cpp\<close> and
  \<^verbatim>\<open>value_schema_manager.cpp\<close>). The three versions implement one abstract class; its
  contract is a locale that each of them interprets.
\<close>

section \<open>Time tags\<close>

definition generate_timetag :: "64 word \<Rightarrow> 8 word \<Rightarrow> bool \<Rightarrow> 64 word" where
  "generate_timetag timestamp cluster_id deleted_tag =
     push_bit 8 timestamp OR push_bit 1 (ucast cluster_id) OR of_bool deleted_tag"

definition extract_timestamp_from_timetag :: "64 word \<Rightarrow> 64 word" where
  "extract_timestamp_from_timetag timetag = drop_bit 8 timetag AND 0xFFFFFFFFFFFFFF"

section \<open>Fields\<close>

datatype value_field_type = EXPIRE_TIMESTAMP | TIME_TAG | USER_DATA

datatype value_field =
    expire_timestamp_field "32 word" | time_tag_field "64 word" | user_data_field bytes

primrec field_type :: "value_field \<Rightarrow> value_field_type" where
  "field_type (expire_timestamp_field _) = EXPIRE_TIMESTAMP"
| "field_type (time_tag_field _) = TIME_TAG"
| "field_type (user_data_field _) = USER_DATA"

text \<open>The fields given to \<open>generate_value\<close>; an unset slot is a null pointer.\<close>

record value_params =
  vp_expire_ts :: "32 word option"
  vp_time_tag :: "64 word option"
  vp_user_data :: "bytes option"

definition blob_range :: "nat \<Rightarrow> bytes \<Rightarrow> bytes result" where
  "blob_range offset value =
     (if offset \<le> length value then Inr (drop offset value) else Inl (Out_of_bounds ''blob::range''))"

text \<open>Overwriting the expiration time behind a header of the given size.\<close>

definition overwrite_expire_ts :: "nat \<Rightarrow> bytes \<Rightarrow> value_field \<Rightarrow> bytes result" where
  "overwrite_expire_ts header value field =
     bind_result (check (length value \<ge> 4 + header) ''value must include expire_ts header'') (\<lambda>_.
       case field of
         expire_timestamp_field ts \<Rightarrow>
           Inr (take header value @ be_bytes 4 (unat ts) @ drop (header + 4) value)
       | _ \<Rightarrow> Inl (Check_failed ''Unsupported update field type''))"

section \<open>Version 0\<close>

definition v0_extract_timestamp :: "bytes \<Rightarrow> value_field result" where
  "v0_extract_timestamp value =
     bind_result (read_u32 value) (\<lambda>(ts, _). Inr (expire_timestamp_field ts))"

definition v0_extract_field :: "bytes \<Rightarrow> value_field_type \<Rightarrow> value_field result" where
  "v0_extract_field value t =
     (case t of EXPIRE_TIMESTAMP \<Rightarrow> v0_extract_timestamp value
      | _ \<Rightarrow> Inl (Check_failed ''Unsupported field type''))"

definition v0_extract_user_data :: "bytes \<Rightarrow> bytes result" where
  "v0_extract_user_data value = blob_range 4 value"

definition v0_update_expire_ts :: "bytes \<Rightarrow> value_field \<Rightarrow> bytes result" where
  "v0_update_expire_ts value field = overwrite_expire_ts 0 value field"

definition v0_update_field :: "bytes \<Rightarrow> value_field \<Rightarrow> bytes result" where
  "v0_update_field value field =
     (case field_type field of EXPIRE_TIMESTAMP \<Rightarrow> v0_update_expire_ts value field
      | _ \<Rightarrow> Inl (Check_failed ''Unsupported update field type''))"

definition v0_generate_value :: "value_params \<Rightarrow> bytes result" where
  "v0_generate_value params =
     (case (vp_expire_ts params, vp_user_data params) of
        (Some ts, Some user_data) \<Rightarrow>
          bind_result (write_u32 ts ([], 4)) (\<lambda>(buf, _). Inr (buf @ user_data))
      | _ \<Rightarrow> Inl (Check_failed ''USER_DATA or EXPIRE_TIMESTAMP is not provided''))"

section \<open>Version 1\<close>

definition v1_extract_timestamp :: "bytes \<Rightarrow> value_field result" where
  "v1_extract_timestamp value =
     bind_result (read_u32 value) (\<lambda>(ts, _). Inr (expire_timestamp_field ts))"

definition v1_extract_time_tag :: "bytes \<Rightarrow> value_field result" where
  "v1_extract_time_tag value =
     bind_result (skip_input 4 value) (\<lambda>inp.
     bind_result (read_u64 inp) (\<lambda>(tag, _). Inr (time_tag_field tag)))"

definition v1_extract_field :: "bytes \<Rightarrow> value_field_type \<Rightarrow> value_field result" where
  "v1_extract_field value t =
     (case t of EXPIRE_TIMESTAMP \<Rightarrow> v1_extract_timestamp value
      | TIME_TAG \<Rightarrow> v1_extract_time_tag value
      | _ \<Rightarrow> Inl (Check_failed ''Unsupported field type''))"

definition v1_extract_user_data :: "bytes \<Rightarrow> bytes result" where
  "v1_extract_user_data value = blob_range 12 value"

definition v1_update_expire_ts :: "bytes \<Rightarrow> value_field \<Rightarrow> bytes result" where
  "v1_update_expire_ts value field = overwrite_expire_ts 0 value field"

definition v1_update_field :: "bytes \<Rightarrow> value_field \<Rightarrow> bytes result" where
  "v1_update_field value field =
     (case field_type field of EXPIRE_TIMESTAMP \<Rightarrow> v1_update_expire_ts value field
      | _ \<Rightarrow> Inl (Check_failed ''Unsupported update field type''))"

definition v1_generate_value :: "value_params \<Rightarrow> bytes result" where
  "v1_generate_value params =
     (case (vp_expire_ts params, vp_time_tag params, vp_user_data params) of
        (Some ts, Some tag, Some user_data) \<Rightarrow>
          bind_result (write_u32 ts ([], 12)) (\<lambda>out.
          bind_result (write_u64 tag out) (\<lambda>(buf, _). Inr (buf @ user_data)))
      | _ \<Rightarrow> Inl (Check_failed ''USER_DATA or EXPIRE_TIMESTAMP or TIME_TAG is not provided''))"

section \<open>Version 2\<close>

definition v2_extract_timestamp :: "bytes \<Rightarrow> value_field result" where
  "v2_extract_timestamp value =
     bind_result (skip_input 1 value) (\<lambda>inp.
     bind_result (read_u32 inp) (\<lambda>(ts, _). Inr (expire_timestamp_field ts)))"

definition v2_extract_time_tag :: "bytes \<Rightarrow> value_field result" where
  "v2_extract_time_tag value =
     bind_result (skip_input 1 value) (\<lambda>inp1.
     bind_result (skip_input 4 inp1) (\<lambda>inp2.
     bind_result (read_u64 inp2) (\<lambda>(tag, _). Inr (time_tag_field tag))))"

definition v2_extract_field :: "bytes \<Rightarrow> value_field_type \<Rightarrow> value_field result" where
  "v2_extract_field value t =
     (case t of EXPIRE_TIMESTAMP \<Rightarrow> v2_extract_timestamp value
      | TIME_TAG \<Rightarrow> v2_extract_time_tag value
      | _ \<Rightarrow> Inl (Check_failed ''Unsupported field type''))"

definition v2_extract_user_data :: "bytes \<Rightarrow> bytes result" where
  "v2_extract_user_data value = blob_range 13 value"

definition v2_update_expire_ts :: "bytes \<Rightarrow> value_field \<Rightarrow> bytes result" where
  "v2_update_expire_ts value field = overwrite_expire_ts 1 value field"

definition v2_update_field :: "bytes \<Rightarrow> value_field \<Rightarrow> bytes result" where
  "v2_update_field value field =
     (case field_type field of EXPIRE_TIMESTAMP \<Rightarrow> v2_update_expire_ts value field
      | _ \<Rightarrow> Inl (Check_failed ''Unsupported update field type''))"

definition v2_generate_value :: "value_params \<Rightarrow> bytes result" where
  "v2_generate_value params =
     (case (vp_expire_ts params, vp_time_tag params, vp_user_data params) of
        (Some ts, Some tag, Some user_data) \<Rightarrow>
          bind_result (write_u8 (0x80 OR 2) ([], 13)) (\<lambda>out1.
          bind_result (write_u32 ts out1) (\<lambda>out2.
          bind_result (write_u64 tag out2) (\<lambda>(buf, _). Inr (buf @ user_data))))
      | _ \<Rightarrow> Inl (Check_failed ''USER_DATA or EXPIRE_TIMESTAMP or TIME_TAG is not provided''))"

section \<open>Choosing the version of a value\<close>

datatype data_version = VERSION_0 | VERSION_1 | VERSION_2

definition get_value_schema_by_version :: "32 word \<Rightarrow> data_version option" where
  "get_value_schema_by_version version =
     (if version \<ge> 3 then None
      else Some (if version = 0 then VERSION_0 else if version = 1 then VERSION_1 else VERSION_2))"

definition get_latest_value_schema :: data_version where
  "get_latest_value_schema = VERSION_2"

definition get_value_schema :: "32 word \<Rightarrow> bytes \<Rightarrow> data_version result" where
  "get_value_schema meta_cf_data_version value =
     bind_result (read_u8 value) (\<lambda>(first_byte, _).
       if first_byte AND 0x80 \<noteq> 0
       then Inr (case get_value_schema_by_version (ucast (first_byte AND 0x7F)) of
                   None \<Rightarrow> get_latest_value_schema | Some schema \<Rightarrow> schema)
       else case get_value_schema_by_version meta_cf_data_version of
              None \<Rightarrow> Inl (Check_failed ''data version in meta cf is not supported'')
            | Some schema \<Rightarrow> Inr schema)"

section \<open>Helpers on raw values\<close>

definition pegasus_extract_expire_ts :: "32 word \<Rightarrow> bytes \<Rightarrow> 32 word result" where
  "pegasus_extract_expire_ts version value =
     bind_result (check (version \<le> 1) ''CHECK_LE(version, PEGASUS_DATA_VERSION_MAX)'') (\<lambda>_.
     bind_result (read_u32 value) (\<lambda>(ts, _). Inr ts))"

definition pegasus_extract_user_data :: "32 word \<Rightarrow> bytes \<Rightarrow> bytes result" where
  "pegasus_extract_user_data version raw_value =
     bind_result (check (version \<le> 1) ''CHECK_LE(version, PEGASUS_DATA_VERSION_MAX)'') (\<lambda>_.
     bind_result (skip_input 4 raw_value) (\<lambda>inp.
       if version = 1 then skip_input 8 inp else Inr inp))"

definition pegasus_extract_timetag :: "32 word \<Rightarrow> bytes \<Rightarrow> 64 word result" where
  "pegasus_extract_timetag version value =
     bind_result (check (version = 1) ''CHECK_EQ(version, 1)'') (\<lambda>_.
     bind_result (skip_input 4 value) (\<lambda>inp.
     bind_result (read_u64 inp) (\<lambda>(tag, _). Inr tag)))"

definition pegasus_update_expire_ts :: "32 word \<Rightarrow> bytes \<Rightarrow> 32 word \<Rightarrow> bytes result" where
  "pegasus_update_expire_ts version value new_expire_ts =
     (if version = 0 \<or> version = 1
      then bind_result (check (length value \<ge> 4) ''value must include expire_ts header'') (\<lambda>_.
             Inr (be_bytes 4 (unat new_expire_ts) @ drop 4 value))
      else Inl (Check_failed ''unsupported value schema version''))"

definition check_if_ts_expired :: "32 word \<Rightarrow> 32 word \<Rightarrow> bool" where
  "check_if_ts_expired epoch_now expire_ts \<longleftrightarrow> expire_ts > 0 \<and> expire_ts \<le> epoch_now"

definition check_if_record_expired :: "32 word \<Rightarrow> 32 word \<Rightarrow> bytes \<Rightarrow> bool result" where
  "check_if_record_expired value_schema_version epoch_now raw_value =
     bind_result (pegasus_extract_expire_ts value_schema_version raw_value) (\<lambda>ts.
       Inr (check_if_ts_expired epoch_now ts))"

definition generate_value_v0 :: "32 word \<Rightarrow> bytes \<Rightarrow> bytes result" where
  "generate_value_v0 expire_ts user_data =
     bind_result (write_u32 expire_ts ([], 4)) (\<lambda>(buf, _). Inr (buf @ user_data))"

definition generate_value_v1 :: "32 word \<Rightarrow> 64 word \<Rightarrow> bytes \<Rightarrow> bytes result" where
  "generate_value_v1 expire_ts timetag user_data =
     bind_result (write_u32 expire_ts ([], 12)) (\<lambda>out.
     bind_result (write_u64 timetag out) (\<lambda>(buf, _). Inr (buf @ user_data)))"

definition generate_value :: "32 word \<Rightarrow> bytes \<Rightarrow> 32 word \<Rightarrow> 64 word \<Rightarrow> bytes result" where
  "generate_value value_schema_version user_data expire_ts timetag =
     (if value_schema_version = 0 then generate_value_v0 expire_ts user_data
      else if value_schema_version = 1 then generate_value_v1 expire_ts timetag user_data
      else Inl (Check_failed ''unsupported value schema version''))"

section \<open>The contract of a value schema\<close>

abbreviation all_fields :: "32 word \<Rightarrow> 64 word \<Rightarrow> bytes \<Rightarrow> value_params" where
  "all_fields ts tag data \<equiv> \<lparr>vp_expire_ts = Some ts, vp_time_tag = Some tag, vp_user_data = Some data\<rparr>"

text \<open>
  What the storage code relies on: a generated value gives back its expiration time and its
  user data, and updating the expiration time gives the value that would have been
  generated with it.
\<close>

locale value_schema =
  fixes generate :: "value_params \<Rightarrow> bytes result"
    and extract_field :: "bytes \<Rightarrow> value_field_type \<Rightarrow> value_field result"
    and extract_user_data :: "bytes \<Rightarrow> bytes result"
    and update_field :: "bytes \<Rightarrow> value_field \<Rightarrow> bytes result"
  assumes generated: "\<exists>v. generate (all_fields ts tag data) = Inr v"
    and extract_expire: "generate (all_fields ts tag data) = Inr v \<Longrightarrow>
      extract_field v EXPIRE_TIMESTAMP = Inr (expire_timestamp_field ts)"
    and extract_data: "generate (all_fields ts tag data) = Inr v \<Longrightarrow> extract_user_data v = Inr data"
    and update_expire: "generate (all_fields ts tag data) = Inr v \<Longrightarrow>
      update_field v (expire_timestamp_field ts') = generate (all_fields ts' tag data)"
begin

lemma ttl_update:
  "\<exists>v v'. generate (all_fields ts tag data) = Inr v \<and> generate (all_fields ts' tag data) = Inr v' \<and>
     extract_field v EXPIRE_TIMESTAMP = Inr (expire_timestamp_field ts) \<and> extract_user_data v = Inr data \<and>
     update_field v (expire_timestamp_field ts') = Inr v' \<and>
     extract_field v' EXPIRE_TIMESTAMP = Inr (expire_timestamp_field ts') \<and> extract_user_data v' = Inr data"
proof -
  obtain v v' where v: "generate (all_fields ts tag data) = Inr v"
    and v': "generate (all_fields ts' tag data) = Inr v'"
    using generated by blast
  show ?thesis
    using extract_expire [OF v] extract_data [OF v] update_expire [OF v]
      extract_expire [OF v'] extract_data [OF v'] v v' by auto
qed

lemma generate_inj:
  assumes "generate (all_fields ts tag data) = generate (all_fields ts' tag' data')"
  shows "ts = ts' \<and> data = data'"
proof -
  obtain v where v: "generate (all_fields ts tag data) = Inr v" using generated by blast
  with assms have v': "generate (all_fields ts' tag' data') = Inr v" by simp
  show ?thesis
    using extract_expire [OF v] extract_expire [OF v'] extract_data [OF v] extract_data [OF v'] by simp
qed

end

text \<open>The layouts with a time tag give it back, also after an update of the expiration time.\<close>

locale tagged_value_schema = value_schema +
  assumes extract_tag: "generate (all_fields ts tag data) = Inr v \<Longrightarrow>
      extract_field v TIME_TAG = Inr (time_tag_field tag)"
begin

lemma tag_kept:
  assumes "generate (all_fields ts tag data) = Inr v" "update_field v (expire_timestamp_field ts') = Inr v'"
  shows "extract_field v TIME_TAG = Inr (time_tag_field tag) \<and> extract_field v' TIME_TAG = Inr (time_tag_field tag)"
  using extract_tag [OF assms(1)] extract_tag [of ts' tag data v'] update_expire [OF assms(1), of ts'] assms(2) by simp

end

lemma v0_generate_eq: "v0_generate_value (all_fields ts tag data) = Inr (be_bytes 4 (unat ts) @ data)"
  by (simp add: v0_generate_value_def write_u32_def)

lemma v1_generate_eq:
  "v1_generate_value (all_fields ts tag data) = Inr (be_bytes 4 (unat ts) @ be_bytes 8 (unat tag) @ data)"
  by (simp add: v1_generate_value_def write_u32_def write_u64_def)

lemma v2_generate_eq:
  "v2_generate_value (all_fields ts tag data)
    = Inr (0x82 # be_bytes 4 (unat ts) @ be_bytes 8 (unat tag) @ data)"
  by (simp add: v2_generate_value_def write_u8_def write_u32_def write_u64_def)

interpretation v0: value_schema v0_generate_value v0_extract_field v0_extract_user_data v0_update_field
  by unfold_locales (auto simp: v0_generate_eq v0_extract_field_def v0_extract_timestamp_def
      v0_extract_user_data_def blob_range_def v0_update_field_def v0_update_expire_ts_def
      overwrite_expire_ts_def)

interpretation v1: tagged_value_schema v1_generate_value v1_extract_field v1_extract_user_data v1_update_field
  by unfold_locales (auto simp: v1_generate_eq v1_extract_field_def v1_extract_timestamp_def v1_extract_time_tag_def
      v1_extract_user_data_def blob_range_def v1_update_field_def v1_update_expire_ts_def
      overwrite_expire_ts_def)

lemma skip_1 [simp]: "skip_input (Suc 0) (x # xs) = Inr xs"
  by (simp add: skip_input_def)

interpretation v2: tagged_value_schema v2_generate_value v2_extract_field v2_extract_user_data v2_update_field
  by unfold_locales (auto simp: v2_generate_eq v2_extract_field_def v2_extract_timestamp_def v2_extract_time_tag_def
      v2_extract_user_data_def blob_range_def v2_update_field_def v2_update_expire_ts_def
      overwrite_expire_ts_def)

section \<open>Dispatch on the version\<close>

text \<open>Virtual calls on the schema that the manager returns.\<close>

primrec schema_generate :: "data_version \<Rightarrow> value_params \<Rightarrow> bytes result" where
  "schema_generate VERSION_0 = v0_generate_value"
| "schema_generate VERSION_1 = v1_generate_value"
| "schema_generate VERSION_2 = v2_generate_value"

primrec schema_extract_field :: "data_version \<Rightarrow> bytes \<Rightarrow> value_field_type \<Rightarrow> value_field result" where
  "schema_extract_field VERSION_0 = v0_extract_field"
| "schema_extract_field VERSION_1 = v1_extract_field"
| "schema_extract_field VERSION_2 = v2_extract_field"

primrec schema_extract_user_data :: "data_version \<Rightarrow> bytes \<Rightarrow> bytes result" where
  "schema_extract_user_data VERSION_0 = v0_extract_user_data"
| "schema_extract_user_data VERSION_1 = v1_extract_user_data"
| "schema_extract_user_data VERSION_2 = v2_extract_user_data"

primrec schema_update_field :: "data_version \<Rightarrow> bytes \<Rightarrow> value_field \<Rightarrow> bytes result" where
  "schema_update_field VERSION_0 = v0_update_field"
| "schema_update_field VERSION_1 = v1_update_field"
| "schema_update_field VERSION_2 = v2_update_field"

text \<open>The version in the meta column family that goes with a schema without a version byte.\<close>

definition meta_version_of :: "data_version \<Rightarrow> 32 word \<Rightarrow> bool" where
  "meta_version_of schema version \<longleftrightarrow>
     (schema = VERSION_0 \<longrightarrow> version = 0) \<and> (schema = VERSION_1 \<longrightarrow> version = 1)"

lemma first_byte_of_expire_ts:
  "\<exists>b rest. be_bytes 4 (unat (ts :: 32 word)) = b # rest \<and> unat b = unat ts div 2 ^ 24"
proof -
  have "unat ts div 2 ^ 24 < 256" using unat_word_less [of ts] by simp
  then have "unat (of_nat (unat ts div 256 ^ 3) :: byte) = unat ts div 2 ^ 24"
    by (simp add: unat_byte_of_nat)
  moreover have "be_bytes 4 (unat ts) = of_nat (unat ts div 256 ^ 3) # be_bytes 3 (unat ts)"
    using be_bytes_Cons [of 3 "unat ts"] by simp
  ultimately show ?thesis by blast
qed

lemma high_bit_iff: "(b :: 8 word) AND 0x80 \<noteq> 0 \<longleftrightarrow> unat b \<ge> 128"
proof -
  have "(0x80 :: 8 word) = 2 ^ 7" by simp
  then have "b AND 0x80 \<noteq> 0 \<longleftrightarrow> bit b 7" by (simp only: and_exp_eq_0_iff_not_bit not_not)
  also have "\<dots> \<longleftrightarrow> bit (unat b) 7" by (simp add: bit_unsigned_iff)
  also have "\<dots> \<longleftrightarrow> odd (unat b div 128)" by (simp add: bit_iff_odd)
  also have "\<dots> \<longleftrightarrow> unat b \<ge> 128"
  proof -
    have "unat b div 128 = (if unat b \<ge> 128 then 1 else 0)" using unat_word_less [of b] by auto
    then show ?thesis by simp
  qed
  finally show ?thesis .
qed

lemma get_value_schema_plain:
  assumes "unat (ts :: 32 word) < 2 ^ 31"
  shows "get_value_schema version (be_bytes 4 (unat ts) @ rest) =
    (case get_value_schema_by_version version of
       None \<Rightarrow> Inl (Check_failed ''data version in meta cf is not supported'') | Some s \<Rightarrow> Inr s)"
proof -
  from first_byte_of_expire_ts [of ts] obtain b bs where
    b: "be_bytes 4 (unat ts) = b # bs" "unat b = unat ts div 2 ^ 24" by blast
  have "unat b < 128" using assms b(2) by simp
  then have "\<not> (b AND 0x80 \<noteq> 0)" by (simp only: high_bit_iff)
  moreover have "read_u8 (b # bs @ rest) = Inr (b, bs @ rest)"
    using read_u8_be [of b "bs @ rest"] by simp
  ultimately show ?thesis by (simp add: get_value_schema_def b(1))
qed

lemma get_value_schema_v2: "get_value_schema version (0x82 # rest) = Inr VERSION_2"
proof -
  have "read_u8 (0x82 # rest) = Inr (0x82, rest)" using read_u8_be [of "0x82" rest] by simp
  then show ?thesis
    by (simp add: get_value_schema_def get_value_schema_by_version_def)
qed

lemma schema_recognised:
  assumes "meta_version_of schema version" "schema = VERSION_2 \<or> unat ts < 2 ^ 31"
    "schema_generate schema (all_fields ts tag data) = Inr v"
  shows "get_value_schema version v = Inr schema"
  using assms
  by (cases schema) (auto simp: v0_generate_eq v1_generate_eq v2_generate_eq get_value_schema_v2 get_value_schema_plain
      meta_version_of_def get_value_schema_by_version_def word_le_nat_alt)

text \<open>Everything that a layout stores is read back; the oldest one stores no time tag.\<close>

definition reads_back :: "data_version \<Rightarrow> bytes \<Rightarrow> 32 word \<Rightarrow> 64 word \<Rightarrow> bytes \<Rightarrow> bool" where
  "reads_back schema v ts tag data \<longleftrightarrow>
     schema_extract_field schema v EXPIRE_TIMESTAMP = Inr (expire_timestamp_field ts) \<and>
     schema_extract_user_data schema v = Inr data \<and>
     (schema = VERSION_0 \<or> schema_extract_field schema v TIME_TAG = Inr (time_tag_field tag))"

text \<open>
  C26.
  A value written in any of the three layouts is recognised by the schema manager, provided
  that the expiration time of a layout without a version byte is below \<open>2 ^ 31\<close> (the top bit
  marks the layouts with one). The recognised schema gives back the expiration time, the user
  data and, except in the oldest layout, which has none, the time tag. Updating the
  expiration time changes nothing else, and under the same bound on the new time the value is
  still recognised.
\<close>

theorem value_schema_roundtrip:
  assumes "meta_version_of schema version" "schema = VERSION_2 \<or> unat ts < 2 ^ 31"
  shows "\<exists>v v'. schema_generate schema (all_fields ts tag data) = Inr v \<and>
    get_value_schema version v = Inr schema \<and> reads_back schema v ts tag data \<and>
    schema_update_field schema v (expire_timestamp_field ts') = Inr v' \<and> reads_back schema v' ts' tag data \<and>
    (schema = VERSION_2 \<or> unat ts' < 2 ^ 31 \<longrightarrow> get_value_schema version v' = Inr schema)"
proof -
  have "\<exists>v v'. schema_generate schema (all_fields ts tag data) = Inr v \<and>
      schema_generate schema (all_fields ts' tag data) = Inr v' \<and> reads_back schema v ts tag data \<and>
      schema_update_field schema v (expire_timestamp_field ts') = Inr v' \<and> reads_back schema v' ts' tag data"
  proof (cases schema)
    case VERSION_0
    with v0.ttl_update [of ts tag data ts'] show ?thesis by (auto simp: reads_back_def)
  next
    case VERSION_1
    with v1.ttl_update [of ts tag data ts'] show ?thesis by (auto simp: reads_back_def dest: v1.tag_kept)
  next
    case VERSION_2
    with v2.ttl_update [of ts tag data ts'] show ?thesis by (auto simp: reads_back_def dest: v2.tag_kept)
  qed
  then show ?thesis using schema_recognised [OF assms] schema_recognised [OF assms(1), of ts'] by blast
qed

theorem value_schema_roundtrip_witness:
  "\<exists>v v'. schema_generate VERSION_1 (all_fields 1000 7 [1, 2, 3]) = Inr v \<and>
     get_value_schema 1 v = Inr VERSION_1 \<and> reads_back VERSION_1 v 1000 7 [1, 2, 3] \<and>
     schema_update_field VERSION_1 v (expire_timestamp_field 2000) = Inr v' \<and> get_value_schema 1 v' = Inr VERSION_1"
proof -
  have "meta_version_of VERSION_1 1" "VERSION_1 = VERSION_2 \<or> unat (1000 :: 32 word) < 2 ^ 31"
    "VERSION_1 = VERSION_2 \<or> unat (2000 :: 32 word) < 2 ^ 31"
    by (simp_all add: meta_version_of_def)
  from value_schema_roundtrip [OF this(1,2), of 7 "[1, 2, 3]" 2000] this(3) show ?thesis by blast
qed

lemma be_value_be_bytes_mod: "be_value (be_bytes n v) = v mod 256 ^ n"
proof (induction n arbitrary: v)
  case (Suc n)
  have "v mod 256 ^ Suc n = 256 * (v div 256 mod 256 ^ n) + v mod 256"
    using mod_mult2_eq [of v 256 "256 ^ n"] by simp
  with Suc.IH [of "v div 256"] show ?case by (simp only: be_bytes.simps be_value_append_single unat_byte_of_nat)
qed simp

lemma unat_and_0x7F: "unat ((b :: byte) AND 0x7F) = unat b mod 128"
proof -
  have "(0x7F :: byte) = mask 7" by (simp add: mask_eq_exp_minus_1)
  then have "unat (b AND 0x7F) = unat (take_bit 7 b)" by (simp only: take_bit_eq_mask)
  also have "\<dots> = take_bit 7 (unat b)" by (rule unsigned_take_bit_eq)
  finally show ?thesis by (simp add: take_bit_eq_mod)
qed

lemma misread_schema:
  assumes "130 \<le> unat (b :: byte)"
  shows "get_value_schema version (b # rest) = Inr VERSION_2"
proof -
  let ?x = "ucast (b AND 0x7F) :: 32 word"
  have "unat b < 256" using unat_word_less [of b] by simp
  with assms have "unat b mod 128 = unat b - 128" by (simp add: le_mod_geq)
  then have "2 \<le> unat b mod 128" using assms by linarith
  then have "2 \<le> unat ?x" by (simp add: unat_widen unat_and_0x7F)
  then have "?x \<noteq> 0" "?x \<noteq> 1" by auto
  moreover have "read_u8 (b # rest) = Inr (b, rest)" using read_u8_be [of b rest] by simp
  moreover have "b AND 0x80 \<noteq> 0" using assms by (simp only: high_bit_iff)
  ultimately show ?thesis
    by (simp add: get_value_schema_def get_value_schema_by_version_def get_latest_value_schema_def)
qed

text \<open>
  C40.
  The bound on the expiration time matters: a value of a layout without a version byte whose
  expiration time is at least \<open>0x82000000\<close> is taken for a value of the newest layout. Its
  expiration time is then read one byte too late: the first byte of the field is lost, and the
  byte behind the field is taken for the last one.
\<close>

theorem value_schema_misread:
  assumes "schema \<noteq> VERSION_2" "0x82000000 \<le> unat (ts :: 32 word)"
    "schema_generate schema (all_fields ts tag data) = Inr v" "4 < length v"
  shows "get_value_schema version v = Inr VERSION_2 \<and>
    schema_extract_field VERSION_2 v EXPIRE_TIMESTAMP
      = Inr (expire_timestamp_field (of_nat (unat ts mod 2 ^ 24 * 256 + unat (v ! 4))))"
proof -
  let ?first = "of_nat (unat ts div 2 ^ 24) :: byte"
  have bytes: "be_bytes 4 (unat ts) = ?first # be_bytes 3 (unat ts)" using be_bytes_Cons [of 3 "unat ts"] by simp
  have "unat ts div 2 ^ 24 < 256" using unat_word_less [of ts] by simp
  then have "unat ?first = unat ts div 2 ^ 24" by (simp add: unat_byte_of_nat)
  then have big: "130 \<le> unat ?first" using assms(2) by simp
  from assms(1,3) obtain rest where "v = be_bytes 4 (unat ts) @ rest"
    by (cases schema) (auto simp: v0_generate_eq v1_generate_eq)
  moreover from this assms(4) obtain b rest' where "rest = b # rest'" by (cases rest) auto
  ultimately have v: "v = ?first # be_bytes 3 (unat ts) @ b # rest'" by (simp add: bytes)
  then have "v ! 4 = b" by (simp add: nth_append)
  moreover have "be_value (be_bytes 3 (unat ts) @ [b]) = unat ts mod 2 ^ 24 * 256 + unat b"
    by (simp add: be_value_append_single be_value_be_bytes_mod)
  ultimately show ?thesis
    unfolding v using misread_schema [OF big]
    by (simp add: v2_extract_field_def v2_extract_timestamp_def read_u32_def read_unsigned_def)
qed

theorem value_schema_misread_witness:
  "\<exists>v. schema_generate VERSION_0 (all_fields 0xFF000001 0 [5, 6, 7, 8]) = Inr v \<and>
     get_value_schema 0 v = Inr VERSION_2 \<and>
     schema_extract_field VERSION_2 v EXPIRE_TIMESTAMP = Inr (expire_timestamp_field 0x105)"
proof -
  let ?v = "[0xFF, 0, 0, 1, 5, 6, 7, 8] :: bytes"
  have v: "schema_generate VERSION_0 (all_fields 0xFF000001 0 [5, 6, 7, 8]) = Inr ?v"
    by (simp add: v0_generate_eq be_bytes_4)
  from value_schema_misread [OF _ _ v, of 0] have "get_value_schema 0 ?v = Inr VERSION_2 \<and>
     schema_extract_field VERSION_2 ?v EXPIRE_TIMESTAMP = Inr (expire_timestamp_field 0x105)" by simp
  with v show ?thesis by blast
qed

section \<open>Order of time tags\<close>

lemma nat_bit_less: "m < 2 ^ k \<Longrightarrow> bit (m :: nat) i \<Longrightarrow> i < k"
  by (metis bit_take_bit_iff take_bit_nat_eq_self)

lemma push_bit_or_nat: "m < 2 ^ k \<Longrightarrow> push_bit k n OR m = (push_bit k n + m :: nat)"
proof (rule disjunctive_add_eq_or [symmetric], rule bit_eqI)
  fix i
  assume "m < 2 ^ k"
  then show "bit (push_bit k n AND m) i = bit (0 :: nat) i"
    using nat_bit_less [of m k i] by (auto simp: bit_and_iff bit_push_bit_iff)
qed

lemma timetag_unat:
  assumes "unat ts < 2 ^ 56" "unat cid < 128"
  shows "unat (generate_timetag ts cid del) = unat ts * 256 + unat cid * 2 + of_bool del"
proof -
  have ts: "unat (push_bit 8 ts) = push_bit 8 (unat ts)"
    unfolding unsigned_push_bit_eq using assms(1)
    by (simp add: take_bit_nat_eq_self push_bit_eq_mult)
  have cid: "unat (push_bit 1 (ucast cid :: 64 word)) = push_bit 1 (unat cid)"
    unfolding unsigned_push_bit_eq using assms(2) unat_widen [where 'a = 8 and 'b = 64, of cid]
    by (simp add: take_bit_nat_eq_self push_bit_eq_mult del: push_bit_Suc)
  have "push_bit 1 (unat cid) OR of_bool del = push_bit 1 (unat cid) + (of_bool del :: nat)"
    by (rule push_bit_or_nat) simp
  moreover have "push_bit 8 (unat ts) OR (push_bit 1 (unat cid) + of_bool del)
      = push_bit 8 (unat ts) + (push_bit 1 (unat cid) + of_bool del)"
    by (rule push_bit_or_nat) (use assms(2) in \<open>simp add: push_bit_eq_mult\<close>)
  ultimately have "unat (generate_timetag ts cid del)
      = push_bit 8 (unat ts) + (push_bit 1 (unat cid) + of_bool del)"
    unfolding generate_timetag_def unsigned_or_eq ts cid by (cases del) (simp_all add: or.assoc)
  then show ?thesis by (simp add: push_bit_eq_mult)
qed

text \<open>
  Time tags resolve write conflicts between clusters: for time stamps below \<open>2 ^ 56\<close> and
  cluster ids below 128 the tags compare first by time stamp, then by cluster id, then by
  the deletion mark, and the time stamp can be read back.
\<close>

theorem timetag_order:
  assumes "unat ts < 2 ^ 56" "unat cid < 128" "unat ts' < 2 ^ 56" "unat cid' < 128"
  shows "(generate_timetag ts cid del < generate_timetag ts' cid' del' \<longleftrightarrow>
      ts < ts' \<or> ts = ts' \<and> (cid < cid' \<or> cid = cid' \<and> \<not> del \<and> del')) \<and>
    extract_timestamp_from_timetag (generate_timetag ts cid del) = ts"
proof -
  note u = timetag_unat [OF assms(1,2), of del] timetag_unat [OF assms(3,4), of del']
  have "generate_timetag ts cid del < generate_timetag ts' cid' del' \<longleftrightarrow>
      unat ts * 256 + unat cid * 2 + of_bool del < unat ts' * 256 + unat cid' * 2 + of_bool del'"
    by (simp only: word_less_nat_alt u)
  also have "\<dots> \<longleftrightarrow> unat ts < unat ts' \<or> unat ts = unat ts' \<and>
      (unat cid < unat cid' \<or> unat cid = unat cid' \<and> \<not> del \<and> del')"
    using assms(2,4) by (cases del; cases del'; simp; linarith)
  finally have "generate_timetag ts cid del < generate_timetag ts' cid' del' \<longleftrightarrow>
      ts < ts' \<or> ts = ts' \<and> (cid < cid' \<or> cid = cid' \<and> \<not> del \<and> del')"
    by (simp add: word_less_nat_alt word_unat_eq_iff)
  moreover have "unat (drop_bit 8 (generate_timetag ts cid del)) = unat ts"
    unfolding unsigned_drop_bit_eq u(1) using assms(1,2)
    by (cases del) (simp_all add: take_bit_nat_eq_self drop_bit_eq_div)
  then have d: "drop_bit 8 (generate_timetag ts cid del) = ts" by (simp add: word_unat_eq_iff)
  have "ts AND mask 56 = ts"
    using assms(1) by (simp add: word_unat_eq_iff unsigned_take_bit_eq take_bit_nat_eq_self
        flip: take_bit_eq_mask)
  then have "extract_timestamp_from_timetag (generate_timetag ts cid del) = ts"
    by (simp add: extract_timestamp_from_timetag_def d mask_numeral)
  ultimately show ?thesis by blast
qed

theorem timetag_order_witness:
  "generate_timetag 700 3 True < generate_timetag 701 2 False \<and>
   generate_timetag 700 2 True < generate_timetag 700 3 False"
  using timetag_order [of 700 3 701 2 True False] timetag_order [of 700 2 700 3 True False] by simp

end
