(* ===== verification/Mutation.thy ===== *)
theory Mutation
  imports Pegasus_Prelude
begin

text \<open>
  The two-phase-commit unit of \<^verbatim>\<open>src/src/replica/mutation.h\<close> and
  \<^verbatim>\<open>src/src/replica/mutation.cpp\<close>: a mutation carries the header of the PacificA
  algorithm, the write requests and the bookkeeping of acknowledgements. Mutations are
  shared by reference (\<open>mutation_ptr\<close>) between the prepare list, the write queue and the
  callbacks of the log and of the network, so a store maps pointers to mutation objects.
\<close>

section \<open>Data\<close>

record mutation_header =
  h_app_id :: int
  h_partition_index :: int
  h_ballot :: ballot
  h_decree :: decree
  h_log_offset :: int
  h_last_committed_decree :: decree
  h_timestamp :: int

record mutation_update =
  u_code :: string
  u_serialization_type :: int
  u_data :: bytes

text \<open>
  The part of a client message (\<open>message_ex\<close>) that mutations read: its identity (to reply
  to it), RPC code, serialization format, the partition hash computed by the client and the
  payload, which may be absent.
\<close>

record client_request =
  rq_id :: nat
  rq_code :: string
  rq_format :: int
  rq_partition_hash :: "64 word"
  rq_payload :: "bytes option"

record mutation =
  mu_header :: mutation_header
  mu_updates :: "mutation_update list"
  mu_client_requests :: "client_request option list"
  mu_prepare_requests :: "nat list"
  mu_not_logged :: "1 word"
  mu_left_secondary_ack_count :: "15 word"
  mu_left_potential_secondary_ack_count :: "14 word"
  mu_wait_child :: bool
  mu_is_error_acked :: bool
  mu_prepare_ts_ms :: int
  mu_appro_data_bytes :: int
  mu_create_ts_ns :: int
  mu_is_blocking_candidate :: bool
  mu_idem_writer :: "client_request option"
  mu_is_sync_to_child :: bool
  mu_log_task :: bool

type_synonym mutation_ptr = nat
type_synonym mutation_store = "mutation_ptr \<Rightarrow> mutation"

abbreviation mu_decree :: "mutation \<Rightarrow> decree" where
  "mu_decree m \<equiv> h_decree (mu_header m)"

abbreviation mu_ballot :: "mutation \<Rightarrow> ballot" where
  "mu_ballot m \<equiv> h_ballot (mu_header m)"

abbreviation mu_last_committed_decree :: "mutation \<Rightarrow> decree" where
  "mu_last_committed_decree m \<equiv> h_last_committed_decree (mu_header m)"

section \<open>Operations\<close>

text \<open>
  The constructor. The size of the generated header class and the clock are arguments;
  the thrift-generated header starts with zero fields.
\<close>

definition empty_header :: mutation_header where
  "empty_header = \<lparr>h_app_id = 0, h_partition_index = 0, h_ballot = 0, h_decree = 0,
     h_log_offset = 0, h_last_committed_decree = 0, h_timestamp = 0\<rparr>"

definition mutation_init :: "int \<Rightarrow> int \<Rightarrow> mutation" where
  "mutation_init sizeof_header now_ns =
     \<lparr>mu_header = empty_header, mu_updates = [], mu_client_requests = [],
      mu_prepare_requests = [], mu_not_logged = 1, mu_left_secondary_ack_count = 0,
      mu_left_potential_secondary_ack_count = 0, mu_wait_child = False,
      mu_is_error_acked = False, mu_prepare_ts_ms = 0, mu_appro_data_bytes = sizeof_header,
      mu_create_ts_ns = now_ns, mu_is_blocking_candidate = False, mu_idem_writer = None,
      mu_is_sync_to_child = False, mu_log_task = False\<rparr>"

definition is_logged :: "mutation \<Rightarrow> bool" where
  "is_logged m \<longleftrightarrow> mu_not_logged m = 0"

text \<open>
  \<open>_private0 == 0\<close>: the five bit fields share one 32-bit word, which is zero when each of
  them is.
\<close>

definition is_ready_for_commit :: "mutation \<Rightarrow> bool" where
  "is_ready_for_commit m \<longleftrightarrow>
     mu_not_logged m = 0 \<and> mu_left_secondary_ack_count m = 0 \<and>
     mu_left_potential_secondary_ack_count m = 0 \<and> \<not> mu_wait_child m \<and> \<not> mu_is_error_acked m"

definition set_logged :: "mutation \<Rightarrow> mutation result" where
  "set_logged m =
     bind_result (check (\<not> is_logged m) ''CHECK'')
       (\<lambda>_. Inr (m\<lparr>mu_not_logged := 0\<rparr>))"

definition set_left_secondary_ack_count :: "32 word \<Rightarrow> mutation \<Rightarrow> mutation" where
  "set_left_secondary_ack_count n m = m\<lparr>mu_left_secondary_ack_count := ucast n\<rparr>"

definition set_left_potential_secondary_ack_count :: "32 word \<Rightarrow> mutation \<Rightarrow> mutation" where
  "set_left_potential_secondary_ack_count n m =
     m\<lparr>mu_left_potential_secondary_ack_count := ucast n\<rparr>"

definition decrease_left_secondary_ack_count :: "mutation \<Rightarrow> 32 word \<times> mutation" where
  "decrease_left_secondary_ack_count m =
     (let c = mu_left_secondary_ack_count m - 1
      in (ucast c, m\<lparr>mu_left_secondary_ack_count := c\<rparr>))"

definition decrease_left_potential_secondary_ack_count :: "mutation \<Rightarrow> 32 word \<times> mutation" where
  "decrease_left_potential_secondary_ack_count m =
     (let c = mu_left_potential_secondary_ack_count m - 1
      in (ucast c, m\<lparr>mu_left_potential_secondary_ack_count := c\<rparr>))"

definition set_id :: "ballot \<Rightarrow> decree \<Rightarrow> mutation \<Rightarrow> mutation" where
  "set_id b c m = m\<lparr>mu_header := (mu_header m)\<lparr>h_ballot := b, h_decree := c\<rparr>\<rparr>"

definition is_full :: "mutation \<Rightarrow> bool" where
  "is_full m \<longleftrightarrow> mu_appro_data_bytes m \<ge> 1024 * 1024"

text \<open>\<open>RPC_REPLICATION_WRITE_EMPTY\<close> stands for the code of an empty write.\<close>

definition add_client_request :: "client_request option \<Rightarrow> mutation \<Rightarrow> mutation result" where
  "add_client_request request m =
     bind_result
       (case request of
          Some rq \<Rightarrow>
            (case rq_payload rq of
               None \<Rightarrow> Inl (Check_failed ''payload is not present'')
             | Some d \<Rightarrow>
                 Inr (\<lparr>u_code = rq_code rq, u_serialization_type = rq_format rq, u_data = d\<rparr>,
                      32 + (4 + int (length d))))
        | None \<Rightarrow>
            Inr (\<lparr>u_code = ''RPC_REPLICATION_WRITE_EMPTY'', u_serialization_type = 0,
                   u_data = []\<rparr>, 32 + 4))
       (\<lambda>(u, size).
          let m' = m\<lparr>mu_updates := mu_updates m @ [u],
                     mu_appro_data_bytes := mu_appro_data_bytes m + size,
                     mu_client_requests := mu_client_requests m @ [request]\<rparr>
          in bind_result
               (check (length (mu_client_requests m') = length (mu_updates m')) ''CHECK_EQ'')
               (\<lambda>_. Inr m'))"

text \<open>
  \<open>copy_from\<close> takes over the requests of an older mutation but not its logged flag: a
  mutation replayed under a new ballot is appended to the log again.
\<close>

definition copy_from :: "mutation \<Rightarrow> mutation \<Rightarrow> mutation" where
  "copy_from old m =
     m\<lparr>mu_updates := mu_updates old,
       mu_client_requests := mu_client_requests old,
       mu_appro_data_bytes := mu_appro_data_bytes old,
       mu_create_ts_ns := mu_create_ts_ns old,
       mu_prepare_requests := mu_prepare_requests old\<rparr>"

section \<open>Facts\<close>

definition requests_match_updates :: "mutation \<Rightarrow> bool" where
  "requests_match_updates m \<longleftrightarrow> length (mu_client_requests m) = length (mu_updates m)"

lemma is_ready_imp_logged: "is_ready_for_commit m \<Longrightarrow> is_logged m"
  by (simp add: is_ready_for_commit_def is_logged_def)

lemma mutation_init_facts [simp]:
  "\<not> is_logged (mutation_init n t)"
  "requests_match_updates (mutation_init n t)"
  by (simp_all add: mutation_init_def is_logged_def requests_match_updates_def)

lemma add_client_request_match:
  "add_client_request rq m = Inr m' \<Longrightarrow> requests_match_updates m'"
  by (auto simp: add_client_request_def requests_match_updates_def result_simps Let_def
      split: option.splits)

lemma add_client_request_total:
  assumes "requests_match_updates m" and "\<forall>r. rq = Some r \<longrightarrow> rq_payload r \<noteq> None"
  shows "\<exists>m'. add_client_request rq m = Inr m'
    \<and> mu_client_requests m' = mu_client_requests m @ [rq]
    \<and> mu_appro_data_bytes m < mu_appro_data_bytes m'
    \<and> mu_header m' = mu_header m
    \<and> mu_is_blocking_candidate m' = mu_is_blocking_candidate m"
  using assms
  by (auto simp: add_client_request_def requests_match_updates_def check_def Let_def
      split: option.splits)

text \<open>
  The 15-bit counter of outstanding secondary acknowledgements: setting it is faithful for
  any member count below \<open>2 ^ 15\<close>, and decrementing a non-zero counter never wraps.
\<close>

lemma set_left_secondary_ack_count_exact:
  assumes "n < 2 ^ 15"
  shows "unat (mu_left_secondary_ack_count (set_left_secondary_ack_count (of_nat n) m)) = n"
  using assms
  by (simp add: set_left_secondary_ack_count_def unsigned_ucast_eq unsigned_of_nat take_bit_nat_eq_self)

lemma decrease_left_secondary_ack_count_exact:
  assumes "decrease_left_secondary_ack_count m = (c, m')"
    and "0 < unat (mu_left_secondary_ack_count m)"
  shows "unat c = unat (mu_left_secondary_ack_count m) - 1
    \<and> mu_left_secondary_ack_count m' = mu_left_secondary_ack_count m - 1"
proof -
  from assms(2) have "mu_left_secondary_ack_count m \<noteq> 0" by (auto simp: unat_eq_0)
  then have "unat (mu_left_secondary_ack_count m - 1) = unat (mu_left_secondary_ack_count m) - 1"
    by (simp add: unat_minus_one)
  moreover have "unat (ucast (mu_left_secondary_ack_count m - 1) :: 32 word)
      = unat (mu_left_secondary_ack_count m - 1)"
    by (intro unat_widen) simp
  ultimately show ?thesis using assms(1)
    by (auto simp: decrease_left_secondary_ack_count_def Let_def)
qed

text \<open>Concrete logged mutations for examples.\<close>

definition sample_mutation :: "decree \<Rightarrow> ballot \<Rightarrow> decree \<Rightarrow> mutation" where
  "sample_mutation d b lcd =
     (mutation_init 56 0)\<lparr>mu_not_logged := 0,
        mu_header := empty_header\<lparr>h_decree := d, h_ballot := b, h_last_committed_decree := lcd\<rparr>\<rparr>"

lemma sample_mutation_simps [simp]:
  "mu_decree (sample_mutation d b l) = d" "mu_ballot (sample_mutation d b l) = b"
  "mu_last_committed_decree (sample_mutation d b l) = l" "is_logged (sample_mutation d b l)"
  "is_ready_for_commit (sample_mutation d b l)"
  by (simp_all add: sample_mutation_def empty_header_def is_logged_def is_ready_for_commit_def
      mutation_init_def)

end
