(* ===== verification/Mutation_Cache.thy ===== *)
theory Mutation_Cache
  imports Mutation
begin

text \<open>
  The bounded cache of \<^verbatim>\<open>src/src/replica/mutation_cache.cpp\<close>: a ring of
  \<open>_max_count\<close> mutation pointers that holds a window of consecutive decrees. The ring
  refines a partial map from decrees to mutations; the locale \<open>mutation_window\<close> states
  that contract, and the prepare list is proved against it.
\<close>

section \<open>The ring\<close>

record mutation_cache =
  mc_array :: "mutation_ptr option list"
  mc_max_count :: int
  mc_interval :: int
  mc_start_idx :: int
  mc_end_idx :: int
  mc_start_decree :: decree
  mc_end_decree :: decree

text \<open>An access of \<open>_array\<close>: an index outside the vector is undefined behaviour.\<close>

definition array_at :: "mutation_cache \<Rightarrow> int \<Rightarrow> mutation_ptr option result" where
  "array_at c i =
     (if 0 \<le> i \<and> i < int (length (mc_array c)) then Inr (mc_array c ! nat i)
      else Inl (Out_of_bounds ''_array''))"

text \<open>The remainder of C++ truncates towards zero; a zero divisor is undefined behaviour.\<close>

definition c_mod :: "int \<Rightarrow> int \<Rightarrow> int result" where
  "c_mod a b = (if b = 0 then Inl (Out_of_bounds ''modulo by zero'') else Inr (a smod b))"

definition reset_cache :: "decree \<Rightarrow> bool \<Rightarrow> mutation_cache \<Rightarrow> mutation_cache" where
  "reset_cache init_decree clear_mutations c =
     c\<lparr>mc_start_decree := init_decree, mc_end_decree := init_decree,
       mc_start_idx := 0, mc_end_idx := 0, mc_interval := 0,
       mc_array := (if clear_mutations then map (\<lambda>_. None) (mc_array c) else mc_array c)\<rparr>"

definition mutation_cache_init :: "decree \<Rightarrow> nat \<Rightarrow> mutation_cache" where
  "mutation_cache_init init_decree max_count =
     reset_cache init_decree False
       \<lparr>mc_array = replicate max_count None, mc_max_count = int max_count, mc_interval = 0,
        mc_start_idx = 0, mc_end_idx = 0, mc_start_decree = 0, mc_end_decree = 0\<rparr>"

definition put :: "mutation_store \<Rightarrow> mutation_cache \<Rightarrow> mutation_ptr \<Rightarrow>
    (error_code \<times> mutation_cache) result" where
  "put h c mu =
     (let decree = mu_decree (h mu);
          (delta, tag) =
            (if mc_interval c = 0 then (1, 0)
             else if decree > mc_end_decree c then (to_int32 (decree - mc_end_decree c), 1)
             else if decree < mc_start_decree c then (to_int32 (mc_start_decree c - decree), - 1)
             else (0, 0 :: int))
      in bind_result (add_int32 delta (mc_interval c)) (\<lambda>total.
         if total > mc_max_count c then Inr (ERR_CAPACITY_EXCEEDED, c)
         else
           bind_result
             (c_mod ((decree - mc_end_decree c) + mc_end_idx c + mc_max_count c) (mc_max_count c))
             (\<lambda>idx. bind_result (array_at c idx) (\<lambda>old.
              bind_result
                (case old of None \<Rightarrow> Inr ()
                 | Some q \<Rightarrow> check (mu_ballot (h q) \<le> mu_ballot (h mu)) ''CHECK_LE'')
                (\<lambda>_.
                 let c1 = c\<lparr>mc_array := (mc_array c)[nat idx := Some mu],
                            mc_interval := mc_interval c + delta\<rparr>
                 in Inr (ERR_OK,
                      if tag > 0 then c1\<lparr>mc_end_idx := idx, mc_end_decree := decree\<rparr>
                      else if tag < 0 then c1\<lparr>mc_start_idx := idx, mc_start_decree := decree\<rparr>
                      else if mc_interval c1 = 1
                      then c1\<lparr>mc_start_idx := idx, mc_end_idx := idx,
                              mc_start_decree := decree, mc_end_decree := decree\<rparr>
                      else c1))))))"

definition pop_min :: "mutation_cache \<Rightarrow> (mutation_ptr option \<times> mutation_cache) result" where
  "pop_min c =
     (if mc_interval c \<le> 0 then Inr (None, c)
      else
        bind_result (array_at c (mc_start_idx c)) (\<lambda>mu.
        bind_result (c_mod (mc_start_idx c + 1) (mc_max_count c)) (\<lambda>start'.
          let c1 = c\<lparr>mc_array := (mc_array c)[nat (mc_start_idx c) := None],
                     mc_interval := mc_interval c - 1, mc_start_idx := start'\<rparr>
          in Inr (mu,
               if mc_interval c1 = 0
               then c1\<lparr>mc_end_decree := mc_start_decree c1, mc_end_idx := mc_start_idx c1\<rparr>
               else c1\<lparr>mc_start_decree := mc_start_decree c1 + 1\<rparr>))))"

definition get_mutation_by_decree ::
    "mutation_cache \<Rightarrow> decree \<Rightarrow> mutation_ptr option result" where
  "get_mutation_by_decree c decree =
     (if decree < mc_start_decree c \<or> decree > mc_end_decree c then Inr None
      else bind_result
             (c_mod (mc_start_idx c + (decree - mc_start_decree c) + mc_max_count c)
                (mc_max_count c))
             (array_at c))"

definition min_decree :: "mutation_cache \<Rightarrow> decree" where
  "min_decree c = mc_start_decree c"

definition max_decree :: "mutation_cache \<Rightarrow> decree" where
  "max_decree c = mc_end_decree c"

definition count_cache :: "mutation_cache \<Rightarrow> int" where
  "count_cache c = mc_interval c"

definition capacity :: "mutation_cache \<Rightarrow> int" where
  "capacity c = mc_max_count c"

lemmas cache_query_defs = min_decree_def max_decree_def count_cache_def capacity_def

section \<open>Abstraction and invariant\<close>

text \<open>The slot of a decree, and the map that the ring represents.\<close>

definition slot :: "mutation_cache \<Rightarrow> decree \<Rightarrow> int" where
  "slot c d = (mc_start_idx c + (d - mc_start_decree c)) mod mc_max_count c"

definition in_window :: "mutation_cache \<Rightarrow> decree \<Rightarrow> bool" where
  "in_window c d \<longleftrightarrow> mc_start_decree c \<le> d \<and> d < mc_start_decree c + mc_interval c"

definition cache_map :: "mutation_cache \<Rightarrow> decree \<Rightarrow> mutation_ptr option" where
  "cache_map c d = (if in_window c d then mc_array c ! nat (slot c d) else None)"

definition ring_wf :: "mutation_cache \<Rightarrow> bool" where
  "ring_wf c \<longleftrightarrow>
     int (length (mc_array c)) = mc_max_count c \<and> 0 < mc_max_count c \<and> mc_max_count c < 2 ^ 31 \<and>
     0 \<le> mc_interval c \<and> mc_interval c \<le> mc_max_count c \<and>
     0 \<le> mc_start_idx c \<and> mc_start_idx c < mc_max_count c \<and>
     mc_end_idx c = slot c (mc_end_decree c) \<and>
     mc_end_decree c = mc_start_decree c + (if mc_interval c = 0 then 0 else mc_interval c - 1) \<and>
     (\<forall>i < length (mc_array c). mc_array c ! i \<noteq> None \<longrightarrow>
        (\<exists>d. in_window c d \<and> i = nat (slot c d)))"

text \<open>Every cached mutation sits at its own decree.\<close>

definition cache_decrees :: "mutation_store \<Rightarrow> mutation_cache \<Rightarrow> bool" where
  "cache_decrees h c \<longleftrightarrow> (\<forall>d p. cache_map c d = Some p \<longrightarrow> mu_decree (h p) = d)"

lemma slot_bounds: "ring_wf c \<Longrightarrow> 0 \<le> slot c d \<and> slot c d < mc_max_count c"
  by (simp add: ring_wf_def slot_def)

lemma nat_slot_less: "ring_wf c \<Longrightarrow> nat (slot c d) < length (mc_array c)"
  using slot_bounds [of c d] by (auto simp: ring_wf_def)

lemma slot_start: "ring_wf c \<Longrightarrow> slot c (mc_start_decree c) = mc_start_idx c"
  by (simp add: ring_wf_def slot_def)

lemma slot_end_shift:
  assumes "ring_wf c"
  shows "((d - mc_end_decree c) + mc_end_idx c + mc_max_count c) mod mc_max_count c = slot c d"
proof -
  have "mc_end_idx c = (mc_start_idx c + (mc_end_decree c - mc_start_decree c)) mod mc_max_count c"
    using assms by (simp add: ring_wf_def slot_def)
  then have "((d - mc_end_decree c) + mc_end_idx c + mc_max_count c) mod mc_max_count c
      = ((d - mc_end_decree c)
         + (mc_start_idx c + (mc_end_decree c - mc_start_decree c))) mod mc_max_count c"
    by (simp add: mod_simps)
  also have "\<dots> = slot c d"
    unfolding slot_def by (rule arg_cong [where f = "\<lambda>x. x mod mc_max_count c"]) simp
  finally show ?thesis .
qed

text \<open>Within one window of at most \<open>_max_count\<close> decrees, slots are distinct.\<close>

lemma slot_inj:
  assumes "slot c d = slot c e" and "s \<le> d" "d < s + mc_max_count c" "s \<le> e"
    "e < s + mc_max_count c"
  shows "d = e"
proof -
  have "mc_start_idx c + (s - mc_start_decree c) + (x - s) = mc_start_idx c + (x - mc_start_decree c)"
    for x by linarith
  then have "(mc_start_idx c + (s - mc_start_decree c) + (d - s)) mod mc_max_count c
      = (mc_start_idx c + (s - mc_start_decree c) + (e - s)) mod mc_max_count c"
    using assms(1) by (simp only: slot_def)
  then have "d - s = e - s" by (rule ring_inj [rotated 4]) (use assms(2-5) in linarith)+
  then show ?thesis by simp
qed

lemma slot_nat_inj:
  assumes "ring_wf c" "nat (slot c d) = nat (slot c e)" and "s \<le> d" "d < s + mc_max_count c"
    "s \<le> e" "e < s + mc_max_count c"
  shows "d = e"
proof -
  have "slot c d = slot c e"
    using assms(2) slot_bounds [OF assms(1), of d] slot_bounds [OF assms(1), of e] by linarith
  then show ?thesis using assms(3-6) by (rule slot_inj)
qed

lemma occupied_in_window:
  assumes "ring_wf c" "mc_array c ! nat (slot c d) = Some p"
    and "s \<le> d" "d < s + mc_max_count c"
    and "mc_interval c > 0 \<Longrightarrow> s \<le> mc_start_decree c \<and>
      mc_start_decree c + mc_interval c \<le> s + mc_max_count c"
  shows "in_window c d"
proof -
  have "\<forall>i < length (mc_array c). mc_array c ! i \<noteq> None \<longrightarrow>
      (\<exists>d. in_window c d \<and> i = nat (slot c d))"
    using assms(1) by (simp add: ring_wf_def)
  moreover have "mc_array c ! nat (slot c d) \<noteq> None" using assms(2) by simp
  ultimately obtain e where e: "in_window c e" "nat (slot c d) = nat (slot c e)"
    using nat_slot_less [OF assms(1), of d] by blast
  have "d = e"
  proof (rule slot_nat_inj [OF assms(1) e(2) assms(3,4)])
    show "s \<le> e" "e < s + mc_max_count c" using e(1) assms(5) by (auto simp: in_window_def)
  qed
  with e show ?thesis by simp
qed

text \<open>
  Writing one slot and extending the window: the common core of the three cases of
  \<open>put\<close>.
\<close>

lemma ring_insert:
  assumes wf: "ring_wf c"
    and n: "0 < n" "n \<le> mc_max_count c"
    and d: "s \<le> d" "d < s + n"
    and old: "mc_interval c > 0 \<Longrightarrow> s \<le> mc_start_decree c \<and>
      mc_start_decree c + mc_interval c \<le> s + n"
    and c': "c' = c\<lparr>mc_array := (mc_array c)[nat (slot c d) := Some p], mc_interval := n,
        mc_start_idx := slot c s, mc_start_decree := s,
        mc_end_idx := slot c (s + n - 1), mc_end_decree := s + n - 1\<rparr>"
  shows "ring_wf c' \<and> cache_map c' = (cache_map c)(d \<mapsto> p)"
proof -
  have slots: "slot c' x = slot c x" for x
    by (simp add: c' slot_def mod_simps)
  have win: "in_window c' x \<longleftrightarrow> s \<le> x \<and> x < s + n" for x
    by (simp add: c' in_window_def)
  have old_win: "in_window c x \<Longrightarrow> in_window c' x" for x
    using old by (auto simp: in_window_def c')
  have less: "nat (slot c x) < length (mc_array c)" for x
    by (rule nat_slot_less [OF wf])
  have arr: "mc_array c' ! nat (slot c x)
      = (if nat (slot c x) = nat (slot c d) then Some p else mc_array c ! nat (slot c x))" for x
    using less by (simp add: c' nth_list_update)
  have "cache_map c' x = ((cache_map c)(d \<mapsto> p)) x" for x
  proof (cases "s \<le> x \<and> x < s + n")
    case False
    then show ?thesis using d old_win win by (auto simp: cache_map_def)
  next
    case True
    show ?thesis
    proof (cases "x = d")
      case True
      then show ?thesis using d by (simp add: cache_map_def win slots arr)
    next
      case False
      have ne: "nat (slot c x) \<noteq> nat (slot c d)"
        using slot_nat_inj [OF wf, where s = s and d = x and e = d] True False d n by auto
      have "in_window c x" if "mc_array c ! nat (slot c x) = Some q" for q
        by (rule occupied_in_window [OF wf that]) (use True n old in auto)
      then have "\<not> in_window c x \<Longrightarrow> mc_array c ! nat (slot c x) = None"
        by (cases "mc_array c ! nat (slot c x)") auto
      with ne True False show ?thesis
        by (cases "in_window c x") (simp_all add: cache_map_def win slots arr)
    qed
  qed
  moreover have "ring_wf c'"
  proof -
    have occ: "\<exists>x. in_window c' x \<and> i = nat (slot c' x)"
      if i: "i < length (mc_array c')" "mc_array c' ! i \<noteq> None" for i
    proof (cases "i = nat (slot c d)")
      case True
      then show ?thesis using d by (intro exI [of _ d]) (simp add: win slots)
    next
      case False
      then obtain x where "in_window c x" "i = nat (slot c x)"
        using i wf by (auto simp: c' ring_wf_def)
      then show ?thesis using old_win slots by auto
    qed
    have endx: "mc_end_idx c' = slot c' (mc_end_decree c')"
      by (simp add: slots) (simp add: c')
    have shape: "length (mc_array c') = length (mc_array c)" "mc_max_count c' = mc_max_count c"
      "mc_interval c' = n" "mc_start_idx c' = slot c s" "mc_end_decree c' = mc_start_decree c' + (n - 1)"
      by (simp_all add: c')
    have old': "int (length (mc_array c)) = mc_max_count c" "0 < mc_max_count c"
      "mc_max_count c < 2 ^ 31"
      using wf by (simp_all add: ring_wf_def)
    show ?thesis unfolding ring_wf_def
      by (intro conjI allI impI occ endx) (use shape old' n slot_bounds [OF wf] in simp_all)
  qed
  ultimately show ?thesis by auto
qed

section \<open>The operations on the invariant\<close>

lemma array_at_slot: "ring_wf c \<Longrightarrow> array_at c (slot c d) = Inr (mc_array c ! nat (slot c d))"
  using slot_bounds [of c d] by (simp add: array_at_def ring_wf_def)

lemma get_mutation_by_decree_map:
  assumes wf: "ring_wf c"
  shows "get_mutation_by_decree c d = Inr (cache_map c d)"
proof (cases "d < mc_start_decree c \<or> d > mc_end_decree c")
  case True
  then have "\<not> in_window c d" using wf by (auto simp: in_window_def ring_wf_def split: if_splits)
  with True show ?thesis by (simp add: get_mutation_by_decree_def cache_map_def)
next
  case False
  have "(mc_start_idx c + (d - mc_start_decree c) + mc_max_count c) smod mc_max_count c = slot c d"
    using wf False by (subst smod_nonneg) (auto simp: ring_wf_def slot_def)
  then have get: "get_mutation_by_decree c d = Inr (mc_array c ! nat (slot c d))"
    using wf False by (simp add: get_mutation_by_decree_def c_mod_def array_at_slot)
       (simp add: ring_wf_def)
  show ?thesis
  proof (cases "in_window c d")
    case True
    with get show ?thesis by (simp add: cache_map_def)
  next
    case out: False
    with False wf have empty: "mc_interval c = 0" "d = mc_start_decree c"
      by (auto simp: in_window_def ring_wf_def split: if_splits)
    have "mc_array c ! nat (slot c d) = None"
    proof (rule ccontr)
      assume "mc_array c ! nat (slot c d) \<noteq> None"
      then obtain p where "mc_array c ! nat (slot c d) = Some p" by auto
      then have "in_window c d"
        by (rule occupied_in_window [OF wf, where s = d]) (use wf empty in \<open>auto simp: ring_wf_def\<close>)
      with out show False by simp
    qed
    with get out show ?thesis by (simp add: cache_map_def)
  qed
qed

text \<open>
  The distance between the decree of a mutation and the window stays inside \<open>int\<close>, and a
  mutation put into an empty cache is not more than \<open>_max_count\<close> decrees old.
\<close>

definition near_window :: "mutation_cache \<Rightarrow> decree \<Rightarrow> bool" where
  "near_window c d \<longleftrightarrow>
     d - mc_end_decree c + mc_max_count c < 2 ^ 31 \<and>
     mc_start_decree c - d + mc_max_count c < 2 ^ 31 \<and>
     (mc_interval c = 0 \<longrightarrow> mc_end_decree c - mc_max_count c \<le> d)"

text \<open>The decrees of the window after the put.\<close>

definition put_lo :: "mutation_cache \<Rightarrow> decree \<Rightarrow> decree" where
  "put_lo c d = (if mc_interval c = 0 then d else min d (mc_start_decree c))"

definition put_hi :: "mutation_cache \<Rightarrow> decree \<Rightarrow> decree" where
  "put_hi c d = (if mc_interval c = 0 then d else max d (mc_end_decree c))"

lemma put_full:
  assumes wf: "ring_wf c" and near: "near_window c (mu_decree (h p))"
    and full: "mc_max_count c < put_hi c (mu_decree (h p)) - put_lo c (mu_decree (h p)) + 1"
  shows "put h c p = Inr (ERR_CAPACITY_EXCEEDED, c)"
proof -
  let ?d = "mu_decree (h p)"
  have cnt: "mc_interval c \<noteq> 0" using full wf by (auto simp: put_hi_def put_lo_def ring_wf_def)
  have w: "mc_end_decree c = mc_start_decree c + mc_interval c - 1" "0 \<le> mc_interval c"
    "mc_interval c \<le> mc_max_count c"
    using wf cnt by (simp_all add: ring_wf_def)
  consider (above) "?d > mc_end_decree c" | (below) "?d < mc_start_decree c"
    using full cnt w by (force simp: put_hi_def put_lo_def)
  then show ?thesis
  proof cases
    case above
    have "to_int32 (?d - mc_end_decree c) = ?d - mc_end_decree c"
      using above near w by (intro to_int32_id) (auto simp: near_window_def)
    with above cnt full near w show ?thesis
      by (simp add: put_def add_int32_def near_window_def put_hi_def put_lo_def Let_def)
  next
    case below
    have "to_int32 (mc_start_decree c - ?d) = mc_start_decree c - ?d"
      using below near w by (intro to_int32_id) (auto simp: near_window_def)
    with below cnt full near w show ?thesis
      by (simp add: put_def add_int32_def near_window_def put_hi_def put_lo_def Let_def)
  qed
qed

text \<open>Otherwise the put writes the slot of the decree and extends the window to it.\<close>

definition put_state :: "mutation_cache \<Rightarrow> decree \<Rightarrow> mutation_ptr \<Rightarrow> mutation_cache" where
  "put_state c d p =
     c\<lparr>mc_array := (mc_array c)[nat (slot c d) := Some p],
       mc_interval := put_hi c d - put_lo c d + 1,
       mc_start_idx := slot c (put_lo c d), mc_start_decree := put_lo c d,
       mc_end_idx := slot c (put_hi c d), mc_end_decree := put_hi c d\<rparr>"

lemma put_state_wf:
  assumes wf: "ring_wf c" and fits: "put_hi c d - put_lo c d + 1 \<le> mc_max_count c"
  shows "ring_wf (put_state c d p) \<and> cache_map (put_state c d p) = (cache_map c)(d \<mapsto> p)"
proof (rule ring_insert [OF wf, where s = "put_lo c d" and n = "put_hi c d - put_lo c d + 1"])
  have w: "0 \<le> mc_interval c"
    "mc_end_decree c = mc_start_decree c + (if mc_interval c = 0 then 0 else mc_interval c - 1)"
    using wf by (simp_all add: ring_wf_def)
  show "0 < put_hi c d - put_lo c d + 1" "put_lo c d \<le> d"
    "d < put_lo c d + (put_hi c d - put_lo c d + 1)"
    using w by (auto simp: put_lo_def put_hi_def)
  show "mc_interval c > 0 \<Longrightarrow> put_lo c d \<le> mc_start_decree c \<and>
      mc_start_decree c + mc_interval c \<le> put_lo c d + (put_hi c d - put_lo c d + 1)"
    using w by (auto simp: put_lo_def put_hi_def)
qed (use fits in \<open>simp_all add: put_state_def\<close>)

lemma put_index:
  assumes wf: "ring_wf c" and near: "near_window c d"
    and fits: "put_hi c d - put_lo c d + 1 \<le> mc_max_count c"
  shows "c_mod ((d - mc_end_decree c) + mc_end_idx c + mc_max_count c) (mc_max_count c)
    = Inr (slot c d)"
proof -
  have w: "0 \<le> mc_interval c" "0 < mc_max_count c" "0 \<le> mc_end_idx c"
    "mc_end_decree c = mc_start_decree c + (if mc_interval c = 0 then 0 else mc_interval c - 1)"
    using wf slot_bounds [OF wf] by (simp_all add: ring_wf_def)
  have "0 \<le> (d - mc_end_decree c) + mc_end_idx c + mc_max_count c"
    using w near fits by (auto simp: near_window_def put_lo_def put_hi_def split: if_splits)
  then show ?thesis
    using w slot_end_shift [OF wf, of d] by (simp add: c_mod_def smod_nonneg)
qed

lemma put_slot_old:
  assumes wf: "ring_wf c" and fits: "put_hi c d - put_lo c d + 1 \<le> mc_max_count c"
    and old: "mc_array c ! nat (slot c d) = Some q"
  shows "cache_map c d = Some q"
proof -
  have "in_window c d"
    by (rule occupied_in_window [OF wf old, where s = "put_lo c d"])
      (use wf fits in \<open>auto simp: put_lo_def put_hi_def ring_wf_def split: if_splits\<close>)
  with old show ?thesis by (simp add: cache_map_def)
qed

lemma put_fits:
  assumes wf: "ring_wf c" and near: "near_window c (mu_decree (h p))"
    and fits: "put_hi c (mu_decree (h p)) - put_lo c (mu_decree (h p)) + 1 \<le> mc_max_count c"
    and ballots: "\<And>q. cache_map c (mu_decree (h p)) = Some q \<Longrightarrow> mu_ballot (h q) \<le> mu_ballot (h p)"
  shows "put h c p = Inr (ERR_OK, put_state c (mu_decree (h p)) p)"
proof -
  let ?d = "mu_decree (h p)"
  have w: "0 \<le> mc_interval c" "mc_interval c \<le> mc_max_count c" "mc_max_count c < 2 ^ 31"
    "mc_end_decree c = mc_start_decree c + (if mc_interval c = 0 then 0 else mc_interval c - 1)"
    using wf by (simp_all add: ring_wf_def)
  have ends: "slot c (mc_start_decree c) = mc_start_idx c" "slot c (mc_end_decree c) = mc_end_idx c"
    using wf by (simp_all add: slot_start) (simp add: ring_wf_def)
  have idx: "c_mod ((?d - mc_end_decree c) + mc_end_idx c + mc_max_count c) (mc_max_count c)
      = Inr (slot c ?d)"
    by (rule put_index [OF wf near fits])
  have old: "(case mc_array c ! nat (slot c ?d) of None \<Rightarrow> Inr ()
      | Some q \<Rightarrow> check (mu_ballot (h q) \<le> mu_ballot (h p)) ''CHECK_LE'') = Inr ()"
    using put_slot_old [OF wf fits] ballots by (auto simp: check_def split: option.split)
  note ev = put_def put_state_def idx array_at_slot [OF wf] old Let_def
  consider (empty) "mc_interval c = 0" | (above) "mc_interval c \<noteq> 0" "?d > mc_end_decree c"
    | (below) "mc_interval c \<noteq> 0" "?d < mc_start_decree c" "\<not> ?d > mc_end_decree c"
    | (inside) "mc_interval c \<noteq> 0" "mc_start_decree c \<le> ?d" "?d \<le> mc_end_decree c"
    by linarith
  then show ?thesis
  proof cases
    case empty
    then show ?thesis using w(2,3) fits by (simp add: ev put_lo_def put_hi_def add_int32_def)
  next
    case above
    have cast: "to_int32 (?d - mc_end_decree c) = ?d - mc_end_decree c"
      using above near w by (intro to_int32_id) (auto simp: near_window_def)
    have bounds: "put_lo c ?d = mc_start_decree c" "put_hi c ?d = ?d"
      using above w by (simp_all add: put_lo_def put_hi_def)
    have sum: "mc_interval c + (?d - mc_end_decree c) = ?d - mc_start_decree c + 1"
      using above w by simp
    have "add_int32 (?d - mc_end_decree c) (mc_interval c) = Inr (?d - mc_start_decree c + 1)"
      using above near w by (simp add: add_int32_def near_window_def)
    with above fits cast show ?thesis by (simp add: ev bounds sum ends)
  next
    case below
    have cast: "to_int32 (mc_start_decree c - ?d) = mc_start_decree c - ?d"
      using below near w by (intro to_int32_id) (auto simp: near_window_def)
    have bounds: "put_lo c ?d = ?d" "put_hi c ?d = mc_end_decree c"
      using below w by (simp_all add: put_lo_def put_hi_def)
    have sum: "mc_interval c + (mc_start_decree c - ?d) = mc_end_decree c - ?d + 1"
      using below w by simp
    have "add_int32 (mc_start_decree c - ?d) (mc_interval c) = Inr (mc_end_decree c - ?d + 1)"
      using below near w by (simp add: add_int32_def near_window_def)
    with below fits cast show ?thesis by (simp add: ev bounds sum ends)
  next
    case inside
    have bounds: "put_lo c ?d = mc_start_decree c" "put_hi c ?d = mc_end_decree c"
      "mc_end_decree c - mc_start_decree c + 1 = mc_interval c"
      using inside w by (simp_all add: put_lo_def put_hi_def)
    have one: "mc_start_decree c = ?d" "mc_end_decree c = ?d" if "mc_interval c = 1"
      using that inside w by simp_all
    have add: "add_int32 0 (mc_interval c) = Inr (mc_interval c)"
      using w(1-3) by (simp add: add_int32_def)
    show ?thesis
    proof (cases "mc_interval c = 1")
      case True
      then have "slot c ?d = mc_start_idx c" "slot c ?d = mc_end_idx c" using one ends by simp_all
      with True one inside w(2) add idx old array_at_slot [OF wf, of ?d] show ?thesis
        by (simp add: put_def put_state_def Let_def bounds ends)
    next
      case False
      with inside w(2) add show ?thesis by (simp add: ev bounds ends)
    qed
  qed
qed

lemma pop_min_empty: "ring_wf c \<Longrightarrow> mc_interval c = 0 \<Longrightarrow> pop_min c = Inr (None, c)"
  by (simp add: pop_min_def)

definition pop_state :: "mutation_cache \<Rightarrow> mutation_cache" where
  "pop_state c =
     (let lo = (if mc_interval c = 1 then mc_start_decree c else mc_start_decree c + 1);
          i = (mc_start_idx c + 1) mod mc_max_count c
      in c\<lparr>mc_array := (mc_array c)[nat (mc_start_idx c) := None],
           mc_interval := mc_interval c - 1, mc_start_idx := i, mc_start_decree := lo,
           mc_end_decree := max lo (mc_end_decree c),
           mc_end_idx := (if mc_interval c = 1 then i else mc_end_idx c)\<rparr>)"

lemma pop_min_some:
  assumes wf: "ring_wf c" and cnt: "0 < mc_interval c"
  shows "pop_min c = Inr (cache_map c (mc_start_decree c), pop_state c)"
proof -
  have w: "0 < mc_max_count c" "0 \<le> mc_start_idx c" "mc_start_idx c < int (length (mc_array c))"
    "mc_end_decree c = mc_start_decree c + (mc_interval c - 1)"
    using wf cnt by (simp_all add: ring_wf_def)
  have "(mc_start_idx c + 1) smod mc_max_count c = (mc_start_idx c + 1) mod mc_max_count c"
    using w by (simp add: smod_nonneg)
  moreover have "cache_map c (mc_start_decree c) = mc_array c ! nat (mc_start_idx c)"
    using cnt slot_start [OF wf] by (simp add: cache_map_def in_window_def)
  moreover have "max (mc_start_decree c + 1) (mc_end_decree c) = mc_end_decree c"
    if "mc_interval c \<noteq> 1"
    using that cnt w(4) by (simp add: max_def)
  ultimately show ?thesis
    using w cnt by (simp add: pop_min_def pop_state_def array_at_def c_mod_def Let_def)
qed

lemma pop_state_wf:
  assumes wf: "ring_wf c" and cnt: "0 < mc_interval c"
  shows "ring_wf (pop_state c) \<and>
    cache_map (pop_state c) = (cache_map c)(mc_start_decree c := None)"
proof -
  let ?c = "pop_state c"
  have w: "0 < mc_max_count c" "0 \<le> mc_start_idx c" "mc_start_idx c < mc_max_count c"
    "int (length (mc_array c)) = mc_max_count c" "mc_interval c \<le> mc_max_count c"
    "mc_max_count c < 2 ^ 31"
    "mc_end_decree c = mc_start_decree c + (mc_interval c - 1)" "mc_end_idx c = slot c (mc_end_decree c)"
    using wf cnt by (simp_all add: ring_wf_def)
  have win: "in_window ?c x \<longleftrightarrow> in_window c x \<and> x \<noteq> mc_start_decree c" for x
    using cnt by (auto simp: in_window_def pop_state_def Let_def)
  have slots: "slot ?c x = slot c x" if "mc_interval c \<noteq> 1" for x
    using that by (simp add: slot_def pop_state_def Let_def mod_simps)
  have start: "nat (slot c (mc_start_decree c)) = nat (mc_start_idx c)"
    by (simp add: slot_start [OF wf])
  have ne: "nat (slot c x) \<noteq> nat (mc_start_idx c)" if "in_window ?c x" for x
  proof
    assume "nat (slot c x) = nat (mc_start_idx c)"
    moreover from that have "in_window c x" by (simp add: win)
    ultimately have "x = mc_start_decree c"
      using start w cnt
      by (intro slot_nat_inj [OF wf, where s = "mc_start_decree c"]) (auto simp: in_window_def)
    with that win show False by simp
  qed
  have one: "mc_interval c \<noteq> 1" if "in_window ?c x" for x
  proof
    assume "mc_interval c = 1"
    with that show False unfolding win by (auto simp: in_window_def)
  qed
  have "cache_map ?c x = ((cache_map c)(mc_start_decree c := None)) x" for x
  proof (cases "in_window ?c x")
    case True
    then have "mc_array ?c ! nat (slot ?c x) = mc_array c ! nat (slot c x)"
      using ne [OF True] one [OF True] slots by (simp add: pop_state_def Let_def)
    with True show ?thesis by (simp add: cache_map_def win)
  next
    case False
    then show ?thesis by (auto simp: cache_map_def win)
  qed
  moreover have "ring_wf ?c"
  proof -
    have occ: "\<exists>x. in_window ?c x \<and> i = nat (slot ?c x)"
      if i: "i < length (mc_array ?c)" "mc_array ?c ! i \<noteq> None" for i
    proof -
      from i have i': "i < length (mc_array c)" "i \<noteq> nat (mc_start_idx c)" "mc_array c ! i \<noteq> None"
        using w(2-4) by (auto simp: pop_state_def Let_def nth_list_update split: if_splits)
      moreover have "\<forall>i < length (mc_array c). mc_array c ! i \<noteq> None \<longrightarrow>
          (\<exists>d. in_window c d \<and> i = nat (slot c d))"
        using wf by (simp add: ring_wf_def)
      ultimately obtain x where x: "in_window c x" "i = nat (slot c x)" by blast
      with i' start have "x \<noteq> mc_start_decree c" by auto
      with x have "in_window ?c x" by (simp add: win)
      with x one slots show ?thesis by auto
    qed
    have endx: "mc_end_idx ?c = slot ?c (mc_end_decree ?c)"
    proof (cases "mc_interval c = 1")
      case True
      then show ?thesis using w by (simp add: pop_state_def slot_def Let_def)
    next
      case False
      with cnt w have "max (mc_start_decree c + 1) (mc_end_decree c) = mc_end_decree c" by simp
      then show ?thesis using False w(8) slots by (simp add: pop_state_def Let_def)
    qed
    have shape: "length (mc_array ?c) = length (mc_array c)" "mc_max_count ?c = mc_max_count c"
      "mc_interval ?c = mc_interval c - 1" "0 \<le> mc_start_idx ?c" "mc_start_idx ?c < mc_max_count c"
      "mc_end_decree ?c = mc_start_decree ?c + (if mc_interval ?c = 0 then 0 else mc_interval ?c - 1)"
      using w cnt by (auto simp: pop_state_def Let_def)
    show ?thesis unfolding ring_wf_def
      by (intro conjI allI impI occ endx) (use shape w cnt in simp_all)
  qed
  ultimately show ?thesis by auto
qed

lemma pop_state_query:
  assumes "ring_wf c" and "0 < mc_interval c"
  shows "mc_interval (pop_state c) = mc_interval c - 1" "mc_max_count (pop_state c) = mc_max_count c"
    "mc_end_decree (pop_state c) = mc_end_decree c"
    "mc_start_decree (pop_state c)
      = (if mc_interval c = 1 then mc_start_decree c else mc_start_decree c + 1)"
proof -
  have "mc_end_decree c = mc_start_decree c + (mc_interval c - 1)"
    using assms by (simp add: ring_wf_def)
  then show "mc_interval (pop_state c) = mc_interval c - 1"
    "mc_max_count (pop_state c) = mc_max_count c" "mc_end_decree (pop_state c) = mc_end_decree c"
    "mc_start_decree (pop_state c)
      = (if mc_interval c = 1 then mc_start_decree c else mc_start_decree c + 1)"
    using assms(2) by (auto simp: pop_state_def Let_def)
qed

lemma reset_cache_wf:
  assumes "int (length (mc_array c)) = mc_max_count c" "0 < mc_max_count c" "mc_max_count c < 2 ^ 31"
    and "clear \<or> (\<forall>i < length (mc_array c). mc_array c ! i = None)"
  shows "ring_wf (reset_cache d clear c) \<and> cache_map (reset_cache d clear c) = Map.empty"
proof
  show "ring_wf (reset_cache d clear c)"
    using assms by (auto simp: ring_wf_def reset_cache_def in_window_def slot_def)
  show "cache_map (reset_cache d clear c) = Map.empty"
    by (rule ext) (auto simp: reset_cache_def cache_map_def in_window_def)
qed

lemma mutation_cache_init_wf:
  assumes "0 < n" "int n < 2 ^ 31"
  shows "ring_wf (mutation_cache_init d n) \<and> cache_map (mutation_cache_init d n) = Map.empty"
  unfolding mutation_cache_init_def by (rule reset_cache_wf) (use assms in simp_all)

section \<open>The contract of a cache\<close>

text \<open>
  What the prepare list relies on: a well-formed cache is a partial map on a window of
  \<open>cnt\<close> consecutive decrees starting at \<open>lo\<close>; \<open>get\<close> reads the map, \<open>pop\<close> removes the
  least decree of the window, \<open>ins\<close> adds a mutation when the extended window fits and
  reports \<open>ERR_CAPACITY_EXCEEDED\<close> otherwise.
\<close>

primrec pops :: "('c \<Rightarrow> (mutation_ptr option \<times> 'c) result) \<Rightarrow> nat \<Rightarrow> 'c \<Rightarrow> 'c result" where
  "pops pop 0 c = Inr c"
| "pops pop (Suc n) c = bind_result (pop c) (\<lambda>(_, c'). pops pop n c')"

locale mutation_window =
  fixes wf :: "'c \<Rightarrow> bool"
    and lookup :: "'c \<Rightarrow> decree \<Rightarrow> mutation_ptr option"
    and lo hi :: "'c \<Rightarrow> decree"
    and cnt cap :: "'c \<Rightarrow> int"
    and near :: "'c \<Rightarrow> decree \<Rightarrow> bool"
    and get :: "'c \<Rightarrow> decree \<Rightarrow> mutation_ptr option result"
    and pop :: "'c \<Rightarrow> (mutation_ptr option \<times> 'c) result"
    and ins :: "mutation_store \<Rightarrow> 'c \<Rightarrow> mutation_ptr \<Rightarrow> (error_code \<times> 'c) result"
    and clear :: "decree \<Rightarrow> 'c \<Rightarrow> 'c"
  assumes get_lookup: "wf c \<Longrightarrow> get c d = Inr (lookup c d)"
    and window: "wf c \<Longrightarrow> lookup c d \<noteq> None \<Longrightarrow> lo c \<le> d \<and> d < lo c + cnt c"
    and shape: "wf c \<Longrightarrow> 0 \<le> cnt c \<and> cnt c \<le> cap c \<and> 0 < cap c \<and>
      hi c = lo c + (if cnt c = 0 then 0 else cnt c - 1)"
    and pop_some: "wf c \<Longrightarrow> 0 < cnt c \<Longrightarrow> \<exists>c'. pop c = Inr (lookup c (lo c), c') \<and> wf c' \<and>
      lookup c' = (lookup c)(lo c := None) \<and> cnt c' = cnt c - 1 \<and> cap c' = cap c \<and>
      hi c' = hi c \<and> lo c' = (if cnt c = 1 then lo c else lo c + 1)"
    and ins_fits: "wf c \<Longrightarrow> near c (mu_decree (h p)) \<Longrightarrow>
      (\<And>q. lookup c (mu_decree (h p)) = Some q \<Longrightarrow> mu_ballot (h q) \<le> mu_ballot (h p)) \<Longrightarrow>
      (cnt c \<noteq> 0 \<Longrightarrow> max (mu_decree (h p)) (hi c) - min (mu_decree (h p)) (lo c) < cap c) \<Longrightarrow>
      \<exists>c'. ins h c p = Inr (ERR_OK, c') \<and> wf c' \<and>
        lookup c' = (lookup c)(mu_decree (h p) \<mapsto> p) \<and> cap c' = cap c \<and> 0 < cnt c' \<and>
        lo c' = (if cnt c = 0 then mu_decree (h p) else min (mu_decree (h p)) (lo c)) \<and>
        hi c' = (if cnt c = 0 then mu_decree (h p) else max (mu_decree (h p)) (hi c))"
    and ins_full: "wf c \<Longrightarrow> near c (mu_decree (h p)) \<Longrightarrow> cnt c \<noteq> 0 \<Longrightarrow>
      cap c \<le> max (mu_decree (h p)) (hi c) - min (mu_decree (h p)) (lo c) \<Longrightarrow>
      ins h c p = Inr (ERR_CAPACITY_EXCEEDED, c)"
    and clear_empty: "wf c \<Longrightarrow> wf (clear d c) \<and> lookup (clear d c) = Map.empty \<and>
      cnt (clear d c) = 0 \<and> lo (clear d c) = d \<and> hi (clear d c) = d \<and> cap (clear d c) = cap c"
begin

text \<open>Popping \<open>n\<close> times drops the \<open>n\<close> least decrees and nothing else.\<close>

lemma pops_restrict:
  assumes "wf c" and "int n < cnt c"
  shows "\<exists>c'. pops pop n c = Inr c' \<and> wf c' \<and> lo c' = lo c + int n \<and> hi c' = hi c \<and>
    cnt c' = cnt c - int n \<and> cap c' = cap c \<and>
    lookup c' = (\<lambda>d. if d < lo c + int n then None else lookup c d)"
  using assms
proof (induction n arbitrary: c)
  case 0
  then have "lookup c d = (if d < lo c then None else lookup c d)" for d
    using window [of c d] by (cases "lookup c d") auto
  with 0 show ?case by (auto simp: fun_eq_iff)
next
  case (Suc n)
  then obtain c1 where c1: "pop c = Inr (lookup c (lo c), c1)" "wf c1"
      "lookup c1 = (lookup c)(lo c := None)" "cnt c1 = cnt c - 1" "cap c1 = cap c" "hi c1 = hi c"
      "lo c1 = lo c + 1"
    using pop_some [of c] by force
  from Suc.IH [OF c1(2)] c1(4) Suc.prems obtain c' where c':
      "pops pop n c1 = Inr c'" "wf c'" "lo c' = lo c1 + int n" "hi c' = hi c1"
      "cnt c' = cnt c1 - int n" "cap c' = cap c1"
      "lookup c' = (\<lambda>d. if d < lo c1 + int n then None else lookup c1 d)"
    by auto
  have "lookup c' d = (if d < lo c + int (Suc n) then None else lookup c d)" for d
    using c' c1 by auto
  with c' c1 show ?case by (auto simp: fun_eq_iff)
qed

text \<open>A cached mutation lies between the least and the greatest decree.\<close>

lemma lookup_bounds:
  assumes "wf c" "lookup c d = Some p"
  shows "lo c \<le> d" "d \<le> hi c" "0 < cnt c"
  using window [of c d] shape [of c] assms by (auto split: if_splits)

lemma lookup_empty: "wf c \<Longrightarrow> cnt c = 0 \<Longrightarrow> lookup c d = None"
  using window [of c d] by (cases "lookup c d") auto

end

interpretation mcache: mutation_window ring_wf cache_map min_decree max_decree count_cache capacity
  near_window get_mutation_by_decree pop_min put "\<lambda>d. reset_cache d True"
proof unfold_locales
  fix c :: mutation_cache and d :: decree and h :: mutation_store and p :: mutation_ptr
  assume wf: "ring_wf c"
  show "get_mutation_by_decree c d = Inr (cache_map c d)"
    by (rule get_mutation_by_decree_map [OF wf])
  show "cache_map c d \<noteq> None \<Longrightarrow> min_decree c \<le> d \<and> d < min_decree c + count_cache c"
    by (auto simp: cache_map_def in_window_def cache_query_defs split: if_splits)
  show "0 \<le> count_cache c \<and> count_cache c \<le> capacity c \<and> 0 < capacity c \<and>
      max_decree c = min_decree c + (if count_cache c = 0 then 0 else count_cache c - 1)"
    using wf by (simp add: ring_wf_def cache_query_defs)
  show "0 < count_cache c \<Longrightarrow> \<exists>c'. pop_min c = Inr (cache_map c (min_decree c), c') \<and> ring_wf c' \<and>
      cache_map c' = (cache_map c)(min_decree c := None) \<and> count_cache c' = count_cache c - 1 \<and>
      capacity c' = capacity c \<and> max_decree c' = max_decree c \<and>
      min_decree c' = (if count_cache c = 1 then min_decree c else min_decree c + 1)"
    unfolding cache_query_defs
    by (intro exI [of _ "pop_state c"])
      (simp add: pop_min_some [OF wf] pop_state_wf [OF wf] pop_state_query [OF wf])
  show "ring_wf (reset_cache d True c) \<and> cache_map (reset_cache d True c) = Map.empty \<and>
      count_cache (reset_cache d True c) = 0 \<and> min_decree (reset_cache d True c) = d \<and>
      max_decree (reset_cache d True c) = d \<and> capacity (reset_cache d True c) = capacity c"
    using reset_cache_wf [of c True d] wf
    by (simp add: ring_wf_def cache_query_defs) (simp add: reset_cache_def)
  assume near: "near_window c (mu_decree (h p))"
  show "\<exists>c'. put h c p = Inr (ERR_OK, c') \<and> ring_wf c' \<and>
        cache_map c' = (cache_map c)(mu_decree (h p) \<mapsto> p) \<and> capacity c' = capacity c \<and>
        0 < count_cache c' \<and>
        min_decree c' = (if count_cache c = 0 then mu_decree (h p) else min (mu_decree (h p)) (min_decree c)) \<and>
        max_decree c' = (if count_cache c = 0 then mu_decree (h p) else max (mu_decree (h p)) (max_decree c))"
    if "\<And>q. cache_map c (mu_decree (h p)) = Some q \<Longrightarrow> mu_ballot (h q) \<le> mu_ballot (h p)"
      and "count_cache c \<noteq> 0 \<Longrightarrow> max (mu_decree (h p)) (max_decree c)
        - min (mu_decree (h p)) (min_decree c) < capacity c"
  proof -
    have fits: "put_hi c (mu_decree (h p)) - put_lo c (mu_decree (h p)) + 1 \<le> mc_max_count c"
      using that(2) wf by (auto simp: put_hi_def put_lo_def cache_query_defs ring_wf_def)
    show ?thesis
      using put_fits [of c h p, OF wf near fits that(1)]
        put_state_wf [OF wf fits, of p]
      by (intro exI [of _ "put_state c (mu_decree (h p)) p"])
        (auto simp: put_state_def cache_query_defs put_lo_def put_hi_def)
  qed
  show "put h c p = Inr (ERR_CAPACITY_EXCEEDED, c)"
    if "count_cache c \<noteq> 0" "capacity c \<le> max (mu_decree (h p)) (max_decree c)
      - min (mu_decree (h p)) (min_decree c)"
    by (rule put_full [of c h p, OF wf near])
      (use that in \<open>simp add: put_hi_def put_lo_def cache_query_defs\<close>)
qed

section \<open>Property\<close>

text \<open>
  C22. The ring buffer implements a map on a bounded window of decrees: when the window
  extended to the decree of a mutation fits into the ring, \<open>put\<close> succeeds, keeps the ring
  invariant, and afterwards reading that decree returns the mutation while every other
  decree reads as before; when it does not fit, the cache is left unchanged and
  \<open>ERR_CAPACITY_EXCEEDED\<close> is returned.
\<close>

theorem put_then_get:
  assumes "ring_wf c" and "near_window c (mu_decree (h p))"
    and "\<And>q. get_mutation_by_decree c (mu_decree (h p)) = Inr (Some q) \<Longrightarrow> mu_ballot (h q) \<le> mu_ballot (h p)"
  shows "if count_cache c = 0 \<or> max (mu_decree (h p)) (max_decree c)
            - min (mu_decree (h p)) (min_decree c) < capacity c
    then \<exists>c'. put h c p = Inr (ERR_OK, c') \<and> ring_wf c' \<and>
      (\<forall>x. get_mutation_by_decree c' x
         = (if x = mu_decree (h p) then Inr (Some p) else get_mutation_by_decree c x))
    else put h c p = Inr (ERR_CAPACITY_EXCEEDED, c)"
proof (cases "count_cache c = 0 \<or> max (mu_decree (h p)) (max_decree c)
            - min (mu_decree (h p)) (min_decree c) < capacity c")
  case True
  have bal: "\<And>q. cache_map c (mu_decree (h p)) = Some q \<Longrightarrow> mu_ballot (h q) \<le> mu_ballot (h p)"
    using assms(3) mcache.get_lookup [OF assms(1)] by simp
  have fits: "count_cache c \<noteq> 0 \<Longrightarrow>
      max (mu_decree (h p)) (max_decree c) - min (mu_decree (h p)) (min_decree c) < capacity c"
    using True by blast
  from mcache.ins_fits [of c h p, OF assms(1,2) bal fits] obtain c' where c': "put h c p = Inr (ERR_OK, c')" "ring_wf c'"
      "cache_map c' = (cache_map c)(mu_decree (h p) \<mapsto> p)"
    by blast
  then show ?thesis
    using True mcache.get_lookup [OF assms(1)] mcache.get_lookup [OF c'(2)] by auto
next
  case False
  then show ?thesis using mcache.ins_full [of c h p, OF assms(1,2)] by simp
qed

theorem put_then_get_witness:
  "\<exists>c'. put (\<lambda>_. sample_mutation 8 1 7) (mutation_cache_init 7 4) 3 = Inr (ERR_OK, c') \<and>
    get_mutation_by_decree c' 8 = Inr (Some 3) \<and> get_mutation_by_decree c' 7 = Inr None"
proof -
  have wf: "ring_wf (mutation_cache_init 7 4)" and empty: "cache_map (mutation_cache_init 7 4) = Map.empty"
    using mutation_cache_init_wf [of 4 7] by simp_all
  have get: "get_mutation_by_decree (mutation_cache_init 7 4) x = Inr None" for x
    using mcache.get_lookup [OF wf] empty by simp
  have near: "near_window (mutation_cache_init 7 4) (mu_decree (sample_mutation 8 1 7))"
    by (simp add: near_window_def mutation_cache_init_def reset_cache_def)
  have cnt: "count_cache (mutation_cache_init 7 4) = 0"
    by (simp add: count_cache_def mutation_cache_init_def reset_cache_def)
  from put_then_get [of _ "\<lambda>_. sample_mutation 8 1 7" 3, OF wf near] get cnt
  obtain c' where "put (\<lambda>_. sample_mutation 8 1 7) (mutation_cache_init 7 4) 3 = Inr (ERR_OK, c')"
    "\<forall>x. get_mutation_by_decree c' x
      = (if x = 8 then Inr (Some 3) else get_mutation_by_decree (mutation_cache_init 7 4) x)"
    by auto
  with get show ?thesis by auto
qed

end
