(* ===== verification/Prepare_List.thy ===== *)
theory Prepare_List
  imports Mutation_Cache
begin

text \<open>
  The prepare list of \<^verbatim>\<open>src/src/replica/prepare_list.cpp\<close>: a mutation cache plus
  the last committed decree. \<open>prepare\<close> makes room by popping committed mutations and
  stores the new one; \<open>commit\<close> hands mutations to the committer callback in decree order.
  The committer is an argument and may itself change the list (on a primary it prepares
  the next mutation), so the loops thread the list, the mutation store and the state
  \<open>'w\<close> of the rest of the replica through it.
\<close>

section \<open>Model\<close>

record prepare_list =
  pl_cache :: mutation_cache
  pl_last_committed_decree :: decree

datatype commit_type = COMMIT_TO_DECREE_HARD | COMMIT_TO_DECREE_SOFT | COMMIT_ALL_READY

type_synonym 'w commit_state = "prepare_list \<times> mutation_store \<times> 'w"
type_synonym 'w committer = "mutation_ptr \<Rightarrow> 'w commit_state \<Rightarrow> 'w commit_state result"

definition prepare_list_init :: "decree \<Rightarrow> nat \<Rightarrow> prepare_list" where
  "prepare_list_init init_decree max_count =
     \<lparr>pl_cache = mutation_cache_init init_decree max_count,
      pl_last_committed_decree = init_decree\<rparr>"

definition reset_list :: "decree \<Rightarrow> prepare_list \<Rightarrow> prepare_list" where
  "reset_list init_decree pl =
     pl\<lparr>pl_last_committed_decree := init_decree,
        pl_cache := reset_cache init_decree True (pl_cache pl)\<rparr>"

lemma pop_min_decreases:
  "0 < mc_interval c \<Longrightarrow> pop_min c = Inr (mu, c') \<Longrightarrow> mc_interval c' = mc_interval c - 1"
  by (auto simp: pop_min_def result_simps Let_def split: if_splits)

text \<open>
  The loop of \<open>truncate\<close>, and the loop of \<open>prepare\<close> that pops committed mutations. The
  latter does not test \<open>count()\<close>: popping an empty cache changes nothing, so the guard
  stays true and the loop never leaves (\<open>Diverges\<close>).
\<close>

function truncate_loop :: "decree \<Rightarrow> mutation_cache \<Rightarrow> mutation_cache result" where
  "truncate_loop init_decree c =
     (if min_decree c \<le> init_decree \<and> count_cache c > 0
      then bind_result (pop_min c) (\<lambda>(_, c'). truncate_loop init_decree c')
      else Inr c)"
  by pat_completeness auto
termination
  by (relation "measure (\<lambda>(_, c). nat (mc_interval c))")
    (auto simp: count_cache_def dest: pop_min_decreases)

declare truncate_loop.simps [simp del]

definition truncate_list :: "decree \<Rightarrow> prepare_list \<Rightarrow> prepare_list result" where
  "truncate_list init_decree pl =
     bind_result (truncate_loop init_decree (pl_cache pl)) (\<lambda>c.
       Inr (pl\<lparr>pl_cache := (if count_cache c = 0 then reset_cache init_decree True c else c),
               pl_last_committed_decree := init_decree\<rparr>))"

function pop_committed :: "decree \<Rightarrow> bool \<Rightarrow> decree \<Rightarrow> mutation_cache \<Rightarrow> mutation_cache result" where
  "pop_committed d pop_all lcd c =
     (if (d - min_decree c \<ge> capacity c \<or> pop_all) \<and> lcd > min_decree c
      then if count_cache c \<le> 0 then Inl Diverges
           else bind_result (pop_min c) (\<lambda>(_, c'). pop_committed d pop_all lcd c')
      else Inr c)"
  by pat_completeness auto
termination
  by (relation "measure (\<lambda>(_, _, _, c). nat (mc_interval c))")
    (auto simp: count_cache_def not_le dest: pop_min_decreases)

declare pop_committed.simps [simp del]

text \<open>\<open>COMMIT_TO_DECREE_HARD\<close>: every decree up to the target must be there and logged.\<close>

primrec commit_hard :: "'w committer \<Rightarrow> nat \<Rightarrow> decree \<Rightarrow> ballot \<Rightarrow> 'w commit_state
    \<Rightarrow> 'w commit_state result" where
  "commit_hard cm 0 d0 last_bt s = Inr s"
| "commit_hard cm (Suc n) d0 last_bt s =
     (case s of (pl, h, w) \<Rightarrow>
        bind_result (get_mutation_by_decree (pl_cache pl) d0) (\<lambda>mu.
          case mu of
            None \<Rightarrow> Inl (Check_failed ''mutation is missing in prepare list'')
          | Some p \<Rightarrow>
              bind_result (check (is_logged (h p)) ''mutation is missing in prepare list'') (\<lambda>_.
              bind_result (check (mu_ballot (h p) \<ge> last_bt) ''CHECK_GE_PREFIX'') (\<lambda>_.
              bind_result
                (cm p (pl\<lparr>pl_last_committed_decree := pl_last_committed_decree pl + 1\<rparr>, h, w))
                (commit_hard cm n (d0 + 1) (mu_ballot (h p)))))))"

text \<open>\<open>COMMIT_TO_DECREE_SOFT\<close>: stop at the first decree that is not ready.\<close>

primrec commit_soft :: "'w committer \<Rightarrow> nat \<Rightarrow> decree \<Rightarrow> ballot \<Rightarrow> 'w commit_state
    \<Rightarrow> 'w commit_state result" where
  "commit_soft cm 0 d0 last_bt s = Inr s"
| "commit_soft cm (Suc n) d0 last_bt s =
     (case s of (pl, h, w) \<Rightarrow>
        bind_result (get_mutation_by_decree (pl_cache pl) d0) (\<lambda>mu.
          case mu of
            None \<Rightarrow> Inr s
          | Some p \<Rightarrow>
              if is_ready_for_commit (h p) \<and> mu_ballot (h p) \<ge> last_bt
              then bind_result
                (cm p (pl\<lparr>pl_last_committed_decree := pl_last_committed_decree pl + 1\<rparr>, h, w))
                (commit_soft cm n (d0 + 1) (mu_ballot (h p)))
              else Inr s))"

text \<open>
  \<open>COMMIT_ALL_READY\<close>: a \<open>while\<close> loop that reads the next decree after each commit.
  Whether it ends depends on the committer, so it is a partial function; \<open>commit\<close> turns a
  run that does not end into \<open>Diverges\<close>.
\<close>

partial_function (option) commit_ready :: "'w committer \<Rightarrow> mutation_ptr option \<Rightarrow> ballot
    \<Rightarrow> 'w commit_state \<Rightarrow> 'w commit_state result option" where
  "commit_ready cm mu last_bt s =
     (case mu of
        None \<Rightarrow> Some (Inr s)
      | Some p \<Rightarrow>
          (let (pl, h, w) = s
           in if is_ready_for_commit (h p) \<and> mu_ballot (h p) \<ge> last_bt
              then (case cm p (pl\<lparr>pl_last_committed_decree := pl_last_committed_decree pl + 1\<rparr>, h, w) of
                      Inl e \<Rightarrow> Some (Inl e)
                    | Inr s' \<Rightarrow>
                        (case get_mutation_by_decree (pl_cache (fst s'))
                                (pl_last_committed_decree (fst s') + 1) of
                           Inl e \<Rightarrow> Some (Inl e)
                         | Inr mu' \<Rightarrow> commit_ready cm mu' (mu_ballot (h p)) s'))
              else Some (Inr s)))"

declare commit_ready.simps [code]

definition commit :: "'w committer \<Rightarrow> decree \<Rightarrow> commit_type \<Rightarrow> 'w commit_state
    \<Rightarrow> 'w commit_state result" where
  "commit cm d ct s =
     (let lcd = pl_last_committed_decree (fst s)
      in if d \<le> lcd then Inr s
         else case ct of
           COMMIT_TO_DECREE_HARD \<Rightarrow> commit_hard cm (nat (d - lcd)) (lcd + 1) 0 s
         | COMMIT_TO_DECREE_SOFT \<Rightarrow> commit_soft cm (nat (d - lcd)) (lcd + 1) 0 s
         | COMMIT_ALL_READY \<Rightarrow>
             if d \<noteq> lcd + 1 then Inr s
             else bind_result (get_mutation_by_decree (pl_cache (fst s)) d) (\<lambda>mu.
               case commit_ready cm mu 0 s of None \<Rightarrow> Inl Diverges | Some r \<Rightarrow> r))"

text \<open>Making room in the cache of a list, and the final put.\<close>

definition make_room :: "decree \<Rightarrow> bool \<Rightarrow> 'w commit_state \<Rightarrow> 'w commit_state result" where
  "make_room d pop_all s =
     (case s of (pl, h, w) \<Rightarrow>
        bind_result (pop_committed d pop_all (pl_last_committed_decree pl) (pl_cache pl))
          (\<lambda>c. Inr (pl\<lparr>pl_cache := c\<rparr>, h, w)))"

definition put_list :: "mutation_ptr \<Rightarrow> 'w commit_state \<Rightarrow> (error_code \<times> 'w commit_state) result" where
  "put_list mu s =
     (case s of (pl, h, w) \<Rightarrow>
        bind_result (put h (pl_cache pl) mu) (\<lambda>(e, c). Inr (e, pl\<lparr>pl_cache := c\<rparr>, h, w)))"

definition put_list_checked :: "mutation_ptr \<Rightarrow> 'w commit_state
    \<Rightarrow> (error_code \<times> 'w commit_state) result" where
  "put_list_checked mu s =
     bind_result (put_list mu s) (\<lambda>(e, s').
       bind_result (check (e = ERR_OK) ''mutation_cache::put failed'') (\<lambda>_. Inr (ERR_OK, s')))"

definition prepare :: "'w committer \<Rightarrow> mutation_ptr \<Rightarrow> partition_status \<Rightarrow> bool \<Rightarrow> bool
    \<Rightarrow> 'w commit_state \<Rightarrow> (error_code \<times> 'w commit_state) result" where
  "prepare cm mu status pop_all_committed_mutations secondary_commit s =
     (let m = fst (snd s) mu; d = mu_decree m; lcd = pl_last_committed_decree (fst s)
      in bind_result (check (d > lcd) ''CHECK_GT_PREFIX'') (\<lambda>_.
         case status of
           PS_PRIMARY \<Rightarrow>
             bind_result (make_room d pop_all_committed_mutations s) (put_list mu)
         | PS_SECONDARY \<Rightarrow>
             bind_result
               (if secondary_commit
                then commit cm (mu_last_committed_decree m) COMMIT_TO_DECREE_HARD s else Inr s)
               (\<lambda>s1. bind_result (make_room d pop_all_committed_mutations s1) (put_list_checked mu))
         | PS_POTENTIAL_SECONDARY \<Rightarrow>
             bind_result
               (if secondary_commit
                then commit cm (mu_last_committed_decree m) COMMIT_TO_DECREE_HARD s else Inr s)
               (\<lambda>s1. bind_result (make_room d pop_all_committed_mutations s1) (put_list_checked mu))
         | PS_INACTIVE \<Rightarrow>
             bind_result
               (if mu_last_committed_decree m > max_decree (pl_cache (fst s))
                then Inr (reset_list (mu_last_committed_decree m) (fst s), snd s)
                else if mu_last_committed_decree m > lcd
                then commit cm (mu_last_committed_decree m) COMMIT_TO_DECREE_HARD s
                else Inr s)
               (\<lambda>s1. bind_result (make_room d False s1) (put_list_checked mu))
         | _ \<Rightarrow> Inl (Check_failed ''invalid partition_status'')))"

section \<open>Invariant\<close>

definition plist_wf :: "mutation_store \<Rightarrow> prepare_list \<Rightarrow> bool" where
  "plist_wf h pl \<longleftrightarrow>
     ring_wf (pl_cache pl) \<and> cache_decrees h (pl_cache pl) \<and>
     pl_last_committed_decree pl \<le> max_decree (pl_cache pl)"

abbreviation pl_map :: "prepare_list \<Rightarrow> decree \<Rightarrow> mutation_ptr option" where
  "pl_map pl \<equiv> cache_map (pl_cache pl)"

lemma prepare_list_init_wf:
  assumes "0 < n" "int n < 2 ^ 31"
  shows "plist_wf h (prepare_list_init d n)"
  using mutation_cache_init_wf [OF assms, of d]
  by (simp add: plist_wf_def prepare_list_init_def cache_decrees_def)
    (simp add: mutation_cache_init_def reset_cache_def max_decree_def)

lemma reset_list_wf:
  assumes "ring_wf (pl_cache pl)"
  shows "plist_wf h (reset_list d pl) \<and> pl_map (reset_list d pl) = Map.empty"
  using mcache.clear_empty [OF assms, of d]
  by (simp add: plist_wf_def reset_list_def cache_decrees_def)

text \<open>Where the loop of \<open>prepare\<close> stops.\<close>

definition room_target :: "decree \<Rightarrow> bool \<Rightarrow> decree \<Rightarrow> mutation_cache \<Rightarrow> decree" where
  "room_target d pop_all lcd c =
     (if lcd \<le> min_decree c then min_decree c
      else if pop_all then lcd
      else max (min_decree c) (min lcd (d - capacity c + 1)))"

lemma room_target_bounds:
  "min_decree c \<le> room_target d pop_all lcd c"
  "room_target d pop_all lcd c \<le> max lcd (min_decree c)"
  by (auto simp: room_target_def)

lemma pop_committed_pops:
  assumes "ring_wf c" and "lcd \<le> max_decree c"
  shows "pop_committed d pop_all lcd c
    = pops pop_min (nat (room_target d pop_all lcd c - min_decree c)) c"
  using assms
proof (induction d pop_all lcd c rule: pop_committed.induct)
  case (1 d pop_all lcd c)
  note shape = mcache.shape [OF "1.prems"(1)]
  show ?case
  proof (cases "(d - min_decree c \<ge> capacity c \<or> pop_all) \<and> lcd > min_decree c")
    case False
    then have "room_target d pop_all lcd c = min_decree c"
      by (auto simp: room_target_def max_def min_def)
    moreover have "pop_committed d pop_all lcd c = Inr c"
      using False by (subst pop_committed.simps) auto
    ultimately show ?thesis by simp
  next
    case True
    with "1.prems"(2) shape have cnt: "1 < count_cache c" by (auto split: if_splits)
    then obtain c' where c': "pop_min c = Inr (cache_map c (min_decree c), c')" "ring_wf c'"
        "capacity c' = capacity c" "max_decree c' = max_decree c" "min_decree c' = min_decree c + 1"
      using mcache.pop_some [OF "1.prems"(1)] by auto
    have pc: "pop_committed d pop_all lcd c = pop_committed d pop_all lcd c'"
      using True cnt c'(1) by (subst pop_committed.simps) simp
    have "pop_committed d pop_all lcd c'
        = pops pop_min (nat (room_target d pop_all lcd c' - min_decree c')) c'"
      by (rule "1.IH") (use True cnt c' "1.prems" in auto)
    moreover have "room_target d pop_all lcd c' = room_target d pop_all lcd c"
      using True c' by (auto simp: room_target_def)
    moreover have "nat (room_target d pop_all lcd c - min_decree c)
        = Suc (nat (room_target d pop_all lcd c - min_decree c'))"
      using True c' by (auto simp: room_target_def Suc_nat_eq_nat_zadd1)
    ultimately show ?thesis using pc c'(1) by simp
  qed
qed

text \<open>
  The loop ends, pops only decrees that are already committed, and leaves every other
  decree alone.
\<close>

lemma pop_committed_spec:
  assumes wf: "ring_wf c" and lcd: "lcd \<le> max_decree c"
  shows "\<exists>c'. pop_committed d pop_all lcd c = Inr c' \<and> ring_wf c' \<and> max_decree c' = max_decree c \<and>
    capacity c' = capacity c \<and> min_decree c' = room_target d pop_all lcd c \<and>
    (count_cache c' = 0 \<longleftrightarrow> count_cache c = 0) \<and>
    cache_map c' = (\<lambda>x. if x < room_target d pop_all lcd c then None else cache_map c x)"
proof (cases "count_cache c = 0")
  case True
  with mcache.shape [OF wf] lcd have "lcd \<le> min_decree c" by simp
  then have "room_target d pop_all lcd c = min_decree c" by (simp add: room_target_def)
  then show ?thesis
    using pop_committed_pops [OF wf lcd, of d pop_all] wf True mcache.lookup_empty [OF wf True]
    by (auto simp: fun_eq_iff)
next
  case False
  let ?n = "nat (room_target d pop_all lcd c - min_decree c)"
  have n: "int ?n = room_target d pop_all lcd c - min_decree c"
    using room_target_bounds(1) [of c d pop_all lcd] by simp
  have "int ?n < count_cache c"
    using room_target_bounds(2) [of d pop_all lcd c] mcache.shape [OF wf] lcd False n
    by (auto split: if_splits)
  from mcache.pops_restrict [OF wf this] obtain c' where c': "pops pop_min ?n c = Inr c'"
      "ring_wf c'" "min_decree c' = min_decree c + int ?n" "max_decree c' = max_decree c"
      "count_cache c' = count_cache c - int ?n" "capacity c' = capacity c"
      "cache_map c' = (\<lambda>x. if x < min_decree c + int ?n then None else cache_map c x)"
    by blast
  then show ?thesis
    using pop_committed_pops [OF wf lcd, of d pop_all] n False \<open>int ?n < count_cache c\<close> by auto
qed

section \<open>Truncation\<close>

lemma truncate_loop_spec:
  assumes "ring_wf c"
  shows "\<exists>c'. truncate_loop d c = Inr c' \<and> ring_wf c' \<and> capacity c' = capacity c \<and>
    max_decree c' = max_decree c \<and> (0 < count_cache c' \<longrightarrow> d < min_decree c') \<and>
    cache_map c' = (\<lambda>x. if x \<le> d then None else cache_map c x)"
  using assms
proof (induction d c rule: truncate_loop.induct)
  case (1 d c)
  show ?case
  proof (cases "min_decree c \<le> d \<and> count_cache c > 0")
    case True
    then obtain c1 where c1: "pop_min c = Inr (cache_map c (min_decree c), c1)" "ring_wf c1"
        "cache_map c1 = (cache_map c)(min_decree c := None)" "capacity c1 = capacity c"
        "max_decree c1 = max_decree c"
      using mcache.pop_some [OF "1.prems"] by blast
    from "1.IH" [OF True c1(1) _ c1(2)] obtain c' where c': "truncate_loop d c1 = Inr c'"
        "ring_wf c'" "capacity c' = capacity c1" "max_decree c' = max_decree c1"
        "0 < count_cache c' \<longrightarrow> d < min_decree c'"
        "cache_map c' = (\<lambda>x. if x \<le> d then None else cache_map c1 x)"
      by blast
    have "truncate_loop d c = truncate_loop d c1"
      using True c1(1) by (subst truncate_loop.simps) simp
    with c' c1 True show ?thesis by (auto simp: fun_eq_iff)
  next
    case False
    have eq: "truncate_loop d c = Inr c" using False by (subst truncate_loop.simps) auto
    have "cache_map c x = (if x \<le> d then None else cache_map c x)" for x
      using mcache.window [OF "1.prems", of x] False by (cases "cache_map c x") auto
    with eq False "1.prems" show ?thesis by (auto simp: fun_eq_iff)
  qed
qed

lemma truncate_list_spec:
  assumes wf: "plist_wf h pl"
  shows "\<exists>pl'. truncate_list d pl = Inr pl' \<and> plist_wf h pl' \<and> pl_last_committed_decree pl' = d \<and>
    pl_map pl' = (\<lambda>x. if x \<le> d then None else pl_map pl x)"
proof -
  from wf have ring: "ring_wf (pl_cache pl)" by (simp add: plist_wf_def)
  from truncate_loop_spec [OF ring, of d] obtain c where c: "truncate_loop d (pl_cache pl) = Inr c"
      "ring_wf c" "0 < count_cache c \<longrightarrow> d < min_decree c"
      "cache_map c = (\<lambda>x. if x \<le> d then None else pl_map pl x)"
    by blast
  show ?thesis
  proof (cases "count_cache c = 0")
    case True
    have "(\<lambda>x. if x \<le> d then None else pl_map pl x) = Map.empty"
      using mcache.lookup_empty [OF c(2) True] c(4) by (simp add: fun_eq_iff)
    with c True mcache.clear_empty [OF c(2), of d] show ?thesis
      by (simp add: truncate_list_def plist_wf_def cache_decrees_def)
  next
    case False
    with c mcache.shape [OF c(2)] wf show ?thesis
      by (auto simp: truncate_list_def plist_wf_def cache_decrees_def split: if_splits)
  qed
qed

section \<open>Commit\<close>

text \<open>
  The specification of the three loops: starting from a ballot, take mutations while there
  is one that satisfies the readiness test and whose ballot does not decrease.
\<close>

fun take_ready :: "(mutation \<Rightarrow> bool) \<Rightarrow> mutation_store \<Rightarrow> ballot \<Rightarrow> mutation_ptr option list
    \<Rightarrow> mutation_ptr list" where
  "take_ready ready h b (Some p # ps) =
     (if ready (h p) \<and> b \<le> mu_ballot (h p)
      then p # take_ready ready h (mu_ballot (h p)) ps else [])"
| "take_ready ready h b _ = []"

primrec run_steps :: "(mutation_ptr \<Rightarrow> mutation_store \<Rightarrow> 'w \<Rightarrow> 'w result) \<Rightarrow> mutation_store
    \<Rightarrow> mutation_ptr list \<Rightarrow> 'w \<Rightarrow> 'w result" where
  "run_steps step h [] w = Inr w"
| "run_steps step h (p # ps) w = bind_result (step p h w) (run_steps step h ps)"

definition committed_to :: "prepare_list \<Rightarrow> nat \<Rightarrow> prepare_list" where
  "committed_to pl n = pl\<lparr>pl_last_committed_decree := pl_last_committed_decree pl + int n\<rparr>"

lemma committed_to_0 [simp]: "committed_to pl 0 = pl"
  by (simp add: committed_to_def)

lemma committed_to_Suc:
  "committed_to (pl\<lparr>pl_last_committed_decree := pl_last_committed_decree pl + 1\<rparr>) n
    = committed_to pl (Suc n)"
  by (simp add: committed_to_def)

lemma take_ready_length: "length (take_ready ready h b ps) \<le> length ps"
  by (induction ready h b ps rule: take_ready.induct) auto

lemma take_ready_ready: "\<forall>p \<in> set (take_ready ready h b ps). ready (h p)"
  by (induction ready h b ps rule: take_ready.induct) auto

lemma take_ready_prefix:
  "map Some (take_ready ready h b ps) = take (length (take_ready ready h b ps)) ps"
  by (induction ready h b ps rule: take_ready.induct) auto

lemma take_ready_ballots:
  "sorted (map (\<lambda>p. mu_ballot (h p)) (take_ready ready h b ps)) \<and>
   (\<forall>p \<in> set (take_ready ready h b ps). b \<le> mu_ballot (h p))"
  by (induction ready h b ps rule: take_ready.induct) force+

text \<open>
  The contract of a committer that leaves the list and the store alone as long as a
  condition on the rest of the replica holds, which it keeps: the committer of a secondary
  is one. It is called on the mutation at the decree that was just marked committed.
\<close>

locale passive_committer =
  fixes cm :: "'w committer"
    and step :: "mutation_ptr \<Rightarrow> mutation_store \<Rightarrow> 'w \<Rightarrow> 'w result"
    and ok :: "mutation_store \<Rightarrow> 'w \<Rightarrow> bool"
  assumes committer_step: "ok h w \<Longrightarrow> pl_last_committed_decree pl \<le> max_decree (pl_cache pl) \<Longrightarrow>
      mu_decree (h p) = pl_last_committed_decree pl \<Longrightarrow>
      cm p (pl, h, w) = bind_result (step p h w) (\<lambda>w'. Inr (pl, h, w'))"
    and ok_step: "ok h w \<Longrightarrow> step p h w = Inr w' \<Longrightarrow> ok h w'"
begin

lemma commit_one:
  assumes "ring_wf (pl_cache pl)" "cache_decrees h (pl_cache pl)" "ok h w"
    and "pl_map pl (pl_last_committed_decree pl + 1) = Some p"
  shows "cm p (pl\<lparr>pl_last_committed_decree := pl_last_committed_decree pl + 1\<rparr>, h, w)
    = bind_result (step p h w)
        (\<lambda>w'. Inr (pl\<lparr>pl_last_committed_decree := pl_last_committed_decree pl + 1\<rparr>, h, w'))"
  using assms mcache.lookup_bounds(2) [OF assms(1,4)]
  by (intro committer_step) (auto simp: cache_decrees_def)

lemma commit_hard_spec:
  assumes "ring_wf (pl_cache pl)" "cache_decrees h (pl_cache pl)" "ok h w"
    and "d = pl_last_committed_decree pl + 1"
  shows "commit_hard cm n d bt (pl, h, w) = Inr s \<longleftrightarrow>
    (let ps = take_ready is_logged h bt (map (pl_map pl) [d..d + int n - 1])
     in length ps = n \<and>
        bind_result (run_steps step h ps w) (\<lambda>w'. Inr (committed_to pl n, h, w')) = Inr s)"
  using assms
proof (induction n arbitrary: d bt pl w)
  case 0
  then show ?case by auto
next
  case (Suc n)
  let ?pl = "pl\<lparr>pl_last_committed_decree := pl_last_committed_decree pl + 1\<rparr>"
  have upto: "[d..d + int (Suc n) - 1] = d # [d + 1..d + 1 + int n - 1]"
    by (subst upto_rec1) auto
  note get = mcache.get_lookup [OF Suc.prems(1), of d]
  show ?case
  proof (cases "pl_map pl d")
    case None
    then show ?thesis using get by (simp add: upto del: upto_rec1 of_nat_Suc)
  next
    case (Some p)
    note one = commit_one [OF Suc.prems(1-3) Some [unfolded Suc.prems(4)]]
    show ?thesis
    proof (cases "is_logged (h p) \<and> bt \<le> mu_ballot (h p)")
      case False
      with Some show ?thesis using get by (auto simp: upto check_def simp del: upto_rec1 of_nat_Suc)
    next
      case True
      have IH: "commit_hard cm n (d + 1) (mu_ballot (h p)) (?pl, h, w1) = Inr s \<longleftrightarrow>
          (let ps = take_ready is_logged h (mu_ballot (h p)) (map (pl_map pl) [d + 1..d + 1 + int n - 1])
           in length ps = n \<and>
              bind_result (run_steps step h ps w1) (\<lambda>w'. Inr (committed_to pl (Suc n), h, w')) = Inr s)"
        if "step p h w = Inr w1" for w1
        using Suc.IH [of ?pl w1 "d + 1" "mu_ballot (h p)"] Suc.prems ok_step [OF Suc.prems(3) that]
        by (simp add: committed_to_Suc)
      show ?thesis
      proof (cases "step p h w")
        case (Inl e)
        with True Some get one show ?thesis
          by (simp add: upto Let_def del: upto_rec1 of_nat_Suc)
      next
        case (Inr w1)
        with True Some get one IH [OF Inr] show ?thesis
          by (simp add: upto Let_def del: upto_rec1 of_nat_Suc)
      qed
    qed
  qed
qed

lemma commit_soft_spec:
  assumes "ring_wf (pl_cache pl)" "cache_decrees h (pl_cache pl)" "ok h w"
    and "d = pl_last_committed_decree pl + 1"
  shows "commit_soft cm n d bt (pl, h, w) =
    (let ps = take_ready is_ready_for_commit h bt (map (pl_map pl) [d..d + int n - 1])
     in bind_result (run_steps step h ps w) (\<lambda>w'. Inr (committed_to pl (length ps), h, w')))"
  using assms
proof (induction n arbitrary: d bt pl w)
  case 0
  then show ?case by simp
next
  case (Suc n)
  let ?pl = "pl\<lparr>pl_last_committed_decree := pl_last_committed_decree pl + 1\<rparr>"
  have upto: "[d..d + int (Suc n) - 1] = d # [d + 1..d + 1 + int n - 1]"
    by (subst upto_rec1) auto
  note get = mcache.get_lookup [OF Suc.prems(1), of d]
  show ?case
  proof (cases "pl_map pl d")
    case None
    then show ?thesis using get by (simp add: upto Let_def del: upto_rec1 of_nat_Suc)
  next
    case (Some p)
    note one = commit_one [OF Suc.prems(1-3) Some [unfolded Suc.prems(4)]]
    have IH: "commit_soft cm n (d + 1) b (?pl, h, w1) =
        (let ps = take_ready is_ready_for_commit h b (map (pl_map pl) [d + 1..d + 1 + int n - 1])
         in bind_result (run_steps step h ps w1)
              (\<lambda>w'. Inr (committed_to pl (Suc (length ps)), h, w')))"
      if "step p h w = Inr w1" for b w1
      using Suc.IH [of ?pl w1 "d + 1" b] Suc.prems ok_step [OF Suc.prems(3) that]
      by (simp add: committed_to_Suc)
    show ?thesis
    proof (cases "step p h w")
      case (Inl e)
      with Some get one show ?thesis by (simp add: upto Let_def del: upto_rec1 of_nat_Suc)
    next
      case (Inr w1)
      with Some get one IH [OF Inr] show ?thesis
        by (simp add: upto Let_def del: upto_rec1 of_nat_Suc)
    qed
  qed
qed

text \<open>The loop over all ready mutations ends.\<close>

lemma commit_ready_spec:
  assumes "ring_wf (pl_cache pl)" "cache_decrees h (pl_cache pl)" "ok h w"
    and "n = nat (max_decree (pl_cache pl) - pl_last_committed_decree pl)"
  shows "commit_ready cm (pl_map pl (pl_last_committed_decree pl + 1)) bt (pl, h, w) = Some
    (let ps = take_ready is_ready_for_commit h bt
         (map (pl_map pl) [pl_last_committed_decree pl + 1..max_decree (pl_cache pl)])
     in bind_result (run_steps step h ps w) (\<lambda>w'. Inr (committed_to pl (length ps), h, w')))"
  using assms
proof (induction n arbitrary: bt pl w)
  case 0
  then have le: "max_decree (pl_cache pl) \<le> pl_last_committed_decree pl" by simp
  then have "pl_map pl (pl_last_committed_decree pl + 1) = None"
    using mcache.lookup_bounds(2) [OF "0.prems"(1)]
    by (cases "pl_map pl (pl_last_committed_decree pl + 1)") force+
  with le show ?case by (simp add: commit_ready.simps)
next
  case (Suc n)
  let ?d = "pl_last_committed_decree pl + 1"
  let ?pl = "pl\<lparr>pl_last_committed_decree := ?d\<rparr>"
  have upto: "[?d..max_decree (pl_cache pl)] = ?d # [?d + 1..max_decree (pl_cache pl)]"
    using Suc.prems(4) by (subst upto_rec1) auto
  have get: "get_mutation_by_decree (pl_cache pl) (?d + 1) = Inr (pl_map pl (?d + 1))"
    by (rule mcache.get_lookup [OF Suc.prems(1)])
  show ?case
  proof (cases "pl_map pl ?d")
    case None
    then show ?thesis by (simp add: upto commit_ready.simps del: upto_rec1)
  next
    case (Some p)
    note one = commit_one [OF Suc.prems(1-3) Some]
    have IH: "commit_ready cm (pl_map pl (?d + 1)) b (?pl, h, w1) = Some
        (let ps = take_ready is_ready_for_commit h b (map (pl_map pl) [?d + 1..max_decree (pl_cache pl)])
         in bind_result (run_steps step h ps w1)
              (\<lambda>w'. Inr (committed_to pl (Suc (length ps)), h, w')))"
      if "step p h w = Inr w1" for b w1
      using Suc.IH [of ?pl w1 b] Suc.prems ok_step [OF Suc.prems(3) that] by (simp add: committed_to_Suc)
    show ?thesis
    proof (cases "step p h w")
      case (Inl e)
      with Some one show ?thesis
        by (auto simp: upto commit_ready.simps [of cm "Some p"] Let_def simp del: upto_rec1)
    next
      case (Inr w1)
      with Some one get IH [OF Inr] show ?thesis
        by (auto simp: upto commit_ready.simps [of cm "Some p"] Let_def simp del: upto_rec1)
    qed
  qed
qed

end

lemma take_ready_map_full:
  "length (take_ready ready h b (map f xs)) = length xs \<longleftrightarrow>
     (\<exists>ps. map Some ps = map f xs \<and> (\<forall>p \<in> set ps. ready (h p) \<and> b \<le> mu_ballot (h p)) \<and>
       sorted (map (\<lambda>p. mu_ballot (h p)) ps) \<and> take_ready ready h b (map f xs) = ps)"
proof
  assume "length (take_ready ready h b (map f xs)) = length xs"
  then show "\<exists>ps. map Some ps = map f xs \<and> (\<forall>p \<in> set ps. ready (h p) \<and> b \<le> mu_ballot (h p)) \<and>
      sorted (map (\<lambda>p. mu_ballot (h p)) ps) \<and> take_ready ready h b (map f xs) = ps"
    using take_ready_prefix [of ready h b "map f xs"] take_ready_ready [of ready h b "map f xs"]
      take_ready_ballots [of h ready b "map f xs"]
    by (intro exI [of _ "take_ready ready h b (map f xs)"]) simp
next
  assume "\<exists>ps. map Some ps = map f xs \<and> (\<forall>p \<in> set ps. ready (h p) \<and> b \<le> mu_ballot (h p)) \<and>
      sorted (map (\<lambda>p. mu_ballot (h p)) ps) \<and> take_ready ready h b (map f xs) = ps"
  then show "length (take_ready ready h b (map f xs)) = length xs"
    by (metis length_map)
qed

lemma take_ready_all:
  assumes "\<forall>p \<in> set ps. ready (h p) \<and> b \<le> mu_ballot (h p)"
    and "sorted (map (\<lambda>p. mu_ballot (h p)) ps)"
  shows "take_ready ready h b (map Some ps) = ps"
  using assms by (induction ps arbitrary: b) auto

text \<open>The committer that records the mutations it is handed.\<close>

definition record_committer :: "mutation_ptr list committer" where
  "record_committer p s = (case s of (pl, h, tr) \<Rightarrow> Inr (pl, h, tr @ [p]))"

interpretation recorder: passive_committer record_committer "\<lambda>p h tr. Inr (tr @ [p])" "\<lambda>_ _. True"
  by unfold_locales (simp_all add: record_committer_def)

lemma run_record: "run_steps (\<lambda>p h tr. Inr (tr @ [p])) h ps tr = Inr (tr @ ps)"
  by (induction ps arbitrary: tr) auto

lemma committed_to_wf:
  assumes wf: "plist_wf h pl" and n: "n = length (take_ready ready h b
      (map (pl_map pl) [pl_last_committed_decree pl + 1..d]))"
  shows "plist_wf h (committed_to pl n)"
proof (cases n)
  case 0
  with wf show ?thesis by simp
next
  case (Suc m)
  let ?xs = "[pl_last_committed_decree pl + 1..d]"
  let ?ps = "take_ready ready h b (map (pl_map pl) ?xs)"
  have len: "n \<le> length ?xs" using take_ready_length [of ready h b "map (pl_map pl) ?xs"] n by simp
  have "map Some ?ps ! m = map (pl_map pl) ?xs ! m"
    using take_ready_prefix [of ready h b "map (pl_map pl) ?xs"] Suc n by simp
  then have "pl_map pl (pl_last_committed_decree pl + int n) = Some (?ps ! m)"
    using Suc len n by (simp add: nth_upto algebra_simps)
  then have "pl_last_committed_decree pl + int n \<le> max_decree (pl_cache pl)"
    using wf mcache.lookup_bounds(2) by (auto simp: plist_wf_def)
  with wf show ?thesis by (simp add: plist_wf_def committed_to_def)
qed

section \<open>Prepare\<close>

text \<open>
  The two-phase commit keeps every decree of the window less than one capacity above the
  committed point.
\<close>

definition bounded_plist :: "mutation_store \<Rightarrow> prepare_list \<Rightarrow> bool" where
  "bounded_plist h pl \<longleftrightarrow>
     plist_wf h pl \<and> capacity (pl_cache pl) < 2 ^ 30 \<and>
     max_decree (pl_cache pl) < pl_last_committed_decree pl + capacity (pl_cache pl)"

text \<open>
  Under that bound a prepare never fails for lack of space, and no uncommitted mutation
  other than the one at the same decree is lost.
\<close>

definition prepared :: "prepare_list \<Rightarrow> decree \<Rightarrow> mutation_ptr \<Rightarrow> prepare_list \<Rightarrow> bool" where
  "prepared pl d p pl' \<longleftrightarrow>
     pl_last_committed_decree pl' = pl_last_committed_decree pl \<and>
     capacity (pl_cache pl') = capacity (pl_cache pl) \<and>
     pl_map pl' d = Some p \<and>
     (\<forall>x > pl_last_committed_decree pl. x \<noteq> d \<longrightarrow> pl_map pl' x = pl_map pl x) \<and>
     (\<forall>x \<le> pl_last_committed_decree pl. pl_map pl' x = pl_map pl x \<or> pl_map pl' x = None)"

lemma make_room_put:
  assumes b: "bounded_plist h pl" and d: "d = mu_decree (h p)"
    and lcd: "pl_last_committed_decree pl < d"
    and cap: "d < pl_last_committed_decree pl + capacity (pl_cache pl)"
    and ballots: "\<And>q. pl_map pl d = Some q \<Longrightarrow> mu_ballot (h q) \<le> mu_ballot (h p)"
  shows "\<exists>pl'. bind_result (make_room d pop_all (pl, h, w)) (put_list p) = Inr (ERR_OK, pl', h, w) \<and>
    bounded_plist h pl' \<and> prepared pl d p pl'"
proof -
  let ?c = "pl_cache pl" and ?l = "pl_last_committed_decree pl"
  from b have wf: "ring_wf ?c" "cache_decrees h ?c" "?l \<le> max_decree ?c" "capacity ?c < 2 ^ 30"
      "max_decree ?c < ?l + capacity ?c"
    by (auto simp: bounded_plist_def plist_wf_def)
  let ?t = "room_target d pop_all ?l ?c"
  from pop_committed_spec [OF wf(1,3), of d pop_all] obtain c where c:
      "pop_committed d pop_all ?l ?c = Inr c" "ring_wf c" "max_decree c = max_decree ?c"
      "capacity c = capacity ?c" "min_decree c = ?t" "count_cache c = 0 \<longleftrightarrow> count_cache ?c = 0"
      "cache_map c = (\<lambda>x. if x < ?t then None else cache_map ?c x)"
    by blast
  have shape: "0 \<le> count_cache c" "count_cache c \<le> capacity c" "0 < capacity c"
      "max_decree c = min_decree c + (if count_cache c = 0 then 0 else count_cache c - 1)"
    using mcache.shape [OF c(2)] by auto
  have t: "?t < d \<or> (min_decree ?c \<le> ?t \<and> ?l \<le> min_decree ?c)" "d - ?t < capacity ?c"
    using lcd cap by (auto simp: room_target_def)
  have near: "near_window c (mu_decree (h p))"
    using shape c(3-5) wf(3-5) lcd cap d
    by (auto simp: near_window_def cache_query_defs split: if_splits)
  have fits: "count_cache c \<noteq> 0 \<Longrightarrow>
      max (mu_decree (h p)) (max_decree c) - min (mu_decree (h p)) (min_decree c) < capacity c"
    using shape c(3-5) wf(3-5) lcd cap d t by (auto simp: max_def min_def split: if_splits)
  have bal: "\<And>q. cache_map c (mu_decree (h p)) = Some q \<Longrightarrow> mu_ballot (h q) \<le> mu_ballot (h p)"
    using ballots c(7) d by (auto split: if_splits)
  from mcache.ins_fits [of c h p, OF c(2) near bal fits] obtain c' where c':
      "put h c p = Inr (ERR_OK, c')" "ring_wf c'" "cache_map c' = (cache_map c)(mu_decree (h p) \<mapsto> p)"
      "capacity c' = capacity c"
      "max_decree c' = (if count_cache c = 0 then mu_decree (h p) else max (mu_decree (h p)) (max_decree c))"
    by blast
  have low: "?t \<le> x" if "?l < x" "pl_map pl x = Some q" for x q
    using that room_target_bounds(2) [of d pop_all ?l ?c] mcache.lookup_bounds(1) [OF wf(1) that(2)]
    by simp
  have keep: "cache_map c x = cache_map ?c x" if "?l < x" for x
    using low [OF that] c(7) by (cases "cache_map ?c x") auto
  have "prepared pl d p (pl\<lparr>pl_cache := c'\<rparr>)"
    using c' c(4,7) d lcd keep by (auto simp: prepared_def)
  moreover have "bounded_plist h (pl\<lparr>pl_cache := c'\<rparr>)"
    using c' c wf d lcd cap
    by (auto simp: bounded_plist_def plist_wf_def cache_decrees_def split: if_splits)
  moreover have "bind_result (make_room d pop_all (pl, h, w)) (put_list p)
      = Inr (ERR_OK, pl\<lparr>pl_cache := c'\<rparr>, h, w)"
    using c(1) c'(1) by (simp add: make_room_def put_list_def)
  ultimately show ?thesis by blast
qed

lemma put_list_checkedI:
  "bind_result r (put_list p) = Inr (ERR_OK, s) \<Longrightarrow> bind_result r (put_list_checked p) = Inr (ERR_OK, s)"
  by (cases r) (auto simp: put_list_checked_def)

section \<open>Properties\<close>

text \<open>
  C11. On a primary, preparing a mutation whose decree lies above the committed point and
  less than one capacity above it always succeeds, keeps the list well formed and bounded,
  stores the mutation at its decree and loses no other uncommitted mutation, whatever
  committed mutations are popped to make room.
\<close>

theorem prepare_primary:
  assumes "bounded_plist h pl"
    and "pl_last_committed_decree pl < mu_decree (h p)"
    and "mu_decree (h p) < pl_last_committed_decree pl + capacity (pl_cache pl)"
    and "\<And>q. pl_map pl (mu_decree (h p)) = Some q \<Longrightarrow> mu_ballot (h q) \<le> mu_ballot (h p)"
  shows "\<exists>pl'. prepare cm p PS_PRIMARY pop_all secondary_commit (pl, h, w) = Inr (ERR_OK, pl', h, w) \<and>
    bounded_plist h pl' \<and> prepared pl (mu_decree (h p)) p pl'"
  using make_room_put [OF assms(1) refl assms(2-4), of pop_all w] assms(2)
  by (auto simp: prepare_def)

lemma bounded_init:
  assumes "0 < n" "int n < 2 ^ 30"
  shows "bounded_plist h (prepare_list_init d n)"
  using prepare_list_init_wf [of n h d] assms
  by (simp add: bounded_plist_def)
    (simp add: prepare_list_init_def mutation_cache_init_def reset_cache_def cache_query_defs)

lemma init_facts:
  assumes "0 < n" "int n < 2 ^ 30"
  shows "pl_last_committed_decree (prepare_list_init d n) = d"
    "capacity (pl_cache (prepare_list_init d n)) = int n"
    "pl_map (prepare_list_init d n) = Map.empty"
    "max_decree (pl_cache (prepare_list_init d n)) = d"
  using mutation_cache_init_wf [of n d] assms
  by (simp_all add: prepare_list_init_def)
    (simp_all add: mutation_cache_init_def reset_cache_def cache_query_defs)

theorem prepare_primary_witness:
  "\<exists>pl'. prepare record_committer 0 PS_PRIMARY False True
      (prepare_list_init 7 4, (\<lambda>_. sample_mutation 8 1 7), []) = Inr (ERR_OK, pl', (\<lambda>_. sample_mutation 8 1 7), []) \<and>
    bounded_plist (\<lambda>_. sample_mutation 8 1 7) pl' \<and> prepared (prepare_list_init 7 4) 8 0 pl'"
proof -
  have facts: "pl_last_committed_decree (prepare_list_init 7 4) = 7"
    "capacity (pl_cache (prepare_list_init 7 4)) = 4" "pl_map (prepare_list_init 7 4) = Map.empty"
    using init_facts [of 4 7] by simp_all
  have "bounded_plist (\<lambda>_. sample_mutation 8 1 7) (prepare_list_init 7 4)"
    by (rule bounded_init) simp_all
  from prepare_primary [OF this, where p = 0 and cm = record_committer and pop_all = False
      and secondary_commit = True and w = "[]"] facts
  show ?thesis by simp
qed

text \<open>
  C12. On a secondary, a prepare first commits everything up to the committed decree carried
  by the mutation. If those mutations are cached and logged with non-decreasing ballots,
  the prepare succeeds, the committer has been handed exactly these mutations in decree
  order, the committed point has moved to that decree, and the new mutation is stored
  without losing an uncommitted one.
\<close>

theorem prepare_secondary:
  assumes "bounded_plist h pl" and "status = PS_SECONDARY \<or> status = PS_POTENTIAL_SECONDARY"
    and "pl_last_committed_decree pl \<le> mu_last_committed_decree (h p)"
    and "mu_last_committed_decree (h p) < mu_decree (h p)"
    and "mu_decree (h p) < mu_last_committed_decree (h p) + capacity (pl_cache pl)"
    and "map (pl_map pl) [pl_last_committed_decree pl + 1..mu_last_committed_decree (h p)] = map Some ps"
    and "\<forall>q \<in> set ps. is_logged (h q) \<and> 0 \<le> mu_ballot (h q)"
    and "sorted (map (\<lambda>q. mu_ballot (h q)) ps)"
    and "\<And>q. pl_map pl (mu_decree (h p)) = Some q \<Longrightarrow> mu_ballot (h q) \<le> mu_ballot (h p)"
  shows "\<exists>pl'. prepare record_committer p status pop_all True (pl, h, tr)
      = Inr (ERR_OK, pl', h, tr @ ps) \<and> bounded_plist h pl' \<and>
    prepared (pl\<lparr>pl_last_committed_decree := mu_last_committed_decree (h p)\<rparr>) (mu_decree (h p)) p pl'"
proof -
  let ?l = "pl_last_committed_decree pl" and ?l' = "mu_last_committed_decree (h p)"
  let ?n = "nat (?l' - ?l)"
  let ?pl1 = "pl\<lparr>pl_last_committed_decree := ?l'\<rparr>"
  from assms(1) have wf: "plist_wf h pl" "ring_wf (pl_cache pl)" "cache_decrees h (pl_cache pl)"
    by (simp_all add: bounded_plist_def plist_wf_def)
  have upto: "[?l + 1..?l + 1 + int ?n - 1] = [?l + 1..?l']" using assms(3) by simp
  have take: "take_ready is_logged h 0 (map (pl_map pl) [?l + 1..?l']) = ps"
    using assms(6-8) by (simp add: take_ready_all)
  have len: "length ps = ?n" using arg_cong [OF assms(6), of length] by simp
  have to: "committed_to pl ?n = ?pl1" using assms(3) by (simp add: committed_to_def)
  have "commit_hard record_committer ?n (?l + 1) 0 (pl, h, tr) = Inr (?pl1, h, tr @ ps)"
    using recorder.commit_hard_spec [OF wf(2,3) TrueI refl, of ?n 0 tr] take len to upto
    by (simp add: run_record Let_def)
  then have commit: "commit record_committer ?l' COMMIT_TO_DECREE_HARD (pl, h, tr)
      = Inr (?pl1, h, tr @ ps)"
    using assms(3) len by (auto simp: commit_def Let_def)
  have "plist_wf h ?pl1"
    using committed_to_wf [OF wf(1), of ?n is_logged 0 ?l'] take len to by simp
  then have "bounded_plist h ?pl1"
    using assms(1,3) by (simp add: bounded_plist_def)
  from make_room_put [OF this refl, where p = p and pop_all = pop_all and w = "tr @ ps"]
  obtain pl' where pl': "bind_result (make_room (mu_decree (h p)) pop_all (?pl1, h, tr @ ps)) (put_list p)
      = Inr (ERR_OK, pl', h, tr @ ps)" "bounded_plist h pl'" "prepared ?pl1 (mu_decree (h p)) p pl'"
    using assms(4,5,9) by auto
  have "prepare record_committer p status pop_all True (pl, h, tr) = Inr (ERR_OK, pl', h, tr @ ps)"
    using assms(2,3,4) commit put_list_checkedI [OF pl'(1)] by (auto simp: prepare_def Let_def)
  with pl' show ?thesis by blast
qed

text \<open>A list with the single uncommitted mutation \<open>0\<close> at decree 8, for examples.\<close>

lemma sample_list_decree:
  assumes "mu_decree (h 0) = 8"
  obtains pl where "bounded_plist h pl" "pl_last_committed_decree pl = 7"
    "capacity (pl_cache pl) = 4" "pl_map pl = [8 \<mapsto> 0]"
proof -
  have facts: "pl_last_committed_decree (prepare_list_init 7 4) = 7"
    "capacity (pl_cache (prepare_list_init 7 4)) = 4" "pl_map (prepare_list_init 7 4) = Map.empty"
    using init_facts [of 4 7] by simp_all
  have b: "bounded_plist h (prepare_list_init 7 4)"
    by (rule bounded_init) simp_all
  from assms make_room_put [OF b refl, where p = 0 and pop_all = False and w = "()"] facts
  obtain pl' where pl': "bounded_plist h pl'" "prepared (prepare_list_init 7 4) 8 0 pl'" by auto
  have map: "pl_map pl' x = [8 \<mapsto> 0] x" for x
    using pl'(2) facts by (cases "7 < x"; cases "x = 8") (auto simp: prepared_def)
  show thesis
    by (rule that [of pl']) (use pl' facts map in \<open>auto simp: prepared_def fun_eq_iff\<close>)
qed

lemma sample_list:
  assumes "h 0 = sample_mutation 8 1 7"
  obtains pl where "bounded_plist h pl" "pl_last_committed_decree pl = 7"
    "capacity (pl_cache pl) = 4" "pl_map pl = [8 \<mapsto> 0]"
  using sample_list_decree [of h] assms by auto

theorem prepare_secondary_witness:
  "\<exists>h pl pl'. pl_map pl = [8 \<mapsto> 0] \<and> pl_last_committed_decree pl = 7 \<and>
    prepare record_committer 1 PS_SECONDARY False True (pl, h, []) = Inr (ERR_OK, pl', h, [0]) \<and>
    bounded_plist h pl' \<and> prepared (pl\<lparr>pl_last_committed_decree := 8\<rparr>) 9 1 pl'"
proof -
  define h where "h = (\<lambda>p :: nat. if p = 0 then sample_mutation 8 1 7 else sample_mutation 9 1 8)"
  have h: "h 0 = sample_mutation 8 1 7" "h 1 = sample_mutation 9 1 8" by (simp_all add: h_def)
  from sample_list [of h, OF h(1)] obtain pl where pl: "bounded_plist h pl"
    "pl_last_committed_decree pl = 7" "capacity (pl_cache pl) = 4" "pl_map pl = [8 \<mapsto> 0]" .
  have "map (pl_map pl) [8..8] = map Some [0]" using pl(4) by simp
  with prepare_secondary [OF pl(1), where p = 1 and status = PS_SECONDARY and ps = "[0]"
      and pop_all = False and tr = "[]"] pl(2-4) h
  have "\<exists>pl'. prepare record_committer 1 PS_SECONDARY False True (pl, h, []) = Inr (ERR_OK, pl', h, [0]) \<and>
    bounded_plist h pl' \<and> prepared (pl\<lparr>pl_last_committed_decree := 8\<rparr>) 9 1 pl'"
    by simp
  with pl show ?thesis by blast
qed

text \<open>
  C16. A hard commit to a decree above the committed point returns exactly when every decree
  in between is cached, logged and carries a ballot that does not decrease (and is not
  negative); it then hands precisely these mutations to the committer, in decree order, and
  moves the committed point to the target. Otherwise the process aborts. Readiness in the
  sense of \<open>is_ready_for_commit\<close>, which the comments on \<open>COMMIT_TO_DECREE_HARD\<close> and on its
  callers ask for, plays no part: logged mutations that still wait for acknowledgements are
  committed.
\<close>

theorem commit_hard_exact:
  assumes "plist_wf h pl" and "pl_last_committed_decree pl < d"
  shows "commit record_committer d COMMIT_TO_DECREE_HARD (pl, h, tr) = Inr (pl', h', tr') \<longleftrightarrow>
    (\<exists>ps. map Some ps = map (pl_map pl) [pl_last_committed_decree pl + 1..d] \<and>
      (\<forall>p \<in> set ps. is_logged (h p) \<and> 0 \<le> mu_ballot (h p)) \<and>
      sorted (map (\<lambda>p. mu_ballot (h p)) ps) \<and>
      pl' = pl\<lparr>pl_last_committed_decree := d\<rparr> \<and> h' = h \<and> tr' = tr @ ps)"
proof -
  let ?l = "pl_last_committed_decree pl"
  let ?n = "nat (d - ?l)"
  let ?take = "take_ready is_logged h 0 (map (pl_map pl) [?l + 1..d])"
  from assms(1) have wf: "ring_wf (pl_cache pl)" "cache_decrees h (pl_cache pl)"
    by (simp_all add: plist_wf_def)
  have upto: "[?l + 1..?l + 1 + int ?n - 1] = [?l + 1..d]" using assms(2) by simp
  have to: "committed_to pl ?n = pl\<lparr>pl_last_committed_decree := d\<rparr>"
    using assms(2) by (simp add: committed_to_def)
  have "commit record_committer d COMMIT_TO_DECREE_HARD (pl, h, tr) = Inr (pl', h', tr') \<longleftrightarrow>
      length ?take = length [?l + 1..d] \<and>
      (pl\<lparr>pl_last_committed_decree := d\<rparr>, h, tr @ ?take) = (pl', h', tr')"
    using recorder.commit_hard_spec [OF wf TrueI refl, of ?n 0 tr] assms(2) to upto
    by (simp add: commit_def run_record Let_def)
  also have "\<dots> \<longleftrightarrow> (\<exists>ps. map Some ps = map (pl_map pl) [?l + 1..d] \<and>
      (\<forall>p \<in> set ps. is_logged (h p) \<and> 0 \<le> mu_ballot (h p)) \<and>
      sorted (map (\<lambda>p. mu_ballot (h p)) ps) \<and>
      pl' = pl\<lparr>pl_last_committed_decree := d\<rparr> \<and> h' = h \<and> tr' = tr @ ps)"
    (is "?L \<longleftrightarrow> ?R")
  proof
    assume ?L
    then show ?R unfolding take_ready_map_full by auto
  next
    assume ?R
    then obtain ps where ps: "map Some ps = map (pl_map pl) [?l + 1..d]"
        "\<forall>p \<in> set ps. is_logged (h p) \<and> 0 \<le> mu_ballot (h p)"
        "sorted (map (\<lambda>p. mu_ballot (h p)) ps)"
        "pl' = pl\<lparr>pl_last_committed_decree := d\<rparr>" "h' = h" "tr' = tr @ ps"
      by blast
    have "?take = ps" using take_ready_all [OF ps(2,3)] ps(1) by simp
    moreover have "length ps = length [?l + 1..d]"
      using arg_cong [OF ps(1), of length] by (simp only: length_map)
    ultimately show ?L using ps(4-6) by simp
  qed
  finally show ?thesis .
qed

theorem commit_hard_exact_witness:
  "\<exists>h pl pl'. pl_last_committed_decree pl = 7 \<and> pl_map pl = [8 \<mapsto> 0] \<and> \<not> is_ready_for_commit (h 0) \<and>
    commit record_committer 8 COMMIT_TO_DECREE_HARD (pl, h, []) = Inr (pl', h, [0]) \<and>
    pl_last_committed_decree pl' = 8"
proof -
  define h where "h = (\<lambda>p :: nat. (sample_mutation 8 1 7)\<lparr>mu_left_secondary_ack_count := 1\<rparr>)"
  have h: "mu_decree (h 0) = 8" "mu_ballot (h 0) = 1" "is_logged (h 0)" "\<not> is_ready_for_commit (h 0)"
    by (simp_all add: h_def is_ready_for_commit_def sample_mutation_def empty_header_def is_logged_def)
  from sample_list_decree [of h, OF h(1)] obtain pl where pl: "bounded_plist h pl"
    "pl_last_committed_decree pl = 7" "capacity (pl_cache pl) = 4" "pl_map pl = [8 \<mapsto> 0]" .
  from pl(1) have wf: "plist_wf h pl" by (simp add: bounded_plist_def)
  have "commit record_committer 8 COMMIT_TO_DECREE_HARD (pl, h, [])
      = Inr (pl\<lparr>pl_last_committed_decree := 8\<rparr>, h, [0])"
    by (rule commit_hard_exact [OF wf, THEN iffD2]) (use pl h in \<open>auto intro!: exI [of _ "[0]"]\<close>)
  with pl h(4) show ?thesis by fastforce
qed

text \<open>
  C21. Committing all ready mutations ends, for every list that satisfies the invariant. It
  hands over the longest run of ready mutations with non-decreasing ballots right above the
  committed point, in decree order, and keeps the invariant.
\<close>

theorem commit_all_ready_ends:
  assumes "plist_wf h pl"
  defines "ps \<equiv> take_ready is_ready_for_commit h 0
    (map (pl_map pl) [pl_last_committed_decree pl + 1..max_decree (pl_cache pl)])"
  shows "commit record_committer (pl_last_committed_decree pl + 1) COMMIT_ALL_READY (pl, h, tr)
      = Inr (committed_to pl (length ps), h, tr @ ps)
    \<and> plist_wf h (committed_to pl (length ps))"
proof
  from assms(1) have wf: "ring_wf (pl_cache pl)" "cache_decrees h (pl_cache pl)"
    by (simp_all add: plist_wf_def)
  show "commit record_committer (pl_last_committed_decree pl + 1) COMMIT_ALL_READY (pl, h, tr)
      = Inr (committed_to pl (length ps), h, tr @ ps)"
    using recorder.commit_ready_spec [OF wf TrueI refl, of 0 tr] mcache.get_lookup [OF wf(1)]
    by (simp add: commit_def ps_def run_record Let_def)
  show "plist_wf h (committed_to pl (length ps))"
    by (rule committed_to_wf [OF assms(1)]) (simp add: ps_def)
qed

theorem commit_all_ready_ends_witness:
  "\<exists>h pl. pl_map pl = [8 \<mapsto> 0] \<and> plist_wf h pl \<and>
    commit record_committer 8 COMMIT_ALL_READY (pl, h, []) = Inr (committed_to pl 1, h, [0])"
proof -
  define h where "h = (\<lambda>p :: nat. sample_mutation 8 1 7)"
  have h: "h 0 = sample_mutation 8 1 7" by (simp add: h_def)
  from sample_list [of h, OF h] obtain pl where pl: "bounded_plist h pl"
    "pl_last_committed_decree pl = 7" "capacity (pl_cache pl) = 4" "pl_map pl = [8 \<mapsto> 0]" .
  from pl(1) have wf: "plist_wf h pl" by (simp add: bounded_plist_def)
  then have "8 \<le> max_decree (pl_cache pl)"
    using mcache.lookup_bounds(2) [of "pl_cache pl" 8 0] pl(4) by (simp add: plist_wf_def)
  then have "[8..max_decree (pl_cache pl)] = 8 # [9..max_decree (pl_cache pl)]"
    by (subst upto_rec1) auto
  moreover have "take_ready is_ready_for_commit h 1 (map [8 \<mapsto> 0] [9..k]) = []" for k
    by (cases "9 \<le> k") (simp_all add: upto_rec1)
  ultimately show ?thesis
    using commit_all_ready_ends [OF wf, of "[]"] pl wf h by (intro exI [of _ h] exI [of _ pl]) simp
qed

end
