(* ===== verification/Mutation_Queue.thy ===== *)
theory Mutation_Queue
  imports Mutation "HOL-Library.AList" "HOL-Library.Multiset"
begin

text \<open>
  The write queue of a primary (\<open>mutation_queue\<close> in \<^verbatim>\<open>src/src/replica/mutation.cpp\<close>).
  Client writes are batched into a pending mutation; mutations wait in
  \<open>_blocking_mutations + _queue + _pending_mutation\<close> until they may enter the two-phase
  commit. A mutation that holds an atomic write (a blocking candidate) is held back while
  one of its hash keys is locked, that is, while a write on that key has entered the
  two-phase commit but has not been applied to the storage engine.
\<close>

section \<open>State\<close>

record task_spec =
  ts_is_write_operation :: bool
  ts_is_write_allow_batch :: bool
  ts_is_write_idempotent :: bool

text \<open>
  \<open>_lru_rows\<close> is a linked list of (partition hash, max decree) and \<open>_row_locks\<close> maps a hash
  to an iterator into that list. An iterator is the identity of a list node.
\<close>

record lru_row =
  lr_id :: nat
  lr_hash :: "64 word"
  lr_decree :: decree

record mutation_queue =
  mq_current_op_count :: int
  mq_max_concurrent_op :: int
  mq_batch_write_disabled :: bool
  mq_pcount :: int
  mq_pending_mutation :: "mutation_ptr option"
  mq_queue :: "mutation_ptr list"
  mq_blocking_mutations :: "mutation_ptr list"
  mq_row_locks :: "(64 word \<times> nat) list"
  mq_lru_rows :: "lru_row list"
  mq_next_row :: nat

text \<open>
  What the queue reads of its replica and of the process: the registered task
  specifications, the identity and ballot of the replica, the table's \<open>atomic_idempotent\<close>
  switch, the last applied decree and the flag \<open>row_lock_map_capacity\<close>.
\<close>

record queue_env =
  qe_specs :: "string \<Rightarrow> task_spec option"
  qe_app_id :: int
  qe_partition_index :: int
  qe_ballot :: ballot
  qe_atomic_idempotent :: bool
  qe_last_applied_decree :: decree
  qe_row_lock_map_capacity :: nat
  qe_sizeof_header :: int
  qe_now_ns :: int

definition mutation_queue_init :: "int \<Rightarrow> int \<Rightarrow> bool \<Rightarrow> int \<Rightarrow> mutation_queue result" where
  "mutation_queue_init app_id max_concurrent_op batch_write_disabled pcount =
     bind_result (check (app_id \<noteq> 0) ''invalid gpid'') (\<lambda>_.
       Inr \<lparr>mq_current_op_count = 0, mq_max_concurrent_op = max_concurrent_op,
            mq_batch_write_disabled = batch_write_disabled, mq_pcount = pcount,
            mq_pending_mutation = None, mq_queue = [], mq_blocking_mutations = [],
            mq_row_locks = [], mq_lru_rows = [], mq_next_row = 0\<rparr>)"

section \<open>Services of the replica\<close>

definition new_mutation :: "queue_env \<Rightarrow> decree \<Rightarrow> mutation" where
  "new_mutation env d =
     (mutation_init (qe_sizeof_header env) (qe_now_ns env))
       \<lparr>mu_header := empty_header\<lparr>h_app_id := qe_app_id env,
          h_partition_index := qe_partition_index env, h_ballot := qe_ballot env,
          h_decree := d, h_log_offset := invalid_offset\<rparr>\<rparr>"

definition new_mutation_blocking :: "queue_env \<Rightarrow> decree \<Rightarrow> bool \<Rightarrow> mutation" where
  "new_mutation_blocking env d is_blocking_candidate =
     (new_mutation env d)\<lparr>mu_is_blocking_candidate := is_blocking_candidate\<rparr>"

definition need_make_idempotent_spec :: "queue_env \<Rightarrow> task_spec \<Rightarrow> bool" where
  "need_make_idempotent_spec env spec =
     (if \<not> qe_atomic_idempotent env then False else \<not> ts_is_write_idempotent spec)"

definition applied :: "queue_env \<Rightarrow> decree \<Rightarrow> bool" where
  "applied env d \<longleftrightarrow> d \<le> qe_last_applied_decree env"

definition check_rpc_request_is_write :: "queue_env \<Rightarrow> client_request \<Rightarrow> unit result" where
  "check_rpc_request_is_write env rq =
     (case qe_specs env (rq_code rq) of
        None \<Rightarrow> Inl (Check_failed ''RPC code not found'')
      | Some spec \<Rightarrow> check (ts_is_write_operation spec) ''CHECK_TRUE'')"

section \<open>Row locks\<close>

text \<open>Following an iterator; a dangling one is undefined behaviour.\<close>

definition deref_row :: "lru_row list \<Rightarrow> nat \<Rightarrow> lru_row result" where
  "deref_row rows i =
     (case find (\<lambda>r. lr_id r = i) rows of
        None \<Rightarrow> Inl (Out_of_bounds ''_lru_rows'') | Some r \<Rightarrow> Inr r)"

text \<open>
  The body of the first loop of \<open>enter_2pc\<close>: raise the decree of an existing lock and move
  its row to the head of the list, or create the lock.
\<close>

definition lock_row :: "64 word \<Rightarrow> decree \<Rightarrow> mutation_queue \<Rightarrow> mutation_queue result" where
  "lock_row hash d q =
     (case map_of (mq_row_locks q) hash of
        Some i \<Rightarrow>
          bind_result (deref_row (mq_lru_rows q) i) (\<lambda>r.
            let r' = (if d > lr_decree r then r\<lparr>lr_decree := d\<rparr> else r)
            in Inr (q\<lparr>mq_lru_rows := r' # filter (\<lambda>x. lr_id x \<noteq> i) (mq_lru_rows q)\<rparr>))
      | None \<Rightarrow>
          Inr (q\<lparr>mq_lru_rows :=
                   \<lparr>lr_id = mq_next_row q, lr_hash = hash, lr_decree = d\<rparr> # mq_lru_rows q,
                 mq_row_locks := AList.update hash (mq_next_row q) (mq_row_locks q),
                 mq_next_row := Suc (mq_next_row q)\<rparr>))"

primrec lock_rows :: "queue_env \<Rightarrow> decree \<Rightarrow> client_request option list \<Rightarrow> mutation_queue
    \<Rightarrow> mutation_queue result" where
  "lock_rows env d [] q = Inr q"
| "lock_rows env d (request # rest) q =
     (case request of
        None \<Rightarrow> lock_rows env d rest q
      | Some rq \<Rightarrow>
          bind_result (check_rpc_request_is_write env rq) (\<lambda>_.
          bind_result (lock_row (rq_partition_hash rq) d q) (lock_rows env d rest)))"

text \<open>The eviction loop of \<open>enter_2pc\<close>.\<close>

function evict_rows :: "queue_env \<Rightarrow> mutation_queue \<Rightarrow> mutation_queue result" where
  "evict_rows env q =
     (if length (mq_row_locks q) > qe_row_lock_map_capacity env
      then if mq_lru_rows q = [] then Inl (Out_of_bounds ''_lru_rows.back()'')
           else if \<not> applied env (lr_decree (last (mq_lru_rows q))) then Inr q
           else evict_rows env
                  (q\<lparr>mq_row_locks := AList.delete (lr_hash (last (mq_lru_rows q))) (mq_row_locks q),
                     mq_lru_rows := butlast (mq_lru_rows q)\<rparr>)
      else Inr q)"
  by pat_completeness auto
termination
  by (relation "measure (\<lambda>(_, q). length (mq_lru_rows q))") (auto simp: length_greater_0_conv)

declare evict_rows.simps [simp del]

definition enter_2pc :: "queue_env \<Rightarrow> mutation_store \<Rightarrow> mutation_ptr \<Rightarrow> mutation_queue
    \<Rightarrow> mutation_queue result" where
  "enter_2pc env h mu q =
     bind_result (lock_rows env (mu_decree (h mu)) (mu_client_requests (h mu)) q) (evict_rows env)"

primrec row_locked :: "queue_env \<Rightarrow> mutation_queue \<Rightarrow> client_request option list \<Rightarrow> bool result" where
  "row_locked env q [] = Inr False"
| "row_locked env q (request # rest) =
     (case request of
        None \<Rightarrow> row_locked env q rest
      | Some rq \<Rightarrow>
          bind_result (check_rpc_request_is_write env rq) (\<lambda>_.
            case map_of (mq_row_locks q) (rq_partition_hash rq) of
              None \<Rightarrow> row_locked env q rest
            | Some i \<Rightarrow>
                bind_result (deref_row (mq_lru_rows q) i) (\<lambda>r.
                  if applied env (lr_decree r) then row_locked env q rest else Inr True)))"

section \<open>Popping work\<close>

text \<open>\<open>try_unblock\<close> walks the blocking list from head to tail.\<close>

primrec unblock_first :: "queue_env \<Rightarrow> mutation_queue \<Rightarrow> mutation_store \<Rightarrow> mutation_ptr list
    \<Rightarrow> (mutation_ptr option \<times> mutation_ptr list) result" where
  "unblock_first env q h [] = Inr (None, [])"
| "unblock_first env q h (cur # rest) =
     bind_result (row_locked env q (mu_client_requests (h cur))) (\<lambda>locked.
       if locked
       then bind_result (unblock_first env q h rest) (\<lambda>(mu, rest'). Inr (mu, cur # rest'))
       else Inr (Some cur, rest))"

definition try_unblock :: "queue_env \<Rightarrow> mutation_store \<Rightarrow> mutation_queue
    \<Rightarrow> (mutation_ptr option \<times> mutation_queue) result" where
  "try_unblock env h q =
     bind_result (unblock_first env q h (mq_blocking_mutations q)) (\<lambda>(mu, rest).
       case mu of
         None \<Rightarrow> Inr (None, q)
       | Some p \<Rightarrow> Inr (Some p, q\<lparr>mq_blocking_mutations := rest,
                                  mq_current_op_count := mq_current_op_count q + 1\<rparr>))"

definition try_block :: "queue_env \<Rightarrow> mutation_store \<Rightarrow> mutation_ptr \<Rightarrow> mutation_queue
    \<Rightarrow> (bool \<times> mutation_queue) result" where
  "try_block env h mu q =
     bind_result (if mu_is_blocking_candidate (h mu)
                  then row_locked env q (mu_client_requests (h mu)) else Inr False) (\<lambda>locked.
       if \<not> mu_is_blocking_candidate (h mu) \<or> \<not> locked
       then Inr (False, q\<lparr>mq_current_op_count := mq_current_op_count q + 1\<rparr>)
       else Inr (True, q\<lparr>mq_blocking_mutations := mq_blocking_mutations q @ [mu]\<rparr>))"

function pop_or_block_queue :: "queue_env \<Rightarrow> mutation_store \<Rightarrow> mutation_queue
    \<Rightarrow> (mutation_ptr option \<times> mutation_queue) result" where
  "pop_or_block_queue env h q =
     (case mq_queue q of
        [] \<Rightarrow> Inr (None, q)
      | mu # rest \<Rightarrow>
          bind_result (try_block env h mu (q\<lparr>mq_queue := rest, mq_pcount := mq_pcount q - 1\<rparr>))
            (\<lambda>(blocked, q'). if blocked then pop_or_block_queue env h q' else Inr (Some mu, q')))"
  by pat_completeness auto
termination
proof (relation "measure (\<lambda>(_, _, q). length (mq_queue q))", goal_cases)
  case (2 env h q mu rest res blocked q')
  then show ?case
    by (auto simp: try_block_def result_simps split: if_splits)
qed simp

declare pop_or_block_queue.simps [simp del]

definition pop_or_block_pending :: "queue_env \<Rightarrow> mutation_store \<Rightarrow> mutation_queue
    \<Rightarrow> (mutation_ptr option \<times> mutation_queue) result" where
  "pop_or_block_pending env h q =
     (case mq_pending_mutation q of
        None \<Rightarrow> Inl (Out_of_bounds ''null mutation'')
      | Some mu \<Rightarrow>
          bind_result (try_block env h mu (q\<lparr>mq_pending_mutation := None\<rparr>))
            (\<lambda>(blocked, q'). Inr (if blocked then None else Some mu, q')))"

section \<open>Adding work\<close>

definition promote_pending :: "mutation_queue \<Rightarrow> mutation_queue result" where
  "promote_pending q =
     (case mq_pending_mutation q of
        None \<Rightarrow> Inl (Out_of_bounds ''null mutation'')
      | Some mu \<Rightarrow> Inr (q\<lparr>mq_queue := mq_queue q @ [mu], mq_pending_mutation := None,
                           mq_pcount := mq_pcount q + 1\<rparr>))"

definition try_promote_pending :: "mutation_store \<Rightarrow> task_spec \<Rightarrow> mutation_queue
    \<Rightarrow> mutation_queue result" where
  "try_promote_pending h spec q =
     (case mq_pending_mutation q of
        None \<Rightarrow> Inl (Out_of_bounds ''null mutation'')
      | Some mu \<Rightarrow>
          if ts_is_write_allow_batch spec \<and> \<not> is_full (h mu) \<and> \<not> mq_batch_write_disabled q
          then Inr q else promote_pending q)"

text \<open>
  The two halves of \<open>add_work\<close>: an unbatchable request first promotes the pending mutation;
  after the request has been appended, the next work is chosen.
\<close>

definition promote_unbatchable :: "task_spec \<Rightarrow> mutation_queue \<Rightarrow> mutation_queue result" where
  "promote_unbatchable spec q =
     (if mq_pending_mutation q \<noteq> None \<and> \<not> ts_is_write_allow_batch spec
      then promote_pending q else Inr q)"

definition dispatch_pending :: "queue_env \<Rightarrow> mutation_store \<Rightarrow> task_spec \<Rightarrow> mutation_queue
    \<Rightarrow> (mutation_ptr option \<times> mutation_queue) result" where
  "dispatch_pending env h spec q =
     (if mq_current_op_count q \<ge> mq_max_concurrent_op q
      then bind_result (try_promote_pending h spec q) (\<lambda>q'. Inr (None, q'))
      else bind_result (try_unblock env h q) (\<lambda>(mu, q').
        if mu \<noteq> None then bind_result (try_promote_pending h spec q') (\<lambda>q''. Inr (mu, q''))
        else if mq_queue q' = [] then pop_or_block_pending env h q'
        else bind_result (try_promote_pending h spec q') (pop_or_block_queue env h)))"

definition add_work :: "queue_env \<Rightarrow> client_request option
    \<Rightarrow> mutation_queue \<times> mutation_store \<times> mutation_ptr
    \<Rightarrow> (mutation_ptr option \<times> mutation_queue \<times> mutation_store \<times> mutation_ptr) result" where
  "add_work env request s =
     (case s of (q, h, nxt) \<Rightarrow>
       case request of
         None \<Rightarrow> Inl (Check_failed ''CHECK_NOTNULL'')
       | Some rq \<Rightarrow>
           (case qe_specs env (rq_code rq) of
              None \<Rightarrow> Inl (Check_failed ''CHECK_NOTNULL'')
            | Some spec \<Rightarrow>
                bind_result (promote_unbatchable spec q) (\<lambda>q1.
                let (p, h1, nxt') =
                      (case mq_pending_mutation q1 of
                         Some p \<Rightarrow> (p, h, nxt)
                       | None \<Rightarrow>
                           (nxt, h(nxt := new_mutation_blocking env invalid_decree
                                            (need_make_idempotent_spec env spec)), Suc nxt));
                    q2 = q1\<lparr>mq_pending_mutation := Some p\<rparr>
                in bind_result (add_client_request (Some rq) (h1 p)) (\<lambda>mu.
                   bind_result (dispatch_pending env (h1(p := mu)) spec q2) (\<lambda>(r, q3).
                     Inr (r, q3, h1(p := mu), nxt'))))))"

definition next_work :: "queue_env \<Rightarrow> mutation_store \<Rightarrow> int \<Rightarrow> mutation_queue
    \<Rightarrow> (mutation_ptr option \<times> mutation_queue) result" where
  "next_work env h current_running_count q =
     (let q1 = q\<lparr>mq_current_op_count := current_running_count\<rparr>
      in if mq_current_op_count q1 \<ge> mq_max_concurrent_op q1 then Inr (None, q1)
         else bind_result (try_unblock env h q1) (\<lambda>(r, q2).
           if r \<noteq> None then Inr (r, q2)
           else if mq_queue q2 = []
           then if mq_pending_mutation q2 = None then Inr (None, q2)
                else pop_or_block_pending env h q2
           else pop_or_block_queue env h q2))"

text \<open>
  \<open>clear\<close> returns the waiting mutations in queue order. It clears the lock table but not
  the list of rows behind it.
\<close>

definition clear_queue :: "mutation_queue \<Rightarrow> mutation_ptr list \<times> mutation_queue" where
  "clear_queue q =
     (mq_blocking_mutations q @ mq_queue q
        @ (case mq_pending_mutation q of None \<Rightarrow> [] | Some p \<Rightarrow> [p]),
      q\<lparr>mq_blocking_mutations := [], mq_queue := [],
        mq_pcount := mq_pcount q - int (length (mq_queue q)),
        mq_pending_mutation := None, mq_row_locks := []\<rparr>)"

section \<open>Locks\<close>

definition locks_wf :: "mutation_queue \<Rightarrow> bool" where
  "locks_wf q \<longleftrightarrow>
     distinct (map fst (mq_row_locks q)) \<and> distinct (map lr_id (mq_lru_rows q)) \<and>
     (\<forall>r \<in> set (mq_lru_rows q). lr_id r < mq_next_row q) \<and>
     (\<forall>hash i. map_of (mq_row_locks q) hash = Some i \<longrightarrow>
        (\<exists>r \<in> set (mq_lru_rows q). lr_id r = i \<and> lr_hash r = hash))"

text \<open>No stale rows: every row of the list is the one its lock points to.\<close>

definition lru_exact :: "mutation_queue \<Rightarrow> bool" where
  "lru_exact q \<longleftrightarrow> locks_wf q \<and>
     (\<forall>r \<in> set (mq_lru_rows q). map_of (mq_row_locks q) (lr_hash r) = Some (lr_id r))"

text \<open>The highest decree that is known to have entered the two-phase commit on a hash key.\<close>

definition lock_decree :: "mutation_queue \<Rightarrow> 64 word \<Rightarrow> decree option" where
  "lock_decree q hash =
     (case map_of (mq_row_locks q) hash of
        None \<Rightarrow> None
      | Some i \<Rightarrow> map_option lr_decree (find (\<lambda>r. lr_id r = i) (mq_lru_rows q)))"

definition locked :: "queue_env \<Rightarrow> mutation_queue \<Rightarrow> 64 word \<Rightarrow> bool" where
  "locked env q hash \<longleftrightarrow> (\<exists>d. lock_decree q hash = Some d \<and> \<not> applied env d)"

definition writes_ok :: "queue_env \<Rightarrow> client_request option list \<Rightarrow> bool" where
  "writes_ok env rqs \<longleftrightarrow>
     (\<forall>rq. Some rq \<in> set rqs \<longrightarrow>
        (\<exists>spec. qe_specs env (rq_code rq) = Some spec \<and> ts_is_write_operation spec))"

definition hash_keys :: "client_request option list \<Rightarrow> 64 word set" where
  "hash_keys rqs = {rq_partition_hash rq | rq. Some rq \<in> set rqs}"

lemma hash_keys_simps [simp]:
  "hash_keys [] = {}" "hash_keys (None # rqs) = hash_keys rqs"
  "hash_keys (Some rq # rqs) = insert (rq_partition_hash rq) (hash_keys rqs)"
  by (auto simp: hash_keys_def)

lemma writes_ok_simps [simp]:
  "writes_ok env []" "writes_ok env (None # rqs) = writes_ok env rqs"
  "writes_ok env (Some rq # rqs) \<longleftrightarrow>
     check_rpc_request_is_write env rq = Inr () \<and> writes_ok env rqs"
  by (auto simp: writes_ok_def check_rpc_request_is_write_def check_def split: option.splits)

lemma find_distinct:
  assumes "distinct (map f xs)" "x \<in> set xs"
  shows "find (\<lambda>y. f y = f x) xs = Some x"
  using assms by (induction xs) (auto simp: rev_image_eqI)

lemma lock_resolves:
  assumes "locks_wf q" "map_of (mq_row_locks q) hash = Some i"
  obtains r where "r \<in> set (mq_lru_rows q)" "lr_id r = i" "lr_hash r = hash"
    "find (\<lambda>x. lr_id x = i) (mq_lru_rows q) = Some r" "lock_decree q hash = Some (lr_decree r)"
proof -
  from assms obtain r where r: "r \<in> set (mq_lru_rows q)" "lr_id r = i" "lr_hash r = hash"
    unfolding locks_wf_def by blast
  with assms(1) find_distinct [of lr_id "mq_lru_rows q" r]
  have "find (\<lambda>x. lr_id x = i) (mq_lru_rows q) = Some r" by (simp add: locks_wf_def)
  with r assms(2) show thesis by (intro that [of r]) (simp_all add: lock_decree_def)
qed

lemma lock_decree_None: "map_of (mq_row_locks q) hash = None \<Longrightarrow> lock_decree q hash = None"
  by (simp add: lock_decree_def)

lemma row_locked_iff:
  assumes "locks_wf q" "writes_ok env rqs"
  shows "row_locked env q rqs = Inr (\<exists>hash \<in> hash_keys rqs. locked env q hash)"
  using assms(2)
proof (induction rqs)
  case Nil
  then show ?case by simp
next
  case (Cons request rqs)
  show ?case
  proof (cases request)
    case None
    with Cons show ?thesis by simp
  next
    case (Some rq)
    let ?h = "rq_partition_hash rq"
    show ?thesis
    proof (cases "map_of (mq_row_locks q) ?h")
      case None
      with Cons Some show ?thesis by (simp add: locked_def lock_decree_None)
    next
      case l: (Some i)
      from lock_resolves [OF assms(1) l] obtain r where
        "find (\<lambda>x. lr_id x = i) (mq_lru_rows q) = Some r" "lock_decree q ?h = Some (lr_decree r)" .
      with l Cons Some show ?thesis by (simp add: deref_row_def locked_def)
    qed
  qed
qed

text \<open>Taking one lock raises the decree of that key to the maximum and keeps all others.\<close>

lemma lock_row_spec:
  assumes ex: "lru_exact q"
  shows "\<exists>q'. lock_row hash d q = Inr q' \<and> lru_exact q' \<and>
    (\<forall>k. lock_decree q' k = (if k = hash
        then Some (case lock_decree q hash of None \<Rightarrow> d | Some d0 \<Rightarrow> max d0 d) else lock_decree q k))"
proof (cases "map_of (mq_row_locks q) hash")
  case None
  let ?q = "q\<lparr>mq_lru_rows := \<lparr>lr_id = mq_next_row q, lr_hash = hash, lr_decree = d\<rparr> # mq_lru_rows q,
      mq_row_locks := AList.update hash (mq_next_row q) (mq_row_locks q),
      mq_next_row := Suc (mq_next_row q)\<rparr>"
  have fresh: "lr_id r \<noteq> mq_next_row q" "lr_hash r \<noteq> hash" if "r \<in> set (mq_lru_rows q)" for r
    using ex that None by (auto simp: lru_exact_def locks_wf_def)
  have locks: "map_of (mq_row_locks ?q) k
      = (if k = hash then Some (mq_next_row q) else map_of (mq_row_locks q) k)" for k
    by (simp add: update_conv')
  have wf': "distinct (map fst (mq_row_locks q))" "distinct (map lr_id (mq_lru_rows q))"
    "\<forall>r \<in> set (mq_lru_rows q). lr_id r < mq_next_row q"
    "\<forall>k i. map_of (mq_row_locks q) k = Some i \<longrightarrow>
       (\<exists>r \<in> set (mq_lru_rows q). lr_id r = i \<and> lr_hash r = k)"
    "\<forall>r \<in> set (mq_lru_rows q). map_of (mq_row_locks q) (lr_hash r) = Some (lr_id r)"
    using ex by (auto simp: lru_exact_def locks_wf_def)
  have old: "i \<noteq> mq_next_row q" if "map_of (mq_row_locks q) k = Some i" for k i
    using wf'(3,4) that by fastforce
  have "locks_wf ?q"
    unfolding locks_wf_def using wf' fresh locks by (auto simp: distinct_update less_Suc_eq)
  then have "lru_exact ?q" unfolding lru_exact_def using wf'(5) fresh(2) locks by auto
  moreover have "lock_decree ?q k = (if k = hash then Some d else lock_decree q k)" for k
    using old locks by (auto simp: lock_decree_def split: option.split)
  ultimately show ?thesis using None by (auto simp: lock_row_def lock_decree_None)
next
  case (Some i)
  from ex have wf: "locks_wf q" by (simp add: lru_exact_def)
  from lock_resolves [OF wf Some] obtain r where r: "r \<in> set (mq_lru_rows q)" "lr_id r = i"
    "lr_hash r = hash" "find (\<lambda>x. lr_id x = i) (mq_lru_rows q) = Some r"
    "lock_decree q hash = Some (lr_decree r)" .
  let ?r = "if d > lr_decree r then r\<lparr>lr_decree := d\<rparr> else r"
  let ?q = "q\<lparr>mq_lru_rows := ?r # filter (\<lambda>x. lr_id x \<noteq> i) (mq_lru_rows q)\<rparr>"
  have r': "lr_id ?r = i" "lr_hash ?r = hash" "lr_decree ?r = max (lr_decree r) d"
    using r by auto
  have same: "x = r" if "x \<in> set (mq_lru_rows q)" "lr_id x = i" for x
    using wf r(1,2) that by (metis distinct_map inj_onD locks_wf_def)
  have "locks_wf ?q"
    unfolding locks_wf_def
  proof (intro conjI allI impI)
    fix k j
    assume "map_of (mq_row_locks ?q) k = Some j"
    then have kj: "map_of (mq_row_locks q) k = Some j" by simp
    from lock_resolves [OF wf kj] obtain x where
      x: "x \<in> set (mq_lru_rows q)" "lr_id x = j" "lr_hash x = k" by metis
    show "\<exists>r \<in> set (mq_lru_rows ?q). lr_id r = j \<and> lr_hash r = k"
    proof (cases "j = i")
      case True
      with x same r r' show ?thesis by auto
    next
      case False
      with x show ?thesis by auto
    qed
  qed (use wf r' r in \<open>auto simp: locks_wf_def distinct_map_filter\<close>)
  moreover have "\<forall>x \<in> set (mq_lru_rows ?q). map_of (mq_row_locks ?q) (lr_hash x) = Some (lr_id x)"
    using ex r' Some by (auto simp: lru_exact_def)
  ultimately have "lru_exact ?q" by (simp add: lru_exact_def)
  moreover have "lock_decree ?q k = (if k = hash then Some (max (lr_decree r) d) else lock_decree q k)" for k
  proof (cases "map_of (mq_row_locks q) k")
    case None
    with Some show ?thesis by (auto simp: lock_decree_None)
  next
    case k: (Some j)
    from lock_resolves [OF wf k] obtain x where x: "x \<in> set (mq_lru_rows q)" "lr_id x = j"
      "lr_hash x = k" by metis
    have "k = hash" if "j = i" using same [OF x(1)] x that r(3) by simp
    moreover have "j = i" if "k = hash" using that k Some by simp
    ultimately have ji: "j = i \<longleftrightarrow> k = hash" by blast
    have skip: "find (\<lambda>x. lr_id x = j) (filter (\<lambda>x. lr_id x \<noteq> i) xs) = find (\<lambda>x. lr_id x = j) xs"
      if "j \<noteq> i" for xs
      using that by (induction xs) auto
    have rows: "mq_lru_rows ?q = ?r # filter (\<lambda>x. lr_id x \<noteq> i) (mq_lru_rows q)"
      "mq_row_locks ?q = mq_row_locks q" by simp_all
    show ?thesis
    proof (cases "j = i")
      case True
      then show ?thesis
        using ji k r' by (simp only: lock_decree_def rows) simp
    next
      case False
      then have "find (\<lambda>x. lr_id x = j) (mq_lru_rows ?q) = find (\<lambda>x. lr_id x = j) (mq_lru_rows q)"
        using r'(1) skip [OF False] by (simp only: rows) simp
      with False ji k show ?thesis
        by (simp add: lock_decree_def del: find.simps)
    qed
  qed
  ultimately show ?thesis
    using Some r(4,5) by (auto simp: lock_row_def deref_row_def Let_def)
qed

lemma lock_rows_spec:
  assumes "lru_exact q" "writes_ok env rqs"
  shows "\<exists>q'. lock_rows env d rqs q = Inr q' \<and> lru_exact q' \<and>
    (\<forall>k. lock_decree q' k = (if k \<in> hash_keys rqs
        then Some (case lock_decree q k of None \<Rightarrow> d | Some d0 \<Rightarrow> max d0 d) else lock_decree q k))"
  using assms
proof (induction rqs arbitrary: q)
  case Nil
  then show ?case by simp
next
  case (Cons request rqs)
  show ?case
  proof (cases request)
    case None
    with Cons show ?thesis by simp
  next
    case (Some rq)
    let ?h = "rq_partition_hash rq"
    from lock_row_spec [OF Cons.prems(1), of ?h d] obtain q1 where q1: "lock_row ?h d q = Inr q1"
      "lru_exact q1" "\<forall>k. lock_decree q1 k = (if k = ?h
        then Some (case lock_decree q ?h of None \<Rightarrow> d | Some d0 \<Rightarrow> max d0 d) else lock_decree q k)"
      by blast
    from Cons.IH [OF q1(2)] Cons.prems(2) Some obtain q' where q': "lock_rows env d rqs q1 = Inr q'"
      "lru_exact q'" "\<forall>k. lock_decree q' k = (if k \<in> hash_keys rqs
        then Some (case lock_decree q1 k of None \<Rightarrow> d | Some d0 \<Rightarrow> max d0 d) else lock_decree q1 k)"
      by auto
    have "lock_decree q' k = (if k \<in> hash_keys (request # rqs)
        then Some (case lock_decree q k of None \<Rightarrow> d | Some d0 \<Rightarrow> max d0 d) else lock_decree q k)" for k
      using q'(3) q1(3) Some by (auto split: option.split)
    with q1 q' Some Cons.prems(2) show ?thesis by auto
  qed
qed

text \<open>
  One eviction step: the row at the tail of the list and its lock go away, and nothing else
  does, as long as there are no stale rows.
\<close>

lemma evict_one:
  assumes ex: "lru_exact q" and ne: "mq_lru_rows q \<noteq> []"
  defines "r \<equiv> last (mq_lru_rows q)"
  defines "q' \<equiv> q\<lparr>mq_row_locks := AList.delete (lr_hash r) (mq_row_locks q),
      mq_lru_rows := butlast (mq_lru_rows q)\<rparr>"
  shows "lru_exact q' \<and> lock_decree q (lr_hash r) = Some (lr_decree r) \<and>
    (\<forall>k. lock_decree q' k = (if k = lr_hash r then None else lock_decree q k))"
proof -
  have split: "mq_lru_rows q = butlast (mq_lru_rows q) @ [r]" using ne by (simp add: r_def)
  from ex have wf: "locks_wf q"
    and rows: "\<And>x. x \<in> set (mq_lru_rows q) \<Longrightarrow> map_of (mq_row_locks q) (lr_hash x) = Some (lr_id x)"
    by (auto simp: lru_exact_def)
  have r_in: "r \<in> set (mq_lru_rows q)" using ne by (simp add: r_def)
  have dist: "distinct (map lr_id (butlast (mq_lru_rows q) @ [r]))"
    using wf split by (simp add: locks_wf_def)
  have locks: "map_of (mq_row_locks q') k
      = (if k = lr_hash r then None else map_of (mq_row_locks q) k)" for k
    by (simp add: q'_def delete_conv')
  have hashes: "lr_hash x \<noteq> lr_hash r" if "x \<in> set (butlast (mq_lru_rows q))" for x
  proof
    assume "lr_hash x = lr_hash r"
    with rows [OF in_set_butlastD [OF that]] rows [OF r_in] have "lr_id x = lr_id r" by simp
    with that dist show False by (auto simp: image_iff)
  qed
  have set_split: "set (mq_lru_rows q) = insert r (set (butlast (mq_lru_rows q)))"
    using arg_cong [OF split, of set] by simp
  have "locks_wf q'"
    unfolding locks_wf_def
  proof (intro conjI allI impI)
    fix k i
    assume "map_of (mq_row_locks q') k = Some i"
    then have "k \<noteq> lr_hash r" "map_of (mq_row_locks q) k = Some i" using locks by (auto split: if_splits)
    with wf obtain x where "x \<in> set (mq_lru_rows q)" "lr_id x = i" "lr_hash x = k" "x \<noteq> r"
      unfolding locks_wf_def by blast
    then have "x \<in> set (butlast (mq_lru_rows q))" using set_split by simp
    with \<open>lr_id x = i\<close> \<open>lr_hash x = k\<close> show "\<exists>r \<in> set (mq_lru_rows q'). lr_id r = i \<and> lr_hash r = k"
      by (auto simp: q'_def)
  qed (use wf dist in \<open>auto simp: locks_wf_def q'_def distinct_delete dest: in_set_butlastD\<close>)
  moreover have "\<forall>x \<in> set (mq_lru_rows q'). map_of (mq_row_locks q') (lr_hash x) = Some (lr_id x)"
    using rows hashes locks by (auto simp: q'_def dest: in_set_butlastD)
  moreover have "lock_decree q' k = (if k = lr_hash r then None else lock_decree q k)" for k
  proof (cases "k = lr_hash r \<or> map_of (mq_row_locks q) k = None")
    case True
    then show ?thesis using locks by (auto simp: lock_decree_None)
  next
    case False
    then obtain i where i: "map_of (mq_row_locks q) k = Some i" "k \<noteq> lr_hash r" by auto
    from lock_resolves [OF wf i(1)] obtain x where x: "x \<in> set (mq_lru_rows q)" "lr_id x = i"
      "lr_hash x = k" "lock_decree q k = Some (lr_decree x)" by metis
    have "x \<noteq> r" using x i by auto
    then have "x \<in> set (butlast (mq_lru_rows q))" using x(1) set_split by simp
    then have "find (\<lambda>y. lr_id y = lr_id x) (butlast (mq_lru_rows q)) = Some x"
      using dist by (intro find_distinct) auto
    then have "lock_decree q' k = Some (lr_decree x)"
      using x(2) i locks [of k] by (simp add: lock_decree_def) (simp add: q'_def)
    with x(4) i show ?thesis by simp
  qed
  moreover have "lock_decree q (lr_hash r) = Some (lr_decree r)"
    using find_distinct [of lr_id "mq_lru_rows q" r] wf r_in rows [OF r_in]
    by (simp add: locks_wf_def lock_decree_def)
  ultimately show ?thesis by (simp add: lru_exact_def)
qed

lemma evict_rows_spec:
  assumes "lru_exact q"
  shows "\<exists>q'. evict_rows env q = Inr q' \<and> lru_exact q' \<and>
    (\<forall>k. lock_decree q' k = lock_decree q k \<or>
       (lock_decree q' k = None \<and> (\<exists>d. lock_decree q k = Some d \<and> applied env d)))"
  using assms
proof (induction env q rule: evict_rows.induct)
  case (1 env q)
  let ?r = "last (mq_lru_rows q)"
  let ?q = "q\<lparr>mq_row_locks := AList.delete (lr_hash ?r) (mq_row_locks q),
      mq_lru_rows := butlast (mq_lru_rows q)\<rparr>"
  show ?case
  proof (cases "length (mq_row_locks q) > qe_row_lock_map_capacity env")
    case False
    with "1.prems" show ?thesis by (simp add: evict_rows.simps [of env q])
  next
    case big: True
    have ne: "mq_lru_rows q \<noteq> []"
    proof -
      from big obtain k i where "map_of (mq_row_locks q) k = Some i"
        by (cases "mq_row_locks q") force+
      with "1.prems" show ?thesis by (auto simp: lru_exact_def locks_wf_def)
    qed
    show ?thesis
    proof (cases "applied env (lr_decree ?r)")
      case False
      with big ne "1.prems" show ?thesis by (simp add: evict_rows.simps [of env q])
    next
      case ap: True
      note one = evict_one [OF "1.prems" ne]
      from "1.IH" [OF big ne] ap one obtain q' where q': "evict_rows env ?q = Inr q'" "lru_exact q'"
        "\<forall>k. lock_decree q' k = lock_decree ?q k \<or>
          (lock_decree q' k = None \<and> (\<exists>d. lock_decree ?q k = Some d \<and> applied env d))"
        by auto
      have "lock_decree q' k = lock_decree q k \<or>
          (lock_decree q' k = None \<and> (\<exists>d. lock_decree q k = Some d \<and> applied env d))" for k
        using spec [OF q'(3), of k] one ap by (cases "k = lr_hash ?r") auto
      moreover have "evict_rows env q = Inr q'"
        using big ne ap q'(1) by (simp add: evict_rows.simps [of env q])
      ultimately show ?thesis using q'(2) by blast
    qed
  qed
qed


section \<open>Popping\<close>

definition waiting :: "mutation_queue \<Rightarrow> mutation_ptr list" where
  "waiting q = mq_blocking_mutations q @ mq_queue q
     @ (case mq_pending_mutation q of None \<Rightarrow> [] | Some p \<Rightarrow> [p])"

definition keys_locked :: "queue_env \<Rightarrow> mutation_store \<Rightarrow> mutation_queue \<Rightarrow> mutation_ptr \<Rightarrow> bool" where
  "keys_locked env h q p \<longleftrightarrow> (\<exists>k \<in> hash_keys (mu_client_requests (h p)). locked env q k)"

definition held_back :: "queue_env \<Rightarrow> mutation_store \<Rightarrow> mutation_queue \<Rightarrow> mutation_ptr \<Rightarrow> bool" where
  "held_back env h q p \<longleftrightarrow> mu_is_blocking_candidate (h p) \<and> keys_locked env h q p"

definition all_writes :: "queue_env \<Rightarrow> mutation_store \<Rightarrow> mutation_ptr list \<Rightarrow> bool" where
  "all_writes env h ps \<longleftrightarrow> (\<forall>p \<in> set ps. writes_ok env (mu_client_requests (h p)))"

text \<open>The lock state is untouched by everything that only moves mutations around.\<close>

lemma locks_of_update [simp]:
  "locks_wf (q\<lparr>mq_queue := xs\<rparr>) = locks_wf q"
  "locks_wf (q\<lparr>mq_pcount := n\<rparr>) = locks_wf q"
  "locks_wf (q\<lparr>mq_pending_mutation := pm\<rparr>) = locks_wf q"
  "locks_wf (q\<lparr>mq_current_op_count := n\<rparr>) = locks_wf q"
  "locks_wf (q\<lparr>mq_blocking_mutations := xs\<rparr>) = locks_wf q"
  by (simp_all add: locks_wf_def)

lemma locked_of_update [simp]:
  "locked env (q\<lparr>mq_queue := xs\<rparr>) = locked env q"
  "locked env (q\<lparr>mq_pcount := n\<rparr>) = locked env q"
  "locked env (q\<lparr>mq_pending_mutation := pm\<rparr>) = locked env q"
  "locked env (q\<lparr>mq_current_op_count := n\<rparr>) = locked env q"
  "locked env (q\<lparr>mq_blocking_mutations := xs\<rparr>) = locked env q"
  by (simp_all add: locked_def lock_decree_def fun_eq_iff cong: option.case_cong)

lemma keys_locked_of_update [simp]:
  "keys_locked env h (q\<lparr>mq_queue := xs\<rparr>) = keys_locked env h q"
  "keys_locked env h (q\<lparr>mq_pcount := n\<rparr>) = keys_locked env h q"
  "keys_locked env h (q\<lparr>mq_pending_mutation := pm\<rparr>) = keys_locked env h q"
  "keys_locked env h (q\<lparr>mq_current_op_count := n\<rparr>) = keys_locked env h q"
  "keys_locked env h (q\<lparr>mq_blocking_mutations := xs\<rparr>) = keys_locked env h q"
  by (simp_all add: keys_locked_def fun_eq_iff)

lemma held_back_of_update [simp]:
  "held_back env h (q\<lparr>mq_queue := xs\<rparr>) = held_back env h q"
  "held_back env h (q\<lparr>mq_pcount := n\<rparr>) = held_back env h q"
  "held_back env h (q\<lparr>mq_pending_mutation := pm\<rparr>) = held_back env h q"
  "held_back env h (q\<lparr>mq_current_op_count := n\<rparr>) = held_back env h q"
  "held_back env h (q\<lparr>mq_blocking_mutations := xs\<rparr>) = held_back env h q"
  by (simp_all add: held_back_def fun_eq_iff)

lemma all_writes_simps [simp]:
  "all_writes env h []"
  "all_writes env h (p # ps) \<longleftrightarrow> writes_ok env (mu_client_requests (h p)) \<and> all_writes env h ps"
  "all_writes env h (ps @ qs) \<longleftrightarrow> all_writes env h ps \<and> all_writes env h qs"
  by (auto simp: all_writes_def)

lemma try_block_spec:
  assumes "locks_wf q" "writes_ok env (mu_client_requests (h p))"
  shows "try_block env h p q =
    Inr (if held_back env h q p
         then (True, q\<lparr>mq_blocking_mutations := mq_blocking_mutations q @ [p]\<rparr>)
         else (False, q\<lparr>mq_current_op_count := mq_current_op_count q + 1\<rparr>))"
  using row_locked_iff [OF assms]
  by (simp add: try_block_def held_back_def keys_locked_def)

lemma unblock_first_spec:
  assumes "locks_wf q" "all_writes env h ps"
  shows "unblock_first env q h ps =
    Inr (find (\<lambda>p. \<not> keys_locked env h q p) ps,
         takeWhile (keys_locked env h q) ps @ tl (dropWhile (keys_locked env h q) ps))"
  using assms(2)
  by (induction ps) (simp_all add: row_locked_iff [OF assms(1)] keys_locked_def)

lemma find_None_all: "find P xs = None \<longleftrightarrow> (\<forall>x \<in> set xs. \<not> P x)"
  by (induction xs) auto

lemma find_Some_split:
  "find (\<lambda>x. \<not> P x) xs = Some y \<Longrightarrow> \<not> P y \<and> xs = takeWhile P xs @ y # tl (dropWhile P xs)"
  by (induction xs) (auto split: if_splits)

lemma try_unblock_spec:
  assumes "locks_wf q" "all_writes env h (mq_blocking_mutations q)"
  obtains (all_blocked) "try_unblock env h q = Inr (None, q)"
      "\<forall>p \<in> set (mq_blocking_mutations q). keys_locked env h q p"
    | (unblocked) p pre post where "mq_blocking_mutations q = pre @ p # post"
      "\<not> keys_locked env h q p" "\<forall>x \<in> set pre. keys_locked env h q x"
      "try_unblock env h q = Inr (Some p, q\<lparr>mq_blocking_mutations := pre @ post,
         mq_current_op_count := mq_current_op_count q + 1\<rparr>)"
proof (cases "find (\<lambda>p. \<not> keys_locked env h q p) (mq_blocking_mutations q)")
  case None
  then have "try_unblock env h q = Inr (None, q)"
    using unblock_first_spec [OF assms] by (simp add: try_unblock_def)
  with None show thesis using all_blocked by (simp add: find_None_all)
next
  case (Some p)
  let ?bs = "mq_blocking_mutations q"
  from find_Some_split [OF Some]
  have "\<not> keys_locked env h q p"
    "?bs = takeWhile (keys_locked env h q) ?bs @ p # tl (dropWhile (keys_locked env h q) ?bs)"
    by simp_all
  moreover have "\<forall>x \<in> set (takeWhile (keys_locked env h q) ?bs). keys_locked env h q x"
    using set_takeWhileD by fast
  moreover have "try_unblock env h q = Inr (Some p, q\<lparr>mq_blocking_mutations :=
      takeWhile (keys_locked env h q) ?bs @ tl (dropWhile (keys_locked env h q) ?bs),
      mq_current_op_count := mq_current_op_count q + 1\<rparr>)"
    using Some unblock_first_spec [OF assms] by (simp add: try_unblock_def)
  ultimately show thesis using unblocked by blast
qed

text \<open>
  Popping the queue moves the held-back mutations at its head to the blocking list and
  returns the first one that may run.
\<close>

lemma pop_or_block_queue_spec:
  assumes "locks_wf q" "all_writes env h (mq_queue q)"
  shows "\<exists>pre post. (\<forall>x \<in> set pre. held_back env h q x) \<and>
    ((mq_queue q = pre \<and>
      pop_or_block_queue env h q = Inr (None, q\<lparr>mq_queue := [],
        mq_blocking_mutations := mq_blocking_mutations q @ pre,
        mq_pcount := mq_pcount q - int (length pre)\<rparr>)) \<or>
     (\<exists>p. mq_queue q = pre @ p # post \<and> \<not> held_back env h q p \<and>
      pop_or_block_queue env h q = Inr (Some p, q\<lparr>mq_queue := post,
        mq_blocking_mutations := mq_blocking_mutations q @ pre,
        mq_pcount := mq_pcount q - int (length pre) - 1,
        mq_current_op_count := mq_current_op_count q + 1\<rparr>)))"
  using assms
proof (induction "mq_queue q" arbitrary: q)
  case Nil
  then show ?case by (intro exI [of _ "[]"]) (simp add: pop_or_block_queue.simps [of env h q])
next
  case (Cons p ps)
  let ?q = "q\<lparr>mq_queue := ps, mq_pcount := mq_pcount q - 1\<rparr>"
  from Cons.hyps(2) [symmetric] Cons.prems
  have ok: "locks_wf ?q" "writes_ok env (mu_client_requests (h p))" "all_writes env h ps"
    and pq: "mq_queue q = p # ps"
    by simp_all
  note tb = try_block_spec [of ?q env h p, OF ok(1,2)]
  show ?case
  proof (cases "held_back env h q p")
    case False
    with tb pq have "pop_or_block_queue env h q = Inr (Some p, ?q\<lparr>mq_current_op_count := mq_current_op_count q + 1\<rparr>)"
      by (simp add: pop_or_block_queue.simps [of env h q])
    with False pq show ?thesis by (intro exI [of _ "[]"] exI [of _ ps]) simp
  next
    case True
    let ?q2 = "?q\<lparr>mq_blocking_mutations := mq_blocking_mutations q @ [p]\<rparr>"
    have rec: "pop_or_block_queue env h q = pop_or_block_queue env h ?q2"
      using True tb pq by (simp add: pop_or_block_queue.simps [of env h q])
    have "ps = mq_queue ?q2" "locks_wf ?q2" "all_writes env h (mq_queue ?q2)"
      using ok by simp_all
    from Cons.hyps(1) [OF this] obtain pre post where
      IH: "\<forall>x \<in> set pre. held_back env h ?q2 x"
        "(mq_queue ?q2 = pre \<and>
          pop_or_block_queue env h ?q2 = Inr (None, ?q2\<lparr>mq_queue := [],
            mq_blocking_mutations := mq_blocking_mutations ?q2 @ pre,
            mq_pcount := mq_pcount ?q2 - int (length pre)\<rparr>)) \<or>
         (\<exists>p. mq_queue ?q2 = pre @ p # post \<and> \<not> held_back env h ?q2 p \<and>
          pop_or_block_queue env h ?q2 = Inr (Some p, ?q2\<lparr>mq_queue := post,
            mq_blocking_mutations := mq_blocking_mutations ?q2 @ pre,
            mq_pcount := mq_pcount ?q2 - int (length pre) - 1,
            mq_current_op_count := mq_current_op_count ?q2 + 1\<rparr>))"
      by blast
    from IH True pq rec show ?thesis
      by (intro exI [of _ "p # pre"] exI [of _ post]) (auto simp: algebra_simps)
  qed
qed

text \<open>
  What every call that may hand out work guarantees: the waiting mutations are the handed
  out one and those still waiting, nothing is handed out above the concurrency limit, a
  handed out blocking candidate has no locked key, and the locks are as before.
\<close>

definition same_locks :: "mutation_queue \<Rightarrow> mutation_queue \<Rightarrow> bool" where
  "same_locks q q' \<longleftrightarrow> mq_row_locks q' = mq_row_locks q \<and> mq_lru_rows q' = mq_lru_rows q
     \<and> mq_next_row q' = mq_next_row q"

definition hands_out :: "queue_env \<Rightarrow> mutation_store \<Rightarrow> mutation_queue \<Rightarrow> mutation_ptr option
    \<Rightarrow> mutation_queue \<Rightarrow> bool" where
  "hands_out env h q r q' \<longleftrightarrow>
     mset (waiting q) = mset (case r of None \<Rightarrow> [] | Some p \<Rightarrow> [p]) + mset (waiting q') \<and>
     (\<forall>p. r = Some p \<longrightarrow>
        mq_current_op_count q < mq_max_concurrent_op q \<and> \<not> held_back env h q p) \<and>
     mq_current_op_count q' = mq_current_op_count q + (if r = None then 0 else 1) \<and>
     mq_max_concurrent_op q' = mq_max_concurrent_op q \<and>
     mq_pending_mutation q' \<in> {None, mq_pending_mutation q} \<and> same_locks q q'"

lemma hands_out_unblock:
  assumes "locks_wf q" "all_writes env h (mq_blocking_mutations q)"
    "mq_current_op_count q < mq_max_concurrent_op q"
  obtains (all_blocked) "try_unblock env h q = Inr (None, q)"
      "\<forall>p \<in> set (mq_blocking_mutations q). keys_locked env h q p"
    | (unblocked) p q' where "try_unblock env h q = Inr (Some p, q')" "hands_out env h q (Some p) q'"
      "mq_pending_mutation q' = mq_pending_mutation q"
  using assms(1,2)
proof (cases rule: try_unblock_spec)
  case all_blocked
  then show thesis by (rule that(1))
next
  case (unblocked p pre post)
  show thesis
    by (rule that(2), rule unblocked(4))
      (use unblocked assms in \<open>simp_all add: hands_out_def waiting_def same_locks_def held_back_def\<close>)
qed

lemma hands_out_queue:
  assumes "locks_wf q" "all_writes env h (mq_queue q)"
    "mq_current_op_count q < mq_max_concurrent_op q"
  shows "\<exists>r q'. pop_or_block_queue env h q = Inr (r, q') \<and> hands_out env h q r q' \<and>
    (r = None \<longrightarrow> mq_queue q' = [] \<and> (\<forall>p \<in> set (mq_blocking_mutations q').
       p \<in> set (mq_blocking_mutations q) \<or> keys_locked env h q p))"
proof -
  from pop_or_block_queue_spec [OF assms(1,2)] obtain pre post where
    pre: "\<forall>x \<in> set pre. held_back env h q x" and
    cases: "(mq_queue q = pre \<and>
      pop_or_block_queue env h q = Inr (None, q\<lparr>mq_queue := [],
        mq_blocking_mutations := mq_blocking_mutations q @ pre,
        mq_pcount := mq_pcount q - int (length pre)\<rparr>)) \<or>
     (\<exists>p. mq_queue q = pre @ p # post \<and> \<not> held_back env h q p \<and>
      pop_or_block_queue env h q = Inr (Some p, q\<lparr>mq_queue := post,
        mq_blocking_mutations := mq_blocking_mutations q @ pre,
        mq_pcount := mq_pcount q - int (length pre) - 1,
        mq_current_op_count := mq_current_op_count q + 1\<rparr>))"
    by blast
  from cases show ?thesis
  proof
    assume "mq_queue q = pre \<and>
      pop_or_block_queue env h q = Inr (None, q\<lparr>mq_queue := [],
        mq_blocking_mutations := mq_blocking_mutations q @ pre,
        mq_pcount := mq_pcount q - int (length pre)\<rparr>)"
    with pre show ?thesis
      by (auto simp: hands_out_def waiting_def same_locks_def held_back_def)
  next
    assume "\<exists>p. mq_queue q = pre @ p # post \<and> \<not> held_back env h q p \<and>
      pop_or_block_queue env h q = Inr (Some p, q\<lparr>mq_queue := post,
        mq_blocking_mutations := mq_blocking_mutations q @ pre,
        mq_pcount := mq_pcount q - int (length pre) - 1,
        mq_current_op_count := mq_current_op_count q + 1\<rparr>)"
    with assms(3) show ?thesis
      by (auto simp: hands_out_def waiting_def same_locks_def)
  qed
qed

lemma hands_out_pending:
  assumes "locks_wf q" "mq_pending_mutation q = Some p" "writes_ok env (mu_client_requests (h p))"
    "mq_current_op_count q < mq_max_concurrent_op q"
  shows "\<exists>r q'. pop_or_block_pending env h q = Inr (r, q') \<and> hands_out env h q r q' \<and>
    mq_pending_mutation q' = None \<and> mq_queue q' = mq_queue q \<and>
    (r = None \<longrightarrow> (\<forall>p \<in> set (mq_blocking_mutations q').
       p \<in> set (mq_blocking_mutations q) \<or> keys_locked env h q p))"
proof -
  have "locks_wf (q\<lparr>mq_pending_mutation := None\<rparr>)" using assms(1) by simp
  note tb = try_block_spec [of _ env h p, OF this assms(3)]
  show ?thesis
    using tb assms(2,4)
    by (cases "held_back env h q p")
      (simp_all add: pop_or_block_pending_def hands_out_def waiting_def same_locks_def,
        simp add: held_back_def)
qed

lemma hands_out_nothing [simp]: "hands_out env h q None q"
  by (simp add: hands_out_def same_locks_def)

text \<open>
  C18.
  \<open>next_work\<close> never fails on a queue of write requests. It sets the number of running
  operations, loses and invents no mutation, keeps the concurrency limit, and releases a
  mutation with an atomic write only if none of its hash keys has a write that entered the
  two-phase commit and is not applied. If it returns nothing although there is room, every
  queued mutation has been moved to the blocking list, everything on that list waits for a
  locked key, and a pending mutation is left over only if the queue was not empty.
\<close>

theorem next_work_hands_out:
  assumes "locks_wf q" "all_writes env h (waiting q)"
  shows "\<exists>r q'. next_work env h n q = Inr (r, q') \<and>
    hands_out env h (q\<lparr>mq_current_op_count := n\<rparr>) r q' \<and>
    (r = None \<longrightarrow> n < mq_max_concurrent_op q \<longrightarrow>
       mq_queue q' = [] \<and> (\<forall>p \<in> set (mq_blocking_mutations q'). keys_locked env h q p) \<and>
       (mq_queue q = [] \<longrightarrow> mq_pending_mutation q' = None))"
proof (cases "n < mq_max_concurrent_op q")
  case False
  then show ?thesis by (auto simp: next_work_def Let_def)
next
  case room: True
  let ?q = "q\<lparr>mq_current_op_count := n\<rparr>"
  have pre: "locks_wf ?q" "all_writes env h (mq_blocking_mutations ?q)" "all_writes env h (mq_queue ?q)"
    "mq_current_op_count ?q < mq_max_concurrent_op ?q"
    using assms room by (simp_all add: waiting_def)
  from pre(1,2,4) show ?thesis
  proof (cases rule: hands_out_unblock)
    case (unblocked p q')
    with room show ?thesis by (simp add: next_work_def Let_def)
  next
    case all_blocked
    show ?thesis
    proof (cases "mq_queue q")
      case Cons
      from hands_out_queue [OF pre(1,3,4)] obtain r q' where
        "pop_or_block_queue env h ?q = Inr (r, q')" "hands_out env h ?q r q'"
        "r = None \<longrightarrow> mq_queue q' = [] \<and> (\<forall>p \<in> set (mq_blocking_mutations q').
           p \<in> set (mq_blocking_mutations ?q) \<or> keys_locked env h ?q p)"
        by blast
      with Cons all_blocked room show ?thesis by (auto simp: next_work_def Let_def)
    next
      case Nil
      show ?thesis
      proof (cases "mq_pending_mutation q")
        case None
        with Nil all_blocked room show ?thesis by (auto simp: next_work_def Let_def)
      next
        case (Some p)
        with assms have "mq_pending_mutation ?q = Some p" "writes_ok env (mu_client_requests (h p))"
          by (simp_all add: waiting_def)
        from hands_out_pending [of ?q p env h, OF pre(1) this pre(4)] obtain r q' where
          "pop_or_block_pending env h ?q = Inr (r, q')" "hands_out env h ?q r q'"
          "mq_pending_mutation q' = None" "mq_queue q' = mq_queue ?q"
          "r = None \<longrightarrow> (\<forall>p \<in> set (mq_blocking_mutations q').
             p \<in> set (mq_blocking_mutations ?q) \<or> keys_locked env h ?q p)"
          by blast
        with Some Nil all_blocked room show ?thesis by (auto simp: next_work_def Let_def)
      qed
    qed
  qed
qed

definition sample_env :: queue_env where
  "sample_env = \<lparr>qe_specs = (\<lambda>code. if code = ''PUT'' then Some \<lparr>ts_is_write_operation = True,
       ts_is_write_allow_batch = True, ts_is_write_idempotent = True\<rparr>
     else if code = ''INCR'' then Some \<lparr>ts_is_write_operation = True,
       ts_is_write_allow_batch = False, ts_is_write_idempotent = False\<rparr> else None),
     qe_app_id = 1, qe_partition_index = 0, qe_ballot = 3, qe_atomic_idempotent = True,
     qe_last_applied_decree = 10, qe_row_lock_map_capacity = 1, qe_sizeof_header = 48,
     qe_now_ns = 0\<rparr>"

definition sample_request :: "string \<Rightarrow> 64 word \<Rightarrow> client_request" where
  "sample_request code hash = \<lparr>rq_id = 7, rq_code = code, rq_format = 1,
     rq_partition_hash = hash, rq_payload = Some [1, 2]\<rparr>"

definition sample_store :: mutation_store where
  "sample_store p =
     (new_mutation_blocking sample_env (10 + int p) True)
       \<lparr>mu_client_requests := [Some (sample_request ''INCR'' (if p = 3 then 2 else 1))]\<rparr>"

definition sample_queue :: mutation_queue where
  "sample_queue = \<lparr>mq_current_op_count = 0, mq_max_concurrent_op = 2,
     mq_batch_write_disabled = False, mq_pcount = 2, mq_pending_mutation = None,
     mq_queue = [2, 3], mq_blocking_mutations = [],
     mq_row_locks = [(1, 0)], mq_lru_rows = [\<lparr>lr_id = 0, lr_hash = 1, lr_decree = 11\<rparr>],
     mq_next_row = 1\<rparr>"

lemma sample_queue_ok:
  "lru_exact sample_queue" "locks_wf sample_queue"
  "all_writes sample_env sample_store (waiting sample_queue)"
  "writes_ok sample_env (mu_client_requests (sample_store p))"
  by (auto simp: lru_exact_def locks_wf_def sample_queue_def waiting_def sample_store_def
      sample_request_def sample_env_def check_rpc_request_is_write_def)


theorem next_work_hands_out_witness:
  "\<exists>q'. next_work sample_env sample_store 1 sample_queue = Inr (Some 3, q') \<and>
     hands_out sample_env sample_store (sample_queue\<lparr>mq_current_op_count := 1\<rparr>) (Some 3) q'"
proof -
  have "\<exists>q'. next_work sample_env sample_store 1 sample_queue = Inr (Some 3, q')"
    by (simp add: next_work_def sample_queue_def try_unblock_def pop_or_block_queue.simps
        try_block_def sample_store_def new_mutation_blocking_def new_mutation_def
        sample_request_def check_rpc_request_is_write_def sample_env_def deref_row_def applied_def)
  with next_work_hands_out [OF sample_queue_ok(2,3), of 1] show ?thesis by auto
qed

lemma length_update_fresh:
  "k \<notin> fst ` set al \<Longrightarrow> length (AList.update k v al) = Suc (length al)"
  by (induction al) auto

text \<open>Locking keys that have no lock yet adds one row and one lock per key.\<close>

lemma lock_rows_fresh:
  assumes "writes_ok env (map Some rqs)" "distinct (map rq_partition_hash rqs)"
    "\<forall>rq \<in> set rqs. map_of (mq_row_locks q) (rq_partition_hash rq) = None"
  shows "\<exists>q' new. lock_rows env d (map Some rqs) q = Inr q' \<and>
    length (mq_row_locks q') = length (mq_row_locks q) + length rqs \<and>
    mq_lru_rows q' = new @ mq_lru_rows q \<and> length new = length rqs \<and>
    (\<forall>r \<in> set new. lr_decree r = d)"
  using assms
proof (induction rqs arbitrary: q)
  case (Cons rq rqs)
  let ?h = "rq_partition_hash rq"
  let ?q = "q\<lparr>mq_lru_rows := \<lparr>lr_id = mq_next_row q, lr_hash = ?h, lr_decree = d\<rparr> # mq_lru_rows q,
      mq_row_locks := AList.update ?h (mq_next_row q) (mq_row_locks q),
      mq_next_row := Suc (mq_next_row q)\<rparr>"
  have none: "map_of (mq_row_locks q) ?h = None" using Cons.prems(3) by simp
  then have lock: "lock_row ?h d q = Inr ?q" by (simp add: lock_row_def)
  from none have len: "length (mq_row_locks ?q) = Suc (length (mq_row_locks q))"
    by (simp add: map_of_eq_None_iff length_update_fresh)
  have "\<forall>x \<in> set rqs. map_of (mq_row_locks ?q) (rq_partition_hash x) = None"
    using Cons.prems(2,3) by (auto simp: update_conv' image_iff)
  from Cons.IH [OF _ _ this] Cons.prems(1,2) obtain q' new where
    "lock_rows env d (map Some rqs) ?q = Inr q'"
    "length (mq_row_locks q') = length (mq_row_locks ?q) + length rqs"
    "mq_lru_rows q' = new @ mq_lru_rows ?q" "length new = length rqs" "\<forall>r \<in> set new. lr_decree r = d"
    by auto
  with lock len Cons.prems(1) show ?case
    by (intro exI [of _ q'] exI [of _ "new @ [\<lparr>lr_id = mq_next_row q, lr_hash = ?h, lr_decree = d\<rparr>]"]) auto
qed simp

text \<open>An eviction stops at an unapplied row at the latest and gives no key a lock.\<close>

lemma evict_rows_stops:
  assumes "\<exists>r \<in> set (mq_lru_rows q). \<not> applied env (lr_decree r)"
  shows "\<exists>q'. evict_rows env q = Inr q' \<and>
    (\<forall>k. map_of (mq_row_locks q) k = None \<longrightarrow> map_of (mq_row_locks q') k = None)"
  using assms
proof (induction env q rule: evict_rows.induct)
  case (1 env q)
  let ?q = "q\<lparr>mq_row_locks := AList.delete (lr_hash (last (mq_lru_rows q))) (mq_row_locks q),
      mq_lru_rows := butlast (mq_lru_rows q)\<rparr>"
  show ?case
  proof (cases "length (mq_row_locks q) > qe_row_lock_map_capacity env \<and>
      applied env (lr_decree (last (mq_lru_rows q)))")
    case True
    from "1.prems" have ne: "mq_lru_rows q \<noteq> []" by auto
    then have "set (mq_lru_rows q) = insert (last (mq_lru_rows q)) (set (butlast (mq_lru_rows q)))"
      by (metis append_butlast_last_id list.set(2) rotate1.simps(2) set_rotate1)
    with "1.prems" True have "\<exists>r \<in> set (mq_lru_rows ?q). \<not> applied env (lr_decree r)" by auto
    with "1.IH" [OF _ ne] True obtain q' where "evict_rows env ?q = Inr q'"
      "\<forall>k. map_of (mq_row_locks ?q) k = None \<longrightarrow> map_of (mq_row_locks q') k = None" by auto
    with True ne show ?thesis
      by (subst evict_rows.simps) (auto simp: delete_conv')
  next
    case False
    from "1.prems" have "mq_lru_rows q \<noteq> []" by auto
    with False show ?thesis by (subst evict_rows.simps) auto
  qed
qed

text \<open>
  C37.
  \<open>clear\<close> empties the lock table but leaves the rows behind it in the list, and the eviction
  of a row erases the lock of its key whatever row that lock points to. Let the last row of
  the list be of an applied decree when the queue is cleared, whatever else the queue holds.
  A mutation that then takes the lock of its key at a decree that is not applied holds it,
  and a request on the key has to wait. A second mutation, on as many other keys as the
  table has room for, makes \<open>enter_2pc\<close> evict the stale row: the key is unlocked and the
  request passes, although the first mutation is still not applied.
\<close>

theorem stale_row_drops_lock:
  assumes "mq_lru_rows q = rows @ [r]" "applied env (lr_decree r)"
    and "1 \<le> qe_row_lock_map_capacity env"
    and "mu_client_requests (h p1) = [Some rq]" "writes_ok env [Some rq]"
      "rq_partition_hash rq = lr_hash r" "\<not> applied env (mu_decree (h p1))"
    and "mu_client_requests (h p2) = map Some rqs" "writes_ok env (map Some rqs)"
      "distinct (map rq_partition_hash rqs)" "lr_hash r \<notin> rq_partition_hash ` set rqs"
      "qe_row_lock_map_capacity env \<le> length rqs" "\<not> applied env (mu_decree (h p2))"
  shows "\<exists>q1 q2. enter_2pc env h p1 (snd (clear_queue q)) = Inr q1 \<and>
    locked env q1 (lr_hash r) \<and> row_locked env q1 [Some rq] = Inr True \<and>
    enter_2pc env h p2 q1 = Inr q2 \<and>
    \<not> locked env q2 (lr_hash r) \<and> row_locked env q2 [Some rq] = Inr False"
proof -
  let ?row = "\<lparr>lr_id = mq_next_row q, lr_hash = lr_hash r, lr_decree = mu_decree (h p1)\<rparr>"
  define q1 where "q1 = (snd (clear_queue q))\<lparr>mq_lru_rows := ?row # rows @ [r],
      mq_row_locks := [(lr_hash r, mq_next_row q)], mq_next_row := Suc (mq_next_row q)\<rparr>"
  have "enter_2pc env h p1 (snd (clear_queue q)) = Inr q1"
    using assms(1,3,4,5,6)
    by (simp add: enter_2pc_def clear_queue_def lock_row_def evict_rows.simps q1_def)
  moreover have "locked env q1 (lr_hash r)" "row_locked env q1 [Some rq] = Inr True"
    using assms(5,6,7) by (simp_all add: locked_def lock_decree_def q1_def deref_row_def)
  moreover have "\<forall>x \<in> set rqs. map_of (mq_row_locks q1) (rq_partition_hash x) = None"
    using assms(11) by (auto simp: q1_def image_iff)
  with lock_rows_fresh [OF assms(9,10), of q1 "mu_decree (h p2)"] obtain qa new where
    qa: "lock_rows env (mu_decree (h p2)) (map Some rqs) q1 = Inr qa"
    "length (mq_row_locks qa) = Suc (length rqs)" "length new = length rqs"
    "mq_lru_rows qa = new @ ?row # rows @ [r]" "\<forall>x \<in> set new. lr_decree x = mu_decree (h p2)"
    by (auto simp: q1_def)
  let ?qb = "qa\<lparr>mq_row_locks := AList.delete (lr_hash r) (mq_row_locks qa),
      mq_lru_rows := butlast (mq_lru_rows qa)\<rparr>"
  have "evict_rows env qa = evict_rows env ?qb"
    using qa(2,4) assms(2,12) by (subst evict_rows.simps) simp
  moreover have "\<exists>x \<in> set (mq_lru_rows ?qb). \<not> applied env (lr_decree x)"
    using qa(4) assms(7) by (simp add: butlast_append)
  from evict_rows_stops [OF this] obtain q2 where
    "evict_rows env ?qb = Inr q2" "map_of (mq_row_locks q2) (lr_hash r) = None"
    by (auto simp: delete_conv')
  ultimately show ?thesis
    using qa(1) assms(5,6,8) by (simp add: enter_2pc_def locked_def lock_decree_None)
qed

text \<open>
  The queue is reachable: a new queue, locked once at decree 5, which is applied before the
  queue is cleared.
\<close>

theorem stale_row_drops_lock_witness:
  "let h = (\<lambda>p. (new_mutation_blocking sample_env (if p = 0 then 5 else 10 + int p) True)
             \<lparr>mu_client_requests := [Some (sample_request ''INCR'' (if p = 2 then 2 else 1))]\<rparr>)
   in \<exists>q0 q q1 q2. mutation_queue_init 1 2 False 0 = Inr q0 \<and>
        enter_2pc sample_env h 0 q0 = Inr q \<and>
        enter_2pc sample_env h 1 (snd (clear_queue q)) = Inr q1 \<and> locked sample_env q1 1 \<and>
        enter_2pc sample_env h 2 q1 = Inr q2 \<and> \<not> locked sample_env q2 1"
proof -
  let ?h = "\<lambda>p. (new_mutation_blocking sample_env (if p = 0 then 5 else 10 + int p) True)
             \<lparr>mu_client_requests := [Some (sample_request ''INCR'' (if p = 2 then 2 else 1))]\<rparr>"
  let ?r = "\<lparr>lr_id = 0, lr_hash = 1, lr_decree = 5\<rparr>"
  have "\<exists>q0 q. mutation_queue_init 1 2 False 0 = Inr q0 \<and> enter_2pc sample_env ?h 0 q0 = Inr q \<and>
      mq_lru_rows q = [] @ [?r]"
    by (simp add: mutation_queue_init_def enter_2pc_def new_mutation_blocking_def
        new_mutation_def sample_request_def check_rpc_request_is_write_def sample_env_def
        lock_row_def evict_rows.simps)
  then obtain q0 q where q: "mutation_queue_init 1 2 False 0 = Inr q0"
    "enter_2pc sample_env ?h 0 q0 = Inr q" "mq_lru_rows q = [] @ [?r]" by blast
  have "\<exists>q1 q2. enter_2pc sample_env ?h 1 (snd (clear_queue q)) = Inr q1 \<and>
      locked sample_env q1 (lr_hash ?r) \<and>
      row_locked sample_env q1 [Some (sample_request ''INCR'' 1)] = Inr True \<and>
      enter_2pc sample_env ?h 2 q1 = Inr q2 \<and> \<not> locked sample_env q2 (lr_hash ?r) \<and>
      row_locked sample_env q2 [Some (sample_request ''INCR'' 1)] = Inr False"
    by (rule stale_row_drops_lock [OF q(3), where rqs = "[sample_request ''INCR'' 2]"])
      (simp_all add: sample_env_def applied_def sample_request_def check_rpc_request_is_write_def
        new_mutation_blocking_def new_mutation_def)
  with q(1,2) show ?thesis by (auto simp: Let_def)
qed

section \<open>Adding a client request\<close>

definition requests_of :: "mutation_store \<Rightarrow> mutation_ptr list \<Rightarrow> client_request option multiset" where
  "requests_of h ps = sum_mset (image_mset (\<lambda>p. mset (mu_client_requests (h p))) (mset ps))"

text \<open>
  The queue owns its mutations: no mutation waits twice, the next pointer is fresh, and the
  pending mutation has an update per client request.
\<close>

definition queue_owns :: "mutation_queue \<Rightarrow> mutation_store \<Rightarrow> mutation_ptr \<Rightarrow> bool" where
  "queue_owns q h nxt \<longleftrightarrow> distinct (waiting q) \<and> (\<forall>p \<in> set (waiting q). p < nxt) \<and>
     (\<forall>p. mq_pending_mutation q = Some p \<longrightarrow> requests_match_updates (h p))"

lemma requests_of_simps [simp]:
  "requests_of h [] = {#}"
  "requests_of h (p # ps) = mset (mu_client_requests (h p)) + requests_of h ps"
  "requests_of h (ps @ qs) = requests_of h ps + requests_of h qs"
  by (simp_all add: requests_of_def)

lemma requests_of_mset: "mset ps = mset qs \<Longrightarrow> requests_of h ps = requests_of h qs"
  by (simp add: requests_of_def)

lemma requests_of_fresh: "p \<notin> set ps \<Longrightarrow> requests_of (h(p := m)) ps = requests_of h ps"
  by (induction ps) auto

lemma promote_pending_spec:
  assumes "mq_pending_mutation q = Some p"
  shows "\<exists>q'. promote_pending q = Inr q' \<and> waiting q' = waiting q \<and> same_locks q q' \<and>
    mq_pending_mutation q' = None \<and> mq_current_op_count q' = mq_current_op_count q \<and>
    mq_max_concurrent_op q' = mq_max_concurrent_op q"
  using assms by (simp add: promote_pending_def waiting_def same_locks_def)

lemma try_promote_pending_spec:
  assumes "mq_pending_mutation q = Some p"
  shows "\<exists>q'. try_promote_pending h spec q = Inr q' \<and> waiting q' = waiting q \<and> same_locks q q' \<and>
    mq_pending_mutation q' \<in> {None, mq_pending_mutation q} \<and> mq_current_op_count q' = mq_current_op_count q \<and>
    mq_max_concurrent_op q' = mq_max_concurrent_op q"
  using assms promote_pending_spec [OF assms]
  by (auto simp: try_promote_pending_def same_locks_def)

lemma same_locks_facts:
  assumes "same_locks q q'"
  shows "locks_wf q' = locks_wf q" "locked env q' = locked env q"
    "held_back env h q' = held_back env h q"
  using assms
  by (simp_all add: same_locks_def locks_wf_def locked_def lock_decree_def held_back_def
      keys_locked_def fun_eq_iff cong: option.case_cong)

lemma hands_out_trans_left:
  assumes "mset (waiting q1) = mset (waiting q)" "same_locks q q1"
    "mq_current_op_count q1 = mq_current_op_count q"
    "mq_max_concurrent_op q1 = mq_max_concurrent_op q"
    "mq_pending_mutation q1 \<in> {None, mq_pending_mutation q}" "hands_out env h q1 r q'"
  shows "hands_out env h q r q'"
  using assms same_locks_facts(3) [OF assms(2)]
  by (auto simp: hands_out_def same_locks_def)

lemma hands_out_trans_right:
  assumes "waiting q' = waiting q1" "same_locks q1 q'"
    "mq_current_op_count q' = mq_current_op_count q1"
    "mq_max_concurrent_op q' = mq_max_concurrent_op q1"
    "mq_pending_mutation q' \<in> {None, mq_pending_mutation q1}" "hands_out env h q r q1"
  shows "hands_out env h q r q'"
  using assms by (auto simp: hands_out_def same_locks_def)

text \<open>The first half of \<open>add_work\<close>: the pending mutation that receives the request.\<close>

lemma fill_pending_requests:
  assumes own: "queue_owns q h nxt" and w: "waiting q' = (if p = nxt then waiting q @ [p] else waiting q)"
    and p: "p = nxt \<or> p \<in> set (waiting q)"
    and m: "mu_client_requests m = (if p = nxt then [] else mu_client_requests (h p)) @ [rq]"
  shows "requests_of (h(p := m)) (waiting q') = add_mset rq (requests_of h (waiting q))"
proof (cases "p = nxt")
  case True
  with own have "p \<notin> set (waiting q)" by (auto simp: queue_owns_def)
  with True w m show ?thesis by (simp add: requests_of_fresh)
next
  case False
  with p obtain xs ys where xs: "waiting q = xs @ p # ys" by (auto dest: split_list)
  with own have "p \<notin> set xs" "p \<notin> set ys" by (auto simp: queue_owns_def)
  with False xs w m show ?thesis by (simp add: requests_of_fresh)
qed

text \<open>The second half: dispatching once the request is in the pending mutation.\<close>

lemma dispatch_hands_out:
  assumes wf: "locks_wf q" and w: "all_writes env h (waiting q)"
    and p: "mq_pending_mutation q = Some p"
  shows "\<exists>r q'. dispatch_pending env h spec q = Inr (r, q') \<and> hands_out env h q r q'"
proof -
  from try_promote_pending_spec [OF p, of h spec] obtain q3 where
    q3: "try_promote_pending h spec q = Inr q3" "waiting q3 = waiting q" "same_locks q q3"
      "mq_current_op_count q3 = mq_current_op_count q"
      "mq_max_concurrent_op q3 = mq_max_concurrent_op q"
      "mq_pending_mutation q3 \<in> {None, mq_pending_mutation q}" using p by auto
  show ?thesis
  proof (cases "mq_current_op_count q < mq_max_concurrent_op q")
    case False
    have "hands_out env h q None q3"
      by (rule hands_out_trans_right [OF q3(2-6) hands_out_nothing])
    with False q3(1) show ?thesis by (simp add: dispatch_pending_def)
  next
    case room: True
    have wb: "all_writes env h (mq_blocking_mutations q)" "writes_ok env (mu_client_requests (h p))"
      using w p by (simp_all add: waiting_def)
    from wf wb(1) room show ?thesis
    proof (cases rule: hands_out_unblock)
      case (unblocked p' q1)
      from try_promote_pending_spec [of q1 p h spec] unblocked(3) p obtain q2 where
        q2: "try_promote_pending h spec q1 = Inr q2" "waiting q2 = waiting q1" "same_locks q1 q2"
          "mq_current_op_count q2 = mq_current_op_count q1"
          "mq_max_concurrent_op q2 = mq_max_concurrent_op q1"
          "mq_pending_mutation q2 \<in> {None, mq_pending_mutation q1}" by auto
      have "hands_out env h q (Some p') q2"
        by (rule hands_out_trans_right [OF q2(2-6) unblocked(2)])
      with room unblocked(1) q2(1) show ?thesis by (simp add: dispatch_pending_def)
    next
      case all_blocked
      show ?thesis
      proof (cases "mq_queue q = []")
        case True
        from hands_out_pending [of q p env h, OF wf p wb(2) room] True all_blocked(1) room
        show ?thesis by (auto simp: dispatch_pending_def)
      next
        case False
        have "locks_wf q3" using wf same_locks_facts(1) [OF q3(3)] by simp
        moreover have "all_writes env h (mq_queue q3)"
          using w q3(2) by (metis all_writes_simps(3) waiting_def)
        moreover have "mq_current_op_count q3 < mq_max_concurrent_op q3" using room q3 by simp
        ultimately obtain r q' where
          q': "pop_or_block_queue env h q3 = Inr (r, q')" "hands_out env h q3 r q'"
          using hands_out_queue by blast
        have "hands_out env h q r q'"
          by (rule hands_out_trans_left [OF _ q3(3-6) q'(2)]) (simp add: q3(2))
        with q' q3(1) all_blocked(1) room False show ?thesis by (simp add: dispatch_pending_def)
      qed
    qed
  qed
qed

lemma new_mutation_blocking_facts [simp]:
  "mu_client_requests (new_mutation_blocking env d b) = []"
  "requests_match_updates (new_mutation_blocking env d b)"
  "mu_is_blocking_candidate (new_mutation_blocking env d b) = b"
  by (simp_all add: new_mutation_blocking_def new_mutation_def mutation_init_def
      requests_match_updates_def)

text \<open>The state in which \<open>add_work\<close> dispatches, and its well-formedness.\<close>

lemma add_work_fills:
  assumes wf: "locks_wf q" and own: "queue_owns q h nxt" and w: "all_writes env h (waiting q)"
    and spec: "qe_specs env (rq_code rq) = Some spec" "ts_is_write_operation spec"
    and data: "rq_payload rq \<noteq> None"
  obtains q2 p m nxt' where
    "add_work env (Some rq) (q, h, nxt) =
       bind_result (dispatch_pending env (h(p := m)) spec q2) (\<lambda>(r, q'). Inr (r, q', h(p := m), nxt'))"
    "waiting q2 = (if p = nxt then waiting q @ [p] else waiting q)"
    "p = nxt \<or> p \<in> set (waiting q)" "nxt' = (if p = nxt then Suc nxt else nxt)"
    "mu_client_requests m = (if p = nxt then [] else mu_client_requests (h p)) @ [Some rq]"
    "mq_pending_mutation q2 = Some p" "requests_match_updates m" "same_locks q q2"
    "mq_current_op_count q2 = mq_current_op_count q"
    "mq_max_concurrent_op q2 = mq_max_concurrent_op q"
proof -
  obtain q1 where q1: "promote_unbatchable spec q = Inr q1" "waiting q1 = waiting q" "same_locks q q1"
      "mq_pending_mutation q1 \<in> {None, mq_pending_mutation q}"
      "mq_current_op_count q1 = mq_current_op_count q"
      "mq_max_concurrent_op q1 = mq_max_concurrent_op q"
  proof (cases "mq_pending_mutation q \<noteq> None \<and> \<not> ts_is_write_allow_batch spec")
    case True
    then obtain p where "mq_pending_mutation q = Some p" by auto
    from promote_pending_spec [OF this] True that show thesis by (auto simp: promote_unbatchable_def)
  next
    case False
    with that [of q] show thesis by (auto simp: promote_unbatchable_def same_locks_def)
  qed
  define p where "p = (case mq_pending_mutation q1 of Some p \<Rightarrow> p | None \<Rightarrow> nxt)"
  define m0 where "m0 = (case mq_pending_mutation q1 of Some p \<Rightarrow> h p
    | None \<Rightarrow> new_mutation_blocking env invalid_decree (need_make_idempotent_spec env spec))"
  have pq: "p = nxt \<longleftrightarrow> mq_pending_mutation q1 = None" "p = nxt \<or> p \<in> set (waiting q)"
    using own q1(4) by (auto simp: p_def queue_owns_def waiting_def split: option.splits)
  have "requests_match_updates m0"
    using own q1(4) by (auto simp: m0_def queue_owns_def split: option.splits)
  from add_client_request_total [OF this, of "Some rq"] data obtain m where
    m: "add_client_request (Some rq) m0 = Inr m"
      "mu_client_requests m = mu_client_requests m0 @ [Some rq]" by auto
  note m3 = add_client_request_match [OF m(1)]
  have m4: "mu_client_requests m = (if p = nxt then [] else mu_client_requests (h p)) @ [Some rq]"
    using m(2) pq(1) by (auto simp: m0_def p_def split: option.splits)
  let ?q2 = "q1\<lparr>mq_pending_mutation := Some p\<rparr>" and ?n = "if p = nxt then Suc nxt else nxt"
  show thesis
  proof (rule that [of p m ?q2 ?n])
    show "waiting ?q2 = (if p = nxt then waiting q @ [p] else waiting q)"
      using pq(1) q1(2) by (auto simp: waiting_def p_def split: option.splits)
    show "same_locks q ?q2" using q1(3) by (simp add: same_locks_def)
    show "add_work env (Some rq) (q, h, nxt) =
       bind_result (dispatch_pending env (h(p := m)) spec ?q2) (\<lambda>(r, q'). Inr (r, q', h(p := m), ?n))"
      using spec(1) q1(1) m(1) pq(1)
      by (cases "mq_pending_mutation q1") (simp_all add: add_work_def p_def m0_def)
  qed (use pq m3 m4 q1 in simp_all)
qed

text \<open>
  C20.
  \<open>add_work\<close> never fails on a write request with a payload, and no client request is lost or
  duplicated: the requests of the returned mutation and of the waiting ones are the
  requests that waited before and the new one. The queue keeps owning its mutations, the
  concurrency limit is respected, and a returned atomic write has no locked key.
\<close>

theorem add_work_conserves:
  assumes wf: "locks_wf q" and own: "queue_owns q h nxt" and w: "all_writes env h (waiting q)"
    and spec: "qe_specs env (rq_code rq) = Some spec" "ts_is_write_operation spec"
    and data: "rq_payload rq \<noteq> None"
  shows "\<exists>r q' h' nxt'. add_work env (Some rq) (q, h, nxt) = Inr (r, q', h', nxt') \<and>
    queue_owns q' h' nxt' \<and> same_locks q q' \<and>
    requests_of h' ((case r of None \<Rightarrow> [] | Some p \<Rightarrow> [p]) @ waiting q')
      = add_mset (Some rq) (requests_of h (waiting q)) \<and>
    mq_current_op_count q' = mq_current_op_count q + (if r = None then 0 else 1) \<and>
    (\<forall>p. r = Some p \<longrightarrow>
       mq_current_op_count q < mq_max_concurrent_op q \<and> \<not> held_back env h' q p)"
proof -
  from add_work_fills [OF assms] obtain q2 p m nxt' where
    eq: "add_work env (Some rq) (q, h, nxt) =
       bind_result (dispatch_pending env (h(p := m)) spec q2) (\<lambda>(r, q'). Inr (r, q', h(p := m), nxt'))"
    and q2: "waiting q2 = (if p = nxt then waiting q @ [p] else waiting q)"
    and p: "p = nxt \<or> p \<in> set (waiting q)" "nxt' = (if p = nxt then Suc nxt else nxt)"
    and m: "mu_client_requests m = (if p = nxt then [] else mu_client_requests (h p)) @ [Some rq]"
    and pend: "mq_pending_mutation q2 = Some p" "requests_match_updates m" and locks: "same_locks q q2"
    and count: "mq_current_op_count q2 = mq_current_op_count q"
      "mq_max_concurrent_op q2 = mq_max_concurrent_op q" .
  let ?h = "h(p := m)"
  have rqs: "requests_of ?h (waiting q2) = add_mset (Some rq) (requests_of h (waiting q))"
    by (rule fill_pending_requests [OF own q2 p(1) m])
  have "writes_ok env (mu_client_requests m)"
    using w p(1) m spec by (auto simp: writes_ok_def all_writes_def)
  then have "all_writes env ?h (waiting q2)" using w q2 by (auto simp: all_writes_def)
  moreover have "locks_wf q2" using wf same_locks_facts(1) [OF locks] by simp
  ultimately obtain r q' where r: "dispatch_pending env ?h spec q2 = Inr (r, q')"
    "hands_out env ?h q2 r q'"
    using dispatch_hands_out pend(1) by blast
  let ?r = "case r of None \<Rightarrow> [] | Some p \<Rightarrow> [p]"
  from r(2) have ms: "mset (?r @ waiting q') = mset (waiting q2)" by (simp add: hands_out_def)
  have "distinct (waiting q2)" "\<forall>x \<in> set (waiting q2). x < nxt'"
    using own q2 p(2) by (auto simp: queue_owns_def)
  then have "distinct (waiting q')" "\<forall>x \<in> set (waiting q'). x < nxt'"
    using mset_eq_imp_distinct_iff [OF ms] mset_eq_setD [OF ms] by auto
  with r(2) pend have "queue_owns q' ?h nxt'" by (auto simp: queue_owns_def hands_out_def)
  moreover have "requests_of ?h (?r @ waiting q') = add_mset (Some rq) (requests_of h (waiting q))"
    using requests_of_mset [OF ms] rqs by simp
  moreover have "same_locks q q'" using r(2) locks by (simp add: hands_out_def same_locks_def)
  ultimately show ?thesis
    using eq r same_locks_facts(3) [OF locks] count by (auto simp: hands_out_def)
qed

theorem add_work_conserves_witness:
  "\<exists>r q' h' nxt'. add_work sample_env (Some (sample_request ''PUT'' 2)) (sample_queue, sample_store, 4)
      = Inr (r, q', h', nxt') \<and>
    requests_of h' ((case r of None \<Rightarrow> [] | Some p \<Rightarrow> [p]) @ waiting q')
      = {#Some (sample_request ''PUT'' 2), Some (sample_request ''INCR'' 1),
          Some (sample_request ''INCR'' 2)#}"
proof -
  let ?spec = "\<lparr>ts_is_write_operation = True, ts_is_write_allow_batch = True,
    ts_is_write_idempotent = True\<rparr>" and ?rq = "sample_request ''PUT'' 2"
  have "queue_owns sample_queue sample_store 4"
    "qe_specs sample_env (rq_code ?rq) = Some ?spec" "ts_is_write_operation ?spec"
    "rq_payload ?rq \<noteq> None" "requests_of sample_store (waiting sample_queue)
      = {#Some (sample_request ''INCR'' 1), Some (sample_request ''INCR'' 2)#}"
    by (simp_all add: queue_owns_def waiting_def sample_queue_def sample_env_def
        sample_request_def sample_store_def)
  with add_work_conserves [OF sample_queue_ok(2) this(1) sample_queue_ok(3) this(2-4)]
  show ?thesis by auto
qed

text \<open>\<open>clear\<close> hands every waiting mutation over exactly once, in queue order.\<close>

lemma clear_queue_drains:
  "fst (clear_queue q) = waiting q \<and> waiting (snd (clear_queue q)) = [] \<and>
   (\<forall>env k. \<not> locked env (snd (clear_queue q)) k) \<and>
   mq_pcount q - mq_pcount (snd (clear_queue q)) = int (length (mq_queue q))"
  by (simp add: clear_queue_def waiting_def locked_def lock_decree_def)

end
