(* ===== verification/String_Utils.thy ===== *)
theory String_Utils
  imports Pegasus_Prelude "HOL-Library.List_Lexorder" "HOL-Library.Char_ord" "HOL-Library.Sublist"
begin

text \<open>
  String utilities: splitting, trimming and key-value strings of
  \<^verbatim>\<open>src/src/utils/strings.cpp\<close>, and the number and flag readers of
  \<^verbatim>\<open>src/src/utils/string_conv.h\<close>. The scanner of \<open>split\<close> is a state machine; it is
  proved equal to cutting at the separator and stripping. The C library functions
  \<open>strtoll\<close> and \<open>strtoull\<close> with base 0 are written out.
\<close>

section \<open>C strings\<close>

abbreviation NUL :: char where "NUL \<equiv> CHR 0x00"

definition c_str :: "string \<Rightarrow> string" where
  "c_str s = takeWhile (\<lambda>c. c \<noteq> NUL) s"

definition is_leading_space :: "char \<Rightarrow> bool" where
  "is_leading_space ch \<longleftrightarrow> ch \<in> {CHR '' '', CHR 0x09}"

definition is_trailing_space :: "char \<Rightarrow> bool" where
  "is_trailing_space ch \<longleftrightarrow> ch \<in> {CHR '' '', CHR 0x09, CHR 0x0D, CHR 0x0A}"

definition drop_trailing :: "(char \<Rightarrow> bool) \<Rightarrow> string \<Rightarrow> string" where
  "drop_trailing P s = rev (dropWhile P (rev s))"

text \<open>\<open>find_token_end\<close>; the token is the range from its begin to the given end.\<close>

definition find_token_end :: "string \<Rightarrow> string result" where
  "find_token_end token =
     bind_result (check (token \<noteq> []) ''CHECK'') (\<lambda>_. Inr (drop_trailing is_trailing_space token))"

section \<open>Splitting\<close>

datatype split_args_state = kSplitBeginning | kSplitLeadingSpaces | kSplitToken

text \<open>What is appended to the output when a separator or the end of the string is met.\<close>

definition split_emit :: "bool \<Rightarrow> split_args_state \<Rightarrow> string \<Rightarrow> string list result" where
  "split_emit keep_place_holder state token =
     (case state of
        kSplitToken \<Rightarrow>
          bind_result (find_token_end token) (\<lambda>t.
            Inr (if t = [] \<and> \<not> keep_place_holder then [] else [t]))
      | _ \<Rightarrow> Inr (if keep_place_holder then [[]] else []))"

text \<open>The next state and token on a character that is not the separator.\<close>

definition split_step :: "split_args_state \<Rightarrow> string \<Rightarrow> char \<Rightarrow> split_args_state \<times> string" where
  "split_step state token c =
     (case state of
        kSplitBeginning \<Rightarrow>
          if is_leading_space c then (kSplitLeadingSpaces, token) else (kSplitToken, [c])
      | kSplitLeadingSpaces \<Rightarrow>
          if is_leading_space c then (kSplitLeadingSpaces, token) else (kSplitToken, [c])
      | kSplitToken \<Rightarrow> (kSplitToken, token @ [c]))"

fun split_scan :: "char \<Rightarrow> bool \<Rightarrow> split_args_state \<Rightarrow> string \<Rightarrow> string \<Rightarrow> string list result" where
  "split_scan separator keep state token [] = split_emit keep state token"
| "split_scan separator keep state token (c # input) =
     (if c = separator
      then bind_result (split_emit keep state token) (\<lambda>out.
           bind_result (split_scan separator keep kSplitBeginning [] input) (\<lambda>rest.
             Inr (out @ rest)))
      else (case split_step state token c of
              (state', token') \<Rightarrow> split_scan separator keep state' token' input))"

definition split_args :: "string \<Rightarrow> char \<Rightarrow> bool \<Rightarrow> string list result" where
  "split_args input separator keep_place_holder =
     split_scan separator keep_place_holder kSplitBeginning [] (c_str input)"

section \<open>Key-value strings\<close>

text \<open>\<open>std::map\<close> as an association list in key order.\<close>

primrec map_put :: "'k::linorder \<Rightarrow> 'v \<Rightarrow> ('k \<times> 'v) list \<Rightarrow> ('k \<times> 'v) list" where
  "map_put k v [] = [(k, v)]"
| "map_put k v (e # m) =
     (if k < fst e then (k, v) # e # m
      else if k = fst e then (k, v) # m
      else e # map_put k v m)"

type_synonym kv_map = "(string \<times> string) list"

definition find_char :: "char \<Rightarrow> string \<Rightarrow> nat option" where
  "find_char c s = (if c \<in> set s then Some (length (takeWhile (\<lambda>x. x \<noteq> c) s)) else None)"

primrec parse_kv_items :: "char \<Rightarrow> bool \<Rightarrow> string list \<Rightarrow> kv_map \<Rightarrow> kv_map option" where
  "parse_kv_items kv_splitter allow_dup_key [] m = Some m"
| "parse_kv_items kv_splitter allow_dup_key (i # items) m =
     (if i = [] then parse_kv_items kv_splitter allow_dup_key items m
      else case find_char kv_splitter i of
             None \<Rightarrow> None
           | Some pos \<Rightarrow>
               (let key = take pos i; val = drop (pos + 1) i
                in if \<not> allow_dup_key \<and> map_of m key \<noteq> None then None
                   else parse_kv_items kv_splitter allow_dup_key items (map_put key val m)))"

definition parse_kv_map :: "string \<Rightarrow> char \<Rightarrow> char \<Rightarrow> bool \<Rightarrow> kv_map option result" where
  "parse_kv_map args item_splitter kv_splitter allow_dup_key =
     bind_result (split_args args item_splitter False) (\<lambda>splits.
       Inr (parse_kv_items kv_splitter allow_dup_key splits []))"

primrec kv_map_to_stream :: "char \<Rightarrow> char \<Rightarrow> bool \<Rightarrow> kv_map \<Rightarrow> string" where
  "kv_map_to_stream item_splitter kv_splitter sep [] = []"
| "kv_map_to_stream item_splitter kv_splitter sep (kv # m) =
     (if sep then [item_splitter] else []) @ fst kv @ [kv_splitter] @ snd kv
       @ kv_map_to_stream item_splitter kv_splitter True m"

definition kv_map_to_string :: "kv_map \<Rightarrow> char \<Rightarrow> char \<Rightarrow> string" where
  "kv_map_to_string m item_splitter kv_splitter = kv_map_to_stream item_splitter kv_splitter False m"

section \<open>Other string functions\<close>

datatype pattern_match_type =
    PMT_INVALID | PMT_MATCH_ALL | PMT_MATCH_EXACT | PMT_MATCH_ANYWHERE | PMT_MATCH_PREFIX
  | PMT_MATCH_POSTFIX | PMT_MATCH_REGEX

datatype match_outcome = Matched | ERR_NOT_MATCHED | ERR_NOT_IMPLEMENTED

definition pattern_match :: "string \<Rightarrow> string \<Rightarrow> pattern_match_type \<Rightarrow> match_outcome" where
  "pattern_match str pattern match_type =
     (let answer = (\<lambda>b. if b then Matched else ERR_NOT_MATCHED)
      in case match_type of
           PMT_MATCH_ALL \<Rightarrow> answer True
         | PMT_MATCH_EXACT \<Rightarrow> answer (str = pattern)
         | PMT_MATCH_ANYWHERE \<Rightarrow> answer (sublist pattern str)
         | PMT_MATCH_PREFIX \<Rightarrow> answer (prefix pattern str)
         | PMT_MATCH_POSTFIX \<Rightarrow> answer (suffix pattern str)
         | _ \<Rightarrow> ERR_NOT_IMPLEMENTED)"

definition get_last_component :: "string \<Rightarrow> string \<Rightarrow> string" where
  "get_last_component str splitters = rev (takeWhile (\<lambda>c. c \<notin> set splitters) (rev str))"

text \<open>
  \<open>replace_string\<close>: the text behind \<open>pos\<close> is searched from its start. The loop does not end
  for an empty search string, which is found at every position.
\<close>

fun find_sub :: "string \<Rightarrow> string \<Rightarrow> nat option" where
  "find_sub search s =
     (if prefix search s then Some 0
      else case s of [] \<Rightarrow> None | _ # s' \<Rightarrow> map_option Suc (find_sub search s'))"

declare find_sub.simps [simp del]

partial_function (option) replace_loop :: "string \<Rightarrow> string \<Rightarrow> string \<Rightarrow> string \<Rightarrow> string option" where
  "replace_loop search replace before rest =
     (case find_sub search rest of
        None \<Rightarrow> Some (before @ rest)
      | Some pos \<Rightarrow>
          replace_loop search replace (before @ take pos rest @ replace)
            (drop (pos + length search) rest))"

definition replace_string :: "string \<Rightarrow> string \<Rightarrow> string \<Rightarrow> string result" where
  "replace_string subject search replace =
     (case replace_loop search replace [] subject of None \<Rightarrow> Inl Diverges | Some r \<Rightarrow> Inr r)"

definition trim_string :: "string \<Rightarrow> string" where
  "trim_string s = drop_trailing is_trailing_space (dropWhile is_leading_space (c_str s))"

definition find_string_prefix :: "string \<Rightarrow> char \<Rightarrow> string" where
  "find_string_prefix input separator =
     (case find_char separator input of None \<Rightarrow> [] | Some pos \<Rightarrow> if pos = 0 then [] else take pos input)"

definition ascii_isspace :: "char \<Rightarrow> bool" where
  "ascii_isspace c \<longleftrightarrow> c \<in> {CHR 0x09, CHR 0x0A, CHR 0x0B, CHR 0x0C, CHR 0x0D, CHR '' ''}"

definition has_space :: "string \<Rightarrow> bool" where
  "has_space str \<longleftrightarrow> (\<exists>c \<in> set str. ascii_isspace c)"

section \<open>Numbers and flags\<close>

text \<open>The value of a digit in bases up to 36; other characters give 36.\<close>

definition digit_val :: "char \<Rightarrow> nat" where
  "digit_val c =
     (let n = of_char c
      in if 48 \<le> n \<and> n \<le> 57 then n - 48
         else if 97 \<le> n \<and> n \<le> 122 then n - 87
         else if 65 \<le> n \<and> n \<le> 90 then n - 55
         else 36)"

definition digits_value :: "nat \<Rightarrow> string \<Rightarrow> nat" where
  "digits_value base ds = foldl (\<lambda>v c. v * base + digit_val c) 0 ds"

text \<open>The base and the digits behind the prefix, for \<open>strtoll\<close> and \<open>strtoull\<close> with base 0.\<close>

definition detect_base :: "string \<Rightarrow> nat \<times> string" where
  "detect_base s =
     (if take 1 s = ''0'' \<and> (\<exists>x \<in> {CHR ''x'', CHR ''X''}. take 1 (drop 1 s) = [x]) \<and>
         (case drop 2 s of [] \<Rightarrow> False | d # _ \<Rightarrow> digit_val d < 16)
      then (16, drop 2 s)
      else if take 1 s = ''0'' then (8, s) else (10, s))"

text \<open>
  The scan of both functions: the sign, the magnitude and the text behind the number;
  \<open>None\<close> when there is no number.
\<close>

definition strto_scan :: "string \<Rightarrow> (bool \<times> nat \<times> string) option" where
  "strto_scan s =
     (let s1 = dropWhile ascii_isspace s;
          neg = (take 1 s1 = ''-'');
          s2 = (if take 1 s1 = ''-'' \<or> take 1 s1 = ''+'' then drop 1 s1 else s1);
          (base, s3) = detect_base s2;
          ds = takeWhile (\<lambda>c. digit_val c < base) s3
      in if ds = [] then None else Some (neg, digits_value base ds, drop (length ds) s3))"

text \<open>The value and the flag \<open>errno = ERANGE\<close>.\<close>

definition strtoull_value :: "bool \<Rightarrow> nat \<Rightarrow> nat \<times> bool" where
  "strtoull_value neg mag =
     (if mag \<ge> 2 ^ 64 then (2 ^ 64 - 1, True)
      else (if neg then (2 ^ 64 - mag) mod 2 ^ 64 else mag, False))"

definition strtoll_value :: "bool \<Rightarrow> nat \<Rightarrow> int \<times> bool" where
  "strtoll_value neg mag =
     (let v = (if neg then - int mag else int mag)
      in if v \<ge> 2 ^ 63 then (2 ^ 63 - 1, True)
         else if v < - (2 ^ 63) then (- (2 ^ 63), True) else (v, False))"

text \<open>The width of the result type is an argument.\<close>

definition buf2unsigned :: "nat \<Rightarrow> string \<Rightarrow> nat option" where
  "buf2unsigned w buf =
     (if buf = [] then None
      else case strto_scan (c_str buf) of
             None \<Rightarrow> None
           | Some (neg, mag, rest) \<Rightarrow>
               if length (c_str buf) - length rest \<noteq> length buf then None
               else (case strtoull_value neg mag of (v, erange) \<Rightarrow>
                       if v > 2 ^ w - 1 \<or> erange then None
                       else if v \<noteq> 0 \<and> CHR ''-'' \<in> set buf then None
                       else Some v))"

definition buf2signed :: "nat \<Rightarrow> string \<Rightarrow> int option" where
  "buf2signed w buf =
     (if buf = [] then None
      else case strto_scan (c_str buf) of
             None \<Rightarrow> None
           | Some (neg, mag, rest) \<Rightarrow>
               if length (c_str buf) - length rest \<noteq> length buf then None
               else (case strtoll_value neg mag of (v, erange) \<Rightarrow>
                       if v > 2 ^ (w - 1) - 1 \<or> v < - (2 ^ (w - 1)) \<or> erange then None
                       else Some v))"

definition buf2uint64 :: "string \<Rightarrow> nat option" where
  "buf2uint64 = buf2unsigned 64"

definition buf2uint32 :: "string \<Rightarrow> nat option" where
  "buf2uint32 = buf2unsigned 32"

definition buf2int64 :: "string \<Rightarrow> int option" where
  "buf2int64 = buf2signed 64"

definition buf2int32 :: "string \<Rightarrow> int option" where
  "buf2int32 = buf2signed 32"

definition char_lower :: "char \<Rightarrow> char" where
  "char_lower c =
     (let n = of_char c in if (65 :: nat) \<le> n \<and> n \<le> 90 then char_of (n + 32) else c)"

definition buf2bool :: "string \<Rightarrow> bool \<Rightarrow> bool option" where
  "buf2bool buf ignore_case =
     (let data = (if ignore_case then map char_lower buf else buf)
      in if data = ''true'' then Some True else if data = ''false'' then Some False else None)"

section \<open>Splitting is cutting and stripping\<close>

primrec pieces :: "char \<Rightarrow> string \<Rightarrow> string list" where
  "pieces sep [] = [[]]"
| "pieces sep (c # s) = (if c = sep then [] # pieces sep s else (c # hd (pieces sep s)) # tl (pieces sep s))"

definition strip :: "string \<Rightarrow> string" where
  "strip s = drop_trailing is_trailing_space (dropWhile is_leading_space s)"

definition keep_tokens :: "bool \<Rightarrow> string list \<Rightarrow> string list" where
  "keep_tokens keep ts = (if keep then ts else filter (\<lambda>t. t \<noteq> []) ts)"

lemma pieces_not_Nil [simp]: "pieces sep s \<noteq> []"
  by (cases s) auto

lemma keep_tokens_Cons:
  "keep_tokens keep (t # ts) = (if t = [] \<and> \<not> keep then [] else [t]) @ keep_tokens keep ts"
  by (simp add: keep_tokens_def)

lemma strip_simps [simp]:
  "strip [] = []"
  "is_leading_space c \<Longrightarrow> strip (c # s) = strip s"
  "\<not> is_leading_space c \<Longrightarrow> strip (c # s) = drop_trailing is_trailing_space (c # s)"
  by (simp_all add: strip_def drop_trailing_def)

lemma split_emit_token:
  "t \<noteq> [] \<Longrightarrow> split_emit keep kSplitToken t = Inr (keep_tokens keep [drop_trailing is_trailing_space t])"
  by (simp add: split_emit_def find_token_end_def keep_tokens_def)

lemma split_emit_space:
  "st \<noteq> kSplitToken \<Longrightarrow> split_emit keep st t = Inr (keep_tokens keep [[]])"
  by (cases st) (simp_all add: split_emit_def keep_tokens_def)

lemma split_scan_pieces:
  "(st \<noteq> kSplitToken \<longrightarrow>
      split_scan sep keep st t s = Inr (keep_tokens keep (map strip (pieces sep s)))) \<and>
   (t \<noteq> [] \<longrightarrow> split_scan sep keep kSplitToken t s
      = Inr (keep_tokens keep (drop_trailing is_trailing_space (t @ hd (pieces sep s))
               # map strip (tl (pieces sep s)))))"
proof (induction s arbitrary: st t)
  case Nil
  then show ?case by (simp add: split_emit_token split_emit_space)
next
  case (Cons c s)
  have hd_tl: "map strip (pieces sep s) = strip (hd (pieces sep s)) # map strip (tl (pieces sep s))"
    by (cases "pieces sep s") simp_all
  have sep: "keep_tokens keep [x] @ keep_tokens keep xs = keep_tokens keep (x # xs)" for x xs
    by (simp add: keep_tokens_def)
  have fresh: "split_scan sep keep kSplitBeginning [] s = Inr (keep_tokens keep (map strip (pieces sep s)))"
    using Cons.IH [of kSplitBeginning "[]"] by simp
  show ?case
  proof (cases "c = sep")
    case True
    then show ?thesis using fresh by (simp add: split_emit_token split_emit_space sep)
  next
    case False
    have "split_scan sep keep st t (c # s) = Inr (keep_tokens keep (map strip (pieces sep (c # s))))"
      if "st \<noteq> kSplitToken"
      using that False Cons.IH [of kSplitLeadingSpaces t] Cons.IH [of st "[c]"]
      by (cases st) (simp_all add: split_step_def hd_tl)
    moreover have "split_scan sep keep kSplitToken t (c # s)
        = Inr (keep_tokens keep (drop_trailing is_trailing_space (t @ hd (pieces sep (c # s)))
               # map strip (tl (pieces sep (c # s)))))"
      using False Cons.IH [of st "t @ [c]"] by (simp add: split_step_def)
    ultimately show ?thesis by blast
  qed
qed

lemma split_args_pieces:
  "split_args input sep keep = Inr (keep_tokens keep (map strip (pieces sep (c_str input))))"
  using split_scan_pieces [of kSplitBeginning sep keep "[]" "c_str input"] by (simp add: split_args_def)

text \<open>
  The splitting state machine never fails its checks and returns exactly the pieces between
  the separators, stripped of leading blanks and trailing white space; empty pieces are kept
  only when place holders are asked for.
\<close>

theorem split_args_reference:
  "split_args input sep keep = Inr (keep_tokens keep (map strip (pieces sep (c_str input))))"
  by (rule split_args_pieces)

section \<open>Key-value strings read back\<close>

lemma pieces_single: "sep \<notin> set x \<Longrightarrow> pieces sep x = [x]"
  by (induction x) auto

lemma pieces_append: "sep \<notin> set x \<Longrightarrow> pieces sep (x @ sep # r) = x # pieces sep r"
  by (induction x) auto

lemma c_str_id: "NUL \<notin> set s \<Longrightarrow> c_str s = s"
  by (auto simp: c_str_def takeWhile_eq_all_conv)

lemma find_char_append: "c \<notin> set x \<Longrightarrow> find_char c (x @ c # y) = Some (length x)"
  by (induction x) (auto simp: find_char_def split: if_splits)

lemma map_put_last: "(\<forall>e \<in> set m. fst e < k) \<Longrightarrow> map_put k v m = m @ [(k, v)]"
  by (induction m) auto

definition kv_item :: "char \<Rightarrow> string \<times> string \<Rightarrow> string" where
  "kv_item kv_splitter kv = fst kv @ kv_splitter # snd kv"

text \<open>
  Entries that survive printing: no splitter or NUL in the key, no item splitter or NUL in
  the value, no blank at the outer ends.
\<close>

definition kv_clean :: "char \<Rightarrow> char \<Rightarrow> string \<times> string \<Rightarrow> bool" where
  "kv_clean item_splitter kv_splitter kv \<longleftrightarrow>
     {item_splitter, kv_splitter, NUL} \<inter> set (fst kv) = {} \<and>
     {item_splitter, NUL} \<inter> set (snd kv) = {} \<and>
     strip (kv_item kv_splitter kv) = kv_item kv_splitter kv"

lemma pieces_stream:
  assumes "is \<noteq> ks" "\<forall>kv \<in> set m. kv_clean is ks kv" "is \<notin> set x"
  shows "pieces is (x @ kv_map_to_stream is ks True m) = x # map (kv_item ks) m"
  using assms(2,3)
proof (induction m arbitrary: x)
  case Nil
  then show ?case by (simp add: pieces_single)
next
  case (Cons kv m)
  have "is \<notin> set (kv_item ks kv)" using Cons.prems(1) assms(1) by (auto simp: kv_clean_def kv_item_def)
  with Cons have "pieces is (kv_item ks kv @ kv_map_to_stream is ks True m)
      = kv_item ks kv # map (kv_item ks) m" by simp
  with Cons.prems(2) show ?case by (simp add: kv_item_def pieces_append)
qed

lemma stream_no_nul:
  "is \<noteq> NUL \<Longrightarrow> ks \<noteq> NUL \<Longrightarrow> \<forall>kv \<in> set m. kv_clean is ks kv \<Longrightarrow> NUL \<notin> set (kv_map_to_stream is ks b m)"
  by (induction m arbitrary: b) (auto simp: kv_clean_def)

lemma parse_items_sorted:
  "\<forall>kv \<in> set m. kv_clean is ks kv \<Longrightarrow> sorted_wrt (<) (map fst (acc @ m)) \<Longrightarrow>
     parse_kv_items ks dup (map (kv_item ks) m) acc = Some (acc @ m)"
proof (induction m arbitrary: acc)
  case Nil
  then show ?case by simp
next
  case (Cons kv m)
  have lt: "\<forall>e \<in> set acc. fst e < fst kv" using Cons.prems(2) by (auto simp: sorted_wrt_append)
  then have "map_of acc (fst kv) = None" by (auto simp: map_of_eq_None_iff)
  moreover have "find_char ks (kv_item ks kv) = Some (length (fst kv))"
    using Cons.prems(1) by (auto simp: kv_clean_def kv_item_def intro: find_char_append)
  moreover have "map_put (fst kv) (snd kv) acc = acc @ [kv]" using map_put_last [OF lt] by simp
  moreover have "kv_item ks kv \<noteq> []" by (simp add: kv_item_def)
  ultimately show ?case using Cons.IH [of "acc @ [kv]"] Cons.prems by (simp add: kv_item_def Let_def)
qed

text \<open>
  A map printed as a key-value string is read back unchanged, in key order, whether or not
  duplicate keys are allowed, when its entries hold no splitters and no outer blanks.
\<close>

theorem kv_map_roundtrip:
  assumes "is \<noteq> ks" "is \<noteq> NUL" "ks \<noteq> NUL"
    and "\<forall>kv \<in> set m. kv_clean is ks kv" "sorted_wrt (<) (map fst m)"
  shows "parse_kv_map (kv_map_to_string m is ks) is ks dup = Inr (Some m)"
proof (cases m)
  case Nil
  then show ?thesis
    by (simp add: parse_kv_map_def kv_map_to_string_def split_args_pieces c_str_def keep_tokens_def)
next
  case (Cons kv m')
  let ?s = "kv_map_to_stream is ks False m"
  have "pieces is (c_str ?s) = map (kv_item ks) m"
    using pieces_stream [of "is" ks m' "kv_item ks kv"] assms(1,4) stream_no_nul [OF assms(2-4), of False] Cons
    by (auto simp: c_str_id kv_item_def kv_clean_def)
  moreover have "map strip (map (kv_item ks) m) = map (kv_item ks) m"
    using assms(4) by (auto simp: kv_clean_def)
  moreover have "keep_tokens False (map (kv_item ks) m) = map (kv_item ks) m"
    by (auto simp: keep_tokens_def kv_item_def filter_id_conv)
  ultimately have "split_args (kv_map_to_string m is ks) is False = Inr (map (kv_item ks) m)"
    by (simp only: split_args_pieces kv_map_to_string_def)
  then show ?thesis
    using parse_items_sorted [OF assms(4), of "[]" dup] assms(5) by (simp add: parse_kv_map_def)
qed

theorem kv_map_roundtrip_witness:
  "parse_kv_map (kv_map_to_string [(''a'', ''1''), (''b'', [])] (CHR '','') (CHR '':''))
     (CHR '','') (CHR '':'') False = Inr (Some [(''a'', ''1''), (''b'', [])])"
  by (rule kv_map_roundtrip)
    (simp_all add: kv_clean_def kv_item_def strip_def drop_trailing_def is_leading_space_def
      is_trailing_space_def less_char_def)

section \<open>Replacing\<close>

function replace_all :: "string \<Rightarrow> string \<Rightarrow> string \<Rightarrow> string" where
  "replace_all search replace s =
     (if search \<noteq> [] \<and> prefix search s then replace @ replace_all search replace (drop (length search) s)
      else case s of [] \<Rightarrow> [] | c # s' \<Rightarrow> c # replace_all search replace s')"
  by pat_completeness auto
termination
proof (relation "measure (\<lambda>(_, _, s). length s)", goal_cases)
  case (2 search replace s)
  then show ?case using prefix_length_le [of search s] by (cases search) auto
qed auto

declare replace_all.simps [simp del]

lemma replace_all_find:
  assumes "search \<noteq> []"
  shows "replace_all search replace s =
    (case find_sub search s of None \<Rightarrow> s
     | Some pos \<Rightarrow> take pos s @ replace @ replace_all search replace (drop (pos + length search) s))"
proof (induction s)
  case Nil
  then show ?case using assms by (simp add: replace_all.simps find_sub.simps)
next
  case (Cons c s)
  then show ?case using assms
    by (subst replace_all.simps, subst find_sub.simps) (auto split: option.splits)
qed

lemma find_sub_Some: "find_sub search s = Some pos \<Longrightarrow> pos + length search \<le> length s"
proof (induction s arbitrary: pos)
  case Nil
  then show ?case by (subst (asm) find_sub.simps) (auto split: if_splits dest: prefix_length_le)
next
  case (Cons c s)
  then show ?case by (subst (asm) find_sub.simps) (auto split: if_splits dest: prefix_length_le)
qed

lemma replace_loop_total:
  assumes "search \<noteq> []"
  shows "replace_loop search replace before s = Some (before @ replace_all search replace s)"
proof (induction s arbitrary: before rule: length_induct)
  case (1 s)
  show ?case
  proof (cases "find_sub search s")
    case None
    then show ?thesis using assms by (simp add: replace_loop.simps replace_all_find [of search])
  next
    case (Some pos)
    then have "length (drop (pos + length search) s) < length s"
      using find_sub_Some [OF Some] assms by (cases search) auto
    with 1 Some assms show ?thesis
      by (simp add: replace_loop.simps [of search replace before s] replace_all_find [of search replace s])
  qed
qed

lemma replace_loop_empty: "replace_loop search replace before s = Some r \<Longrightarrow> search \<noteq> []"
proof (erule replace_loop.raw_induct [where P = "\<lambda>search replace before s r. search \<noteq> []", rotated], goal_cases)
  case (1 f search replace before s r)
  then show ?case by (auto simp: find_sub.simps [of "[]"] split: option.splits)
qed

text \<open>
  C30.
  Replacing returns for every non-empty search string, with each leftmost occurrence
  replaced; for an empty search string the loop never ends.
\<close>

theorem replace_string_outcome:
  "replace_string subject search replace =
     (if search = [] then Inl Diverges else Inr (replace_all search replace subject))"
  using replace_loop_total [of search replace "[]" subject] replace_loop_empty [of search replace "[]" subject]
  by (auto simp: replace_string_def split: option.splits)

section \<open>Decimal numbers\<close>

fun decimal :: "nat \<Rightarrow> string" where
  "decimal n = (if n < 10 then [char_of (48 + n)] else decimal (n div 10) @ [char_of (48 + n mod 10)])"

declare decimal.simps [simp del]

definition decimal_int :: "int \<Rightarrow> string" where
  "decimal_int i = (if i < 0 then CHR ''-'' # decimal (nat (- i)) else decimal (nat i))"

definition dec_digit :: "char \<Rightarrow> bool" where
  "dec_digit c \<longleftrightarrow> digit_val c < 10"

lemma digit_val_char: "d < 10 \<Longrightarrow> digit_val (char_of (48 + d)) = d"
  by (simp add: digit_val_def Let_def)

lemma dec_digit_facts:
  assumes "dec_digit c"
  shows "c \<noteq> NUL" "c \<noteq> CHR ''-''" "c \<noteq> CHR ''+''" "\<not> ascii_isspace c" "c \<noteq> CHR ''*''" "c \<noteq> CHR '',''"
    "\<not> is_leading_space c" "\<not> is_trailing_space c" "c \<noteq> CHR ''K''" "c \<noteq> CHR ''M''"
    "c \<noteq> CHR ''x''" "c \<noteq> CHR ''X''"
  using assms
  by (auto simp: dec_digit_def digit_val_def ascii_isspace_def is_leading_space_def is_trailing_space_def)

lemma decimal_digits: "\<forall>c \<in> set (decimal n). dec_digit c"
proof (induction n rule: decimal.induct)
  case (1 n)
  then show ?case by (subst decimal.simps) (auto simp: dec_digit_def digit_val_char)
qed

lemma decimal_not_Nil [simp]: "decimal n \<noteq> []"
  by (subst decimal.simps) simp

lemma decimal_ends [simp]: "dec_digit (hd (decimal n))" "dec_digit (last (decimal n))"
  by (meson decimal_digits decimal_not_Nil hd_in_set last_in_set)+

lemma decimal_value: "digits_value 10 (decimal n) = n"
proof (induction n rule: decimal.induct)
  case (1 n)
  then show ?case
    by (subst decimal.simps) (auto simp: digits_value_def digit_val_char)
qed

lemma decimal_hd: "0 < n \<Longrightarrow> hd (decimal n) \<noteq> CHR ''0''"
proof (induction n rule: decimal.induct)
  case (1 n)
  show ?case
  proof (cases "n < 10")
    case True
    then have "digit_val (hd (decimal n)) = n" by (simp add: decimal.simps digit_val_char)
    with "1.prems" show ?thesis by (auto simp: digit_val_def)
  next
    case False
    with 1 show ?thesis by (subst decimal.simps) (simp add: hd_append)
  qed
qed

lemma decimal_0: "decimal 0 = ''0''"
  by (simp add: decimal.simps char_of_eq_iff)

lemma detect_base_decimal: "detect_base (decimal n) = (if n = 0 then 8 else 10, decimal n)"
proof (cases "n = 0")
  case True
  then show ?thesis by (simp add: detect_base_def decimal_0)
next
  case False
  then have "take 1 (decimal n) \<noteq> ''0''" using decimal_hd [of n] by (cases "decimal n") auto
  with False show ?thesis by (simp add: detect_base_def)
qed

lemma scan_decimal:
  obtains base where "detect_base (decimal n) = (base, decimal n)"
    "takeWhile (\<lambda>c. digit_val c < base) (decimal n) = decimal n" "digits_value base (decimal n) = n"
proof (cases "n = 0")
  case True
  moreover have "digit_val (CHR ''0'') = 0" by (simp add: digit_val_def)
  ultimately show thesis
    using that [of 8] detect_base_decimal [of 0] by (simp add: decimal_0 digits_value_def)
next
  case False
  then show thesis
    using that [of 10] decimal_digits [of n] detect_base_decimal [of n] decimal_value [of n]
    by (simp add: takeWhile_eq_all_conv dec_digit_def)
qed

lemma decimal_Cons: obtains c cs where "decimal n = c # cs" "dec_digit c"
  using decimal_digits [of n] decimal_not_Nil [of n] by (cases "decimal n") auto

lemma strto_scan_decimal: "strto_scan (decimal n) = Some (False, n, [])"
proof -
  obtain c cs where c: "decimal n = c # cs" "dec_digit c" by (rule decimal_Cons)
  have "dropWhile ascii_isspace (decimal n) = decimal n" "take 1 (decimal n) \<noteq> ''-''"
    "take 1 (decimal n) \<noteq> ''+''"
    using c dec_digit_facts [of c] by auto
  moreover obtain base where "detect_base (decimal n) = (base, decimal n)"
    "takeWhile (\<lambda>c. digit_val c < base) (decimal n) = decimal n" "digits_value base (decimal n) = n"
    by (rule scan_decimal)
  ultimately show ?thesis by (simp add: strto_scan_def Let_def del: takeWhile_eq_all_conv)
qed

lemma strto_scan_negative: "strto_scan (CHR ''-'' # decimal n) = Some (True, n, [])"
proof -
  obtain base where "detect_base (decimal n) = (base, decimal n)"
    "takeWhile (\<lambda>c. digit_val c < base) (decimal n) = decimal n" "digits_value base (decimal n) = n"
    by (rule scan_decimal)
  then show ?thesis by (simp add: strto_scan_def ascii_isspace_def Let_def del: takeWhile_eq_all_conv)
qed

lemma decimal_c_str [simp]: "c_str (decimal n) = decimal n" "c_str (CHR ''-'' # decimal n) = CHR ''-'' # decimal n"
proof -
  have "NUL \<notin> set (decimal n)" using decimal_digits [of n] dec_digit_facts(1) by blast
  then show "c_str (decimal n) = decimal n" "c_str (CHR ''-'' # decimal n) = CHR ''-'' # decimal n"
    by (simp_all add: c_str_id)
qed

lemma buf2unsigned_decimal:
  assumes "w \<le> 64"
  shows "buf2unsigned w (decimal n) = (if n < 2 ^ w then Some n else None)"
proof -
  have "(2 :: nat) ^ w \<le> 2 ^ 64" using assms by (intro power_increasing) auto
  moreover have "CHR ''-'' \<notin> set (decimal n)" using decimal_digits [of n] dec_digit_facts(2) by blast
  moreover have "0 < (2 :: nat) ^ w" by simp
  then have "n > 2 ^ w - 1 \<longleftrightarrow> \<not> n < 2 ^ w" by linarith
  ultimately show ?thesis
    by (auto simp: buf2unsigned_def strto_scan_decimal strtoull_value_def not_le)
qed

lemma buf2signed_decimal:
  assumes "0 < w" "w \<le> 64"
  shows "buf2signed w (decimal_int i) = (if - (2 ^ (w - 1)) \<le> i \<and> i < 2 ^ (w - 1) then Some i else None)"
proof -
  have "w - 1 \<le> 63" using assms by linarith
  then have "(2 :: int) ^ (w - 1) \<le> 2 ^ 63" by (intro power_increasing) auto
  then show ?thesis
    by (auto simp: buf2signed_def decimal_int_def strto_scan_decimal strto_scan_negative strtoll_value_def Let_def)
qed

text \<open>
  C31.
  The number readers accept a decimal number exactly when it is in the range of the result
  type, and then return its value: out of range numbers, and every negative number but zero
  in the unsigned readers, are refused.
\<close>

theorem buf2number_bounds:
  assumes "0 < w" "w \<le> 64"
  shows "buf2unsigned w (decimal n) = (if n < 2 ^ w then Some n else None) \<and>
    buf2signed w (decimal_int i) = (if - (2 ^ (w - 1)) \<le> i \<and> i < 2 ^ (w - 1) then Some i else None) \<and>
    (0 < n \<longrightarrow> buf2unsigned w (CHR ''-'' # decimal n) = None)"
proof -
  have "buf2unsigned w (CHR ''-'' # decimal n) = None" if "0 < n"
    using that by (auto simp: buf2unsigned_def strto_scan_negative strtoull_value_def)
  then show ?thesis using buf2unsigned_decimal [of w n] buf2signed_decimal [OF assms, of i] assms by simp
qed

theorem buf2number_bounds_witness:
  "buf2unsigned 32 (decimal 4294967295) = Some 4294967295 \<and> buf2unsigned 32 (decimal 4294967296) = None \<and>
   buf2signed 32 (decimal_int (- 2147483648)) = Some (- 2147483648) \<and>
   buf2unsigned 32 (CHR ''-'' # decimal 4294967295) = None"
  using buf2number_bounds [of 32 4294967295 "- 2147483648"] buf2number_bounds [of 32 4294967296 0] by simp

end
