(* ===== verification/Throttling.thy ===== *)
theory Throttling
  imports String_Utils
begin

text \<open>
  The request throttle of \<^verbatim>\<open>src/src/utils/throttling_controller.cpp\<close> and its use by a
  replica (\<^verbatim>\<open>src/src/replica/replica_throttle.cpp\<close>). The limits come from a table
  environment such as \<open>20000*delay*100,30000*reject*200\<close>; the controller counts units per
  second. The texts of hint messages are left out: no decision depends on them.
\<close>

section \<open>State\<close>

record throttling_controller =
  tc_enabled :: bool
  tc_env_value :: string
  tc_partition_count :: int
  tc_delay_units :: int
  tc_delay_ms :: int
  tc_reject_units :: int
  tc_reject_delay_ms :: int
  tc_last_request_time :: int
  tc_cur_units :: int

datatype throttling_type = PASS | DELAY | REJECT

definition throttling_controller_init :: throttling_controller where
  "throttling_controller_init =
     \<lparr>tc_enabled = False, tc_env_value = [], tc_partition_count = 0, tc_delay_units = 0,
      tc_delay_ms = 0, tc_reject_units = 0, tc_reject_delay_ms = 0, tc_last_request_time = 0,
      tc_cur_units = 0\<rparr>"

section \<open>Reading the environment\<close>

text \<open>Unsigned 64-bit values are \<open>nat\<close>; storing one in an \<open>int64_t\<close> may change its sign.\<close>

definition to_int64 :: "nat \<Rightarrow> int" where
  "to_int64 n = (int n + 2 ^ 63) mod 2 ^ 64 - 2 ^ 63"

definition parse_unit :: "string \<Rightarrow> nat option" where
  "parse_unit arg =
     (let unit_multiplier =
            (if arg = [] then 1
             else if last arg = CHR ''M'' then 2 ^ 20
             else if last arg = CHR ''K'' then 2 ^ 10 else 1);
          arg' = (if unit_multiplier \<noteq> 1 then butlast arg else arg)
      in case buf2uint64 arg' of
           None \<Rightarrow> None
         | Some tmp \<Rightarrow> if tmp * unit_multiplier \<ge> 2 ^ 64 then None else Some (tmp * unit_multiplier))"

datatype parse_result = kSuccess nat nat | kFail | kIgnore

definition parse_arg :: "string \<Rightarrow> string \<Rightarrow> parse_result result" where
  "parse_arg arg type =
     bind_result (split_args arg (CHR ''*'') True) (\<lambda>sub_args.
       Inr (case sub_args of
              [a0, a1, a2] \<Rightarrow>
                (case parse_unit a0 of
                   None \<Rightarrow> kFail
                 | Some u \<Rightarrow>
                     if a1 \<noteq> type then kIgnore
                     else (case buf2uint64 a2 of None \<Rightarrow> kFail | Some ms \<Rightarrow> kSuccess u ms))
            | _ \<Rightarrow> kFail))"

text \<open>The loop over the arguments; the settings found so far are optional pairs.\<close>

primrec parse_args :: "string list \<Rightarrow> (nat \<times> nat) option \<times> (nat \<times> nat) option
    \<Rightarrow> ((nat \<times> nat) option \<times> (nat \<times> nat) option) option result" where
  "parse_args [] acc = Inr (Some acc)"
| "parse_args (sarg # sargs) acc =
     bind_result (parse_arg sarg ''delay'') (\<lambda>r.
       case r of
         kFail \<Rightarrow> Inr None
       | kSuccess units ms \<Rightarrow>
           if fst acc \<noteq> None then Inr None else parse_args sargs (Some (units, ms), snd acc)
       | kIgnore \<Rightarrow>
           bind_result (parse_arg sarg ''reject'') (\<lambda>r.
             case r of
               kSuccess units ms \<Rightarrow>
                 if snd acc \<noteq> None then Inr None else parse_args sargs (fst acc, Some (units, ms))
             | _ \<Rightarrow> Inr None))"

definition parse_env_value :: "string
    \<Rightarrow> ((nat \<times> nat) option \<times> (nat \<times> nat) option) option result" where
  "parse_env_value env_value =
     bind_result (split_args env_value (CHR '','') False) (\<lambda>sargs.
       if sargs = [] then Inr None else parse_args sargs (None, None))"

text \<open>
  \<open>units / partition_count + 1\<close> in \<open>uint64_t\<close>, where the \<open>int\<close> partition count is converted,
  then stored in an \<open>int64_t\<close>.
\<close>

definition units_per_partition :: "nat \<Rightarrow> int \<Rightarrow> int result" where
  "units_per_partition units partition_count =
     (if units = 0 then Inr 0
      else if partition_count mod 2 ^ 64 = 0 then Inl Division_by_zero
      else Inr (to_int64 ((units div nat (partition_count mod 2 ^ 64) + 1) mod 2 ^ 64)))"

text \<open>The result: whether parsing succeeded, \<open>changed\<close>, \<open>old_env_value\<close> if it was set, the controller.\<close>

definition parse_from_env :: "throttling_controller \<Rightarrow> string \<Rightarrow> int
    \<Rightarrow> (bool \<times> bool \<times> string option \<times> throttling_controller) result" where
  "parse_from_env c env_value partition_count =
     (if tc_enabled c \<and> env_value = tc_env_value c \<and> partition_count = tc_partition_count c
      then Inr (True, False, None, c)
      else bind_result (parse_env_value env_value) (\<lambda>r.
        case r of
          None \<Rightarrow> Inr (False, False, None, c)
        | Some (delay, reject) \<Rightarrow>
            (let (delay_units, delay_ms) = (case delay of None \<Rightarrow> (0, 0) | Some p \<Rightarrow> p);
                 (reject_units, reject_delay_ms) = (case reject of None \<Rightarrow> (0, 0) | Some p \<Rightarrow> p)
             in bind_result (units_per_partition delay_units partition_count) (\<lambda>du.
                bind_result (units_per_partition reject_units partition_count) (\<lambda>ru.
                  Inr (True, True, Some (tc_env_value c),
                       c\<lparr>tc_enabled := True, tc_env_value := env_value,
                         tc_partition_count := partition_count, tc_delay_units := du,
                         tc_delay_ms := to_int64 delay_ms, tc_reject_units := ru,
                         tc_reject_delay_ms := to_int64 reject_delay_ms\<rparr>))))))"

definition reset_controller :: "throttling_controller
    \<Rightarrow> bool \<times> string option \<times> throttling_controller" where
  "reset_controller c =
     (if tc_enabled c
      then (True, Some (tc_env_value c), throttling_controller_init)
      else (False, None, c))"

section \<open>Counting\<close>

definition control :: "throttling_controller \<Rightarrow> int \<Rightarrow> int \<Rightarrow> int \<Rightarrow> int
    \<Rightarrow> (throttling_type \<times> int \<times> throttling_controller) result" where
  "control c now_s client_timeout_ms request_units delay_ms =
     (if \<not> tc_enabled c then Inr (PASS, delay_ms, c)
      else
        let c1 = (if now_s \<noteq> tc_last_request_time c
                  then c\<lparr>tc_cur_units := 0, tc_last_request_time := now_s\<rparr> else c);
            cur = tc_cur_units c1 + request_units;
            c2 = c1\<lparr>tc_cur_units := cur\<rparr>;
            wait = (\<lambda>ms. if client_timeout_ms > 0 then min ms (client_timeout_ms div 2) else ms)
        in if cur < - (2 ^ 63) \<or> cur \<ge> 2 ^ 63 then Inl Signed_overflow
           else if tc_reject_units c2 > 0 \<and> tc_cur_units c2 > tc_reject_units c2
           then Inr (REJECT, wait (tc_reject_delay_ms c2),
                     c2\<lparr>tc_cur_units := tc_cur_units c2 - request_units\<rparr>)
           else if tc_delay_units c2 > 0 \<and> tc_cur_units c2 > tc_delay_units c2
           then Inr (DELAY, wait (tc_delay_ms c2), c2)
           else Inr (PASS, delay_ms, c2))"

section \<open>Use by a replica\<close>

text \<open>
  What \<open>THROTTLE_REQUEST\<close> does with a request: run it again after a delay without
  throttling, or reply \<open>ERR_BUSY\<close> after a delay or at once.
\<close>

datatype throttle_action = Delay_request int | Busy_after int | Busy_now

definition throttle_request :: "throttling_controller \<Rightarrow> int \<Rightarrow> int \<Rightarrow> int
    \<Rightarrow> (throttle_action option \<times> throttling_controller) result" where
  "throttle_request c now_s timeout_ms request_units =
     bind_result (control c now_s timeout_ms (to_int32 request_units) 0) (\<lambda>(type, delay_ms, c').
       Inr (case type of
              PASS \<Rightarrow> None
            | DELAY \<Rightarrow> Some (Delay_request delay_ms)
            | REJECT \<Rightarrow> Some (if delay_ms > 0 then Busy_after delay_ms else Busy_now),
            c'))"

text \<open>A write is charged one unit by the first controller and its size by the second.\<close>

definition throttle_write_request :: "throttling_controller \<Rightarrow> throttling_controller
    \<Rightarrow> int \<Rightarrow> int \<Rightarrow> int
    \<Rightarrow> (throttle_action option \<times> throttling_controller \<times> throttling_controller) result" where
  "throttle_write_request qps size_c now_s timeout_ms body_size =
     bind_result (throttle_request qps now_s timeout_ms 1) (\<lambda>(a, qps').
       case a of
         Some action \<Rightarrow> Inr (Some action, qps', size_c)
       | None \<Rightarrow>
           bind_result (throttle_request size_c now_s timeout_ms body_size) (\<lambda>(a', size_c').
             Inr (a', qps', size_c')))"

definition throttle_read_request :: "throttling_controller \<Rightarrow> int \<Rightarrow> int
    \<Rightarrow> (throttle_action option \<times> throttling_controller) result" where
  "throttle_read_request qps now_s timeout_ms = throttle_request qps now_s timeout_ms 1"

text \<open>A rejected backup request is dropped without a reply.\<close>

datatype backup_action = Backup_delay int | Backup_drop

definition throttle_backup_request :: "throttling_controller \<Rightarrow> int \<Rightarrow> int
    \<Rightarrow> (backup_action option \<times> throttling_controller) result" where
  "throttle_backup_request qps now_s timeout_ms =
     bind_result (control qps now_s timeout_ms 1 0) (\<lambda>(type, delay_ms, c').
       Inr (case type of PASS \<Rightarrow> None | DELAY \<Rightarrow> Some (Backup_delay delay_ms) | REJECT \<Rightarrow> Some Backup_drop, c'))"

definition update_throttle_env_internal :: "(string \<Rightarrow> string option) \<Rightarrow> string \<Rightarrow> int
    \<Rightarrow> throttling_controller \<Rightarrow> throttling_controller result" where
  "update_throttle_env_internal envs key partition_count c =
     (case envs key of
        Some v \<Rightarrow>
          bind_result (parse_from_env c v partition_count) (\<lambda>(parsed, _, _, c').
            Inr (if parsed then c' else snd (snd (reset_controller c'))))
      | None \<Rightarrow> Inr (snd (snd (reset_controller c))))"

section \<open>The units accepted in a second\<close>

primrec run_control :: "throttling_controller \<Rightarrow> (int \<times> int \<times> int) list
    \<Rightarrow> ((int \<times> int \<times> throttling_type) list \<times> throttling_controller) result" where
  "run_control c [] = Inr ([], c)"
| "run_control c (r # rs) =
     (case r of (now_s, timeout, units) \<Rightarrow>
        bind_result (control c now_s timeout units 0) (\<lambda>(type, _, c').
        bind_result (run_control c' rs) (\<lambda>(out, c''). Inr ((now_s, units, type) # out, c''))))"

definition accepted_units :: "int \<Rightarrow> (int \<times> int \<times> throttling_type) list \<Rightarrow> int" where
  "accepted_units t out =
     sum_list (map (\<lambda>(s, units, type). if s = t \<and> type \<noteq> REJECT then units else 0) out)"

definition refresh :: "int \<Rightarrow> throttling_controller \<Rightarrow> throttling_controller" where
  "refresh s c = (if s \<noteq> tc_last_request_time c
     then c\<lparr>tc_cur_units := 0, tc_last_request_time := s\<rparr> else c)"

lemma control_counts:
  assumes "tc_enabled c" "0 < tc_reject_units c" "tc_reject_units c < 2 ^ 62" "0 \<le> u" "u < 2 ^ 31"
    and "0 \<le> tc_cur_units c" "tc_cur_units c \<le> tc_reject_units c"
  obtains type d c2 where "control c s timeout u 0 = Inr (type, d, c2)" "tc_enabled c2"
    "tc_reject_units c2 = tc_reject_units c" "tc_last_request_time c2 = s"
    "tc_cur_units c2 = tc_cur_units (refresh s c) + (if type = REJECT then 0 else u)"
    "tc_cur_units c2 \<le> tc_reject_units c"
proof -
  define c1 where "c1 = refresh s c"
  have c1: "tc_enabled c1" "tc_reject_units c1 = tc_reject_units c" "0 \<le> tc_cur_units c1"
    "tc_cur_units c1 \<le> tc_reject_units c" "tc_last_request_time c1 = s"
    using assms by (auto simp: c1_def refresh_def)
  let ?rej = "tc_reject_units c < tc_cur_units c1 + u"
  let ?del = "0 < tc_delay_units c1 \<and> tc_delay_units c1 < tc_cur_units c1 + u"
  have "\<exists>type d c2. control c s timeout u 0 = Inr (type, d, c2) \<and> tc_enabled c2 \<and>
    tc_reject_units c2 = tc_reject_units c \<and> tc_last_request_time c2 = s \<and>
    tc_cur_units c2 = tc_cur_units c1 + (if type = REJECT then 0 else u) \<and>
    tc_cur_units c2 \<le> tc_reject_units c"
    using assms c1 unfolding control_def refresh_def [symmetric] c1_def [symmetric] Let_def
    by (cases ?rej; cases ?del) simp_all
  then show thesis using that unfolding c1_def by blast
qed

lemma run_control_window:
  assumes "tc_enabled c" "0 < tc_reject_units c" "tc_reject_units c < 2 ^ 62"
    and "0 \<le> tc_cur_units c" "tc_cur_units c \<le> tc_reject_units c"
    and "\<forall>(s, _, u) \<in> set rs. tc_last_request_time c \<le> s \<and> 0 \<le> u \<and> u < 2 ^ 31"
    and "sorted (map fst rs)"
  shows "\<exists>out c'. run_control c rs = Inr (out, c') \<and> fst ` set out \<subseteq> fst ` set rs \<and>
    (\<forall>t. (if t = tc_last_request_time c then tc_cur_units c else 0) + accepted_units t out
       \<le> tc_reject_units c)"
  using assms
proof (induction rs arbitrary: c)
  case Nil
  then show ?case by (auto simp: accepted_units_def)
next
  case (Cons r rs)
  obtain s timeout u where r: "r = (s, timeout, u)" by (cases r)
  have u: "0 \<le> u" "u < 2 ^ 31" "tc_last_request_time c \<le> s" using Cons.prems(6) by (auto simp: r)
  obtain type d c2 where ctl: "control c s timeout u 0 = Inr (type, d, c2)"
    and c2: "tc_enabled c2" "tc_reject_units c2 = tc_reject_units c" "tc_last_request_time c2 = s"
      "tc_cur_units c2 = tc_cur_units (refresh s c) + (if type = REJECT then 0 else u)"
      "tc_cur_units c2 \<le> tc_reject_units c"
    using control_counts [OF Cons.prems(1-3) u(1,2) Cons.prems(4,5)] by metis
  have tail: "\<forall>(s', _, u) \<in> set rs. tc_last_request_time c2 \<le> s' \<and> 0 \<le> u \<and> u < 2 ^ 31"
    "sorted (map fst rs)"
    using Cons.prems(6,7) c2(3) by (auto simp: r)
  have pos: "0 \<le> tc_cur_units c2" using Cons.prems(4) u(1) c2(4) by (simp add: refresh_def split: if_splits)
  obtain out c' where run: "run_control c2 rs = Inr (out, c')" "fst ` set out \<subseteq> fst ` set rs"
    and bound: "(if t = s then tc_cur_units c2 else 0) + accepted_units t out \<le> tc_reject_units c" for t
    using Cons.IH [of c2] c2 pos tail Cons.prems(2,3) by auto
  have head: "accepted_units t ((s, u, type) # out)
      = (if s = t \<and> type \<noteq> REJECT then u else 0) + accepted_units t out" for t
    by (simp add: accepted_units_def)
  have old: "accepted_units t out = 0" if "t < s" for t
  proof -
    have "x \<in> set out \<Longrightarrow> fst x \<noteq> t" for x
      using run(2) tail(1) c2(3) that by (fastforce simp: image_subset_iff)
    then have "map (\<lambda>(s, units, type). if s = t \<and> type \<noteq> REJECT then units else 0) out = map (\<lambda>_. 0) out"
      by fastforce
    then show ?thesis unfolding accepted_units_def by (simp only: sum_list_0)
  qed
  have "(if t = tc_last_request_time c then tc_cur_units c else 0) + accepted_units t ((s, u, type) # out)
      \<le> tc_reject_units c" for t
  proof (cases "t = s")
    case True
    then show ?thesis using bound [of s] c2(4) head [of s] by (auto simp: refresh_def split: if_splits)
  next
    case False
    then show ?thesis using bound [of t] head [of t] old [of t] u(3) Cons.prems(2,5) by auto
  qed
  then show ?case using ctl run by (auto simp: r)
qed

text \<open>
  C29.
  With a reject limit, requests whose times do not go back never make the controller
  overflow, and in every second the units of the requests that are not rejected sum up to at
  most the limit.
\<close>

theorem throttle_window:
  assumes "tc_enabled c" "0 < tc_reject_units c" "tc_reject_units c < 2 ^ 62"
    and "0 \<le> tc_cur_units c" "tc_cur_units c \<le> tc_reject_units c"
    and "\<forall>(s, _, u) \<in> set rs. tc_last_request_time c \<le> s \<and> 0 \<le> u \<and> u < 2 ^ 31"
    and "sorted (map fst rs)"
  shows "\<exists>out c'. run_control c rs = Inr (out, c') \<and> (\<forall>t. accepted_units t out \<le> tc_reject_units c)"
proof -
  obtain out c' where run: "run_control c rs = Inr (out, c')"
    and b: "\<forall>t. (if t = tc_last_request_time c then tc_cur_units c else 0) + accepted_units t out
       \<le> tc_reject_units c"
    using run_control_window [OF assms] by blast
  have "accepted_units t out \<le> tc_reject_units c" for t
    using b [rule_format, of t] assms(4) by (simp split: if_splits)
  with run show ?thesis by blast
qed

theorem throttle_window_witness:
  "\<exists>out c'. run_control (throttling_controller_init\<lparr>tc_enabled := True, tc_reject_units := 2\<rparr>)
     [(7, 1000, 1), (7, 1000, 1), (7, 1000, 1), (8, 1000, 1)] = Inr (out, c') \<and>
     (\<forall>t. accepted_units t out \<le> 2)"
  using throttle_window [of "throttling_controller_init\<lparr>tc_enabled := True, tc_reject_units := 2\<rparr>"
      "[(7, 1000, 1), (7, 1000, 1), (7, 1000, 1), (8, 1000, 1)]"]
  by (simp add: throttling_controller_init_def)

section \<open>Reading the environment\<close>

lemma strip_id:
  assumes "s \<noteq> []" "\<not> is_leading_space (hd s)" "\<not> is_trailing_space (last s)"
  shows "strip s = s"
proof -
  have "dropWhile is_leading_space s = s" using assms(1,2) by (cases s) auto
  moreover have "dropWhile is_trailing_space (rev s) = rev s"
    using assms(1,3) by (cases s rule: rev_cases) auto
  ultimately show ?thesis by (simp add: strip_def drop_trailing_def)
qed

lemma strip_decimal: "strip (decimal n) = decimal n"
proof (rule strip_id)
  have "dec_digit (hd (decimal n))" "dec_digit (last (decimal n))" by simp_all
  then show "\<not> is_leading_space (hd (decimal n))" "\<not> is_trailing_space (last (decimal n))"
    using dec_digit_facts(7,8) by auto
qed simp

definition throttle_arg :: "nat \<Rightarrow> string \<Rightarrow> nat \<Rightarrow> string" where
  "throttle_arg units type ms = decimal units @ CHR ''*'' # type @ CHR ''*'' # decimal ms"

lemma strip_throttle_arg: "strip (throttle_arg u type ms) = throttle_arg u type ms"
proof (rule strip_id)
  have "dec_digit (hd (decimal u))" "dec_digit (last (decimal ms))" by simp_all
  then show "\<not> is_leading_space (hd (throttle_arg u type ms))"
    "\<not> is_trailing_space (last (throttle_arg u type ms))"
    using dec_digit_facts(7,8) by (auto simp: throttle_arg_def hd_append)
qed (simp add: throttle_arg_def)

lemma decimal_chars: "c \<in> {NUL, CHR ''*'', CHR '',''} \<Longrightarrow> c \<notin> set (decimal n)"
proof -
  assume "c \<in> {NUL, CHR ''*'', CHR '',''}"
  then have "\<not> dec_digit c" by (auto simp: dec_digit_def digit_val_def)
  then show ?thesis using decimal_digits [of n] by blast
qed

lemma parse_unit_decimal: "u < 2 ^ 64 \<Longrightarrow> parse_unit (decimal u) = Some u"
proof -
  assume "u < 2 ^ 64"
  then have "buf2uint64 (decimal u) = Some u" by (simp add: buf2uint64_def buf2unsigned_decimal)
  moreover have "last (decimal u) \<noteq> CHR ''M''" "last (decimal u) \<noteq> CHR ''K''"
    using dec_digit_facts(9,10) [of "last (decimal u)"] by simp_all
  ultimately show ?thesis using \<open>u < 2 ^ 64\<close> by (simp add: parse_unit_def Let_def)
qed

lemma parse_arg_throttle:
  assumes "type = ''delay'' \<or> type = ''reject''" "u < 2 ^ 64" "ms < 2 ^ 64"
  shows "parse_arg (throttle_arg u type ms) t = Inr (if t = type then kSuccess u ms else kIgnore)"
proof -
  have "NUL \<notin> set (throttle_arg u type ms)"
    using assms(1) decimal_chars [of NUL] by (auto simp: throttle_arg_def)
  moreover have "pieces (CHR ''*'') (throttle_arg u type ms) = [decimal u, type, decimal ms]"
    using assms(1) decimal_chars [of "CHR ''*''"]
    by (auto simp: throttle_arg_def pieces_append pieces_single)
  moreover have "strip type = type"
    using assms(1) by (auto intro!: strip_id simp: is_leading_space_def is_trailing_space_def)
  ultimately have "split_args (throttle_arg u type ms) (CHR ''*'') True = Inr [decimal u, type, decimal ms]"
    by (simp add: split_args_pieces c_str_id keep_tokens_def strip_decimal)
  then show ?thesis
    using assms(2,3) by (auto simp: parse_arg_def parse_unit_decimal buf2uint64_def buf2unsigned_decimal)
qed

lemma parse_env_value_throttle:
  assumes "u < 2 ^ 64" "ms < 2 ^ 64" "ru < 2 ^ 64" "rms < 2 ^ 64"
  shows "parse_env_value (throttle_arg u ''delay'' ms @ CHR '','' # throttle_arg ru ''reject'' rms)
    = Inr (Some (Some (u, ms), Some (ru, rms)))"
proof -
  let ?a = "throttle_arg u ''delay'' ms" and ?b = "throttle_arg ru ''reject'' rms"
  have "NUL \<notin> set (?a @ CHR '','' # ?b)"
    using decimal_chars [of NUL] by (auto simp: throttle_arg_def)
  moreover have comma: "CHR '','' \<notin> set ?a" "CHR '','' \<notin> set ?b"
    using decimal_chars [of "CHR '',''"] by (auto simp: throttle_arg_def)
  then have "pieces (CHR '','') (?a @ CHR '','' # ?b) = [?a, ?b]"
    using comma by (simp add: pieces_append pieces_single)
  moreover have "?a \<noteq> []" "?b \<noteq> []" by (simp_all add: throttle_arg_def)
  ultimately have "split_args (?a @ CHR '','' # ?b) (CHR '','') False = Inr [?a, ?b]"
    by (simp add: split_args_pieces c_str_id keep_tokens_def strip_throttle_arg)
  then show ?thesis using assms by (simp add: parse_env_value_def parse_arg_throttle)
qed

lemma units_per_partition_exact:
  assumes "u < 2 ^ 62" "0 < pc" "pc < 2 ^ 31"
  shows "units_per_partition u pc = Inr (if u = 0 then 0 else int u div pc + 1)"
proof -
  have "u div nat pc \<le> u" by simp
  then have "u div nat pc + 1 < 2 ^ 63" using assms(1) by (intro le_less_trans [of "u div nat pc + 1" "u + 1"]) simp_all
  moreover have "int (u div nat pc) = int u div pc" using assms(2) by (simp add: zdiv_int)
  ultimately show ?thesis using assms(2,3)
    by (simp add: units_per_partition_def to_int64_def nat_mod_distrib)
qed

text \<open>
  An environment with a delay and a reject limit is read into the controller: a limit is
  divided by the partition count and rounded up, so the limits of all partitions together
  exceed the limit of the table; a limit of zero stays zero and so never triggers.
\<close>

theorem throttle_env_read:
  assumes "u < 2 ^ 62" "ru < 2 ^ 62" "ms < 2 ^ 63" "rms < 2 ^ 63" "0 < pc" "pc < 2 ^ 31" "\<not> tc_enabled c"
  shows "\<exists>c'. parse_from_env c (throttle_arg u ''delay'' ms @ CHR '','' # throttle_arg ru ''reject'' rms) pc
      = Inr (True, True, Some (tc_env_value c), c') \<and>
    tc_enabled c' \<and> tc_delay_ms c' = int ms \<and> tc_reject_delay_ms c' = int rms \<and>
    (if u = 0 then tc_delay_units c' = 0 else int u < pc * tc_delay_units c') \<and>
    (if ru = 0 then tc_reject_units c' = 0 else int ru < pc * tc_reject_units c')"
proof -
  have "int n < pc * (int n div pc + 1)" for n
  proof -
    have "int n = pc * (int n div pc) + int n mod pc" by simp
    also have "\<dots> < pc * (int n div pc) + pc"
      using pos_mod_bound [OF assms(5), of "int n"] by (rule add_strict_left_mono)
    finally show ?thesis by (simp add: distrib_left)
  qed
  moreover have "to_int64 ms = int ms" "to_int64 rms = int rms" using assms(3,4) by (simp_all add: to_int64_def)
  ultimately show ?thesis
    using assms units_per_partition_exact [of u pc] units_per_partition_exact [of ru pc]
    by (simp add: parse_from_env_def parse_env_value_throttle Let_def)
qed

theorem throttle_env_read_witness:
  "\<exists>c'. parse_from_env throttling_controller_init
      (throttle_arg 20000 ''delay'' 100 @ CHR '','' # throttle_arg 0 ''reject'' 200) 8
      = Inr (True, True, Some (tc_env_value throttling_controller_init), c') \<and>
    tc_enabled c' \<and> tc_delay_ms c' = 100 \<and> 20000 < 8 * tc_delay_units c' \<and> tc_reject_units c' = 0"
  using throttle_env_read [of 20000 0 100 200 8 throttling_controller_init]
  by (auto simp: throttling_controller_init_def)

end
