(* ===== verification/Replica_State.thy ===== *)
theory Replica_State
  imports Prepare_List Mutation_Queue Throttling
begin

text \<open>
  The state of a replica (\<^verbatim>\<open>src/src/replica/replica.h\<close>) and of its role contexts
  (\<^verbatim>\<open>src/src/replica/replica_context.cpp\<close>): what a replica keeps as a primary, as a
  secondary, as a learner (potential secondary) and as the child of a partition split.
  The handlers of the following theories run on a state that pairs the prepare list, the
  store of mutations and this record; messages, replies, log writes and calls into parts
  that are not modelled are appended to a trace of effects. Fields that only feed metrics and
  logs are left out, and so is the count of concurrent learners that the stub keeps.
\<close>

section \<open>Configurations\<close>

type_synonym node = nat

datatype config_type =
    CT_INVALID | CT_ASSIGN_PRIMARY | CT_UPGRADE_TO_PRIMARY | CT_ADD_SECONDARY
  | CT_UPGRADE_TO_SECONDARY | CT_DOWNGRADE_TO_SECONDARY | CT_DOWNGRADE_TO_INACTIVE | CT_REMOVE
  | CT_ADD_SECONDARY_FOR_LB | CT_PRIMARY_FORCE_UPDATE_BALLOT | CT_DROP_PARTITION | CT_REGISTER_CHILD

datatype learner_status =
    LearningInvalid | LearningWithoutPrepare | LearningWithPrepareTransient | LearningWithPrepare
  | LearningSucceeded | LearningFailed

datatype disk_status = NORMAL | SPACE_INSUFFICIENT | IO_ERROR

datatype split_status = NOT_SPLIT | SPLITTING | PAUSING | PAUSED | CANCELING

datatype bulk_load_status =
    BLS_INVALID | BLS_DOWNLOADING | BLS_DOWNLOADED | BLS_INGESTING | BLS_SUCCEED | BLS_FAILED
  | BLS_PAUSING | BLS_PAUSED | BLS_CANCELED

type_synonym gpid = "int \<times> int"

record partition_configuration =
  pc_pid :: gpid
  pc_ballot :: ballot
  pc_max_replica_count :: int
  pc_primary :: "node option"
  pc_secondaries :: "node list"
  pc_last_committed_decree :: decree

record replica_configuration =
  rc_pid :: gpid
  rc_ballot :: ballot
  rc_primary :: "node option"
  rc_status :: partition_status
  rc_learner_signature :: int
  rc_pop_all :: bool
  rc_split_sync_to_child :: bool

text \<open>\<open>replica_helper::get_replica_config\<close>: the role of a node in a partition configuration.\<close>

definition get_replica_config :: "partition_configuration \<Rightarrow> node \<Rightarrow> replica_configuration" where
  "get_replica_config pc n =
     \<lparr>rc_pid = pc_pid pc, rc_ballot = pc_ballot pc, rc_primary = pc_primary pc,
      rc_status = (if pc_primary pc = Some n then PS_PRIMARY
                   else if n \<in> set (pc_secondaries pc) then PS_SECONDARY else PS_INACTIVE),
      rc_learner_signature = invalid_signature, rc_pop_all = False,
      rc_split_sync_to_child = False\<rparr>"

section \<open>Tasks\<close>

text \<open>
  A task handle: null, or a task for which the runtime answers whether a cancellation, with
  or without waiting, leaves it finished or is issued from inside the task.
\<close>

type_synonym task = "(bool \<Rightarrow> bool) option"

text \<open>\<open>CLEANUP_TASK\<close> makes the enclosing function return false; here the flag says so.\<close>

definition cleanup_task :: "bool \<Rightarrow> task \<Rightarrow> bool \<times> task" where
  "cleanup_task force t =
     (case t of None \<Rightarrow> (True, None) | Some cancel \<Rightarrow> if cancel force then (True, None) else (False, t))"

definition cleanup_task_always :: "task \<Rightarrow> task result" where
  "cleanup_task_always t =
     (case t of
        None \<Rightarrow> Inr None
      | Some cancel \<Rightarrow>
          bind_result (check (cancel False) ''task must be finished at this point'') (\<lambda>_. Inr None))"

primrec cleanup_tasks_always :: "(node \<times> task) list \<Rightarrow> unit result" where
  "cleanup_tasks_always [] = Inr ()"
| "cleanup_tasks_always (t # ts) =
     bind_result (cleanup_task_always (snd t)) (\<lambda>_. cleanup_tasks_always ts)"

section \<open>The primary context\<close>

record remote_learner_state =
  ls_signature :: int
  ls_prepare_start_decree :: decree

record primary_context =
  px_pc :: partition_configuration
  px_statuses :: "node \<rightharpoonup> partition_status"
  px_learners :: "(node \<times> remote_learner_state) list"
  px_next_learning_version :: "64 word"
  px_write_queue :: mutation_queue
  px_group_check_task :: task
  px_group_check_pending_replies :: "(node \<times> task) list"
  px_reconfiguration_task :: task
  px_last_prepare_decree_on_new_primary :: decree
  px_checkpoint_task :: task
  px_last_prepare_ts_ms :: int
  px_caught_up_children :: "node set"
  px_sync_send_write_request :: bool
  px_register_child_task :: task
  px_split_stopped_secondary :: "node set"
  px_query_child_task :: task
  px_group_bulk_load_pending_replies :: "(node \<times> task) list"
  px_secondary_bulk_load_states :: "node set"
  px_ingestion_is_empty_prepare_sent :: bool
  px_secondary_disk_status :: "(node \<times> disk_status) list"

text \<open>The constructors; the default configuration has every number zero and no members.\<close>

definition no_configuration :: partition_configuration where
  "no_configuration =
     \<lparr>pc_pid = (0, 0), pc_ballot = 0, pc_max_replica_count = 0, pc_primary = None,
      pc_secondaries = [], pc_last_committed_decree = 0\<rparr>"

definition primary_context_init :: "mutation_queue \<Rightarrow> int \<Rightarrow> primary_context" where
  "primary_context_init queue now_ms =
     \<lparr>px_pc = no_configuration, px_statuses = Map.empty, px_learners = [],
      px_next_learning_version = 0, px_write_queue = queue, px_group_check_task = None,
      px_group_check_pending_replies = [], px_reconfiguration_task = None,
      px_last_prepare_decree_on_new_primary = 0, px_checkpoint_task = None,
      px_last_prepare_ts_ms = now_ms, px_caught_up_children = {},
      px_sync_send_write_request = False, px_register_child_task = None,
      px_split_stopped_secondary = {}, px_query_child_task = None,
      px_group_bulk_load_pending_replies = [], px_secondary_bulk_load_states = {},
      px_ingestion_is_empty_prepare_sent = False, px_secondary_disk_status = []\<rparr>"

definition do_cleanup_pending_mutations :: "bool \<Rightarrow> primary_context \<Rightarrow> primary_context" where
  "do_cleanup_pending_mutations clean_pending_mutations px =
     (if clean_pending_mutations then px\<lparr>px_write_queue := snd (clear_queue (px_write_queue px))\<rparr> else px)"

definition cleanup_bulk_load_states :: "primary_context \<Rightarrow> primary_context" where
  "cleanup_bulk_load_states px =
     px\<lparr>px_secondary_bulk_load_states := {}, px_ingestion_is_empty_prepare_sent := False\<rparr>"

definition cleanup_split_states :: "primary_context \<Rightarrow> primary_context result" where
  "cleanup_split_states px =
     bind_result (cleanup_task_always (px_register_child_task px)) (\<lambda>rt.
     bind_result (cleanup_task_always (px_query_child_task px)) (\<lambda>qt.
       Inr (px\<lparr>px_register_child_task := rt, px_query_child_task := qt,
               px_caught_up_children := {}, px_sync_send_write_request := False,
               px_split_stopped_secondary := {}\<rparr>)))"

definition primary_cleanup :: "bool \<Rightarrow> primary_context \<Rightarrow> primary_context result" where
  "primary_cleanup clean_pending_mutations px0 =
     (let px = do_cleanup_pending_mutations clean_pending_mutations px0
      in bind_result (cleanup_task_always (px_group_check_task px)) (\<lambda>gt.
         bind_result (cleanup_tasks_always (px_group_check_pending_replies px)) (\<lambda>_.
         bind_result (cleanup_task_always (px_reconfiguration_task px)) (\<lambda>rt.
         bind_result (cleanup_task_always (px_checkpoint_task px)) (\<lambda>ct.
         bind_result (cleanup_tasks_always (px_group_bulk_load_pending_replies px)) (\<lambda>_.
         bind_result
           (cleanup_split_states
             (cleanup_bulk_load_states
               (px\<lparr>px_group_check_task := gt, px_group_check_pending_replies := [],
                   px_reconfiguration_task := rt, px_checkpoint_task := ct,
                   px_group_bulk_load_pending_replies := [],
                   px_pc := (px_pc px)\<lparr>pc_ballot := 0\<rparr>\<rparr>))) (\<lambda>px'.
           Inr (px'\<lparr>px_secondary_disk_status := []\<rparr>))))))))"

definition primary_is_cleaned :: "primary_context \<Rightarrow> bool" where
  "primary_is_cleaned px \<longleftrightarrow>
     px_group_check_task px = None \<and> px_reconfiguration_task px = None \<and>
     px_checkpoint_task px = None \<and> px_group_check_pending_replies px = [] \<and>
     px_register_child_task px = None \<and> px_query_child_task px = None \<and>
     px_group_bulk_load_pending_replies px = []"

text \<open>\<open>reset_membership\<close>; the learning version is unsigned and wraps.\<close>

definition reset_membership :: "partition_configuration \<Rightarrow> bool \<Rightarrow> primary_context \<Rightarrow> primary_context" where
  "reset_membership new_pc clear_learners px =
     (let learners = filter (\<lambda>l. fst l \<notin> set (pc_secondaries new_pc))
                       (if clear_learners then [] else px_learners px);
          st1 = (case pc_primary new_pc of None \<Rightarrow> Map.empty | Some p \<Rightarrow> [p \<mapsto> PS_PRIMARY]);
          st2 = fold (\<lambda>n m. m(n \<mapsto> PS_SECONDARY)) (pc_secondaries new_pc) st1;
          st3 = fold (\<lambda>l m. m(fst l \<mapsto> PS_POTENTIAL_SECONDARY)) learners st2
      in px\<lparr>px_next_learning_version :=
              (if pc_ballot new_pc > pc_ballot (px_pc px)
               then push_bit 32 (of_int (pc_ballot new_pc)) + 1
               else px_next_learning_version px + 1),
            px_pc := new_pc, px_learners := learners, px_statuses := st3\<rparr>)"

text \<open>\<open>primary_context::get_replica_config\<close> fills the configuration sent to a member.\<close>

definition member_config :: "primary_context \<Rightarrow> partition_status \<Rightarrow> int \<Rightarrow> replica_configuration" where
  "member_config px st learner_signature =
     \<lparr>rc_pid = pc_pid (px_pc px), rc_ballot = pc_ballot (px_pc px), rc_primary = pc_primary (px_pc px),
      rc_status = st, rc_learner_signature = learner_signature, rc_pop_all = False,
      rc_split_sync_to_child = False\<rparr>"

definition check_exist :: "primary_context \<Rightarrow> node \<Rightarrow> partition_status \<Rightarrow> bool result" where
  "check_exist px n st =
     (case st of
        PS_PRIMARY \<Rightarrow> Inr (pc_primary (px_pc px) = Some n)
      | PS_SECONDARY \<Rightarrow> Inr (n \<in> set (pc_secondaries (px_pc px)))
      | PS_POTENTIAL_SECONDARY \<Rightarrow> Inr (map_of (px_learners px) n \<noteq> None)
      | _ \<Rightarrow> Inl (Check_failed ''invalid partition_status''))"

definition get_node_status :: "primary_context \<Rightarrow> node \<Rightarrow> partition_status" where
  "get_node_status px n = (case px_statuses px n of Some st \<Rightarrow> st | None \<Rightarrow> PS_INACTIVE)"

definition secondary_disk_abnormal :: "primary_context \<Rightarrow> bool" where
  "secondary_disk_abnormal px \<longleftrightarrow> (\<exists>e \<in> set (px_secondary_disk_status px). snd e \<noteq> NORMAL)"

section \<open>The other contexts\<close>

record secondary_context =
  sx_checkpoint_is_running :: bool
  sx_checkpoint_task :: task
  sx_checkpoint_completed_task :: task
  sx_catchup_with_private_log_task :: task

definition secondary_context_init :: secondary_context where
  "secondary_context_init =
     \<lparr>sx_checkpoint_is_running = False, sx_checkpoint_task = None,
      sx_checkpoint_completed_task = None, sx_catchup_with_private_log_task = None\<rparr>"

definition secondary_cleanup :: "bool \<Rightarrow> secondary_context \<Rightarrow> (bool \<times> secondary_context) result" where
  "secondary_cleanup force sx =
     (case cleanup_task force (sx_checkpoint_task sx) of (ok1, t1) \<Rightarrow>
        if \<not> ok1 then Inr (False, sx)
        else bind_result
          (if \<not> force
           then bind_result (cleanup_task_always (sx_checkpoint_completed_task sx)) (\<lambda>t. Inr (True, t))
           else Inr (cleanup_task force (sx_checkpoint_completed_task sx))) (\<lambda>(ok2, t2).
          let sx2 = sx\<lparr>sx_checkpoint_task := t1, sx_checkpoint_completed_task := t2\<rparr>
          in if \<not> ok2 then Inr (False, sx2)
             else (case cleanup_task force (sx_catchup_with_private_log_task sx2) of (ok3, t3) \<Rightarrow>
                     Inr (if \<not> ok3 then (False, sx2)
                          else (True, sx2\<lparr>sx_catchup_with_private_log_task := t3,
                                         sx_checkpoint_is_running := False\<rparr>)))))"

definition secondary_is_cleaned :: "secondary_context \<Rightarrow> bool" where
  "secondary_is_cleaned sx \<longleftrightarrow> \<not> sx_checkpoint_is_running sx"

record potential_secondary_context =
  lx_learning_version :: int
  lx_learning_status :: learner_status
  lx_learning_round_is_running :: bool
  lx_learn_app_concurrent_count_increased :: bool
  lx_learning_start_prepare_decree :: decree
  lx_first_learn_start_decree :: decree
  lx_delay_learning_task :: task
  lx_learning_task :: task
  lx_learn_remote_files_completed_task :: task
  lx_completion_notify_task :: task
  lx_learn_remote_files_task :: task
  lx_catchup_with_private_log_task :: task

definition potential_secondary_context_init :: potential_secondary_context where
  "potential_secondary_context_init =
     \<lparr>lx_learning_version = 0, lx_learning_status = LearningInvalid,
      lx_learning_round_is_running = False, lx_learn_app_concurrent_count_increased = False,
      lx_learning_start_prepare_decree = invalid_decree, lx_first_learn_start_decree = invalid_decree,
      lx_delay_learning_task = None, lx_learning_task = None,
      lx_learn_remote_files_completed_task = None, lx_completion_notify_task = None,
      lx_learn_remote_files_task = None, lx_catchup_with_private_log_task = None\<rparr>"

text \<open>
  The tasks in the order in which \<open>cleanup\<close> treats them: the first four are always cleaned
  unless the cleanup is forced, the last two may make it return false.
\<close>

definition learner_soft_tasks :: "potential_secondary_context \<Rightarrow> task list" where
  "learner_soft_tasks lx = [lx_delay_learning_task lx, lx_learning_task lx,
     lx_learn_remote_files_completed_task lx, lx_completion_notify_task lx]"

definition learner_hard_tasks :: "potential_secondary_context \<Rightarrow> task list" where
  "learner_hard_tasks lx = [lx_learn_remote_files_task lx, lx_catchup_with_private_log_task lx]"

definition set_learner_tasks :: "task list \<Rightarrow> potential_secondary_context \<Rightarrow> potential_secondary_context" where
  "set_learner_tasks ts lx =
     lx\<lparr>lx_delay_learning_task := ts ! 0, lx_learning_task := ts ! 1,
        lx_learn_remote_files_completed_task := ts ! 2, lx_completion_notify_task := ts ! 3,
        lx_learn_remote_files_task := ts ! 4, lx_catchup_with_private_log_task := ts ! 5\<rparr>"

primrec cleanup_task_seq :: "bool \<Rightarrow> task list \<Rightarrow> bool \<times> task list" where
  "cleanup_task_seq force [] = (True, [])"
| "cleanup_task_seq force (t # ts) =
     (case cleanup_task force t of (ok, t') \<Rightarrow>
        if \<not> ok then (False, t # ts)
        else (case cleanup_task_seq force ts of (ok', ts') \<Rightarrow> (ok', t' # ts')))"

primrec cleanup_seq_always :: "task list \<Rightarrow> task list result" where
  "cleanup_seq_always [] = Inr []"
| "cleanup_seq_always (t # ts) =
     bind_result (cleanup_task_always t) (\<lambda>t'.
     bind_result (cleanup_seq_always ts) (\<lambda>ts'. Inr (t' # ts')))"

definition learner_cleanup :: "bool \<Rightarrow> potential_secondary_context
    \<Rightarrow> (bool \<times> potential_secondary_context) result" where
  "learner_cleanup force lx =
     bind_result
       (if \<not> force
        then bind_result (cleanup_seq_always (learner_soft_tasks lx)) (\<lambda>ts. Inr (True, ts))
        else Inr (cleanup_task_seq True (learner_soft_tasks lx))) (\<lambda>(ok1, soft).
       if \<not> ok1 then Inr (False, set_learner_tasks (soft @ learner_hard_tasks lx) lx)
       else (case cleanup_task_seq force (learner_hard_tasks lx) of (ok2, hard) \<Rightarrow>
               let lx' = set_learner_tasks (soft @ hard) lx
               in Inr (if \<not> ok2 then (False, lx')
                       else (True, lx'\<lparr>lx_learning_version := 0, lx_learning_round_is_running := False,
                               lx_learn_app_concurrent_count_increased := False,
                               lx_learning_start_prepare_decree := invalid_decree,
                               lx_first_learn_start_decree := invalid_decree,
                               lx_learning_status := LearningInvalid\<rparr>))))"

definition learner_is_cleaned :: "potential_secondary_context \<Rightarrow> bool" where
  "learner_is_cleaned lx \<longleftrightarrow> (\<forall>t \<in> set (learner_soft_tasks lx @ learner_hard_tasks lx). t = None)"

record partition_split_context =
  sp_parent_gpid :: gpid
  sp_is_prepare_list_copied :: bool
  sp_is_caught_up :: bool
  sp_async_learn_task :: task
  sp_check_state_task :: task

definition partition_split_context_init :: partition_split_context where
  "partition_split_context_init =
     \<lparr>sp_parent_gpid = (0, 0), sp_is_prepare_list_copied = False, sp_is_caught_up = False,
      sp_async_learn_task = None, sp_check_state_task = None\<rparr>"

definition split_cleanup :: "bool \<Rightarrow> partition_split_context \<Rightarrow> (bool \<times> partition_split_context) result" where
  "split_cleanup force sp =
     (case cleanup_task force (sp_async_learn_task sp) of (ok1, t1) \<Rightarrow>
        if \<not> ok1 then Inr (False, sp)
        else bind_result
          (if \<not> force
           then bind_result (cleanup_task_always (sp_check_state_task sp)) (\<lambda>t. Inr (True, t))
           else Inr (cleanup_task force (sp_check_state_task sp))) (\<lambda>(ok2, t2).
          let sp2 = sp\<lparr>sp_async_learn_task := t1, sp_check_state_task := t2\<rparr>
          in Inr (if \<not> ok2 then (False, sp2)
                  else (True, sp2\<lparr>sp_parent_gpid := (0, snd (sp_parent_gpid sp2)),
                          sp_is_prepare_list_copied := False, sp_is_caught_up := False\<rparr>))))"

definition split_is_cleaned :: "partition_split_context \<Rightarrow> bool" where
  "split_is_cleaned sp \<longleftrightarrow> sp_async_learn_task sp = None \<and> sp_check_state_task sp = None"

end
