(* ===== verification/Replica.thy ===== *)
theory Replica
  imports Replica_State
begin

unbundle bit_operations_syntax

text \<open>
  The replica proper: its state, the primary's side of the two-phase commit up to the
  execution of a mutation (\<^verbatim>\<open>src/src/replica/replica_2pc.cpp\<close>,
  \<^verbatim>\<open>src/src/replica/replica.cpp\<close>), the application of mutations to the storage engine
  (\<^verbatim>\<open>src/src/replica/replication_app_base.cpp\<close>) and the change of the local
  configuration (\<^verbatim>\<open>src/src/replica/replica_config.cpp\<close>,
  \<^verbatim>\<open>src/src/replica/replica_failover.cpp\<close>). The storage engine, the network, the log
  and the runtime are arguments or effects.
\<close>

section \<open>State\<close>

record prepare_ack =
  pa_pid :: gpid
  pa_err :: error_code
  pa_ballot :: ballot
  pa_decree :: decree
  pa_last_committed_decree_in_app :: decree
  pa_last_committed_decree_in_prepare_list :: decree

text \<open>
  What a handler does to the outside: replies, messages, writes to the log, calls into the
  stub, the split manager, the backup and the bulk load manager.
\<close>

datatype effect =
    Reply_write client_request error_code
  | Delay_write client_request int
  | Busy_write_later client_request int
  | Send_prepare node replica_configuration mutation
  | Retry_prepare_later node partition_status mutation_ptr int int
  | Append_log mutation_ptr
  | Reply_prepare nat prepare_ack
  | Apply decree
  | Copy_to_child mutation_ptr
  | Ack_parent error_code ballot decree
  | Cancel_prepare_tasks mutation_ptr
  | Flush_private_log
  | Wait_log_task mutation_ptr
  | Start_group_check
  | Cancel_backup
  | Clear_bulk_load
  | Notify_state_update replica_configuration bool
  | Begin_close
  | Handle_log_failure error_code
  | Remove_replica_on_meta partition_configuration
  | Update_config_on_meta config_type node partition_configuration
  | Add_learner_rpc node replica_configuration decree
  | Remove_replica_rpc node replica_configuration

record deny_client =
  dc_read :: bool
  dc_write :: bool
  dc_reconfig :: bool

record replica =
  r_config :: replica_configuration
  r_inactive_is_transient :: bool
  r_is_initializing :: bool
  r_primary_states :: primary_context
  r_secondary_states :: secondary_context
  r_potential_secondary_states :: potential_secondary_context
  r_split_states :: partition_split_context
  r_app_decree :: decree
  r_durable_decree :: decree
  r_max_replica_count :: int
  r_atomic_idempotent :: bool
  r_duplicating :: bool
  r_is_duplication_master :: bool
  r_dir_status :: disk_status
  r_data_corrupted :: bool
  r_bulk_load_status :: bulk_load_status
  r_is_bulk_load_ingestion :: bool
  r_bulk_load_ingestion_start_time_ms :: int
  r_deny_client :: deny_client
  r_validate_partition_hash :: bool
  r_partition_version :: int
  r_child_app_id :: int
  r_child_init_ballot :: ballot
  r_split_status :: split_status
  r_last_ts :: nat
  r_next_mutation :: mutation_ptr
  r_write_qps :: throttling_controller
  r_write_size :: throttling_controller
  r_has_private_log :: bool
  r_effects :: "effect list"

type_synonym rstate = "replica commit_state"

text \<open>Outcomes of the storage engine.\<close>

datatype storage_status = kOk | kCorruption | kIOError | kOtherError

text \<open>
  What a handler reads of the process: flags, clocks, the registered task codes, the access
  controller, the stub, and the storage engine behind \<open>make_idempotent\<close> and
  \<open>on_batched_write_requests\<close>.
\<close>

record replica_env =
  re_specs :: "string \<Rightarrow> task_spec option"
  re_sizeof_header :: int
  re_row_lock_map_capacity :: nat
  re_now_s :: int
  re_now_ms :: int
  re_now_us :: nat
  re_now_ns :: int
  re_staleness_for_commit :: int
  re_max_mutation_count_in_prepare_list :: int
  re_mutation_2pc_min_replica_count :: int
  re_reject_write_when_disk_insufficient :: bool
  re_max_allowed_write_size :: nat
  re_group_check_disabled :: bool
  re_verbose_commit_log :: bool
  re_prepare_timeout_ms_for_secondaries :: int
  re_prepare_timeout_ms_for_potential_secondaries :: int
  re_node :: node
  re_is_connected :: bool
  re_allowed :: "client_request \<Rightarrow> bool"
  re_make_idempotent :: "client_request \<Rightarrow> client_request list option"
  re_on_batched_write_requests :: "decree \<Rightarrow> int \<Rightarrow> (mutation_update \<times> client_request option) list \<Rightarrow> storage_status"
  re_split_exec_ok :: bool
  re_new_task :: "bool \<Rightarrow> bool"

text \<open>
  The constructor of a replica with \<open>init_state\<close>, over what it reads of the table's
  \<open>app_info\<close> and of the data directory. The storage engine and the log are opened later.
\<close>

record app_info =
  ai_partition_count :: int
  ai_max_replica_count :: int
  ai_duplicating :: bool
  ai_atomic_idempotent :: bool

definition replica_init :: "replica_env \<Rightarrow> bool \<Rightarrow> gpid \<Rightarrow> app_info \<Rightarrow> disk_status \<Rightarrow> rstate result" where
  "replica_init env batch_write_disabled pid app dir_status =
     bind_result (mutation_queue_init (fst pid) (re_staleness_for_commit env) batch_write_disabled 0) (\<lambda>queue.
       Inr (prepare_list_init 0 (nat (re_max_mutation_count_in_prepare_list env)),
            (\<lambda>_. mutation_init (re_sizeof_header env) (re_now_ns env)),
            \<lparr>r_config = \<lparr>rc_pid = pid, rc_ballot = 0, rc_primary = None, rc_status = PS_INACTIVE,
               rc_learner_signature = 0, rc_pop_all = False, rc_split_sync_to_child = False\<rparr>,
             r_inactive_is_transient = False, r_is_initializing = False,
             r_primary_states = primary_context_init queue (re_now_ms env),
             r_secondary_states = secondary_context_init,
             r_potential_secondary_states = potential_secondary_context_init,
             r_split_states = partition_split_context_init, r_app_decree = 0, r_durable_decree = 0,
             r_max_replica_count = ai_max_replica_count app,
             r_atomic_idempotent = ai_atomic_idempotent app, r_duplicating = ai_duplicating app,
             r_is_duplication_master = ai_duplicating app, r_dir_status = dir_status,
             r_data_corrupted = False, r_bulk_load_status = BLS_INVALID,
             r_is_bulk_load_ingestion = False, r_bulk_load_ingestion_start_time_ms = 0,
             r_deny_client = \<lparr>dc_read = False, dc_write = False, dc_reconfig = False\<rparr>,
             r_validate_partition_hash = False,
             r_partition_version = ai_partition_count app - 1, r_child_app_id = 0,
             r_child_init_ballot = 0, r_split_status = NOT_SPLIT, r_last_ts = re_now_us env,
             r_next_mutation = 0, r_write_qps = throttling_controller_init,
             r_write_size = throttling_controller_init, r_has_private_log = False, r_effects = []\<rparr>))"

section \<open>Access\<close>

abbreviation plist_of :: "rstate \<Rightarrow> prepare_list" where "plist_of s \<equiv> fst s"
abbreviation store_of :: "rstate \<Rightarrow> mutation_store" where "store_of s \<equiv> fst (snd s)"
abbreviation repl :: "rstate \<Rightarrow> replica" where "repl s \<equiv> snd (snd s)"
abbreviation lcd :: "rstate \<Rightarrow> decree" where "lcd s \<equiv> pl_last_committed_decree (fst s)"
abbreviation max_prepared :: "rstate \<Rightarrow> decree" where "max_prepared s \<equiv> max_decree (pl_cache (fst s))"
abbreviation status :: "rstate \<Rightarrow> partition_status" where "status s \<equiv> rc_status (r_config (snd (snd s)))"
abbreviation ballot_of :: "rstate \<Rightarrow> ballot" where "ballot_of s \<equiv> rc_ballot (r_config (snd (snd s)))"
abbreviation primary_states :: "rstate \<Rightarrow> primary_context" where
  "primary_states s \<equiv> r_primary_states (snd (snd s))"

definition map_replica :: "(replica \<Rightarrow> replica) \<Rightarrow> rstate \<Rightarrow> rstate" where
  "map_replica f s = (fst s, fst (snd s), f (snd (snd s)))"

definition map_mutation :: "mutation_ptr \<Rightarrow> (mutation \<Rightarrow> mutation) \<Rightarrow> rstate \<Rightarrow> rstate" where
  "map_mutation p f s = (fst s, (fst (snd s))(p := f (fst (snd s) p)), snd (snd s))"

definition emit :: "effect \<Rightarrow> rstate \<Rightarrow> rstate" where
  "emit e s = map_replica (\<lambda>r. r\<lparr>r_effects := r_effects r @ [e]\<rparr>) s"

abbreviation map_primary :: "(primary_context \<Rightarrow> primary_context) \<Rightarrow> rstate \<Rightarrow> rstate" where
  "map_primary f s \<equiv> map_replica (\<lambda>r. r\<lparr>r_primary_states := f (r_primary_states r)\<rparr>) s"

definition queue_env_of :: "replica_env \<Rightarrow> rstate \<Rightarrow> queue_env" where
  "queue_env_of env s =
     \<lparr>qe_specs = re_specs env, qe_app_id = fst (rc_pid (r_config (repl s))),
      qe_partition_index = snd (rc_pid (r_config (repl s))), qe_ballot = ballot_of s,
      qe_atomic_idempotent = r_atomic_idempotent (repl s),
      qe_last_applied_decree = r_app_decree (repl s),
      qe_row_lock_map_capacity = re_row_lock_map_capacity env,
      qe_sizeof_header = re_sizeof_header env, qe_now_ns = re_now_ns env\<rparr>"

text \<open>Allocating a mutation object.\<close>

definition alloc_mutation :: "mutation \<Rightarrow> rstate \<Rightarrow> mutation_ptr \<times> rstate" where
  "alloc_mutation m s =
     (let p = r_next_mutation (repl s)
      in (p, map_replica (\<lambda>r. r\<lparr>r_next_mutation := Suc p\<rparr>) (map_mutation p (\<lambda>_. m) s)))"

text \<open>\<open>uniq_timestamp_us\<close>: increasing unique time stamps.\<close>

definition uniq_next :: "replica_env \<Rightarrow> rstate \<Rightarrow> nat \<times> rstate" where
  "uniq_next env s =
     (let ts = max (re_now_us env) (r_last_ts (repl s) + 1)
      in (ts, map_replica (\<lambda>r. r\<lparr>r_last_ts := ts\<rparr>) s))"

definition uniq_try_update :: "nat \<Rightarrow> rstate \<Rightarrow> rstate" where
  "uniq_try_update new_ts s =
     (if new_ts > r_last_ts (repl s) then map_replica (\<lambda>r. r\<lparr>r_last_ts := new_ts\<rparr>) s else s)"

section \<open>Replies\<close>

definition response_client_write :: "client_request option \<Rightarrow> error_code \<Rightarrow> rstate \<Rightarrow> rstate" where
  "response_client_write request err s =
     (case request of None \<Rightarrow> s | Some rq \<Rightarrow> emit (Reply_write rq err) s)"

definition reply_with_error :: "mutation_ptr \<Rightarrow> error_code \<Rightarrow> rstate \<Rightarrow> rstate" where
  "reply_with_error p err s =
     (case mu_idem_writer (store_of s p) of
        Some rq \<Rightarrow> response_client_write (Some rq) err s
      | None \<Rightarrow> fold (\<lambda>req. response_client_write req err) (mu_client_requests (store_of s p)) s)"

definition ack_prepare_message :: "error_code \<Rightarrow> mutation_ptr \<Rightarrow> rstate \<Rightarrow> rstate result" where
  "ack_prepare_message err p s =
     (let mu = store_of s p;
          resp = \<lparr>pa_pid = rc_pid (r_config (repl s)), pa_err = err, pa_ballot = ballot_of s,
                  pa_decree = mu_decree mu, pa_last_committed_decree_in_app = r_app_decree (repl s),
                  pa_last_committed_decree_in_prepare_list = lcd s\<rparr>;
          reply_all = fold (\<lambda>req. emit (Reply_prepare req resp)) (mu_prepare_requests mu)
      in bind_result (check (mu_prepare_requests mu \<noteq> []) ''CHECK'') (\<lambda>_.
           Inr (if err = ERR_OK then (if mu_wait_child mu then s else reply_all s)
                else if mu_is_error_acked mu then s
                else reply_all
                       (if mu_is_sync_to_child mu
                        then map_mutation p (\<lambda>m. m\<lparr>mu_is_error_acked := True\<rparr>) s else s))))"

section \<open>Making atomic writes idempotent\<close>

definition need_reject_non_idempotent :: "rstate \<Rightarrow> task_spec \<Rightarrow> bool" where
  "need_reject_non_idempotent s spec =
     (if \<not> r_is_duplication_master (repl s) then False
      else if r_atomic_idempotent (repl s) then False
      else \<not> ts_is_write_idempotent spec)"

definition need_make_idempotent_request :: "replica_env \<Rightarrow> rstate \<Rightarrow> client_request option \<Rightarrow> bool result" where
  "need_make_idempotent_request env s request =
     (case request of
        None \<Rightarrow> Inr False
      | Some rq \<Rightarrow>
          if \<not> r_atomic_idempotent (repl s) then Inr False
          else (case re_specs env (rq_code rq) of
                  None \<Rightarrow> Inl (Check_failed ''RPC code not found'')
                | Some spec \<Rightarrow> Inr (\<not> ts_is_write_idempotent spec)))"

definition new_mutation_idempotent :: "queue_env \<Rightarrow> decree \<Rightarrow> client_request \<Rightarrow> mutation" where
  "new_mutation_idempotent env d request = (new_mutation env d)\<lparr>mu_idem_writer := Some request\<rparr>"

primrec add_client_requests :: "client_request list \<Rightarrow> mutation \<Rightarrow> mutation result" where
  "add_client_requests [] m = Inr m"
| "add_client_requests (rq # rqs) m = bind_result (add_client_request (Some rq) m) (add_client_requests rqs)"

text \<open>\<open>None\<close> is a status other than \<open>kOk\<close>: the storage engine has already replied to the client.\<close>

definition make_idempotent :: "replica_env \<Rightarrow> mutation_ptr \<Rightarrow> rstate \<Rightarrow> (mutation_ptr option \<times> rstate) result" where
  "make_idempotent env p s =
     (let rqs = mu_client_requests (store_of s p)
      in bind_result (check (rqs \<noteq> []) ''the mutation should include at least one request'') (\<lambda>_.
         bind_result (need_make_idempotent_request env s (hd rqs)) (\<lambda>needed.
           case hd rqs of
             None \<Rightarrow> Inr (Some p, s)
           | Some rq \<Rightarrow>
               if \<not> needed then Inr (Some p, s)
               else bind_result (check (length rqs = 1) ''the original atomic write request must not be batched'') (\<lambda>_.
                 case re_make_idempotent env rq of
                   None \<Rightarrow> Inr (None, s)
                 | Some new_requests \<Rightarrow>
                     bind_result (check (new_requests \<noteq> []) ''new_requests should not be empty'') (\<lambda>_.
                     bind_result (check (mu_decree (store_of s p) = invalid_decree)
                       ''the decree must have not been assigned'') (\<lambda>_.
                     bind_result (add_client_requests new_requests
                       (new_mutation_idempotent (queue_env_of env s) invalid_decree rq)) (\<lambda>m.
                       case alloc_mutation m s of (p', s') \<Rightarrow> Inr (Some p', s'))))))))"

section \<open>Preparing on the primary\<close>

text \<open>\<open>app_mutation_2pc_min_replica_count\<close> of \<^verbatim>\<open>src/src/common/replication_common.cpp\<close>.\<close>

definition app_mutation_2pc_min_replica_count :: "int \<Rightarrow> int \<Rightarrow> int result" where
  "app_mutation_2pc_min_replica_count min_replica_count app_max_replica_count =
     bind_result (check (app_max_replica_count > 0) ''CHECK_GT'') (\<lambda>_.
       Inr (if min_replica_count > 0 then min_replica_count
            else if app_max_replica_count \<le> 2 then 1 else app_max_replica_count div 2 + 1))"

definition too_few_members :: "replica_env \<Rightarrow> rstate \<Rightarrow> bool result" where
  "too_few_members env s =
     bind_result (app_mutation_2pc_min_replica_count (re_mutation_2pc_min_replica_count env) (r_max_replica_count (repl s))) (\<lambda>n.
       Inr (to_int32 (int (length (pc_secondaries (px_pc (primary_states s))))) + 1 < n))"

definition members_missing :: "rstate \<Rightarrow> bool" where
  "members_missing s \<longleftrightarrow>
     to_int32 (int (length (pc_secondaries (px_pc (primary_states s))))) + 1
       < pc_max_replica_count (px_pc (primary_states s))"

text \<open>The loop that stops a bulk load ingestion while members are missing.\<close>

primrec bulk_load_check :: "bool \<Rightarrow> mutation_update list \<Rightarrow> nat \<Rightarrow> error_code result" where
  "bulk_load_check missing us 0 = Inr ERR_OK"
| "bulk_load_check missing us (Suc n) =
     (case us of
        [] \<Rightarrow> Inl (Out_of_bounds ''updates'')
      | u # us' \<Rightarrow>
          if u_code u \<noteq> ''RPC_RRDB_RRDB_BULK_LOAD'' then Inr ERR_OK
          else if missing then Inr ERR_NOT_ENOUGH_MEMBER
          else bulk_load_check missing us' n)"

definition send_prepare_message :: "node \<Rightarrow> partition_status \<Rightarrow> mutation_ptr \<Rightarrow> bool \<Rightarrow> int \<Rightarrow> rstate \<Rightarrow> rstate" where
  "send_prepare_message n st p pop_all learn_signature s =
     (let rconfig = (member_config (primary_states s) st learn_signature)
            \<lparr>rc_pop_all := pop_all,
             rc_split_sync_to_child :=
               (st = PS_SECONDARY \<and> px_sync_send_write_request (primary_states s))\<rparr>
      in emit (Send_prepare n rconfig (store_of s p)) s)"

definition is_splitting :: "rstate \<Rightarrow> bool" where
  "is_splitting s \<longleftrightarrow>
     r_child_app_id (repl s) > 0 \<and> r_child_init_ballot (repl s) > 0 \<and> r_split_status (repl s) = SPLITTING"

definition parent_cleanup_split_context :: "rstate \<Rightarrow> rstate" where
  "parent_cleanup_split_context s =
     map_replica (\<lambda>r. r\<lparr>r_child_app_id := 0, r_child_init_ballot := 0, r_split_status := NOT_SPLIT\<rparr>) s"

definition copy_mutation :: "replica_env \<Rightarrow> mutation_ptr \<Rightarrow> rstate \<Rightarrow> rstate result" where
  "copy_mutation env p s =
     bind_result (check (r_child_app_id (repl s) > 0) ''child_gpid is invalid'') (\<lambda>_.
       let s1 = (if mu_is_sync_to_child (store_of s p)
                 then map_mutation p (\<lambda>m. m\<lparr>mu_wait_child := True\<rparr>) s else s);
           s2 = emit (Copy_to_child p) s1
       in Inr (if re_split_exec_ok env then s2 else parent_cleanup_split_context s2))"

definition do_possible_commit_on_primary :: "replica committer \<Rightarrow> mutation_ptr \<Rightarrow> rstate \<Rightarrow> rstate result" where
  "do_possible_commit_on_primary cm p s =
     bind_result (check (ballot_of s = mu_ballot (store_of s p)) ''CHECK_EQ'') (\<lambda>_.
     bind_result (check (status s = PS_PRIMARY) ''CHECK_EQ'') (\<lambda>_.
       if is_ready_for_commit (store_of s p)
       then commit cm (mu_decree (store_of s p)) COMMIT_ALL_READY s else Inr s))"

text \<open>Writing a mutation to the private log; the completion is another handler.\<close>

definition append_log :: "mutation_ptr \<Rightarrow> rstate \<Rightarrow> rstate result" where
  "append_log p s =
     bind_result (check (\<not> mu_log_task (store_of s p)) ''CHECK'') (\<lambda>_.
       Inr (emit (Append_log p) (map_mutation p (\<lambda>m. m\<lparr>mu_log_task := True\<rparr>) s)))"

text \<open>
  The learners that take part in the prepare of a decree, and the message round of
  \<open>init_prepare\<close>. The counter of learners is a \<open>uint8_t\<close>.
\<close>

definition prepare_learners :: "decree \<Rightarrow> primary_context \<Rightarrow> (node \<times> remote_learner_state) list" where
  "prepare_learners d px =
     filter (\<lambda>(n, l). ls_prepare_start_decree l \<noteq> invalid_decree \<and> d \<ge> ls_prepare_start_decree l)
       (px_learners px)"

definition remote_prepare :: "replica_env \<Rightarrow> mutation_ptr \<Rightarrow> bool \<Rightarrow> rstate \<Rightarrow> rstate" where
  "remote_prepare env p pop_all s =
     (let secondaries = pc_secondaries (px_pc (primary_states s));
          s1 = map_mutation p (\<lambda>m. set_left_secondary_ack_count (of_nat (length secondaries))
                 (m\<lparr>mu_prepare_ts_ms := re_now_ms env\<rparr>)) s;
          s2 = fold (\<lambda>n. send_prepare_message n PS_SECONDARY p pop_all invalid_signature) secondaries s1;
          learners = prepare_learners (mu_decree (store_of s p)) (primary_states s);
          s3 = fold (\<lambda>(n, l). send_prepare_message n PS_POTENTIAL_SECONDARY p pop_all (ls_signature l)) learners s2
      in map_mutation p
           (set_left_potential_secondary_ack_count (ucast (of_nat (length learners) :: 8 word))) s3)"

text \<open>The header of a mutation that enters the two-phase commit.\<close>

definition assign_id :: "replica_env \<Rightarrow> mutation_ptr \<Rightarrow> rstate \<Rightarrow> rstate" where
  "assign_id env p s0 =
     (let s = map_mutation p (\<lambda>m. m\<lparr>mu_header := (mu_header m)\<lparr>h_last_committed_decree := lcd s0\<rparr>\<rparr>) s0;
          s1 = (if mu_decree (store_of s p) = invalid_decree
                then (case uniq_next env (map_mutation p (set_id (ballot_of s) (max_prepared s + 1)) s) of
                        (ts, s') \<Rightarrow> map_mutation p (\<lambda>m. m\<lparr>mu_header := (mu_header m)\<lparr>h_timestamp := int ts\<rparr>\<rparr>) s')
                else map_mutation p (set_id (ballot_of s) (mu_decree (store_of s p))) s)
      in map_mutation p (\<lambda>m. m\<lparr>mu_is_sync_to_child := px_sync_send_write_request (primary_states s1)\<rparr>) s1)"

text \<open>The checks of \<open>init_prepare\<close> before the local prepare.\<close>

definition admission_error :: "replica_env \<Rightarrow> mutation_ptr \<Rightarrow> bool \<Rightarrow> rstate \<Rightarrow> error_code result" where
  "admission_error env p reconciliation s =
     (let mu = store_of s p
      in if mu_decree mu > lcd s + re_staleness_for_commit env then Inr ERR_CAPACITY_EXCEEDED
         else bind_result (bulk_load_check (members_missing s) (mu_updates mu) (length (mu_client_requests mu))) (\<lambda>e.
           if e \<noteq> ERR_OK then Inr e
           else bind_result (too_few_members env s) (\<lambda>few.
             Inr (if few \<and> \<not> reconciliation then ERR_NOT_ENOUGH_MEMBER else ERR_OK))))"

definition start_2pc :: "replica_env \<Rightarrow> replica committer \<Rightarrow> mutation_ptr \<Rightarrow> bool \<Rightarrow> rstate \<Rightarrow> rstate result" where
  "start_2pc env cm p pop_all s =
     bind_result (enter_2pc (queue_env_of env s) (store_of s) p (px_write_queue (primary_states s))) (\<lambda>q.
     let s1 = remote_prepare env p pop_all (map_primary (\<lambda>px. px\<lparr>px_write_queue := q\<rparr>) s)
     in bind_result (if is_splitting s1 then copy_mutation env p s1 else Inr s1) (\<lambda>s2.
        bind_result
          (if is_logged (store_of s2 p) then do_possible_commit_on_primary cm p s2
           else bind_result (check (h_log_offset (mu_header (store_of s2 p)) = invalid_offset) ''CHECK_EQ'')
                  (\<lambda>_. append_log p s2)) (\<lambda>s3.
          Inr (map_primary (\<lambda>px. px\<lparr>px_last_prepare_ts_ms := mu_prepare_ts_ms (store_of s3 p)\<rparr>) s3))))"

definition init_prepare :: "replica_env \<Rightarrow> replica committer \<Rightarrow> mutation_ptr \<Rightarrow> bool \<Rightarrow> bool \<Rightarrow> rstate \<Rightarrow> rstate result" where
  "init_prepare env cm p0 reconciliation pop_all s0 =
     bind_result (check (status s0 = PS_PRIMARY) ''CHECK_EQ'') (\<lambda>_.
     bind_result (make_idempotent env p0 s0) (\<lambda>(mu, s1).
       case mu of
         None \<Rightarrow> Inr s1
       | Some p \<Rightarrow>
           (let s = assign_id env p s1
            in bind_result (admission_error env p reconciliation s) (\<lambda>e.
               if e \<noteq> ERR_OK then Inr (reply_with_error p e s)
               else bind_result (check (mu_decree (store_of s p) > lcd s) ''CHECK_GT'') (\<lambda>_.
                 bind_result (prepare cm p PS_PRIMARY pop_all True s) (\<lambda>(err, s2).
                   if err \<noteq> ERR_OK then Inr (reply_with_error p err s2)
                   else start_2pc env cm p pop_all s2))))))"

section \<open>Applying a mutation to the storage engine\<close>

definition check_state_completeness :: "rstate \<Rightarrow> unit result" where
  "check_state_completeness s =
     bind_result (check (max_prepared s \<ge> lcd s) ''CHECK_GE'') (\<lambda>_.
       check (lcd s \<ge> r_durable_decree (repl s)) ''CHECK_GE'')"

text \<open>
  The writes of a mutation, without the empty ones; a write without its client request is
  rebuilt from the update. The idempotent writer is moved out of the mutation.
\<close>

definition batched_writes :: "mutation \<Rightarrow> (mutation_update \<times> client_request option) list" where
  "batched_writes mu =
     filter (\<lambda>(u, _). u_code u \<noteq> ''RPC_REPLICATION_WRITE_EMPTY'') (zip (mu_updates mu) (mu_client_requests mu))"

definition apply_mutation :: "replica_env \<Rightarrow> mutation_ptr \<Rightarrow> rstate \<Rightarrow> (error_code \<times> rstate) result" where
  "apply_mutation env p s =
     (let mu = store_of s p; writes = batched_writes mu;
          has_ingestion_request = (\<exists>w \<in> set writes. u_code (fst w) = ''RPC_RRDB_RRDB_BULK_LOAD'');
          storage_error = re_on_batched_write_requests env (mu_decree mu) (h_timestamp (mu_header mu)) writes;
          s1 = emit (Apply (mu_decree mu)) (map_mutation p (\<lambda>m. m\<lparr>mu_idem_writer := None\<rparr>) s)
      in bind_result (check (mu_decree mu = r_app_decree (repl s) + 1) ''CHECK_EQ_PREFIX'') (\<lambda>_.
         bind_result (check (length (mu_updates mu) = length (mu_client_requests mu)) ''CHECK_EQ_PREFIX'') (\<lambda>_.
         bind_result (check (mu_updates mu \<noteq> []) ''CHECK_GT_PREFIX'') (\<lambda>_.
           if storage_error \<noteq> kOk \<and> \<not> has_ingestion_request
           then Inr (case storage_error of
                       kCorruption \<Rightarrow> ERR_RDB_CORRUPTION
                     | kIOError \<Rightarrow> ERR_DISK_IO_ERROR
                     | _ \<Rightarrow> ERR_LOCAL_APP_FAILURE, s1)
           else bind_result
             (check (\<not> re_verbose_commit_log env \<or>
                status s \<in> {PS_INACTIVE, PS_PRIMARY, PS_SECONDARY, PS_POTENTIAL_SECONDARY}) ''status'') (\<lambda>_.
               Inr (ERR_OK, map_replica (\<lambda>r. r\<lparr>r_app_decree := r_app_decree r + 1\<rparr>) s1))))))"

section \<open>Changing the local configuration\<close>

primrec cleanup_decrees :: "bool \<Rightarrow> decree list \<Rightarrow> rstate \<Rightarrow> rstate result" where
  "cleanup_decrees wait [] s = Inr s"
| "cleanup_decrees wait (d # ds) s =
     bind_result (get_mutation_by_decree (pl_cache (plist_of s)) d) (\<lambda>mu.
       case mu of
         None \<Rightarrow> cleanup_decrees wait ds s
       | Some p \<Rightarrow>
           (let s1 = emit (Cancel_prepare_tasks p) s;
                s2 = (if \<not> wait then s1
                      else emit (Wait_log_task p)
                             (if r_has_private_log (repl s1) then emit Flush_private_log s1 else s1))
            in cleanup_decrees wait ds s2))"

definition cleanup_preparing_mutations :: "bool \<Rightarrow> rstate \<Rightarrow> rstate result" where
  "cleanup_preparing_mutations wait s = cleanup_decrees wait [lcd s + 1..max_prepared s] s"

text \<open>
  A new primary prepares everything again that was prepared but not committed, under its own
  ballot; a gap is filled with an empty write.
\<close>

definition replay_decree :: "replica_env \<Rightarrow> replica committer \<Rightarrow> decree \<Rightarrow> rstate \<Rightarrow> rstate result" where
  "replay_decree env cm d s =
     bind_result (get_mutation_by_decree (pl_cache (plist_of s)) d) (\<lambda>old.
     bind_result
       (let m = new_mutation (queue_env_of env s) d
        in case old of
             Some o' \<Rightarrow> Inr (copy_from (store_of s o') m)
           | None \<Rightarrow> add_client_request None m) (\<lambda>m.
       case alloc_mutation m s of (p, s') \<Rightarrow> init_prepare env cm p True False s'))"

primrec replay_decrees :: "replica_env \<Rightarrow> replica committer \<Rightarrow> decree list \<Rightarrow> rstate \<Rightarrow> rstate result" where
  "replay_decrees env cm [] s = Inr s"
| "replay_decrees env cm (d # ds) s = bind_result (replay_decree env cm d s) (replay_decrees env cm ds)"

definition replay_prepare_list :: "replica_env \<Rightarrow> replica committer \<Rightarrow> rstate \<Rightarrow> rstate result" where
  "replay_prepare_list env cm s = replay_decrees env cm [lcd s + 1..max_prepared s] s"

definition init_group_check :: "replica_env \<Rightarrow> rstate \<Rightarrow> rstate result" where
  "init_group_check env s =
     (if status s \<noteq> PS_PRIMARY \<or> re_group_check_disabled env then Inr s
      else bind_result (check (px_group_check_task (primary_states s) = None) ''CHECK'') (\<lambda>_.
        Inr (emit Start_group_check
               (map_primary (\<lambda>px. px\<lparr>px_group_check_task := Some (re_new_task env)\<rparr>) s))))"

definition clear_bulk_load_states_if_needed :: "partition_status \<Rightarrow> partition_status \<Rightarrow> rstate \<Rightarrow> rstate" where
  "clear_bulk_load_states_if_needed old_status new_status s =
     (if (new_status = PS_PRIMARY \<or> new_status = PS_SECONDARY) \<and> new_status \<noteq> old_status \<and>
         r_bulk_load_status (repl s) \<notin> {BLS_SUCCEED, BLS_CANCELED, BLS_FAILED, BLS_INVALID}
      then emit Clear_bulk_load
             (map_replica (\<lambda>r. r\<lparr>r_is_bulk_load_ingestion := False,
                r_bulk_load_ingestion_start_time_ms := 0, r_bulk_load_status := BLS_INVALID\<rparr>) s)
      else s)"

text \<open>The first switch of \<open>update_local_configuration\<close>: is the change refused?\<close>

definition change_refused :: "replica_configuration \<Rightarrow> rstate \<Rightarrow> (bool \<times> rstate) result" where
  "change_refused config s =
     (case status s of
        PS_ERROR \<Rightarrow> Inr (True, s)
      | PS_INACTIVE \<Rightarrow>
          Inr ((rc_status config = PS_PRIMARY \<or> rc_status config = PS_SECONDARY)
               \<and> \<not> r_inactive_is_transient (repl s), s)
      | PS_POTENTIAL_SECONDARY \<Rightarrow>
          if rc_status config = PS_INACTIVE
          then bind_result (learner_cleanup False (r_potential_secondary_states (repl s))) (\<lambda>(ok, lx).
                 Inr (\<not> ok, map_replica (\<lambda>r. r\<lparr>r_potential_secondary_states := lx\<rparr>) s))
          else Inr (False, s)
      | PS_SECONDARY \<Rightarrow>
          if rc_status config \<noteq> PS_SECONDARY \<and> rc_status config \<noteq> PS_ERROR
          then bind_result (secondary_cleanup False (r_secondary_states (repl s))) (\<lambda>(ok, sx).
                 Inr (\<not> ok, map_replica (\<lambda>r. r\<lparr>r_secondary_states := sx\<rparr>) s))
          else Inr (False, s)
      | PS_PARTITION_SPLIT \<Rightarrow> Inr (rc_status config = PS_INACTIVE, s)
      | _ \<Rightarrow> Inr (False, s))"

definition adopt_config :: "replica_configuration \<Rightarrow> rstate \<Rightarrow> rstate result" where
  "adopt_config config s =
     (let s1 = map_replica (\<lambda>r. r\<lparr>r_config := config\<rparr>) s;
          s2 = (if rc_ballot config > ballot_of s then parent_cleanup_split_context s1 else s1)
      in bind_result (check (max_prepared s2 \<ge> lcd s2) ''CHECK_GE'') (\<lambda>_.
           Inr (clear_bulk_load_states_if_needed (status s) (rc_status config) s2)))"

abbreviation invalid_path :: "rstate result" where
  "invalid_path \<equiv> Inl (Check_failed ''invalid execution path'')"

definition clean_primary :: "bool \<Rightarrow> rstate \<Rightarrow> rstate result" where
  "clean_primary clean_pending s =
     bind_result (primary_cleanup clean_pending (primary_states s)) (\<lambda>px. Inr (map_primary (\<lambda>_. px) s))"

definition become_primary :: "replica_env \<Rightarrow> replica committer \<Rightarrow> rstate \<Rightarrow> rstate result" where
  "become_primary env cm s = bind_result (init_group_check env s) (replay_prepare_list env cm)"

text \<open>The second switch, one definition per old status.\<close>

definition leave_primary :: "replica_env \<Rightarrow> replica committer \<Rightarrow> ballot \<Rightarrow> replica_configuration \<Rightarrow> rstate \<Rightarrow> rstate result" where
  "leave_primary env cm old_ballot config s0 =
     bind_result (cleanup_preparing_mutations False s0) (\<lambda>s.
       case rc_status config of
         PS_PRIMARY \<Rightarrow> replay_prepare_list env cm s
       | PS_INACTIVE \<Rightarrow>
           bind_result (clean_primary (old_ballot \<noteq> rc_ballot config) s) (\<lambda>s1.
             Inr (if old_ballot = rc_ballot config \<and> re_is_connected env then s1 else emit Cancel_backup s1))
       | PS_SECONDARY \<Rightarrow> bind_result (clean_primary True s) (\<lambda>s1. Inr (emit Cancel_backup s1))
       | PS_ERROR \<Rightarrow> bind_result (clean_primary True s) (\<lambda>s1. Inr (emit Cancel_backup s1))
       | _ \<Rightarrow> invalid_path)"

definition leave_secondary :: "replica_env \<Rightarrow> replica committer \<Rightarrow> replica_configuration \<Rightarrow> rstate \<Rightarrow> rstate result" where
  "leave_secondary env cm config s0 =
     bind_result (cleanup_preparing_mutations False s0) (\<lambda>s1.
       let s = (if rc_status config \<noteq> PS_SECONDARY then emit Cancel_backup s1 else s1)
       in case rc_status config of
            PS_PRIMARY \<Rightarrow> become_primary env cm s
          | PS_SECONDARY \<Rightarrow> Inr s
          | PS_POTENTIAL_SECONDARY \<Rightarrow>
              Inr (map_replica (\<lambda>r. r\<lparr>r_potential_secondary_states :=
                     (r_potential_secondary_states r)\<lparr>lx_learning_status := LearningWithoutPrepare\<rparr>\<rparr>) s)
          | PS_INACTIVE \<Rightarrow> Inr s
          | PS_ERROR \<Rightarrow> Inr s
          | _ \<Rightarrow> invalid_path)"

definition leave_potential_secondary :: "replica_configuration \<Rightarrow> rstate \<Rightarrow> rstate result" where
  "leave_potential_secondary config s =
     (case rc_status config of
        PS_SECONDARY \<Rightarrow>
          bind_result (truncate_list (r_app_decree (repl s)) (plist_of s)) (\<lambda>pl.
          bind_result (learner_cleanup True (r_potential_secondary_states (repl s))) (\<lambda>(ok, lx).
          bind_result (check ok ''potential secondary context cleanup failed'') (\<lambda>_.
            let s1 = map_replica (\<lambda>r. r\<lparr>r_potential_secondary_states := lx\<rparr>) (pl, snd s)
            in bind_result (check_state_completeness s1) (\<lambda>_. Inr s1))))
      | PS_POTENTIAL_SECONDARY \<Rightarrow> Inr s
      | PS_INACTIVE \<Rightarrow> Inr s
      | PS_ERROR \<Rightarrow>
          bind_result (learner_cleanup False (r_potential_secondary_states (repl s))) (\<lambda>(_, lx).
            Inr (map_replica (\<lambda>r. r\<lparr>r_potential_secondary_states := lx\<rparr>)
                   (reset_list (r_app_decree (repl s)) (plist_of s), snd s)))
      | _ \<Rightarrow> invalid_path)"

definition clean_split :: "bool \<Rightarrow> rstate \<Rightarrow> rstate result" where
  "clean_split force s =
     bind_result (split_cleanup force (r_split_states (repl s))) (\<lambda>(_, sp).
       Inr (map_replica (\<lambda>r. r\<lparr>r_split_states := sp\<rparr>) s))"

definition leave_split :: "replica_env \<Rightarrow> replica committer \<Rightarrow> replica_configuration \<Rightarrow> rstate \<Rightarrow> rstate result" where
  "leave_split env cm config s =
     (case rc_status config of
        PS_PRIMARY \<Rightarrow> bind_result (clean_split True s) (become_primary env cm)
      | PS_SECONDARY \<Rightarrow> clean_split True s
      | PS_INACTIVE \<Rightarrow> Inr s
      | PS_ERROR \<Rightarrow> clean_split False s
      | _ \<Rightarrow> invalid_path)"

abbreviation set_transient :: "bool \<Rightarrow> rstate \<Rightarrow> rstate" where
  "set_transient b s \<equiv> map_replica (\<lambda>r. r\<lparr>r_inactive_is_transient := b\<rparr>) s"

definition leave_inactive :: "replica_env \<Rightarrow> replica committer \<Rightarrow> replica_configuration \<Rightarrow> rstate \<Rightarrow> rstate result" where
  "leave_inactive env cm config s0 =
     (let s = (if rc_status config \<noteq> PS_PRIMARY \<or> \<not> r_inactive_is_transient (repl s0)
               then emit Cancel_backup s0 else s0);
          transient = r_inactive_is_transient (repl s)
      in case rc_status config of
           PS_PRIMARY \<Rightarrow>
             bind_result (check transient ''must be in transient state for being primary next'') (\<lambda>_.
               become_primary env cm (set_transient False s))
         | PS_SECONDARY \<Rightarrow>
             bind_result (check transient ''must be in transient state for being secondary next'') (\<lambda>_.
               Inr (set_transient False s))
         | PS_POTENTIAL_SECONDARY \<Rightarrow> Inr (set_transient False s)
         | PS_INACTIVE \<Rightarrow> Inr s
         | PS_ERROR \<Rightarrow>
             bind_result
               (if transient
                then bind_result (clean_primary True s) (\<lambda>s1.
                     bind_result (secondary_cleanup False (r_secondary_states (repl s1))) (\<lambda>(_, sx).
                       Inr (map_replica (\<lambda>r. r\<lparr>r_secondary_states := sx\<rparr>) s1)))
                else Inr s)
               (\<lambda>s1. Inr (set_transient False s1))
         | _ \<Rightarrow> invalid_path)"

definition leave_status :: "replica_env \<Rightarrow> replica committer \<Rightarrow> partition_status \<Rightarrow> ballot
    \<Rightarrow> replica_configuration \<Rightarrow> rstate \<Rightarrow> rstate result" where
  "leave_status env cm old_status old_ballot config s =
     (case old_status of
        PS_PRIMARY \<Rightarrow> leave_primary env cm old_ballot config s
      | PS_SECONDARY \<Rightarrow> leave_secondary env cm config s
      | PS_POTENTIAL_SECONDARY \<Rightarrow> leave_potential_secondary config s
      | PS_PARTITION_SPLIT \<Rightarrow> leave_split env cm config s
      | PS_INACTIVE \<Rightarrow> leave_inactive env cm config s
      | PS_ERROR \<Rightarrow> if rc_status config = PS_ERROR then Inr s else invalid_path
      | PS_INVALID \<Rightarrow> invalid_path)"

text \<open>The mutations waiting on a primary are started, or refused for lack of members.\<close>

definition start_pending :: "replica_env \<Rightarrow> replica committer \<Rightarrow> rstate \<Rightarrow> rstate result" where
  "start_pending env cm s =
     bind_result (next_work (queue_env_of env s) (store_of s) (to_int32 (max_prepared s - lcd s))
       (px_write_queue (primary_states s))) (\<lambda>(nxt, q).
     let s1 = map_primary (\<lambda>px. px\<lparr>px_write_queue := q\<rparr>) s
     in bind_result (case nxt of None \<Rightarrow> Inr s1 | Some p \<Rightarrow> init_prepare env cm p False False s1) (\<lambda>s2.
        bind_result (too_few_members env s2) (\<lambda>few.
          if \<not> few then Inr s2
          else (case clear_queue (px_write_queue (primary_states s2)) of (queued, q') \<Rightarrow>
                  Inr (fold (\<lambda>m. fold (\<lambda>req. response_client_write req ERR_NOT_ENOUGH_MEMBER)
                         (mu_client_requests (store_of s2 m))) queued
                       (map_primary (\<lambda>px. px\<lparr>px_write_queue := q'\<rparr>) s2))))))"

definition update_local_configuration :: "replica_env \<Rightarrow> replica committer \<Rightarrow> replica_configuration \<Rightarrow> bool
    \<Rightarrow> rstate \<Rightarrow> (bool \<times> rstate) result" where
  "update_local_configuration env cm config same_ballot s0 =
     bind_result (check (rc_ballot config > ballot_of s0 \<or> same_ballot \<and> rc_ballot config = ballot_of s0)
       ''invalid ballot'') (\<lambda>_.
     bind_result (check (rc_pid config = rc_pid (r_config (repl s0))) ''CHECK_EQ'') (\<lambda>_.
       let old_status = status s0; old_ballot = ballot_of s0
       in if old_status = rc_status config \<and> old_ballot = rc_ballot config then Inr (True, s0)
          else bind_result (change_refused config s0) (\<lambda>(refused, s1).
            if refused then Inr (False, s1)
            else bind_result (adopt_config config s1) (\<lambda>s2.
                 bind_result (leave_status env cm old_status old_ballot config s2) (\<lambda>s3.
                   let closing = (status s3 = PS_ERROR \<or> status s3 = PS_INACTIVE \<and> ballot_of s3 > old_ballot);
                       changed = (status s3 \<noteq> old_status);
                       s4 = emit (Notify_state_update config (changed \<and> closing)) s3
                   in if changed \<and> closing then Inr (False, emit Begin_close s4)
                      else bind_result (if status s4 = PS_PRIMARY then start_pending env cm s4 else Inr s4)
                             (\<lambda>s5. Inr (True, s5)))))))"

definition update_local_configuration_with_no_ballot_change :: "replica_env \<Rightarrow> replica committer
    \<Rightarrow> partition_status \<Rightarrow> rstate \<Rightarrow> (bool \<times> rstate) result" where
  "update_local_configuration_with_no_ballot_change env cm st s =
     (if status s = st then Inr (False, s)
      else update_local_configuration env cm ((r_config (repl s))\<lparr>rc_status := st\<rparr>) True s)"

definition handle_local_failure :: "replica_env \<Rightarrow> replica committer \<Rightarrow> error_code \<Rightarrow> rstate \<Rightarrow> rstate result" where
  "handle_local_failure env cm err s =
     (let s1 = map_replica (\<lambda>r. if err = ERR_DISK_IO_ERROR then r\<lparr>r_dir_status := IO_ERROR\<rparr>
                 else if err = ERR_RDB_CORRUPTION then r\<lparr>r_data_corrupted := True\<rparr> else r) s;
          s2 = (if status s1 = PS_PRIMARY
                then emit (Remove_replica_on_meta (px_pc (primary_states s1))) s1 else s1)
      in bind_result (update_local_configuration_with_no_ballot_change env cm PS_ERROR s2)
           (\<lambda>(_, s3). Inr s3))"

section \<open>Executing a mutation\<close>

text \<open>Whether the mutation is applied in the current role, or skipped.\<close>

definition apply_in_role :: "replica_env \<Rightarrow> mutation_ptr \<Rightarrow> rstate \<Rightarrow> (error_code \<times> rstate) result" where
  "apply_in_role env p s =
     (let d = mu_decree (store_of s p);
          apply_next = bind_result (check (r_app_decree (repl s) + 1 = d) ''CHECK_EQ'') (\<lambda>_. apply_mutation env p s);
          skip = Inr (ERR_OK, s);
          skip_logged = bind_result (check (r_has_private_log (repl s)) ''CHECK_NOTNULL'') (\<lambda>_. skip)
      in case status s of
           PS_INACTIVE \<Rightarrow> if r_app_decree (repl s) + 1 = d then apply_mutation env p s else skip
         | PS_PRIMARY \<Rightarrow> bind_result (check_state_completeness s) (\<lambda>_. apply_next)
         | PS_SECONDARY \<Rightarrow>
             if \<not> sx_checkpoint_is_running (r_secondary_states (repl s))
             then bind_result (check_state_completeness s) (\<lambda>_. apply_next) else skip_logged
         | PS_POTENTIAL_SECONDARY \<Rightarrow>
             if lx_learning_status (r_potential_secondary_states (repl s))
                  \<in> {LearningSucceeded, LearningWithPrepareTransient}
             then apply_next else skip_logged
         | PS_PARTITION_SPLIT \<Rightarrow> if sp_is_caught_up (r_split_states (repl s)) then apply_next else skip
         | PS_ERROR \<Rightarrow> skip
         | PS_INVALID \<Rightarrow> Inl (Check_failed ''invalid partition_status''))"

definition execute_mutation :: "replica_env \<Rightarrow> replica committer \<Rightarrow> replica committer" where
  "execute_mutation env cm p s0 =
     (let d = mu_decree (store_of s0 p)
      in bind_result (apply_in_role env p s0) (\<lambda>(err, s1).
         bind_result (if err \<noteq> ERR_OK then handle_local_failure env cm err s1 else Inr s1) (\<lambda>s.
           if status s \<noteq> PS_PRIMARY then Inr s
           else bind_result (next_work (queue_env_of env s) (store_of s) (to_int32 (max_prepared s - d))
                  (px_write_queue (primary_states s))) (\<lambda>(nxt, q).
             let s' = map_primary (\<lambda>px. px\<lparr>px_write_queue := q\<rparr>) s
             in case nxt of None \<Rightarrow> Inr s' | Some n \<Rightarrow> init_prepare env cm n False False s'))))"

text \<open>
  A commit executes mutations, and executing one may prepare the next, which may commit
  again. The committer with a bound on this nesting; a bound of one is enough because a
  mutation taken from the write queue has not been logged.
\<close>

primrec replica_committer :: "replica_env \<Rightarrow> nat \<Rightarrow> replica committer" where
  "replica_committer env 0 = (\<lambda>p s. Inl Diverges)"
| "replica_committer env (Suc n) = execute_mutation env (replica_committer env n)"

end
