(* ===== verification/Meta_Data.thy ===== *)
theory Meta_Data
  imports Replica "HOL-Library.Product_Lexorder"
begin

text \<open>
  The data of the meta server (\<^verbatim>\<open>src/src/meta/meta_data.h\<close> and \<^verbatim>\<open>meta_data.cpp\<close>):
  the configuration of a partition with its last dropped members, the state of a replica
  server as the meta server sees it with the partitions that pending proposals will add to it
  (\<open>newly_partitions\<close> of \<^verbatim>\<open>server_load_balancer.cpp\<close>), the queue of proposals of a partition, and
  the history of dropped replicas, which is kept ordered and bounded. A node stands for an
  address and for the host and port it resolves to. Tables are stateful, the only kind that
  the configuration updates of the meta server accept. Counters and times are unbounded.
\<close>

section \<open>Partition configurations\<close>

record meta_configuration = partition_configuration +
  pc_last_drops :: "node list"
  pc_partition_flags :: "32 word"

definition is_primary :: "'a partition_configuration_scheme \<Rightarrow> node \<Rightarrow> bool" where
  "is_primary pc n \<longleftrightarrow> pc_primary pc = Some n"

definition is_secondary :: "'a partition_configuration_scheme \<Rightarrow> node \<Rightarrow> bool" where
  "is_secondary pc n \<longleftrightarrow> n \<in> set (pc_secondaries pc)"

definition is_member :: "'a partition_configuration_scheme \<Rightarrow> node \<Rightarrow> bool" where
  "is_member pc n \<longleftrightarrow> is_primary pc n \<or> is_secondary pc n"

definition replica_count :: "'a partition_configuration_scheme \<Rightarrow> int" where
  "replica_count pc = (if pc_primary pc \<noteq> None then 1 else 0) + int (length (pc_secondaries pc))"

text \<open>\<open>is_partition_config_equal\<close>: the last drops do not count and the order of the secondaries does not.\<close>

definition is_partition_config_equal ::
  "'a partition_configuration_scheme \<Rightarrow> 'a partition_configuration_scheme \<Rightarrow> bool" where
  "is_partition_config_equal pc1 pc2 \<longleftrightarrow>
     list_all (is_secondary pc2) (pc_secondaries pc1) \<and>
     pc_ballot pc1 = pc_ballot pc2 \<and> pc_pid pc1 = pc_pid pc2 \<and>
     pc_max_replica_count pc1 = pc_max_replica_count pc2 \<and> pc_primary pc1 = pc_primary pc2 \<and>
     length (pc_secondaries pc1) = length (pc_secondaries pc2) \<and>
     pc_last_committed_decree pc1 = pc_last_committed_decree pc2"

datatype health_status = HS_DEAD | HS_UNREADABLE | HS_UNWRITABLE | HS_WRITABLE_ILL | HS_HEALTHY

definition partition_health_status :: "'a partition_configuration_scheme \<Rightarrow> int \<Rightarrow> health_status" where
  "partition_health_status pc mutation_2pc_min_replica_count =
     (if pc_primary pc = None then if pc_secondaries pc = [] then HS_DEAD else HS_UNREADABLE
      else if int (length (pc_secondaries pc)) + 1 < mutation_2pc_min_replica_count then HS_UNWRITABLE
      else if int (length (pc_secondaries pc)) + 1 < pc_max_replica_count pc then HS_WRITABLE_ILL
      else HS_HEALTHY)"

text \<open>\<open>when_update_replicas\<close>: whether a change adds a node to the group, removes one, or does neither.\<close>

definition when_update_replicas :: "config_type \<Rightarrow> bool option" where
  "when_update_replicas t =
     (case t of
        CT_ASSIGN_PRIMARY \<Rightarrow> Some True | CT_UPGRADE_TO_PRIMARY \<Rightarrow> Some True
      | CT_UPGRADE_TO_SECONDARY \<Rightarrow> Some True
      | CT_DOWNGRADE_TO_INACTIVE \<Rightarrow> Some False | CT_REMOVE \<Rightarrow> Some False
      | CT_DROP_PARTITION \<Rightarrow> Some False
      | _ \<Rightarrow> None)"

definition maintain_drops :: "'n list \<Rightarrow> 'n \<Rightarrow> config_type \<Rightarrow> 'n list result" where
  "maintain_drops drops n t =
     (case when_update_replicas t of
        None \<Rightarrow> Inr drops
      | Some True \<Rightarrow> Inr (remove1 n drops)
      | Some False \<Rightarrow>
          bind_result (check (n \<notin> set drops) ''the node cannot be in drops set before this update'') (\<lambda>_.
            let drops' = drops @ [n] in Inr (if length drops' > 3 then tl drops' else drops')))"

section \<open>Replica servers\<close>

text \<open>The partitions that pending cure proposals will add to a node; an absent count is zero.\<close>

record newly_partitions =
  np_total_primaries :: int
  np_total_partitions :: int
  np_primaries :: "int \<Rightarrow> int"
  np_partitions :: "int \<Rightarrow> int"

definition newly_partitions_init :: newly_partitions where
  "newly_partitions_init =
     \<lparr>np_total_primaries = 0, np_total_partitions = 0, np_primaries = (\<lambda>_. 0), np_partitions = (\<lambda>_. 0)\<rparr>"

record node_state =
  ns_primaries :: "gpid set"
  ns_partitions :: "gpid set"
  ns_total_primaries :: int
  ns_total_partitions :: int
  ns_is_alive :: bool
  ns_has_collected :: bool
  ns_newly :: newly_partitions

definition node_state_init :: node_state where
  "node_state_init =
     \<lparr>ns_primaries = {}, ns_partitions = {}, ns_total_primaries = 0, ns_total_partitions = 0,
      ns_is_alive = False, ns_has_collected = False, ns_newly = newly_partitions_init\<rparr>"

definition put_partition :: "gpid \<Rightarrow> bool \<Rightarrow> node_state \<Rightarrow> node_state" where
  "put_partition pid is_prim ns =
     (let ns1 = ns\<lparr>ns_partitions := insert pid (ns_partitions ns),
                   ns_total_partitions := ns_total_partitions ns + (if pid \<in> ns_partitions ns then 0 else 1)\<rparr>
      in if is_prim
         then ns1\<lparr>ns_primaries := insert pid (ns_primaries ns1),
                  ns_total_primaries := ns_total_primaries ns1 + (if pid \<in> ns_primaries ns1 then 0 else 1)\<rparr>
         else ns1)"

definition remove_partition :: "gpid \<Rightarrow> bool \<Rightarrow> node_state \<Rightarrow> node_state" where
  "remove_partition pid only_primary ns =
     (let ns1 = ns\<lparr>ns_primaries := ns_primaries ns - {pid},
                   ns_total_primaries := ns_total_primaries ns - (if pid \<in> ns_primaries ns then 1 else 0)\<rparr>
      in if only_primary then ns1
         else ns1\<lparr>ns_partitions := ns_partitions ns1 - {pid},
                  ns_total_partitions := ns_total_partitions ns1 - (if pid \<in> ns_partitions ns1 then 1 else 0)\<rparr>)"

definition served_as :: "node_state \<Rightarrow> gpid \<Rightarrow> partition_status" where
  "served_as ns pid =
     (if pid \<in> ns_primaries ns then PS_PRIMARY
      else if pid \<in> ns_partitions ns then PS_SECONDARY else PS_INACTIVE)"

text \<open>\<open>get_partitions\<close>: the code keeps the partitions of a node per table.\<close>

definition app_gpids :: "int \<Rightarrow> gpid set \<Rightarrow> gpid set" where
  "app_gpids app pids = Set.filter (\<lambda>pid. fst pid = app) pids"

text \<open>The counts of a node with the newly added partitions, per table and in total.\<close>

definition np_primary_count :: "node_state \<Rightarrow> int \<Rightarrow> int" where
  "np_primary_count ns app = int (card (app_gpids app (ns_primaries ns))) + np_primaries (ns_newly ns) app"

definition np_partition_count :: "node_state \<Rightarrow> int \<Rightarrow> int" where
  "np_partition_count ns app = int (card (app_gpids app (ns_partitions ns))) + np_partitions (ns_newly ns) app"

definition np_all_primaries :: "node_state \<Rightarrow> int" where
  "np_all_primaries ns = np_total_primaries (ns_newly ns) + ns_total_primaries ns"

definition np_all_partitions :: "node_state \<Rightarrow> int" where
  "np_all_partitions ns = np_total_partitions (ns_newly ns) + ns_total_partitions ns"

definition less_primaries :: "node_state \<Rightarrow> node_state \<Rightarrow> int \<Rightarrow> bool" where
  "less_primaries ns another app =
     (if np_primary_count ns app \<noteq> np_primary_count another app
      then np_primary_count ns app < np_primary_count another app
      else if np_partition_count ns app \<noteq> np_partition_count another app
      then np_partition_count ns app < np_partition_count another app
      else if np_all_primaries ns \<noteq> np_all_primaries another
      then np_all_primaries ns < np_all_primaries another
      else np_all_partitions ns < np_all_partitions another)"

definition less_partitions :: "node_state \<Rightarrow> node_state \<Rightarrow> int \<Rightarrow> bool" where
  "less_partitions ns another app =
     (if np_partition_count ns app \<noteq> np_partition_count another app
      then np_partition_count ns app < np_partition_count another app
      else np_all_partitions ns < np_all_partitions another)"

definition newly_add_partition :: "int \<Rightarrow> newly_partitions \<Rightarrow> newly_partitions" where
  "newly_add_partition app np =
     np\<lparr>np_partitions := (np_partitions np)(app := np_partitions np app + 1),
        np_total_partitions := np_total_partitions np + 1\<rparr>"

definition newly_add_primary :: "int \<Rightarrow> bool \<Rightarrow> newly_partitions \<Rightarrow> newly_partitions" where
  "newly_add_primary app only_primary np =
     (let np1 = np\<lparr>np_primaries := (np_primaries np)(app := np_primaries np app + 1),
                   np_total_primaries := np_total_primaries np + 1\<rparr>
      in if only_primary then np1 else newly_add_partition app np1)"

definition newly_remove_partition :: "int \<Rightarrow> newly_partitions \<Rightarrow> newly_partitions result" where
  "newly_remove_partition app np =
     bind_result (check (np_partitions np app > 0) ''invalid partition count'') (\<lambda>_.
     bind_result (check (np_total_partitions np > 0) ''CHECK_GT'') (\<lambda>_.
       Inr (np\<lparr>np_partitions := (np_partitions np)(app := np_partitions np app - 1),
               np_total_partitions := np_total_partitions np - 1\<rparr>)))"

definition newly_remove_primary :: "int \<Rightarrow> bool \<Rightarrow> newly_partitions \<Rightarrow> newly_partitions result" where
  "newly_remove_primary app only_primary np =
     bind_result (check (np_primaries np app > 0) ''invalid primary count'') (\<lambda>_.
     bind_result (check (np_total_primaries np > 0) ''invalid total primaires'') (\<lambda>_.
       let np1 = np\<lparr>np_primaries := (np_primaries np)(app := np_primaries np app - 1),
                    np_total_primaries := np_total_primaries np - 1\<rparr>
       in if only_primary then Inr np1 else newly_remove_partition app np1))"

text \<open>
  The nodes by name, in the order in which the code happens to iterate over the hash map.
\<close>

type_synonym node_mapper = "(node \<times> node_state) list"

definition update_node :: "node \<Rightarrow> (node_state \<Rightarrow> node_state) \<Rightarrow> node_mapper \<Rightarrow> node_mapper" where
  "update_node n f nodes = map (\<lambda>(m, ns). (m, if m = n then f ns else ns)) nodes"

definition is_node_alive :: "node_mapper \<Rightarrow> node \<Rightarrow> bool" where
  "is_node_alive nodes n = (case map_of nodes n of None \<Rightarrow> False | Some ns \<Rightarrow> ns_is_alive ns)"

text \<open>\<open>get_node_state\<close> with \<open>create_new\<close>.\<close>

definition ensure_node :: "node \<Rightarrow> node_mapper \<Rightarrow> node_mapper" where
  "ensure_node n nodes = (if map_of nodes n = None then nodes @ [(n, node_state_init)] else nodes)"

section \<open>Proposals\<close>

datatype pc_status = healthy | ill | dead | invalid

record configuration_proposal_action =
  pa_target :: "node option"
  pa_node :: "node option"
  pa_type :: config_type

datatype manual_compaction_status = IDLE | QUEUING | RUNNING | FINISHED

record replica_info =
  ri_pid :: gpid
  ri_ballot :: ballot
  ri_status :: partition_status
  ri_last_committed_decree :: decree
  ri_last_prepared_decree :: decree
  ri_last_durable_decree :: decree
  ri_disk_tag :: string
  ri_manual_compact_status :: "manual_compaction_status option"

record proposal_actions =
  la_from_balancer :: bool
  la_abnormal :: bool
  la_current_learner :: replica_info
  la_acts :: "configuration_proposal_action list"

definition reset_tracked_current_learner :: "proposal_actions \<Rightarrow> proposal_actions" where
  "reset_tracked_current_learner la =
     la\<lparr>la_abnormal := False,
        la_current_learner := (la_current_learner la)\<lparr>ri_ballot := invalid_ballot,
          ri_last_durable_decree := invalid_decree, ri_last_committed_decree := invalid_decree,
          ri_last_prepared_decree := invalid_decree\<rparr>\<rparr>"

definition proposal_actions_init :: proposal_actions where
  "proposal_actions_init =
     reset_tracked_current_learner \<lparr>la_from_balancer = False, la_abnormal = False,
       la_current_learner = \<lparr>ri_pid = (0, 0), ri_ballot = 0, ri_status = PS_INVALID,
         ri_last_committed_decree = 0, ri_last_prepared_decree = 0, ri_last_durable_decree = 0,
         ri_disk_tag = [], ri_manual_compact_status = None\<rparr>, la_acts = []\<rparr>"

definition is_adding_secondary :: "config_type \<Rightarrow> bool" where
  "is_adding_secondary t \<longleftrightarrow> t = CT_ADD_SECONDARY \<or> t = CT_ADD_SECONDARY_FOR_LB"

definition track_current_learner :: "node \<Rightarrow> replica_info \<Rightarrow> proposal_actions \<Rightarrow> proposal_actions result" where
  "track_current_learner n info la =
     (case la_acts la of
        [] \<Rightarrow> Inr la
      | act # _ \<Rightarrow>
          bind_result (check (pa_node act \<noteq> None) ''CHECK'') (\<lambda>_.
            if pa_node act \<noteq> Some n \<or> \<not> is_adding_secondary (pa_type act) then Inr la
            else if ri_status info = PS_ERROR \<or> ri_status info = PS_INACTIVE
            then Inr (if ri_ballot (la_current_learner la) \<noteq> invalid_ballot then la\<lparr>la_abnormal := True\<rparr> else la)
            else if ri_status info = PS_POTENTIAL_SECONDARY
            then Inr (la\<lparr>la_abnormal := False, la_current_learner := info\<rparr>)
            else Inr la))"

definition is_abnormal_learning_proposal :: "proposal_actions \<Rightarrow> bool" where
  "is_abnormal_learning_proposal la =
     (case la_acts la of [] \<Rightarrow> False | act # _ \<Rightarrow> is_adding_secondary (pa_type act) \<and> la_abnormal la)"

definition clear_actions :: "proposal_actions \<Rightarrow> proposal_actions" where
  "clear_actions la = reset_tracked_current_learner (la\<lparr>la_from_balancer := False, la_acts := []\<rparr>)"

definition pop_front_action :: "proposal_actions \<Rightarrow> proposal_actions" where
  "pop_front_action la =
     (if la_acts la \<noteq> [] then reset_tracked_current_learner (la\<lparr>la_acts := tl (la_acts la)\<rparr>) else la)"

definition assign_cure_proposal :: "configuration_proposal_action \<Rightarrow> proposal_actions \<Rightarrow> proposal_actions" where
  "assign_cure_proposal act la =
     reset_tracked_current_learner (la\<lparr>la_from_balancer := False, la_acts := [act]\<rparr>)"

definition assign_balancer_proposals :: "configuration_proposal_action list \<Rightarrow> proposal_actions \<Rightarrow> proposal_actions" where
  "assign_balancer_proposals acts la =
     reset_tracked_current_learner (la\<lparr>la_from_balancer := True, la_acts := acts\<rparr>)"

section \<open>The context of a partition\<close>

datatype config_status = not_pending | pending_proposal | pending_remote_sync | invalid_status

record dropped_replica =
  dr_node :: node
  dr_time :: int
  dr_ballot :: ballot
  dr_last_committed_decree :: decree
  dr_last_prepared_decree :: decree

definition dropped_cmp :: "dropped_replica \<Rightarrow> dropped_replica \<Rightarrow> int" where
  "dropped_cmp d1 d2 =
     (if dr_time d1 \<noteq> dr_time d2 then if dr_time d1 < dr_time d2 then - 1 else 1
      else if dr_ballot d1 \<noteq> dr_ballot d2 then if dr_ballot d1 < dr_ballot d2 then - 1 else 1
      else if dr_last_committed_decree d1 \<noteq> dr_last_committed_decree d2
      then if dr_last_committed_decree d1 < dr_last_committed_decree d2 then - 1 else 1
      else if dr_last_prepared_decree d1 \<noteq> dr_last_prepared_decree d2
      then if dr_last_prepared_decree d1 < dr_last_prepared_decree d2 then - 1 else 1
      else 0)"

record serving_replica =
  sr_node :: node
  sr_storage_mb :: int
  sr_disk_tag :: string
  sr_compact_status :: manual_compaction_status

text \<open>
  An update of the configuration as the meta server has it; the node is absent when the
  partition that is dropped has no primary. The task that syncs a request is pending exactly
  while the request is.
\<close>

record update_request =
  ur_type :: config_type
  ur_node :: "node option"
  ur_config :: meta_configuration

type_synonym message = nat

record config_context =
  cc_stage :: config_status
  cc_pending_sync_request :: "update_request option"
  cc_msg :: "message option"
  cc_lb_actions :: proposal_actions
  cc_serving :: "serving_replica list"
  cc_dropped :: "dropped_replica list"
  cc_prefered_dropped :: int

definition config_context_init :: config_context where
  "config_context_init =
     \<lparr>cc_stage = not_pending, cc_pending_sync_request = None, cc_msg = None,
      cc_lb_actions = proposal_actions_init, cc_serving = [], cc_dropped = [],
      cc_prefered_dropped = - 1\<rparr>"

definition cancel_sync :: "config_context \<Rightarrow> config_context" where
  "cancel_sync cc =
     (if cc_stage cc = pending_remote_sync then cc\<lparr>cc_pending_sync_request := None\<rparr> else cc)
       \<lparr>cc_msg := None, cc_stage := not_pending\<rparr>"

text \<open>
  \<open>check_size\<close> drops the oldest replicas while the group has more than the flag
  \<open>max_reserved_dropped_replicas\<close> allows.
\<close>

fun drop_oldest :: "int \<Rightarrow> dropped_replica list \<Rightarrow> int \<Rightarrow> dropped_replica list \<times> int" where
  "drop_oldest bound [] preferred = ([], preferred)"
| "drop_oldest bound (d # ds) preferred =
     (if int (length (d # ds)) > bound then drop_oldest bound ds (int (length ds) - 1) else (d # ds, preferred))"

definition check_size :: "int \<Rightarrow> 'a partition_configuration_scheme \<Rightarrow> config_context \<Rightarrow> config_context" where
  "check_size reserved pc cc =
     (case drop_oldest (pc_max_replica_count pc + reserved - replica_count pc) (cc_dropped cc) (cc_prefered_dropped cc) of
        (ds, p) \<Rightarrow> cc\<lparr>cc_dropped := ds, cc_prefered_dropped := p\<rparr>)"

definition find_from_dropped :: "node \<Rightarrow> config_context \<Rightarrow> dropped_replica option" where
  "find_from_dropped n cc = find (\<lambda>r. dr_node r = n) (cc_dropped cc)"

fun erase_dropped :: "node \<Rightarrow> dropped_replica list \<Rightarrow> dropped_replica list" where
  "erase_dropped n [] = []"
| "erase_dropped n (d # ds) = (if dr_node d = n then ds else d # erase_dropped n ds)"

definition remove_from_dropped :: "node \<Rightarrow> config_context \<Rightarrow> bool \<times> config_context" where
  "remove_from_dropped n cc =
     (if find_from_dropped n cc = None then (False, cc)
      else let ds = erase_dropped n (cc_dropped cc)
           in (True, cc\<lparr>cc_dropped := ds, cc_prefered_dropped := int (length ds) - 1\<rparr>))"

definition record_drop_history :: "int \<Rightarrow> int \<Rightarrow> 'a partition_configuration_scheme \<Rightarrow> node \<Rightarrow> config_context
    \<Rightarrow> bool \<times> config_context" where
  "record_drop_history reserved now_ms pc n cc =
     (if find_from_dropped n cc \<noteq> None then (False, cc)
      else let ds = cc_dropped cc @ [\<lparr>dr_node = n, dr_time = now_ms, dr_ballot = invalid_ballot,
                    dr_last_committed_decree = invalid_decree, dr_last_prepared_decree = invalid_decree\<rparr>]
           in (True, check_size reserved pc (cc\<lparr>cc_dropped := ds, cc_prefered_dropped := int (length ds) - 1\<rparr>)))"

text \<open>\<open>std::lower_bound\<close> with \<open>dropped_cmp\<close>: the range of the given length that starts at an index is halved.\<close>

function lower_bound :: "dropped_replica list \<Rightarrow> dropped_replica \<Rightarrow> nat \<Rightarrow> nat \<Rightarrow> nat" where
  "lower_bound ds x first len =
     (if len = 0 then first
      else let half = len div 2
           in if dropped_cmp (ds ! (first + half)) x < 0
              then lower_bound ds x (first + half + 1) (len - half - 1)
              else lower_bound ds x first half)"
  by pat_completeness auto

termination
  by (relation "measure (\<lambda>(_, _, _, len). len)") auto

definition collect_drop_replica :: "int \<Rightarrow> 'a partition_configuration_scheme \<Rightarrow> node \<Rightarrow> replica_info \<Rightarrow> config_context
    \<Rightarrow> (int \<times> config_context) result" where
  "collect_drop_replica reserved pc n info cc =
     (let old = find_from_dropped n cc;
          ds = (if old \<noteq> None then erase_dropped n (cc_dropped cc) else cc_dropped cc);
          current = \<lparr>dr_node = n, dr_time = (case old of None \<Rightarrow> 0 | Some d \<Rightarrow> dr_time d),
                     dr_ballot = ri_ballot info, dr_last_committed_decree = ri_last_committed_decree info,
                     dr_last_prepared_decree = ri_last_prepared_decree info\<rparr>;
          i = lower_bound ds current 0 (length ds);
          ds' = take i ds @ [current] @ drop i ds;
          cc' = check_size reserved pc (cc\<lparr>cc_dropped := ds', cc_prefered_dropped := int (length ds') - 1\<rparr>)
      in if find_from_dropped n cc' = None
         then bind_result (check (old = None) ''adjust position of existing node failed, this is a bug'') (\<lambda>_. Inr (- 1, cc'))
         else Inr (if old \<noteq> None then 1 else 0, cc'))"

fun check_order :: "dropped_replica list \<Rightarrow> bool" where
  "check_order (d1 # d2 # ds) \<longleftrightarrow> \<not> dropped_cmp d1 d2 > 0 \<and> check_order (d2 # ds)"
| "check_order _ \<longleftrightarrow> True"

definition find_from_serving :: "node \<Rightarrow> config_context \<Rightarrow> serving_replica option" where
  "find_from_serving n cc = find (\<lambda>r. sr_node r = n) (cc_serving cc)"

fun erase_serving :: "node \<Rightarrow> serving_replica list \<Rightarrow> serving_replica list" where
  "erase_serving n [] = []"
| "erase_serving n (r # rs) = (if sr_node r = n then rs else r # erase_serving n rs)"

definition remove_from_serving :: "node \<Rightarrow> config_context \<Rightarrow> config_context" where
  "remove_from_serving n cc = cc\<lparr>cc_serving := erase_serving n (cc_serving cc)\<rparr>"

fun update_serving :: "node \<Rightarrow> string \<Rightarrow> manual_compaction_status \<Rightarrow> serving_replica list \<Rightarrow> serving_replica list" where
  "update_serving n tag st [] = [\<lparr>sr_node = n, sr_storage_mb = 0, sr_disk_tag = tag, sr_compact_status = st\<rparr>]"
| "update_serving n tag st (r # rs) =
     (if sr_node r = n then r\<lparr>sr_disk_tag := tag, sr_storage_mb := 0, sr_compact_status := st\<rparr> # rs
      else r # update_serving n tag st rs)"

definition collect_serving_replica :: "node \<Rightarrow> replica_info \<Rightarrow> config_context \<Rightarrow> config_context" where
  "collect_serving_replica n info cc =
     cc\<lparr>cc_serving := update_serving n (ri_disk_tag info)
          (case ri_manual_compact_status info of None \<Rightarrow> IDLE | Some st \<Rightarrow> st) (cc_serving cc)\<rparr>"

definition adjust_proposal :: "node \<Rightarrow> replica_info \<Rightarrow> config_context \<Rightarrow> config_context result" where
  "adjust_proposal n info cc =
     bind_result (track_current_learner n info (cc_lb_actions cc)) (\<lambda>la. Inr (cc\<lparr>cc_lb_actions := la\<rparr>))"

text \<open>\<open>collect_replica\<close>, given the configuration and the context of the partition.\<close>

definition collect_replica :: "int \<Rightarrow> meta_configuration \<Rightarrow> node \<Rightarrow> replica_info \<Rightarrow> config_context
    \<Rightarrow> (bool \<times> config_context) result" where
  "collect_replica reserved pc n info cc =
     (if pc_ballot pc = invalid_ballot then Inr (False, cc)
      else if is_member pc n then Inr (True, collect_serving_replica n info cc)
      else bind_result (adjust_proposal n info cc) (\<lambda>cc1.
        bind_result (collect_drop_replica reserved pc n info cc1) (\<lambda>(ans, cc2).
        bind_result (check (check_order (cc_dropped cc2)) ''CHECK'') (\<lambda>_.
          Inr (ri_status info = PS_POTENTIAL_SECONDARY \<or> ans \<noteq> - 1, cc2)))))"

text \<open>\<open>construct_replica\<close>: a group from the collected replicas, the last one as the primary.\<close>

fun head_insert_drops :: "int \<Rightarrow> dropped_replica list \<Rightarrow> node list \<Rightarrow> node list" where
  "head_insert_drops max_count [] drops = drops"
| "head_insert_drops max_count (d # ds) drops =
     (if int (length drops) + 1 \<ge> max_count then drops else head_insert_drops max_count ds (dr_node d # drops))"

definition construct_replica :: "int \<Rightarrow> meta_configuration \<Rightarrow> config_context
    \<Rightarrow> (bool \<times> meta_configuration \<times> config_context) result" where
  "construct_replica max_count pc cc =
     bind_result (check (replica_count pc = 0) ''replica count must be 0'') (\<lambda>_.
     bind_result (check (max_count > 0) ''CHECK_GT'') (\<lambda>_.
       if cc_dropped cc = [] then Inr (False, pc, cc)
       else let server = last (cc_dropped cc); ds = butlast (cc_dropped cc)
            in bind_result (check (dr_ballot server \<noteq> invalid_ballot) ''the ballot of server must not be invalid_ballot'') (\<lambda>_.
               bind_result (check (pc_last_drops pc = []) ''last_drops must be empty'') (\<lambda>_.
                 Inr (True, pc\<lparr>pc_primary := Some (dr_node server), pc_ballot := dr_ballot server,
                              pc_partition_flags := 0, pc_max_replica_count := max_count,
                              pc_last_drops := head_insert_drops max_count (rev ds) []\<rparr>,
                      cc\<lparr>cc_dropped := ds, cc_prefered_dropped := int (length ds) - 1\<rparr>)))))"

end
