(* ===== verification/Partition_Guardian.thy ===== *)
theory Partition_Guardian
  imports Meta_Data
begin

text \<open>
  The part of the meta server that decides how to repair a partition
  (\<^verbatim>\<open>src/src/meta/partition_guardian.cpp\<close>): it proposes a primary when there is none, a new
  secondary when there are too few and the removal of one when there are too many, keeps one
  queue of proposals per partition, and undoes the counts of a proposal when it ends. The
  state is the part of \<open>server_state\<close> that it works on: the tables, their configurations and
  contexts, indexed by partition, and the replica servers. A null pointer is dereferenced where
  the code relies on a table or a node to be known; this aborts. So does a configuration update
  other than a drop that names no node, with which the code would go on as with an invalid one;
  the meta server never stores such an update. Ballots and decrees are unbounded integers, also
  where the code multiplies the differences of two of them. The text of the reasons reported to
  the administrator is a datatype.
\<close>

section \<open>State\<close>

datatype app_status =
    AS_INVALID | AS_AVAILABLE | AS_CREATING | AS_CREATE_FAILED | AS_DROPPING | AS_DROP_FAILED
  | AS_DROPPED | AS_RECALLING

record app_state =
  as_status :: app_status
  as_partition_count :: int
  as_max_replica_count :: int
  as_expire_second :: int
  as_partitions_in_progress :: int
  as_pending_response :: "message option"

record partition_state =
  ps_pc :: meta_configuration
  ps_cc :: config_context

datatype ddd_reason =
    No_reason | Not_come_back node | Not_in_dropped node | Not_collected node | No_replica_info
  | Larger_ballot_smaller_decree

record ddd_node_info =
  dn_node :: node
  dn_drop_time_ms :: int
  dn_ballot :: ballot
  dn_last_committed_decree :: decree
  dn_last_prepared_decree :: decree
  dn_is_alive :: bool
  dn_is_collected :: bool

record ddd_partition_info =
  di_config :: meta_configuration
  di_dropped :: "ddd_node_info list"
  di_reason :: ddd_reason

datatype meta_effect =
    Send_proposal "node option" update_request
  | Reply_update message error_code meta_configuration
  | Sync_remote update_request
  | Reply_staging message app_status

record meta =
  m_apps :: "int \<rightharpoonup> app_state"
  m_exist_apps :: "int list"
  m_parts :: "gpid \<rightharpoonup> partition_state"
  m_nodes :: node_mapper
  m_ddd :: "gpid \<rightharpoonup> ddd_partition_info"
  m_effects :: "meta_effect list"

text \<open>The flags, the clock and the black list that is set by a remote command.\<close>

record meta_env =
  me_now_ms :: int
  me_replica_assign_delay_ms_for_dropouts :: int
  me_assign_secondary_black_list :: "node set"
  me_mutation_2pc_min_replica_count :: int
  me_max_reserved_dropped_replicas :: int
  me_function_level :: int
  me_add_secondary_enable_flow_control :: bool
  me_add_secondary_max_count_for_one_node :: int

text \<open>\<open>get_config\<close> and \<open>get_config_context\<close>, and the use of the pointers they return.\<close>

definition get_partition :: "gpid \<Rightarrow> meta \<Rightarrow> partition_state result" where
  "get_partition pid m =
     (case m_apps m (fst pid) of
        None \<Rightarrow> Inl (Out_of_bounds ''get_config'')
      | Some app \<Rightarrow>
          if as_status app = AS_DROPPED then Inl (Out_of_bounds ''get_config'')
          else case m_parts m pid of None \<Rightarrow> Inl (Out_of_bounds ''pcs'') | Some p \<Rightarrow> Inr p)"

definition put_context :: "gpid \<Rightarrow> partition_state \<Rightarrow> config_context \<Rightarrow> meta \<Rightarrow> meta" where
  "put_context pid p cc m = m\<lparr>m_parts := (m_parts m)(pid \<mapsto> p\<lparr>ps_cc := cc\<rparr>)\<rparr>"

definition set_newly :: "node \<Rightarrow> (newly_partitions \<Rightarrow> newly_partitions) \<Rightarrow> node_mapper \<Rightarrow> node_mapper" where
  "set_newly n f = update_node n (\<lambda>ns. ns\<lparr>ns_newly := f (ns_newly ns)\<rparr>)"

definition no_action :: configuration_proposal_action where
  "no_action = \<lparr>pa_target = None, pa_node = None, pa_type = CT_INVALID\<rparr>"

section \<open>Pending proposals\<close>

definition finish_cure_proposal :: "gpid \<Rightarrow> configuration_proposal_action \<Rightarrow> node_mapper \<Rightarrow> node_mapper result" where
  "finish_cure_proposal pid act nodes =
     (case pa_node act of
        None \<Rightarrow> Inr nodes
      | Some n \<Rightarrow>
          (case map_of nodes n of
             None \<Rightarrow> Inr nodes
           | Some ns \<Rightarrow>
               bind_result
                 (if pa_type act = CT_ASSIGN_PRIMARY then newly_remove_primary (fst pid) False (ns_newly ns)
                  else if pa_type act = CT_UPGRADE_TO_PRIMARY then newly_remove_primary (fst pid) True (ns_newly ns)
                  else if pa_type act = CT_UPGRADE_TO_SECONDARY \<or> pa_type act = CT_ADD_SECONDARY
                  then newly_remove_partition (fst pid) (ns_newly ns)
                  else Inr (ns_newly ns))
                 (\<lambda>np. Inr (set_newly n (\<lambda>_. np) nodes))))"

definition action_valid :: "node_mapper \<Rightarrow> meta_configuration \<Rightarrow> proposal_actions \<Rightarrow> configuration_proposal_action \<Rightarrow> bool" where
  "action_valid nodes pc la act =
     (case pa_target act of
        None \<Rightarrow> False
      | Some target \<Rightarrow>
          is_node_alive nodes target \<and>
          (case pa_node act of
             None \<Rightarrow> False
           | Some n \<Rightarrow>
               is_node_alive nodes n \<and> \<not> is_abnormal_learning_proposal la \<and>
               (case pa_type act of
                  CT_ASSIGN_PRIMARY \<Rightarrow> n = target \<and> pc_primary pc = None \<and> \<not> is_secondary pc n
                | CT_UPGRADE_TO_PRIMARY \<Rightarrow> n = target \<and> pc_primary pc = None \<and> is_secondary pc n
                | CT_ADD_SECONDARY \<Rightarrow> is_primary pc target \<and> \<not> is_secondary pc n
                | CT_ADD_SECONDARY_FOR_LB \<Rightarrow> is_primary pc target \<and> \<not> is_secondary pc n
                | CT_DOWNGRADE_TO_INACTIVE \<Rightarrow> is_primary pc target \<and> is_member pc n
                | CT_REMOVE \<Rightarrow> is_primary pc target \<and> is_member pc n
                | CT_DOWNGRADE_TO_SECONDARY \<Rightarrow> target = n \<and> is_primary pc target
                | _ \<Rightarrow> False)))"

text \<open>The loop that clears the proposals after an invalid one.\<close>

fun drain_actions :: "gpid \<Rightarrow> configuration_proposal_action list \<Rightarrow> proposal_actions \<Rightarrow> node_mapper
    \<Rightarrow> (proposal_actions \<times> node_mapper) result" where
  "drain_actions pid [] la nodes = Inr (la, nodes)"
| "drain_actions pid (act # acts) la nodes =
     bind_result (if la_from_balancer la then Inr nodes else finish_cure_proposal pid act nodes)
       (\<lambda>nodes'. drain_actions pid acts (pop_front_action la) nodes')"

definition from_proposals :: "gpid \<Rightarrow> meta \<Rightarrow> (bool \<times> configuration_proposal_action \<times> meta) result" where
  "from_proposals pid m =
     bind_result (get_partition pid m) (\<lambda>p.
       let la = cc_lb_actions (ps_cc p)
       in case la_acts la of
            [] \<Rightarrow> Inr (False, no_action, m)
          | act # _ \<Rightarrow>
              if action_valid (m_nodes m) (ps_pc p) la act then Inr (True, act, m)
              else bind_result (drain_actions pid (la_acts la) la (m_nodes m)) (\<lambda>(la', nodes).
                Inr (False, act\<lparr>pa_type := CT_INVALID\<rparr>,
                     put_context pid p ((ps_cc p)\<lparr>cc_lb_actions := la'\<rparr>) (m\<lparr>m_nodes := nodes\<rparr>))))"

section \<open>A missing primary\<close>

text \<open>The living secondary with the fewest primaries.\<close>

fun best_secondary :: "node_mapper \<Rightarrow> int \<Rightarrow> node list \<Rightarrow> (node \<times> node_state) option \<Rightarrow> (node \<times> node_state) option result" where
  "best_secondary nodes app [] best = Inr best"
| "best_secondary nodes app (n # rest) best =
     (case map_of nodes n of
        None \<Rightarrow> Inl (Check_failed ''invalid secondary'')
      | Some ns \<Rightarrow>
          if \<not> ns_is_alive ns then best_secondary nodes app rest best
          else best_secondary nodes app rest
                 (case best of
                    None \<Rightarrow> Some (n, ns)
                  | Some (b, bs) \<Rightarrow> if less_primaries ns bs app then Some (n, ns) else Some (b, bs)))"

text \<open>The living node with the fewest primaries.\<close>

fun min_primary_server :: "int \<Rightarrow> node_mapper \<Rightarrow> (node \<times> node_state) option \<Rightarrow> (node \<times> node_state) option" where
  "min_primary_server app [] best = best"
| "min_primary_server app ((n, ns) # rest) best =
     (if \<not> ns_is_alive ns then min_primary_server app rest best
      else min_primary_server app rest
             (case best of
                None \<Rightarrow> Some (n, ns)
              | Some (b, bs) \<Rightarrow> if less_primaries ns bs app then Some (n, ns) else Some (b, bs)))"

text \<open>What is known of one of the last two dropped nodes, or why it cannot be relied on.\<close>

definition collected_info :: "node_mapper \<Rightarrow> config_context \<Rightarrow> node \<Rightarrow> ddd_reason + dropped_replica" where
  "collected_info nodes cc n =
     (case map_of nodes n of
        None \<Rightarrow> Inl (Not_come_back n)
      | Some ns \<Rightarrow>
          if \<not> ns_is_alive ns then Inl (Not_come_back n)
          else let it = find_from_dropped n cc
               in if it = None \<or> dr_ballot (the it) = invalid_ballot
                  then if ns_has_collected ns
                       then Inr \<lparr>dr_node = n, dr_time = 0, dr_ballot = - 1, dr_last_committed_decree = - 1,
                                 dr_last_prepared_decree = - 1\<rparr>
                       else Inl (if it = None then Not_in_dropped n else Not_collected n)
                  else Inr (the it))"

definition select_primary :: "decree \<Rightarrow> dropped_replica \<Rightarrow> dropped_replica \<Rightarrow> ddd_reason + node" where
  "select_primary meta_committed previous_dead recent_dead =
     (let gap1 = dr_ballot previous_dead - dr_ballot recent_dead;
          gap2 = dr_last_committed_decree previous_dead - dr_last_committed_decree recent_dead;
          larger_cd = max (dr_last_committed_decree previous_dead) (dr_last_committed_decree recent_dead);
          larger_pd = max (dr_last_prepared_decree previous_dead) (dr_last_prepared_decree recent_dead)
      in if gap1 * gap2 \<ge> 0
         then if larger_pd \<ge> meta_committed \<and> larger_pd \<ge> larger_cd
              then Inr (if gap1 \<noteq> 0 then if gap1 < 0 then dr_node recent_dead else dr_node previous_dead
                        else if gap2 \<noteq> 0 then if gap2 < 0 then dr_node recent_dead else dr_node previous_dead
                        else if dr_last_prepared_decree previous_dead > dr_last_prepared_decree recent_dead
                        then dr_node previous_dead else dr_node recent_dead)
              else Inl No_reason
         else Inl Larger_ballot_smaller_decree)"

definition choose_dead_primary :: "node_mapper \<Rightarrow> meta_configuration \<Rightarrow> config_context \<Rightarrow> ddd_reason + node" where
  "choose_dead_primary nodes pc cc =
     (let drops = pc_last_drops pc
      in if length drops = 1 then Inr (last drops)
         else case (collected_info nodes cc (drops ! (length drops - 2)),
                    collected_info nodes cc (drops ! (length drops - 1))) of
                (_, Inl reason) \<Rightarrow> Inl reason
              | (Inl reason, Inr _) \<Rightarrow> Inl reason
              | (Inr d0, Inr d1) \<Rightarrow>
                  if dr_ballot d0 = - 1 \<and> dr_ballot d1 = - 1 then Inl No_replica_info
                  else select_primary (pc_last_committed_decree pc) d0 d1)"

definition ddd_info :: "node_mapper \<Rightarrow> meta_configuration \<Rightarrow> config_context \<Rightarrow> ddd_reason \<Rightarrow> ddd_partition_info" where
  "ddd_info nodes pc cc reason =
     \<lparr>di_config = pc,
      di_dropped = map (\<lambda>dr.
        let collected = (case map_of nodes (dr_node dr) of None \<Rightarrow> False | Some ns \<Rightarrow> ns_is_alive ns \<and> ns_has_collected ns)
        in \<lparr>dn_node = dr_node dr, dn_drop_time_ms = dr_time dr,
            dn_ballot = if collected then dr_ballot dr else invalid_ballot,
            dn_last_committed_decree = if collected then dr_last_committed_decree dr else invalid_decree,
            dn_last_prepared_decree = if collected then dr_last_prepared_decree dr else invalid_decree,
            dn_is_alive = is_node_alive nodes (dr_node dr), dn_is_collected = collected\<rparr>) (cc_dropped cc),
      di_reason = reason\<rparr>"

text \<open>A cure proposal is queued and its node gets the counts of the partition to come.\<close>

definition propose_cure :: "gpid \<Rightarrow> partition_state \<Rightarrow> configuration_proposal_action \<Rightarrow> node
    \<Rightarrow> (newly_partitions \<Rightarrow> newly_partitions) \<Rightarrow> meta \<Rightarrow> meta result" where
  "propose_cure pid p act n add m =
     bind_result (if map_of (m_nodes m) n = None then Inl (Out_of_bounds ''newly_partitions'') else Inr ()) (\<lambda>_.
       Inr (put_context pid p ((ps_cc p)\<lparr>cc_lb_actions := assign_cure_proposal act (cc_lb_actions (ps_cc p))\<rparr>)
              (m\<lparr>m_nodes := set_newly n add (m_nodes m)\<rparr>)))"

definition primary_action :: "config_type \<Rightarrow> node \<Rightarrow> configuration_proposal_action" where
  "primary_action t n = \<lparr>pa_target = Some n, pa_node = Some n, pa_type = t\<rparr>"

definition on_missing_primary :: "gpid \<Rightarrow> meta \<Rightarrow> (pc_status \<times> meta) result" where
  "on_missing_primary pid m =
     bind_result (get_partition pid m) (\<lambda>p.
       let pc = ps_pc p; app = fst pid
       in if pc_secondaries pc \<noteq> []
          then bind_result (best_secondary (m_nodes m) app (pc_secondaries pc) None) (\<lambda>best.
                 case best of
                   None \<Rightarrow> Inr (dead, m)
                 | Some (n, _) \<Rightarrow>
                     bind_result (propose_cure pid p (primary_action CT_UPGRADE_TO_PRIMARY n) n
                       (newly_add_primary app True) m) (\<lambda>m'. Inr (ill, m')))
          else if pc_last_drops pc = []
          then case min_primary_server app (m_nodes m) None of
                 None \<Rightarrow> Inr (ill, m)
               | Some (n, _) \<Rightarrow>
                   bind_result (propose_cure pid p (primary_action CT_ASSIGN_PRIMARY n) n
                     (newly_add_primary app False) m) (\<lambda>m'. Inr (ill, m'))
          else case choose_dead_primary (m_nodes m) pc (ps_cc p) of
                 Inr n \<Rightarrow>
                   bind_result (propose_cure pid p (primary_action CT_ASSIGN_PRIMARY n) n
                     (newly_add_primary app False) m) (\<lambda>m'. Inr (dead, m'))
               | Inl reason \<Rightarrow>
                   Inr (dead, m\<lparr>m_ddd := (m_ddd m)(pc_pid pc \<mapsto> ddd_info (m_nodes m) pc (ps_cc p) reason)\<rparr>))"

section \<open>Missing and redundant secondaries\<close>

definition is_emergency :: "meta_env \<Rightarrow> meta_configuration \<Rightarrow> config_context \<Rightarrow> bool result" where
  "is_emergency env pc cc =
     bind_result (app_mutation_2pc_min_replica_count (me_mutation_2pc_min_replica_count env) (pc_max_replica_count pc)) (\<lambda>min_count.
       Inr (pc_max_replica_count pc > min_count \<and> replica_count pc < min_count \<or>
            cc_dropped cc = [] \<or>
            dr_time (last (cc_dropped cc)) + me_replica_assign_delay_ms_for_dropouts env < me_now_ms env \<or>
            dr_node (last (cc_dropped cc)) \<in> me_assign_secondary_black_list env))"

text \<open>The search for a living node from the preferred dropped replica downwards.\<close>

fun search_dropped :: "node_mapper \<Rightarrow> dropped_replica list \<Rightarrow> nat \<Rightarrow> node option \<times> int" where
  "search_dropped nodes ds 0 = (None, - 1)"
| "search_dropped nodes ds (Suc i) =
     (if is_node_alive nodes (dr_node (ds ! i)) then (Some (dr_node (ds ! i)), int i - 1)
      else search_dropped nodes ds i)"

text \<open>The living node outside the group and the black list with the fewest partitions.\<close>

fun min_server :: "meta_env \<Rightarrow> meta_configuration \<Rightarrow> int \<Rightarrow> node_mapper \<Rightarrow> (node \<times> node_state) option
    \<Rightarrow> (node \<times> node_state) option" where
  "min_server env pc app [] best = best"
| "min_server env pc app ((n, ns) # rest) best =
     (if \<not> ns_is_alive ns \<or> is_member pc n \<or> n \<in> me_assign_secondary_black_list env
      then min_server env pc app rest best
      else min_server env pc app rest
             (case best of
                None \<Rightarrow> Some (n, ns)
              | Some (b, bs) \<Rightarrow> if less_partitions ns bs app then Some (n, ns) else Some (b, bs)))"

definition choose_secondary :: "meta_env \<Rightarrow> int \<Rightarrow> node_mapper \<Rightarrow> meta_configuration \<Rightarrow> bool \<Rightarrow> config_context
    \<Rightarrow> node option \<times> config_context" where
  "choose_secondary env app nodes pc emergency cc =
     (if emergency
      then let size = int (length (cc_dropped cc));
               preferred = (if cc_prefered_dropped cc < 0 \<or> cc_prefered_dropped cc \<ge> size then size - 1
                            else cc_prefered_dropped cc);
               (found, preferred') = search_dropped nodes (cc_dropped cc) (nat (preferred + 1));
               chosen = (if found = None \<or> the found \<in> me_assign_secondary_black_list env
                         then case min_server env pc app nodes None of None \<Rightarrow> found | Some (n, _) \<Rightarrow> Some n
                         else found)
           in (chosen, cc\<lparr>cc_prefered_dropped := preferred'\<rparr>)
      else let server = last (cc_dropped cc)
           in (if is_node_alive nodes (dr_node server) then Some (dr_node server) else None, cc))"

definition on_missing_secondary :: "meta_env \<Rightarrow> gpid \<Rightarrow> meta \<Rightarrow> (pc_status \<times> meta) result" where
  "on_missing_secondary env pid m =
     bind_result (get_partition pid m) (\<lambda>p.
     bind_result (is_emergency env (ps_pc p) (ps_cc p)) (\<lambda>emergency.
       case choose_secondary env (fst pid) (m_nodes m) (ps_pc p) emergency (ps_cc p) of
         (None, cc) \<Rightarrow> Inr (ill, put_context pid p cc m)
       | (Some n, cc) \<Rightarrow>
           bind_result (propose_cure pid (p\<lparr>ps_cc := cc\<rparr>)
             \<lparr>pa_target = pc_primary (ps_pc p), pa_node = Some n, pa_type = CT_ADD_SECONDARY\<rparr> n
             (newly_add_partition (fst pid)) m) (\<lambda>m'. Inr (ill, m'))))"

text \<open>The secondary on the node with the most partitions, the first one of these.\<close>

fun most_loaded :: "node_mapper \<Rightarrow> node list \<Rightarrow> node \<Rightarrow> int \<Rightarrow> node result" where
  "most_loaded nodes [] best load = Inr best"
| "most_loaded nodes (n # rest) best load =
     (case map_of nodes n of
        None \<Rightarrow> Inl (Out_of_bounds ''nodes'')
      | Some ns \<Rightarrow>
          if ns_total_partitions ns > load then most_loaded nodes rest n (ns_total_partitions ns)
          else most_loaded nodes rest best load)"

definition on_redundant_secondary :: "gpid \<Rightarrow> meta \<Rightarrow> (pc_status \<times> meta) result" where
  "on_redundant_secondary pid m =
     bind_result (get_partition pid m) (\<lambda>p.
       let pc = ps_pc p; front = hd (pc_secondaries pc)
       in case map_of (m_nodes m) front of
            None \<Rightarrow> Inl (Out_of_bounds ''nodes'')
          | Some ns \<Rightarrow>
              bind_result (most_loaded (m_nodes m) (pc_secondaries pc) front (ns_total_partitions ns)) (\<lambda>n.
                Inr (ill, put_context pid p ((ps_cc p)\<lparr>cc_lb_actions := assign_balancer_proposals
                  [\<lparr>pa_target = pc_primary pc, pa_node = Some n, pa_type = CT_REMOVE\<rparr>] (cc_lb_actions (ps_cc p))\<rparr>) m)))"

section \<open>Cure and reconfiguration\<close>

definition cure_missing :: "meta_env \<Rightarrow> gpid \<Rightarrow> partition_state \<Rightarrow> meta \<Rightarrow> (pc_status \<times> meta) result" where
  "cure_missing env pid p m =
     (let pc = ps_pc p; secondaries = int (length (pc_secondaries pc))
      in if pc_primary pc = None then on_missing_primary pid m
         else if secondaries + 1 < pc_max_replica_count pc then on_missing_secondary env pid m
         else if secondaries \<ge> pc_max_replica_count pc then on_redundant_secondary pid m
         else Inr (healthy, m))"

definition cure :: "meta_env \<Rightarrow> gpid \<Rightarrow> meta \<Rightarrow> (pc_status \<times> configuration_proposal_action \<times> meta) result" where
  "cure env pid m =
     bind_result (from_proposals pid m) (\<lambda>(proposed, action, m1).
       if proposed then Inr (ill, action, m1)
       else bind_result (get_partition pid m1) (\<lambda>p.
         bind_result (check (la_acts (cc_lb_actions (ps_cc p)) = []) ''CHECK'') (\<lambda>_.
         bind_result (cure_missing env pid p m1) (\<lambda>(st, m2).
         bind_result (get_partition pid m2) (\<lambda>p2.
           Inr (st, (case la_acts (cc_lb_actions (ps_cc p2)) of [] \<Rightarrow> action | act # _ \<Rightarrow> act), m2))))))"

text \<open>The drop history after a configuration update.\<close>

fun record_drops :: "meta_env \<Rightarrow> meta_configuration \<Rightarrow> node list \<Rightarrow> config_context \<Rightarrow> config_context" where
  "record_drops env pc [] cc = cc"
| "record_drops env pc (n # ns) cc =
     record_drops env pc ns (snd (record_drop_history (me_max_reserved_dropped_replicas env) (me_now_ms env) pc n cc))"

definition reconfig_drops :: "meta_env \<Rightarrow> update_request \<Rightarrow> meta_configuration \<Rightarrow> config_context \<Rightarrow> config_context result" where
  "reconfig_drops env request pc cc =
     (if ur_type request = CT_DROP_PARTITION
      then Inr (record_drops env pc (pc_last_drops (ur_config request)) (cc\<lparr>cc_serving := []\<rparr>))
      else case (when_update_replicas (ur_type request), ur_node request) of
             (Some True, Some n) \<Rightarrow>
               Inr (check_size (me_max_reserved_dropped_replicas env) pc (snd (remove_from_dropped n cc)))
           | (Some False, Some n) \<Rightarrow>
               (case record_drop_history (me_max_reserved_dropped_replicas env) (me_now_ms env) pc n
                       (remove_from_serving n cc) of
                  (ok, cc') \<Rightarrow> bind_result (check ok ''node has been in the dropped'') (\<lambda>_. Inr cc'))
           | (Some _, None) \<Rightarrow> Inl (Check_failed ''no node'')
           | (None, _) \<Rightarrow> Inr cc)"

definition reconfig :: "meta_env \<Rightarrow> update_request \<Rightarrow> meta \<Rightarrow> meta result" where
  "reconfig env request m =
     (let pid = pc_pid (ur_config request)
      in bind_result (get_partition pid m) (\<lambda>p.
           let cc = ps_cc p; la = cc_lb_actions cc
           in bind_result
                (case la_acts la of
                   [] \<Rightarrow> Inr (la, m_nodes m)
                 | act # _ \<Rightarrow>
                     bind_result (check (pa_type act \<noteq> CT_INVALID) ''invalid proposal'') (\<lambda>_.
                     bind_result (if la_from_balancer la then Inr (m_nodes m) else finish_cure_proposal pid act (m_nodes m)) (\<lambda>nodes.
                       Inr (pop_front_action la, nodes))))
                (\<lambda>(la', nodes).
                   bind_result (reconfig_drops env request (ps_pc p) (cc\<lparr>cc_lb_actions := la'\<rparr>)) (\<lambda>cc'.
                     Inr (put_context pid p cc' (m\<lparr>m_nodes := nodes\<rparr>))))))"

text \<open>\<open>server_load_balancer::register_proposals\<close>: proposals of the balancer or of an administrator.\<close>

fun fill_targets :: "node option \<Rightarrow> configuration_proposal_action list \<Rightarrow> configuration_proposal_action list option" where
  "fill_targets prim [] = Some []"
| "fill_targets prim (act # acts) =
     (if pa_target act \<noteq> None then map_option ((#) act) (fill_targets prim acts)
      else if prim = None then None
      else map_option ((#) (act\<lparr>pa_target := prim\<rparr>)) (fill_targets prim acts))"

definition register_proposals :: "gpid \<Rightarrow> configuration_proposal_action list \<Rightarrow> meta \<Rightarrow> (error_code \<times> meta) result" where
  "register_proposals pid action_list m =
     bind_result (get_partition pid m) (\<lambda>p.
       if la_acts (cc_lb_actions (ps_cc p)) \<noteq> [] then Inr (ERR_INVALID_PARAMETERS, m)
       else case fill_targets (pc_primary (ps_pc p)) action_list of
              None \<Rightarrow> Inr (ERR_INVALID_PARAMETERS, m)
            | Some acts \<Rightarrow>
                Inr (ERR_OK, put_context pid p
                  ((ps_cc p)\<lparr>cc_lb_actions := assign_balancer_proposals acts (cc_lb_actions (ps_cc p))\<rparr>) m))"

end
