(* ===== verification/Server_State.thy ===== *)
theory Server_State
  imports Partition_Guardian
begin

text \<open>
  The configuration updates of the meta server (\<^verbatim>\<open>src/src/meta/server_state.cpp\<close>). A change
  of a partition comes from a replica server (\<open>on_update_configuration\<close>), from the failure
  detector (\<open>on_change_node_state\<close>) or from the drop of a table. It is first written to the remote
  storage; only one change of a partition is pending at a time, and the reply of the storage
  installs it, records it in the drop history and asks the guardian for the next proposal. The
  round over all partitions and the config sync of a replica server follow. Messages,
  replies and writes to the remote storage are effects. \<open>request_check\<close> and \<open>check_consistency\<close>
  only run in debug builds. The balancer that runs after a healthy round is left out.
\<close>

section \<open>Staging tables\<close>

definition meta_emit :: "meta_effect \<Rightarrow> meta \<Rightarrow> meta" where
  "meta_emit e m = m\<lparr>m_effects := m_effects m @ [e]\<rparr>"

definition transition_staging_state :: "int \<Rightarrow> app_state \<Rightarrow> meta \<Rightarrow> meta result" where
  "transition_staging_state app_id app m =
     (let next = (case as_status app of
                    AS_CREATING \<Rightarrow> Some AS_AVAILABLE | AS_DROPPING \<Rightarrow> Some AS_DROPPED
                  | AS_RECALLING \<Rightarrow> Some AS_AVAILABLE | _ \<Rightarrow> None)
      in case next of
           None \<Rightarrow> Inl (Check_failed ''app not in staging state'')
         | Some st \<Rightarrow>
             let m1 = m\<lparr>m_apps := (m_apps m)(app_id \<mapsto> app\<lparr>as_status := st, as_pending_response := None\<rparr>)\<rparr>
             in Inr (case as_pending_response app of
                       None \<Rightarrow> m1 | Some msg \<Rightarrow> meta_emit (Reply_staging msg (as_status app)) m1))"

definition process_one_partition :: "int \<Rightarrow> app_state \<Rightarrow> meta \<Rightarrow> meta result" where
  "process_one_partition app_id app m =
     (let ans = as_partitions_in_progress app - 1;
          app' = app\<lparr>as_partitions_in_progress := ans\<rparr>;
          m' = m\<lparr>m_apps := (m_apps m)(app_id \<mapsto> app')\<rparr>
      in if ans > 0 then Inr m'
         else if ans = 0 then transition_staging_state app_id app' m'
         else Inl (Check_failed ''partitions in progress shouldn't be negetive''))"

section \<open>Installing a configuration\<close>

text \<open>\<open>request_check\<close> of debug builds.\<close>

definition request_check :: "meta_configuration \<Rightarrow> update_request \<Rightarrow> bool" where
  "request_check old_pc request =
     (case ur_type request of
        CT_ASSIGN_PRIMARY \<Rightarrow> pc_primary old_pc \<noteq> ur_node request \<and> ur_node request \<notin> Some ` set (pc_secondaries old_pc)
      | CT_UPGRADE_TO_PRIMARY \<Rightarrow> pc_primary old_pc \<noteq> ur_node request \<and> ur_node request \<in> Some ` set (pc_secondaries old_pc)
      | CT_DOWNGRADE_TO_SECONDARY \<Rightarrow> pc_primary old_pc = ur_node request \<and> ur_node request \<notin> Some ` set (pc_secondaries old_pc)
      | CT_DOWNGRADE_TO_INACTIVE \<Rightarrow> pc_primary old_pc = ur_node request \<or> ur_node request \<in> Some ` set (pc_secondaries old_pc)
      | CT_REMOVE \<Rightarrow> pc_primary old_pc = ur_node request \<or> ur_node request \<in> Some ` set (pc_secondaries old_pc)
      | CT_UPGRADE_TO_SECONDARY \<Rightarrow> pc_primary old_pc \<noteq> ur_node request \<and> ur_node request \<notin> Some ` set (pc_secondaries old_pc)
      | CT_PRIMARY_FORCE_UPDATE_BALLOT \<Rightarrow>
          pc_primary old_pc = pc_primary (ur_config request) \<and> pc_secondaries old_pc = pc_secondaries (ur_config request)
      | _ \<Rightarrow> True)"

fun put_secondaries :: "gpid \<Rightarrow> node list \<Rightarrow> node_mapper \<Rightarrow> node_mapper result" where
  "put_secondaries pid [] nodes = Inr nodes"
| "put_secondaries pid (n # ns) nodes =
     (if map_of nodes n = None then Inl (Out_of_bounds ''node_state'')
      else put_secondaries pid ns (update_node n (put_partition pid False) nodes))"

definition update_served :: "update_request \<Rightarrow> node_mapper \<Rightarrow> node_mapper result" where
  "update_served request nodes =
     (let pid = pc_pid (ur_config request)
      in if ur_type request = CT_DROP_PARTITION
         then Inr (fold (\<lambda>n. update_node n (remove_partition pid False)) (pc_last_drops (ur_config request)) nodes)
         else case ur_node request of
                None \<Rightarrow> Inl (Check_failed ''invalid node'')
              | Some n \<Rightarrow>
                  if map_of nodes n = None then Inl (Check_failed ''invalid node'')
                  else case ur_type request of
                         CT_ASSIGN_PRIMARY \<Rightarrow> Inr (update_node n (put_partition pid True) nodes)
                       | CT_UPGRADE_TO_PRIMARY \<Rightarrow> Inr (update_node n (put_partition pid True) nodes)
                       | CT_UPGRADE_TO_SECONDARY \<Rightarrow> Inr (update_node n (put_partition pid False) nodes)
                       | CT_DOWNGRADE_TO_SECONDARY \<Rightarrow> Inr (update_node n (remove_partition pid True) nodes)
                       | CT_DOWNGRADE_TO_INACTIVE \<Rightarrow> Inr (update_node n (remove_partition pid False) nodes)
                       | CT_REMOVE \<Rightarrow> Inr (update_node n (remove_partition pid False) nodes)
                       | CT_PRIMARY_FORCE_UPDATE_BALLOT \<Rightarrow> Inr nodes
                       | CT_REGISTER_CHILD \<Rightarrow>
                           put_secondaries pid (pc_secondaries (ur_config request)) (update_node n (put_partition pid True) nodes)
                       | _ \<Rightarrow> Inl (Check_failed ''invalid execution work flow''))"

definition update_configuration_locally :: "meta_env \<Rightarrow> app_state \<Rightarrow> partition_state \<Rightarrow> update_request \<Rightarrow> meta \<Rightarrow> meta result" where
  "update_configuration_locally env app p request m =
     bind_result (app_mutation_2pc_min_replica_count (me_mutation_2pc_min_replica_count env) (as_max_replica_count app)) (\<lambda>_.
     bind_result (check (pc_ballot (ps_pc p) = invalid_ballot \<or> pc_ballot (ps_pc p) + 1 = pc_ballot (ur_config request))
       ''invalid configuration update request'') (\<lambda>_.
     bind_result (update_served request (m_nodes m)) (\<lambda>nodes.
       Inr (m\<lparr>m_nodes := nodes,
              m_parts := (m_parts m)(pc_pid (ur_config request) \<mapsto> p\<lparr>ps_pc := ur_config request\<rparr>)\<rparr>))))"

text \<open>\<open>update_configuration_on_remote\<close>: at the blind level the write is put off.\<close>

definition update_configuration_on_remote :: "meta_env \<Rightarrow> update_request \<Rightarrow> meta \<Rightarrow> meta" where
  "update_configuration_on_remote env request m =
     (if me_function_level env \<le> 200 then m else meta_emit (Sync_remote request) m)"

text \<open>The table and the partition of a request, as \<open>app->pcs\<close> and \<open>app->helpers->contexts\<close>.\<close>

definition get_app_partition :: "gpid \<Rightarrow> meta \<Rightarrow> (app_state \<times> partition_state) result" where
  "get_app_partition pid m =
     (case m_apps m (fst pid) of
        None \<Rightarrow> Inl (Out_of_bounds ''get_app'')
      | Some app \<Rightarrow> (case m_parts m pid of None \<Rightarrow> Inl (Out_of_bounds ''pcs'') | Some p \<Rightarrow> Inr (app, p)))"

text \<open>The synced request is installed and its sender gets the reply.\<close>

definition finish_sync :: "update_request \<Rightarrow> meta \<Rightarrow> meta result" where
  "finish_sync request m =
     (let pid = pc_pid (ur_config request)
      in bind_result (get_app_partition pid m) (\<lambda>(_, p).
           let cc = ps_cc p;
               m1 = put_context pid p (cc\<lparr>cc_pending_sync_request := None, cc_stage := not_pending, cc_msg := None\<rparr>) m
           in Inr (case cc_msg cc of
                     None \<Rightarrow> m1 | Some msg \<Rightarrow> meta_emit (Reply_update msg ERR_OK (ur_config request)) m1)))"

definition send_action :: "meta_configuration \<Rightarrow> configuration_proposal_action \<Rightarrow> meta \<Rightarrow> meta" where
  "send_action pc act = meta_emit (Send_proposal (pa_target act) \<lparr>ur_type = pa_type act, ur_node = pa_node act, ur_config = pc\<rparr>)"

text \<open>The next proposal after an update.\<close>

definition propose_next :: "meta_env \<Rightarrow> update_request \<Rightarrow> meta \<Rightarrow> meta result" where
  "propose_next env request m =
     bind_result (cure env (pc_pid (ur_config request)) m) (\<lambda>(_, act, m1).
       Inr (if pa_type act = CT_INVALID \<or>
               me_add_secondary_enable_flow_control env \<and> is_adding_secondary (pa_type act)
            then m1 else send_action (ur_config request) act m1))"

definition on_update_configuration_on_remote_reply :: "meta_env \<Rightarrow> error_code \<Rightarrow> update_request \<Rightarrow> meta \<Rightarrow> meta result" where
  "on_update_configuration_on_remote_reply env ec request m =
     bind_result (get_app_partition (pc_pid (ur_config request)) m) (\<lambda>(app, p).
     bind_result (check (as_status app = AS_AVAILABLE \<or> as_status app = AS_DROPPING)
       ''if app removed, this task should be cancelled'') (\<lambda>_.
       if ec = ERR_TIMEOUT then Inr (update_configuration_on_remote env request m)
       else if ec = ERR_OK
       then bind_result (update_configuration_locally env app p request m) (\<lambda>m1.
            bind_result (finish_sync request m1) (\<lambda>m2.
            bind_result (reconfig env request m2) (\<lambda>m3.
              if ur_type request = CT_DROP_PARTITION then process_one_partition (fst (pc_pid (ur_config request))) app m3
              else propose_next env request m3)))
       else Inl (Check_failed ''we can't handle this right now'')))"

section \<open>Requests of replica servers\<close>

text \<open>A request becomes the pending one of its partition.\<close>

definition start_sync :: "meta_env \<Rightarrow> gpid \<Rightarrow> partition_state \<Rightarrow> update_request \<Rightarrow> message option \<Rightarrow> meta \<Rightarrow> meta" where
  "start_sync env pid p request msg m =
     update_configuration_on_remote env request
       (put_context pid p ((ps_cc p)\<lparr>cc_stage := pending_remote_sync, cc_pending_sync_request := Some request,
          cc_msg := msg\<rparr>) m)"

definition on_update_configuration :: "meta_env \<Rightarrow> update_request \<Rightarrow> message \<Rightarrow> meta \<Rightarrow> meta result" where
  "on_update_configuration env request msg m =
     (let pid = pc_pid (ur_config request)
      in bind_result (get_app_partition pid m) (\<lambda>(_, p).
           let pc = ps_pc p; cc = ps_cc p
           in if is_partition_config_equal pc (ur_config request) then Inr (meta_emit (Reply_update msg ERR_OK pc) m)
              else if pc_ballot pc + 1 \<noteq> pc_ballot (ur_config request)
              then Inr (meta_emit (Reply_update msg ERR_INVALID_VERSION pc) m)
              else if cc_stage cc = pending_remote_sync then Inr m
              else bind_result
                     (case ur_node request of
                        None \<Rightarrow> Inl (Check_failed ''no node'')
                      | Some n \<Rightarrow> maintain_drops (pc_last_drops (ur_config request)) n (ur_type request)) (\<lambda>drops.
                   bind_result (check (cc_stage cc = not_pending) ''invalid config status'') (\<lambda>_.
                     Inr (start_sync env pid p (request\<lparr>ur_config := (ur_config request)\<lparr>pc_last_drops := drops\<rparr>\<rparr>)
                            (Some msg) m)))))"

section \<open>Failures and drops\<close>

definition downgrade_primary_to_inactive :: "meta_env \<Rightarrow> gpid \<Rightarrow> app_state \<Rightarrow> partition_state \<Rightarrow> node \<Rightarrow> meta \<Rightarrow> meta result" where
  "downgrade_primary_to_inactive env pid app p prim m =
     (let pc = ps_pc p; cc = ps_cc p;
          continue = (\<lambda>cc'.
            bind_result (maintain_drops (pc_last_drops pc) prim CT_DOWNGRADE_TO_INACTIVE) (\<lambda>drops.
              Inr (start_sync env pid (p\<lparr>ps_cc := cc'\<rparr>)
                     \<lparr>ur_type = CT_DOWNGRADE_TO_INACTIVE, ur_node = Some prim,
                      ur_config = pc\<lparr>pc_ballot := pc_ballot pc + 1, pc_primary := None, pc_last_drops := drops\<rparr>\<rparr> None m)))
      in if cc_stage cc = pending_remote_sync
         then case cc_pending_sync_request cc of
                None \<Rightarrow> Inl (Out_of_bounds ''pending_sync_request'')
              | Some pending \<Rightarrow>
                  if ur_type pending = CT_DROP_PARTITION
                  then bind_result (check (as_status app = AS_DROPPING) ''app not in dropping state'') (\<lambda>_. Inr m)
                  else continue (cancel_sync cc)
         else continue cc)"

definition downgrade_secondary_to_inactive :: "gpid \<Rightarrow> partition_state \<Rightarrow> node \<Rightarrow> meta \<Rightarrow> meta result" where
  "downgrade_secondary_to_inactive pid p n m =
     bind_result (check (pc_primary (ps_pc p) \<noteq> None) ''this shouldn't be called if the primary is invalid'') (\<lambda>_.
       Inr (if cc_stage (ps_cc p) = pending_remote_sync then m
            else meta_emit (Send_proposal (pc_primary (ps_pc p))
                   \<lparr>ur_type = CT_DOWNGRADE_TO_INACTIVE, ur_node = Some n, ur_config = ps_pc p\<rparr>) m))"

definition on_partition_node_dead :: "meta_env \<Rightarrow> gpid \<Rightarrow> node \<Rightarrow> meta \<Rightarrow> meta result" where
  "on_partition_node_dead env pid n m =
     bind_result (get_app_partition pid m) (\<lambda>(app, p).
       if is_primary (ps_pc p) n then downgrade_primary_to_inactive env pid app p n m
       else if is_secondary (ps_pc p) n \<and> pc_primary (ps_pc p) \<noteq> None then downgrade_secondary_to_inactive pid p n m
       else Inr m)"

text \<open>The loop of \<open>on_change_node_state\<close> over the partitions of a dead node.\<close>

fun partitions_node_dead :: "meta_env \<Rightarrow> gpid list \<Rightarrow> node \<Rightarrow> meta \<Rightarrow> meta result" where
  "partitions_node_dead env [] n m = Inr m"
| "partitions_node_dead env (pid # pids) n m =
     bind_result (check (case m_apps m (fst pid) of None \<Rightarrow> False | Some app \<Rightarrow> as_status app \<noteq> AS_DROPPED)
       ''invalid app'') (\<lambda>_.
     bind_result (on_partition_node_dead env pid n m) (partitions_node_dead env pids n))"

definition on_change_node_state :: "meta_env \<Rightarrow> node \<Rightarrow> bool \<Rightarrow> meta \<Rightarrow> meta result" where
  "on_change_node_state env n alive m =
     (if alive
      then Inr (m\<lparr>m_nodes := update_node n (\<lambda>ns. ns\<lparr>ns_is_alive := True\<rparr>) (ensure_node n (m_nodes m))\<rparr>)
      else case map_of (m_nodes m) n of
             None \<Rightarrow> Inr m
           | Some ns \<Rightarrow>
               partitions_node_dead env (sorted_list_of_set (ns_partitions ns)) n
                 (m\<lparr>m_nodes := update_node n (\<lambda>ns. ns\<lparr>ns_is_alive := False, ns_has_collected := False\<rparr>) (m_nodes m)\<rparr>))"

fun drop_members :: "node list \<Rightarrow> node list \<Rightarrow> node list result" where
  "drop_members [] drops = Inr drops"
| "drop_members (n # ns) drops =
     bind_result (maintain_drops drops n CT_DROP_PARTITION) (drop_members ns)"

definition drop_partition :: "meta_env \<Rightarrow> gpid \<Rightarrow> meta \<Rightarrow> meta result" where
  "drop_partition env pid m =
     bind_result (get_app_partition pid m) (\<lambda>(_, p).
       let pc = ps_pc p; cc = ps_cc p
       in bind_result (drop_members (pc_secondaries pc @ (case pc_primary pc of None \<Rightarrow> [] | Some n \<Rightarrow> [n])) (pc_last_drops pc)) (\<lambda>drops.
          bind_result (check (\<not> bit (pc_partition_flags pc) 0) ''CHECK_EQ'') (\<lambda>_.
            Inr (start_sync env pid
                   (p\<lparr>ps_cc := (if cc_stage cc = pending_remote_sync then cancel_sync cc else cc)\<rparr>)
                   \<lparr>ur_type = CT_DROP_PARTITION, ur_node = pc_primary pc,
                    ur_config = pc\<lparr>pc_last_drops := drops, pc_primary := None, pc_secondaries := [],
                      pc_partition_flags := set_bit 0 (pc_partition_flags pc), pc_ballot := pc_ballot pc + 1\<rparr>\<rparr> None m))))"

text \<open>\<open>update_partition_max_replica_count_locally\<close>: the drop history is left as it is.\<close>

definition update_partition_max_replica_count_locally :: "meta_configuration \<Rightarrow> meta \<Rightarrow> meta result" where
  "update_partition_max_replica_count_locally new_pc m =
     bind_result (get_app_partition (pc_pid new_pc) m) (\<lambda>(_, p).
     bind_result (check (pc_ballot (ps_pc p) + 1 = pc_ballot new_pc) ''invalid ballot'') (\<lambda>_.
       Inr (m\<lparr>m_parts := (m_parts m)(pc_pid new_pc \<mapsto> p\<lparr>ps_pc := new_pc\<rparr>)\<rparr>)))"

text \<open>\<open>clear_proposals\<close>, which the administrator triggers by lowering the function level.\<close>

definition clear_proposals :: "meta \<Rightarrow> meta" where
  "clear_proposals m =
     m\<lparr>m_parts := (\<lambda>pid. if fst pid \<in> set (m_exist_apps m)
          then map_option (\<lambda>p. p\<lparr>ps_cc := (ps_cc p)\<lparr>cc_lb_actions := clear_actions (cc_lb_actions (ps_cc p))\<rparr>\<rparr>) (m_parts m pid)
          else m_parts m pid)\<rparr>"

section \<open>The config sync of a replica server\<close>

record config_sync_response =
  cs_err :: error_code
  cs_partitions :: "meta_configuration list"
  cs_gc_replicas :: "replica_info list"

text \<open>
  The configurations of the partitions that a node serves, up to the first one with a pending
  change that concerns the node; the array for them has the size of the count of the node.
\<close>

fun sync_partitions :: "meta \<Rightarrow> node \<Rightarrow> int \<Rightarrow> gpid list \<Rightarrow> meta_configuration list \<Rightarrow> meta_configuration list result" where
  "sync_partitions m n slots [] acc = Inr acc"
| "sync_partitions m n slots (pid # pids) acc =
     bind_result (get_app_partition pid m) (\<lambda>(_, p).
       let cc = ps_cc p;
           stop = (cc_stage cc = pending_remote_sync \<and>
             (case cc_pending_sync_request cc of None \<Rightarrow> True | Some req \<Rightarrow> ur_node req = Some n))
       in if stop then Inr acc
          else if int (length acc) \<ge> slots then Inl (Out_of_bounds ''partitions'')
          else sync_partitions m n slots pids (acc @ [ps_pc p]))"

text \<open>What is done with a replica that a node reports; the second component are the replicas to delete.\<close>

definition collect_stored :: "meta_env \<Rightarrow> node \<Rightarrow> replica_info \<Rightarrow> meta \<times> replica_info list
    \<Rightarrow> (meta \<times> replica_info list) result" where
  "collect_stored env n rep = (\<lambda>(m, gc).
     let pid = ri_pid rep;
         delete = (m, gc @ [rep])
     in case m_apps m (fst pid) of
          None \<Rightarrow> Inl (Check_failed ''gpid is not exist on meta server'')
        | Some app \<Rightarrow>
            if snd pid \<ge> as_partition_count app
            then if snd pid < as_partition_count app * 2 \<and> ri_status rep = PS_ERROR then Inr delete
                 else Inl (Check_failed ''gpid is not exist on meta server'')
            else if as_status app = AS_DROPPED
            then Inr (if as_expire_second app \<noteq> 0 \<and> as_expire_second app * 1000 < me_now_ms env \<and> me_function_level env > 400
                      then delete else (m, gc))
            else if as_status app = AS_AVAILABLE
            then bind_result (get_partition pid m) (\<lambda>p.
                 bind_result (collect_replica (me_max_reserved_dropped_replicas env) (ps_pc p) n rep (ps_cc p)) (\<lambda>(useful, cc).
                   Inr (put_context pid p cc m, if \<not> useful \<and> me_function_level env > 400 then gc @ [rep] else gc)))
            else Inr (m, gc))"

fun collect_all_stored :: "meta_env \<Rightarrow> node \<Rightarrow> replica_info list \<Rightarrow> meta \<times> replica_info list
    \<Rightarrow> (meta \<times> replica_info list) result" where
  "collect_all_stored env n [] s = Inr s"
| "collect_all_stored env n (rep # reps) s = bind_result (collect_stored env n rep s) (collect_all_stored env n reps)"

definition on_config_sync :: "meta_env \<Rightarrow> node \<Rightarrow> replica_info list option \<Rightarrow> meta \<Rightarrow> (config_sync_response \<times> meta) result" where
  "on_config_sync env n stored m =
     bind_result
       (case map_of (m_nodes m) n of
          None \<Rightarrow> Inr (ERR_OBJECT_NOT_FOUND, [], False)
        | Some ns \<Rightarrow>
            bind_result (sync_partitions m n (ns_total_partitions ns) (sorted_list_of_set (ns_partitions ns)) []) (\<lambda>pcs.
              Inr (ERR_OK, pcs, int (length pcs) < ns_total_partitions ns)))
       (\<lambda>(err, pcs, reject).
          if reject then Inr (\<lparr>cs_err = ERR_BUSY, cs_partitions = [], cs_gc_replicas = []\<rparr>, m)
          else case stored of
                 None \<Rightarrow> Inr (\<lparr>cs_err = err, cs_partitions = pcs, cs_gc_replicas = []\<rparr>, m)
               | Some replicas \<Rightarrow>
                   bind_result (collect_all_stored env n replicas
                     (m\<lparr>m_nodes := update_node n (\<lambda>ns. ns\<lparr>ns_has_collected := True\<rparr>) (m_nodes m)\<rparr>, [])) (\<lambda>(m', gc).
                       Inr (\<lparr>cs_err = err, cs_partitions = pcs, cs_gc_replicas = gc\<rparr>, m')))"

section \<open>The round over all partitions\<close>

definition checked_partitions :: "meta \<Rightarrow> gpid list" where
  "checked_partitions m =
     concat (map (\<lambda>a. case m_apps m a of
                        None \<Rightarrow> []
                      | Some app \<Rightarrow>
                          if as_status app = AS_CREATING \<or> as_status app = AS_DROPPING then []
                          else map (Pair a) [0..as_partition_count app - 1]) (m_exist_apps m))"

text \<open>
  The cure of every partition. Proposals to add a secondary are collected, the others are
  sent at once; the number of healthy partitions is counted.
\<close>

fun cure_all :: "meta_env \<Rightarrow> gpid list \<Rightarrow> meta \<times> (gpid \<times> configuration_proposal_action) list \<times> int
    \<Rightarrow> (meta \<times> (gpid \<times> configuration_proposal_action) list \<times> int) result" where
  "cure_all env [] s = Inr s"
| "cure_all env (pid # pids) (m, adds, n_healthy) =
     bind_result (get_app_partition pid m) (\<lambda>(_, p).
       if cc_stage (ps_cc p) \<noteq> pending_remote_sync \<and> pc_ballot (ps_pc p) \<noteq> invalid_ballot
       then bind_result (cure env (pc_pid (ps_pc p)) m) (\<lambda>(st, act, m1).
              cure_all env pids
                (if st = healthy then (m1, adds, n_healthy + 1)
                 else if pa_type act = CT_INVALID then (m1, adds, n_healthy)
                 else if is_adding_secondary (pa_type act) then (m1, adds @ [(pid, act)], n_healthy)
                 else (send_action (ps_pc p) act m1, adds, n_healthy)))
       else cure_all env pids (m, adds, n_healthy))"

text \<open>
  One pass over the collected proposals: those that the condition selects are sent, unless the
  node already learns as many partitions as the flow control allows; the others are returned.
\<close>

fun send_adds :: "meta_env \<Rightarrow> (meta_configuration \<Rightarrow> bool) \<Rightarrow> (gpid \<times> configuration_proposal_action) list
    \<Rightarrow> meta \<times> (node \<Rightarrow> int) \<Rightarrow> ((gpid \<times> configuration_proposal_action) list \<times> meta \<times> (node \<Rightarrow> int)) result" where
  "send_adds env sel [] s = Inr ([], s)"
| "send_adds env sel ((pid, act) # adds) (m, running) =
     bind_result (get_partition pid m) (\<lambda>p.
       let keep = (\<lambda>s. bind_result (send_adds env sel adds s) (\<lambda>(left, s'). Inr ((pid, act) # left, s')))
       in if \<not> sel (ps_pc p) then keep (m, running)
          else case pa_node act of
                 None \<Rightarrow> Inl (Check_failed ''CHECK'')
               | Some n \<Rightarrow>
                   if me_add_secondary_enable_flow_control env \<and> running n \<ge> me_add_secondary_max_count_for_one_node env
                   then keep (m, running)
                   else send_adds env sel adds (send_action (ps_pc p) act m, running(n := running n + 1)))"

text \<open>The result is whether the balancer may run: the level is at least steady and all partitions are healthy.\<close>

definition check_all_partitions :: "meta_env \<Rightarrow> meta \<Rightarrow> (bool \<times> meta) result" where
  "check_all_partitions env m =
     (if me_function_level env \<le> 300 then Inr (False, m)
      else let pids = checked_partitions m
           in bind_result (cure_all env pids (m\<lparr>m_ddd := Map.empty\<rparr>, [], 0)) (\<lambda>(m1, adds, n_healthy).
              bind_result (send_adds env (\<lambda>pc. pc_secondaries pc = []) adds (m1, \<lambda>_. 0)) (\<lambda>(left, s).
              bind_result (send_adds env (\<lambda>_. True) left s) (\<lambda>(_, m2, _).
                Inr (me_function_level env \<ge> 400 \<and> n_healthy = int (length pids), m2)))))"

end
