(* ===== verification/Drop_History.thy ===== *)
theory Drop_History
  imports Meta_Data
begin

text \<open>
  The drop history of a partition: the dropped replicas are ordered by
  \<open>dropped_cmp\<close>, no node occurs twice, and the binary search of \<open>collect_drop_replica\<close> is an
  insertion into the ordered list after which only the replicas with the most data are kept.
\<close>

section \<open>The order of dropped replicas\<close>

definition dr_key :: "dropped_replica \<Rightarrow> int \<times> ballot \<times> decree \<times> decree" where
  "dr_key d = (dr_time d, dr_ballot d, dr_last_committed_decree d, dr_last_prepared_decree d)"

lemma dropped_cmp_neg: "dropped_cmp d1 d2 < 0 \<longleftrightarrow> dr_key d1 < dr_key d2"
  by (auto simp: dropped_cmp_def dr_key_def)

lemma dropped_cmp_pos: "dropped_cmp d1 d2 > 0 \<longleftrightarrow> dr_key d2 < dr_key d1"
  by (auto simp: dropped_cmp_def dr_key_def)

lemma check_order_sorted: "check_order ds \<longleftrightarrow> sorted (map dr_key ds)"
  by (induction ds rule: check_order.induct) (simp_all add: dropped_cmp_pos not_less sorted2 sorted1 del: sorted_wrt.simps(2))

section \<open>Binary search\<close>

lemma sorted_key_le: "sorted (map dr_key ds) \<Longrightarrow> i \<le> j \<Longrightarrow> j < length ds \<Longrightarrow> dr_key (ds ! i) \<le> dr_key (ds ! j)"
  using sorted_nth_mono [of "map dr_key ds" i j] by simp

text \<open>An index that separates the smaller replicas from the others.\<close>

definition splits_at :: "dropped_replica list \<Rightarrow> dropped_replica \<Rightarrow> nat \<Rightarrow> bool" where
  "splits_at ds x r \<longleftrightarrow> r \<le> length ds \<and> (\<forall>i < r. dr_key (ds ! i) < dr_key x) \<and>
     (\<forall>i. r \<le> i \<longrightarrow> i < length ds \<longrightarrow> dr_key x \<le> dr_key (ds ! i))"

lemma lower_bound_splits:
  assumes "sorted (map dr_key ds)" "first + len \<le> length ds"
    "\<And>i. i < first \<Longrightarrow> dr_key (ds ! i) < dr_key x"
    "\<And>i. first + len \<le> i \<Longrightarrow> i < length ds \<Longrightarrow> dr_key x \<le> dr_key (ds ! i)"
  shows "splits_at ds x (lower_bound ds x first len)"
  using assms
proof (induction ds x first len rule: lower_bound.induct)
  case (1 ds x first len)
  let ?mid = "first + len div 2"
  consider (empty) "len = 0" | (less) "len \<noteq> 0" "dropped_cmp (ds ! ?mid) x < 0"
    | (ge) "len \<noteq> 0" "\<not> dropped_cmp (ds ! ?mid) x < 0" by blast
  then show ?case
  proof cases
    case empty
    then have "lower_bound ds x first len = first" by (subst lower_bound.simps) simp
    with "1.prems" empty show ?thesis by (simp add: splits_at_def)
  next
    case less
    then have half: "len div 2 < len" by simp
    have "dr_key (ds ! i) < dr_key x" if "i < ?mid + 1" for i
      using sorted_key_le [OF "1.prems"(1), of i ?mid] less(2) that half "1.prems"(2)
      by (fastforce simp: dropped_cmp_neg)
    from "1.IH"(1) [OF less(1) refl less(2) "1.prems"(1) _ this] "1.prems"(2,4) half
    have "splits_at ds x (lower_bound ds x (?mid + 1) (len - len div 2 - 1))" by simp
    moreover have "lower_bound ds x first len = lower_bound ds x (?mid + 1) (len - len div 2 - 1)"
      using less by (subst lower_bound.simps) (simp add: Let_def)
    ultimately show ?thesis by simp
  next
    case ge
    then have half: "len div 2 < len" by simp
    have "dr_key x \<le> dr_key (ds ! i)" if "first + len div 2 \<le> i" "i < length ds" for i
      using sorted_key_le [OF "1.prems"(1) that] ge(2) by (simp add: dropped_cmp_neg not_less)
    from "1.IH"(2) [OF ge(1) refl ge(2) "1.prems"(1) _ "1.prems"(3) this] "1.prems"(2) half
    have "splits_at ds x (lower_bound ds x first (len div 2))" by simp
    moreover have "lower_bound ds x first len = lower_bound ds x first (len div 2)"
      using ge by (subst lower_bound.simps) (simp add: Let_def)
    ultimately show ?thesis by simp
  qed
qed

text \<open>So the binary search inserts where a linear search does.\<close>

lemma splits_insort: "splits_at ds x r \<Longrightarrow> take r ds @ [x] @ drop r ds = insort_key dr_key x ds"
proof (induction ds arbitrary: r)
  case (Cons d ds)
  show ?case
  proof (cases r)
    case 0
    with Cons.prems show ?thesis by (auto simp: splits_at_def)
  next
    case (Suc k)
    have "dr_key d < dr_key x" using Cons.prems Suc by (auto simp: splits_at_def)
    moreover have "splits_at ds x k"
      unfolding splits_at_def
    proof (intro conjI allI impI)
      show "k \<le> length ds" using Cons.prems Suc by (simp add: splits_at_def)
      show "dr_key (ds ! i) < dr_key x" if "i < k" for i
        using Cons.prems Suc that by (force simp: splits_at_def dest: spec [of _ "Suc i"])
      show "dr_key x \<le> dr_key (ds ! i)" if "k \<le> i" "i < length ds" for i
        using Cons.prems Suc that by (force simp: splits_at_def dest: spec [of _ "Suc i"])
    qed
    ultimately show ?thesis using Suc Cons.IH by (simp add: not_le [symmetric])
  qed
qed (simp add: splits_at_def)

lemma lower_bound_insort:
  assumes "sorted (map dr_key ds)"
  shows "take (lower_bound ds x 0 (length ds)) ds @ [x] @ drop (lower_bound ds x 0 (length ds)) ds = insort_key dr_key x ds"
  by (rule splits_insort, rule lower_bound_splits) (use assms in auto)

section \<open>Eviction\<close>

lemma drop_oldest_eq:
  "drop_oldest bound ds preferred =
     (let k = nat (int (length ds) - bound) in (drop k ds, if k = 0 \<or> ds = [] then preferred else int (length ds - k) - 1))"
proof (induction bound ds preferred rule: drop_oldest.induct)
  case (2 bound d ds preferred)
  show ?case
  proof (cases "int (length (d # ds)) > bound")
    case True
    then have "nat (int (length (d # ds)) - bound) = Suc (nat (int (length ds) - bound))" by simp
    with True "2.IH" [OF True] show ?thesis by (auto simp: Let_def)
  qed (simp add: Let_def)
qed simp

text \<open>The number of dropped replicas a group may keep.\<close>

definition drop_room :: "int \<Rightarrow> 'a partition_configuration_scheme \<Rightarrow> int" where
  "drop_room reserved pc = pc_max_replica_count pc + reserved - replica_count pc"

lemma check_size_dropped [simp]:
  "cc_dropped (check_size reserved pc cc) = drop (nat (int (length (cc_dropped cc)) - drop_room reserved pc)) (cc_dropped cc)"
  by (simp add: check_size_def drop_oldest_eq drop_room_def Let_def split: prod.split)

lemma erase_dropped_filter:
  "distinct (map dr_node ds) \<Longrightarrow> erase_dropped n ds = filter (\<lambda>d. dr_node d \<noteq> n) ds"
  by (induction ds) (auto simp: rev_image_eqI intro!: filter_True [symmetric])

section \<open>The invariant\<close>

definition history_ok :: "config_context \<Rightarrow> bool" where
  "history_ok cc \<longleftrightarrow>
     sorted (map dr_key (cc_dropped cc)) \<and> distinct (map dr_node (cc_dropped cc)) \<and>
     - 1 \<le> cc_prefered_dropped cc \<and> cc_prefered_dropped cc < int (length (cc_dropped cc))"

definition history_fits :: "int \<Rightarrow> 'a partition_configuration_scheme \<Rightarrow> config_context \<Rightarrow> bool" where
  "history_fits reserved pc cc \<longleftrightarrow> int (length (cc_dropped cc)) \<le> max 0 (drop_room reserved pc)"

lemma find_from_dropped_None: "find_from_dropped n cc = None \<longleftrightarrow> n \<notin> dr_node ` set (cc_dropped cc)"
  by (auto simp: find_from_dropped_def find_None_iff)

lemma check_size_ok: "history_ok cc \<Longrightarrow> history_ok (check_size reserved pc cc)"
  by (auto simp: history_ok_def check_size_def drop_oldest_eq Let_def drop_map [symmetric] sorted_wrt_drop split: prod.splits)

lemma check_size_fits: "history_fits reserved pc (check_size reserved pc cc)"
  by (auto simp: history_fits_def)

lemma remove_from_dropped_ok: "history_ok cc \<Longrightarrow> history_ok (snd (remove_from_dropped n cc))"
  by (auto simp: history_ok_def remove_from_dropped_def erase_dropped_filter Let_def sorted_filter distinct_map_filter)

lemma remove_from_dropped_nodes:
  "history_ok cc \<Longrightarrow> dr_node ` set (cc_dropped (snd (remove_from_dropped n cc))) = dr_node ` set (cc_dropped cc) - {n}"
  by (auto simp: history_ok_def remove_from_dropped_def erase_dropped_filter Let_def find_from_dropped_None)

lemma record_drop_history_ok:
  assumes "history_ok cc" "\<And>d. d \<in> set (cc_dropped cc) \<Longrightarrow> dr_key d \<le> (now, - 1, - 1, - 1)"
  shows "history_ok (snd (record_drop_history reserved now pc n cc)) \<and>
    (\<forall>d \<in> set (cc_dropped (snd (record_drop_history reserved now pc n cc))). dr_key d \<le> (now, - 1, - 1, - 1))"
proof (cases "find_from_dropped n cc = None")
  case True
  let ?d = "\<lparr>dr_node = n, dr_time = now, dr_ballot = - 1, dr_last_committed_decree = - 1, dr_last_prepared_decree = - 1\<rparr>"
  have "dr_key ?d = (now, - 1, - 1, - 1)" by (simp add: dr_key_def)
  with True assms have "history_ok (cc\<lparr>cc_dropped := cc_dropped cc @ [?d], cc_prefered_dropped := int (length (cc_dropped cc))\<rparr>)"
    by (auto simp: history_ok_def sorted_append find_from_dropped_None)
  then show ?thesis using True assms(2) \<open>dr_key ?d = _\<close>
    by (auto simp: record_drop_history_def Let_def intro: check_size_ok dest!: in_set_dropD)
qed (use assms in \<open>simp add: record_drop_history_def\<close>)

lemma record_drop_history_fits:
  "history_fits reserved pc cc \<Longrightarrow> history_fits reserved pc (snd (record_drop_history reserved now pc n cc))"
  by (simp add: record_drop_history_def check_size_fits Let_def)

lemma record_drop_history_nodes:
  "dr_node ` set (cc_dropped (snd (record_drop_history reserved now pc n cc))) \<subseteq> insert n (dr_node ` set (cc_dropped cc))"
  by (auto simp: record_drop_history_def Let_def dest!: in_set_dropD)

lemma record_drop_history_new: "n \<notin> dr_node ` set (cc_dropped cc) \<Longrightarrow> fst (record_drop_history reserved now pc n cc)"
  by (simp add: record_drop_history_def find_from_dropped_None [symmetric] Let_def)

section \<open>Reported replicas\<close>

text \<open>The entry of a replica that a node reports; the time it was dropped is kept.\<close>

definition reported :: "node \<Rightarrow> replica_info \<Rightarrow> config_context \<Rightarrow> dropped_replica" where
  "reported n info cc =
     \<lparr>dr_node = n, dr_time = (case find_from_dropped n cc of None \<Rightarrow> 0 | Some d \<Rightarrow> dr_time d),
      dr_ballot = ri_ballot info, dr_last_committed_decree = ri_last_committed_decree info,
      dr_last_prepared_decree = ri_last_prepared_decree info\<rparr>"

definition with_reported :: "node \<Rightarrow> replica_info \<Rightarrow> config_context \<Rightarrow> dropped_replica list" where
  "with_reported n info cc = insort_key dr_key (reported n info cc) (filter (\<lambda>d. dr_node d \<noteq> n) (cc_dropped cc))"

lemma with_reported_length:
  assumes "history_ok cc"
  shows "length (with_reported n info cc) = length (cc_dropped cc) + (if find_from_dropped n cc = None then 1 else 0)"
proof (cases "find_from_dropped n cc = None")
  case True
  then have "filter (\<lambda>d. dr_node d \<noteq> n) (cc_dropped cc) = cc_dropped cc"
    by (auto simp: find_from_dropped_None intro!: filter_True)
  with True show ?thesis by (simp add: with_reported_def)
next
  case False
  have "length (erase_dropped n ds) = length ds - 1" if "n \<in> dr_node ` set ds" for ds
    using that by (induction ds) (auto, metis length_pos_if_in_set Suc_pred)
  moreover have "0 < length (cc_dropped cc)" using False by (auto simp: find_from_dropped_None)
  ultimately show ?thesis using False assms
    by (simp add: with_reported_def erase_dropped_filter [symmetric] history_ok_def find_from_dropped_None)
qed

lemma collect_drop_replica_eq:
  assumes "history_ok cc"
  shows "collect_drop_replica reserved pc n info cc =
    (let ds = with_reported n info cc;
         cc' = check_size reserved pc (cc\<lparr>cc_dropped := ds, cc_prefered_dropped := int (length ds) - 1\<rparr>)
     in if find_from_dropped n cc' = None
        then bind_result (check (find_from_dropped n cc = None) ''adjust position of existing node failed, this is a bug'') (\<lambda>_. Inr (- 1, cc'))
        else Inr (if find_from_dropped n cc \<noteq> None then 1 else 0, cc'))"
proof -
  have "(if find_from_dropped n cc \<noteq> None then erase_dropped n (cc_dropped cc) else cc_dropped cc) =
      filter (\<lambda>d. dr_node d \<noteq> n) (cc_dropped cc)"
    using assms by (auto simp: history_ok_def erase_dropped_filter find_from_dropped_None intro!: filter_True [symmetric])
  moreover have "sorted (map dr_key (filter (\<lambda>d. dr_node d \<noteq> n) (cc_dropped cc)))"
    using assms by (simp add: history_ok_def sorted_filter)
  ultimately show ?thesis
    by (simp only: collect_drop_replica_def with_reported_def reported_def [symmetric] Let_def lower_bound_insort)
qed

lemma with_reported_ok:
  assumes "history_ok cc"
  shows "history_ok (cc\<lparr>cc_dropped := with_reported n info cc, cc_prefered_dropped := int (length (with_reported n info cc)) - 1\<rparr>)"
proof -
  have "distinct (map dr_node (with_reported n info cc))"
  proof -
    have "mset (map dr_node (with_reported n info cc)) = mset (n # map dr_node (filter (\<lambda>d. dr_node d \<noteq> n) (cc_dropped cc)))"
      by (simp add: with_reported_def reported_def)
    moreover have "distinct (n # map dr_node (filter (\<lambda>d. dr_node d \<noteq> n) (cc_dropped cc)))"
      using assms by (auto simp: history_ok_def distinct_map_filter)
    ultimately show ?thesis by (metis mset_eq_imp_distinct_iff)
  qed
  moreover have "sorted (map dr_key (with_reported n info cc))"
    using assms by (simp add: with_reported_def sorted_insort_key sorted_filter history_ok_def)
  ultimately show ?thesis by (simp add: history_ok_def)
qed

lemma track_current_learner_total:
  assumes "list_all (\<lambda>act. pa_node act \<noteq> None) (la_acts la)"
  shows "\<exists>la'. track_current_learner n info la = Inr la' \<and> la_acts la' = la_acts la"
  using assms by (cases "la_acts la") (auto simp: track_current_learner_def)


text \<open>A group of three with one missing member, which was dropped at time 1000.\<close>

definition sample_pc :: meta_configuration where
  "sample_pc = \<lparr>pc_pid = (1, 0), pc_ballot = 4, pc_max_replica_count = 3, pc_primary = Some 1,
     pc_secondaries = [2], pc_last_committed_decree = 20, pc_last_drops = [5], pc_partition_flags = 0\<rparr>"

definition sample_cc :: config_context where
  "sample_cc = config_context_init\<lparr>cc_dropped := [\<lparr>dr_node = 5, dr_time = 1000, dr_ballot = - 1,
     dr_last_committed_decree = - 1, dr_last_prepared_decree = - 1\<rparr>], cc_prefered_dropped := 0\<rparr>"

definition sample_info :: replica_info where
  "sample_info = \<lparr>ri_pid = (1, 0), ri_ballot = 3, ri_status = PS_INACTIVE, ri_last_committed_decree = 15,
     ri_last_prepared_decree = 16, ri_last_durable_decree = 10, ri_disk_tag = [], ri_manual_compact_status = None\<rparr>"

lemma sample_facts [simp]:
  "cc_dropped sample_cc = [\<lparr>dr_node = 5, dr_time = 1000, dr_ballot = - 1, dr_last_committed_decree = - 1,
     dr_last_prepared_decree = - 1\<rparr>]"
  "la_acts (cc_lb_actions sample_cc) = []" "cc_prefered_dropped sample_cc = 0" "pc_ballot sample_pc = 4"
  "is_member sample_pc n \<longleftrightarrow> n = 1 \<or> n = 2" "replica_count sample_pc = 2" "pc_max_replica_count sample_pc = 3"
  "ri_status sample_info = PS_INACTIVE" "ri_ballot sample_info = 3"
  "ri_last_committed_decree sample_info = 15" "ri_last_prepared_decree sample_info = 16"
  by (auto simp: sample_cc_def config_context_init_def proposal_actions_init_def reset_tracked_current_learner_def
      sample_pc_def is_member_def is_primary_def is_secondary_def replica_count_def sample_info_def)


end
