(* ===== verification/Guardian_Cure.thy ===== *)
theory Guardian_Cure
  imports Partition_Guardian Drop_History
begin

text \<open>
  What the guardian proposes: the node with the least load among the eligible ones, a
  proposal that stays valid until the view changes, and for a partition all of whose replicas
  are dead the better of the two replicas that were dropped last.
\<close>

section \<open>Choosing the least loaded node\<close>

fun pick :: "('a \<Rightarrow> 'k::linorder) \<Rightarrow> 'a list \<Rightarrow> 'a option \<Rightarrow> 'a option" where
  "pick k [] best = best"
| "pick k (x # xs) best =
     pick k xs (case best of None \<Rightarrow> Some x | Some y \<Rightarrow> if k x < k y then Some x else Some y)"

lemma pick_None [simp]: "pick k xs best = None \<longleftrightarrow> xs = [] \<and> best = None"
  by (induction xs arbitrary: best) (auto split: option.splits)

lemma pick_min:
  assumes "pick k xs best = Some y"
  shows "(y \<in> set xs \<or> best = Some y) \<and> (\<forall>x \<in> set xs. k y \<le> k x) \<and> (\<forall>z. best = Some z \<longrightarrow> k y \<le> k z)"
  using assms
proof (induction xs arbitrary: best)
  case (Cons x xs)
  then show ?case
    by (cases best) (fastforce split: if_splits)+
qed simp

definition primaries_key :: "int \<Rightarrow> node_state \<Rightarrow> int \<times> int \<times> int \<times> int" where
  "primaries_key app ns = (np_primary_count ns app, np_partition_count ns app, np_all_primaries ns, np_all_partitions ns)"

definition partitions_key :: "int \<Rightarrow> node_state \<Rightarrow> int \<times> int" where
  "partitions_key app ns = (np_partition_count ns app, np_all_partitions ns)"

lemma less_primaries_key: "less_primaries ns another app \<longleftrightarrow> primaries_key app ns < primaries_key app another"
  by (auto simp: less_primaries_def primaries_key_def)

lemma less_partitions_key: "less_partitions ns another app \<longleftrightarrow> partitions_key app ns < partitions_key app another"
  by (auto simp: less_partitions_def partitions_key_def)

lemma min_primary_server_pick:
  "min_primary_server app nodes best = pick (primaries_key app \<circ> snd) (filter (ns_is_alive \<circ> snd) nodes) best"
  by (induction app nodes best rule: min_primary_server.induct)
    (auto simp: less_primaries_key split: option.splits)

lemma min_server_pick:
  "min_server env pc app nodes best = pick (partitions_key app \<circ> snd)
     (filter (\<lambda>(n, ns). ns_is_alive ns \<and> \<not> is_member pc n \<and> n \<notin> me_assign_secondary_black_list env) nodes) best"
  by (induction env pc app nodes best rule: min_server.induct)
    (auto simp: less_partitions_key split: option.splits)

lemma best_secondary_pick:
  assumes "\<And>n. n \<in> set ss \<Longrightarrow> map_of nodes n \<noteq> None"
  shows "best_secondary nodes app ss best =
    Inr (pick (primaries_key app \<circ> snd) (filter (ns_is_alive \<circ> snd) (map (\<lambda>n. (n, the (map_of nodes n))) ss)) best)"
  using assms
  by (induction nodes app ss best rule: best_secondary.induct)
    (auto simp: less_primaries_key split: option.splits)

lemma most_loaded_member:
  assumes "\<And>n. n \<in> set ss \<Longrightarrow> map_of nodes n \<noteq> None"
  shows "\<exists>n. most_loaded nodes ss best load = Inr n \<and> (n = best \<or> n \<in> set ss)"
  using assms by (induction nodes ss best load rule: most_loaded.induct) (fastforce split: option.splits)+

section \<open>Nodes\<close>

lemma map_of_update_node: "map_of (update_node n f nodes) x = (if x = n then map_option f (map_of nodes x) else map_of nodes x)"
  by (induction nodes) (auto simp: update_node_def)

lemma alive_set_newly [simp]: "is_node_alive (set_newly n f nodes) x = is_node_alive nodes x"
  by (simp add: is_node_alive_def set_newly_def map_of_update_node split: option.split)

lemma alive_known: "is_node_alive nodes n \<Longrightarrow> \<exists>ns. map_of nodes n = Some ns \<and> ns_is_alive ns"
  by (auto simp: is_node_alive_def split: option.splits)

lemma get_put_context:
  "get_partition pid m = Inr p \<Longrightarrow> get_partition pid (put_context pid q cc (m\<lparr>m_nodes := nodes\<rparr>)) = Inr (q\<lparr>ps_cc := cc\<rparr>)"
  "get_partition pid m = Inr p \<Longrightarrow> get_partition pid (put_context pid q cc m) = Inr (q\<lparr>ps_cc := cc\<rparr>)"
  by (auto simp: get_partition_def put_context_def split: option.splits if_splits)

lemma put_context_nodes [simp]: "m_nodes (put_context pid q cc m) = m_nodes m"
  by (simp add: put_context_def)

section \<open>Proposals\<close>

lemma assign_cure_acts [simp]:
  "la_acts (assign_cure_proposal act la) = [act]" "la_abnormal (assign_cure_proposal act la) = False"
  "la_from_balancer (assign_cure_proposal act la) = False"
  by (simp_all add: assign_cure_proposal_def reset_tracked_current_learner_def)

lemma assign_balancer_acts [simp]:
  "la_acts (assign_balancer_proposals acts la) = acts" "la_abnormal (assign_balancer_proposals acts la) = False"
  "la_from_balancer (assign_balancer_proposals acts la) = True"
  by (simp_all add: assign_balancer_proposals_def reset_tracked_current_learner_def)

lemma abnormal_False [simp]: "\<not> la_abnormal la \<Longrightarrow> \<not> is_abnormal_learning_proposal la"
  by (simp add: is_abnormal_learning_proposal_def split: list.split)

text \<open>A valid proposal at the head of the queue is proposed again and nothing changes.\<close>

lemma cure_repeats:
  assumes "get_partition pid m = Inr p" "la_acts (cc_lb_actions (ps_cc p)) = act # acts"
    "action_valid (m_nodes m) (ps_pc p) (cc_lb_actions (ps_cc p)) act"
  shows "cure env pid m = Inr (ill, act, m)"
  using assms by (simp add: cure_def from_proposals_def Let_def)

text \<open>Without pending proposals the cure looks at the configuration.\<close>

lemma cure_idle:
  assumes "get_partition pid m = Inr p" "la_acts (cc_lb_actions (ps_cc p)) = []"
  shows "cure env pid m =
    bind_result (cure_missing env pid p m) (\<lambda>(st, m2).
      bind_result (get_partition pid m2) (\<lambda>p2.
        Inr (st, (case la_acts (cc_lb_actions (ps_cc p2)) of [] \<Rightarrow> no_action | act # _ \<Rightarrow> act), m2)))"
  using assms by (simp add: cure_def from_proposals_def Let_def)

text \<open>
  A later state in which a proposal still stands: the configuration of the partition and its
  queue of proposals are the same and the two nodes of the proposal are alive. The clock, the
  flags, all other partitions, the other nodes and the loads of all nodes are free.
\<close>

definition proposal_stands :: "gpid \<Rightarrow> meta \<Rightarrow> configuration_proposal_action \<Rightarrow> meta \<Rightarrow> bool" where
  "proposal_stands pid m act m' \<longleftrightarrow>
     (\<exists>p p'. get_partition pid m = Inr p \<and> get_partition pid m' = Inr p' \<and> ps_pc p' = ps_pc p \<and>
       cc_lb_actions (ps_cc p') = cc_lb_actions (ps_cc p) \<and>
       (\<forall>n. pa_target act = Some n \<or> pa_node act = Some n \<longrightarrow> is_node_alive (m_nodes m') n))"

text \<open>What it means that a cure ends with a proposal that stays valid.\<close>

definition cured :: "meta_env \<Rightarrow> gpid \<Rightarrow> meta \<Rightarrow> pc_status \<Rightarrow> configuration_proposal_action \<Rightarrow> bool" where
  "cured env pid m st act \<longleftrightarrow>
     (\<exists>m'. cure env pid m = Inr (st, act, m') \<and> proposal_stands pid m' act m' \<and>
       (\<forall>env' m''. proposal_stands pid m' act m'' \<longrightarrow> cure env' pid m'' = Inr (ill, act, m'')))"

lemma action_valid_nodes:
  assumes "action_valid nodes pc la act"
    "\<forall>n. pa_target act = Some n \<or> pa_node act = Some n \<longrightarrow> is_node_alive nodes' n"
  shows "action_valid nodes' pc la act"
  using assms by (auto simp: action_valid_def split: option.splits)

lemma action_valid_alive:
  assumes "action_valid nodes pc la act" "pa_target act = Some n \<or> pa_node act = Some n"
  shows "is_node_alive nodes n"
  using assms by (auto simp: action_valid_def split: option.splits)

lemma curedI:
  assumes "cure env pid m = Inr (st, act, m')" "get_partition pid m' = Inr p"
    "la_acts (cc_lb_actions (ps_cc p)) = act # acts" "action_valid (m_nodes m') (ps_pc p) (cc_lb_actions (ps_cc p)) act"
  shows "cured env pid m st act"
proof -
  have "cure env' pid m'' = Inr (ill, act, m'')" if "proposal_stands pid m' act m''" for env' m''
  proof -
    from that assms(2) obtain p'' where p'': "get_partition pid m'' = Inr p''" "ps_pc p'' = ps_pc p"
      "cc_lb_actions (ps_cc p'') = cc_lb_actions (ps_cc p)"
      "\<forall>n. pa_target act = Some n \<or> pa_node act = Some n \<longrightarrow> is_node_alive (m_nodes m'') n"
      by (auto simp: proposal_stands_def)
    show ?thesis
      by (rule cure_repeats [OF p''(1), of _ acts])
        (use p''(2,3) assms(3) action_valid_nodes [OF assms(4) p''(4)] in simp_all)
  qed
  moreover have "proposal_stands pid m' act m'"
    using assms(2) action_valid_alive [OF assms(4)] by (auto simp: proposal_stands_def)
  ultimately show ?thesis using assms(1) unfolding cured_def by blast
qed

lemma cured_by_proposal:
  assumes part: "get_partition pid m = Inr p" "la_acts (cc_lb_actions (ps_cc p)) = []"
    and step: "cure_missing env pid p m =
      bind_result (propose_cure pid (p\<lparr>ps_cc := cc\<rparr>) act n add m) (\<lambda>m'. Inr (st, m'))"
    and node: "map_of (m_nodes m) n \<noteq> None"
    and valid: "\<And>la. \<not> la_abnormal la \<Longrightarrow> action_valid (set_newly n add (m_nodes m)) (ps_pc p) la act"
  shows "cured env pid m st act"
proof -
  let ?cc = "cc\<lparr>cc_lb_actions := assign_cure_proposal act (cc_lb_actions cc)\<rparr>"
  let ?m = "put_context pid (p\<lparr>ps_cc := cc\<rparr>) ?cc (m\<lparr>m_nodes := set_newly n add (m_nodes m)\<rparr>)"
  have get: "get_partition pid ?m = Inr (p\<lparr>ps_cc := ?cc\<rparr>)" using get_put_context(1) [OF part(1)] by simp
  have "cure env pid m = Inr (st, act, ?m)"
    using node get by (simp add: cure_idle [OF part] step propose_cure_def)
  then show ?thesis by (rule curedI [OF _ get, of _ _ _ _ "[]"]) (use valid in simp_all)
qed

section \<open>A partition with living members\<close>

definition group_alive :: "node_mapper \<Rightarrow> meta_configuration \<Rightarrow> bool" where
  "group_alive nodes pc \<longleftrightarrow> (\<forall>n. is_member pc n \<longrightarrow> is_node_alive nodes n)"

lemma cured_upgrade:
  assumes part: "get_partition pid m = Inr p" "la_acts (cc_lb_actions (ps_cc p)) = []"
    and pc: "group_alive (m_nodes m) (ps_pc p)" "pc_primary (ps_pc p) = None" "pc_secondaries (ps_pc p) \<noteq> []"
  shows "\<exists>n. is_secondary (ps_pc p) n \<and> cured env pid m ill (primary_action CT_UPGRADE_TO_PRIMARY n) \<and>
    (\<forall>x. is_secondary (ps_pc p) x \<longrightarrow>
       primaries_key (fst pid) (the (map_of (m_nodes m) n)) \<le> primaries_key (fst pid) (the (map_of (m_nodes m) x)))"
proof -
  let ?ss = "pc_secondaries (ps_pc p)" and ?st = "\<lambda>n. the (map_of (m_nodes m) n)"
  have alive: "map_of (m_nodes m) n = Some (?st n) \<and> ns_is_alive (?st n)" if "n \<in> set ?ss" for n
    using pc(1) that alive_known [of "m_nodes m" n] by (auto simp: group_alive_def is_member_def is_secondary_def)
  then have "filter (ns_is_alive \<circ> snd) (map (\<lambda>n. (n, ?st n)) ?ss) = map (\<lambda>n. (n, ?st n)) ?ss"
    by (auto intro!: filter_True)
  moreover obtain b where b: "pick (primaries_key (fst pid) \<circ> snd) (map (\<lambda>n. (n, ?st n)) ?ss) None = Some b"
    using pc(3) by (cases "pick (primaries_key (fst pid) \<circ> snd) (map (\<lambda>n. (n, ?st n)) ?ss) None") auto
  ultimately have best: "best_secondary (m_nodes m) (fst pid) ?ss None = Inr (Some b)"
    using alive by (subst best_secondary_pick) auto
  from pick_min [OF b] obtain n where n: "b = (n, ?st n)" "n \<in> set ?ss"
    "\<forall>x \<in> set ?ss. primaries_key (fst pid) (?st n) \<le> primaries_key (fst pid) (?st x)" by auto
  have "cured env pid m ill (primary_action CT_UPGRADE_TO_PRIMARY n)"
  proof (rule cured_by_proposal [OF part])
    show "cure_missing env pid p m = bind_result (propose_cure pid (p\<lparr>ps_cc := ps_cc p\<rparr>)
        (primary_action CT_UPGRADE_TO_PRIMARY n) n (newly_add_primary (fst pid) True) m) (\<lambda>m'. Inr (ill, m'))"
      using part(1) pc(2,3) best n(1) by (simp add: cure_missing_def on_missing_primary_def Let_def)
    show "map_of (m_nodes m) n \<noteq> None" using alive [OF n(2)] by auto
  qed (use pc(1,2) n(2) in \<open>auto simp: action_valid_def primary_action_def group_alive_def is_member_def is_secondary_def\<close>)
  with n show ?thesis by (auto simp: is_secondary_def)
qed

lemma cured_assign:
  assumes part: "get_partition pid m = Inr p" "la_acts (cc_lb_actions (ps_cc p)) = []" and nodes: "distinct (map fst (m_nodes m))"
    and pc: "pc_primary (ps_pc p) = None" "pc_secondaries (ps_pc p) = []" "pc_last_drops (ps_pc p) = []"
    and spare: "is_node_alive (m_nodes m) c"
  shows "\<exists>n. is_node_alive (m_nodes m) n \<and> cured env pid m ill (primary_action CT_ASSIGN_PRIMARY n) \<and>
    (\<forall>x. is_node_alive (m_nodes m) x \<longrightarrow>
       primaries_key (fst pid) (the (map_of (m_nodes m) n)) \<le> primaries_key (fst pid) (the (map_of (m_nodes m) x)))"
proof -
  let ?alive = "filter (ns_is_alive \<circ> snd) (m_nodes m)"
  have in_alive: "(x, ns) \<in> set ?alive \<longleftrightarrow> is_node_alive (m_nodes m) x \<and> map_of (m_nodes m) x = Some ns" for x ns
    using nodes by (auto simp: is_node_alive_def)
  with spare alive_known [OF spare] have "?alive \<noteq> []" by (metis empty_iff list.set(1))
  then obtain n ns where b: "pick (primaries_key (fst pid) \<circ> snd) ?alive None = Some (n, ns)"
    by (cases "pick (primaries_key (fst pid) \<circ> snd) ?alive None") auto
  then have best: "min_primary_server (fst pid) (m_nodes m) None = Some (n, ns)" by (simp only: min_primary_server_pick)
  from pick_min [OF b] have n: "is_node_alive (m_nodes m) n" "map_of (m_nodes m) n = Some ns"
    and least: "\<forall>x \<in> set ?alive. primaries_key (fst pid) ns \<le> primaries_key (fst pid) (snd x)"
    using in_alive [of n ns] by auto
  have "cured env pid m ill (primary_action CT_ASSIGN_PRIMARY n)"
  proof (rule cured_by_proposal [OF part])
    show "cure_missing env pid p m = bind_result (propose_cure pid (p\<lparr>ps_cc := ps_cc p\<rparr>)
        (primary_action CT_ASSIGN_PRIMARY n) n (newly_add_primary (fst pid) False) m) (\<lambda>m'. Inr (ill, m'))"
      using part(1) pc best by (simp add: cure_missing_def on_missing_primary_def Let_def)
    show "map_of (m_nodes m) n \<noteq> None" using n by simp
  qed (use n pc in \<open>auto simp: action_valid_def primary_action_def is_secondary_def\<close>)
  moreover have "primaries_key (fst pid) ns \<le> primaries_key (fst pid) (the (map_of (m_nodes m) x))"
    if "is_node_alive (m_nodes m) x" for x
    using that least in_alive alive_known [OF that] by fastforce
  ultimately show ?thesis using n by (intro exI [of _ n]) simp
qed

lemma search_dropped_found:
  assumes "search_dropped nodes ds i = (Some n, j)" "i \<le> length ds"
  shows "is_node_alive nodes n \<and> n \<in> dr_node ` set ds"
  using assms by (induction i) (auto split: if_splits)

lemma cured_add_secondary:
  assumes part: "get_partition pid m = Inr p" "la_acts (cc_lb_actions (ps_cc p)) = []" and nodes: "distinct (map fst (m_nodes m))"
    and pc: "group_alive (m_nodes m) (ps_pc p)" "pc_primary (ps_pc p) = Some q"
      "int (length (pc_secondaries (ps_pc p))) + 1 < pc_max_replica_count (ps_pc p)"
    and drops: "\<And>d. d \<in> set (cc_dropped (ps_cc p)) \<Longrightarrow> \<not> is_member (ps_pc p) (dr_node d)"
    and spare: "is_node_alive (m_nodes m) c" "\<not> is_member (ps_pc p) c" "c \<notin> me_assign_secondary_black_list env"
    and due: "is_emergency env (ps_pc p) (ps_cc p) = Inr True \<or>
      is_node_alive (m_nodes m) (dr_node (last (cc_dropped (ps_cc p))))"
  shows "\<exists>n. is_node_alive (m_nodes m) n \<and> \<not> is_member (ps_pc p) n \<and> n \<notin> me_assign_secondary_black_list env \<and>
    cured env pid m ill \<lparr>pa_target = Some q, pa_node = Some n, pa_type = CT_ADD_SECONDARY\<rparr>"
proof -
  let ?nodes = "m_nodes m" and ?pc = "ps_pc p" and ?cc = "ps_cc p"
  let ?ok = "\<lambda>n. is_node_alive ?nodes n \<and> \<not> is_member ?pc n \<and> n \<notin> me_assign_secondary_black_list env"
  have max: "0 < pc_max_replica_count ?pc" using pc(3) by simp
  obtain emergency where e: "is_emergency env ?pc ?cc = Inr emergency"
    using max by (auto simp: is_emergency_def app_mutation_2pc_min_replica_count_def)
  have "\<exists>n cc. choose_secondary env (fst pid) ?nodes ?pc emergency ?cc = (Some n, cc) \<and> ?ok n"
  proof (cases emergency)
    case True
    let ?size = "int (length (cc_dropped ?cc))"
    define preferred where "preferred = (if cc_prefered_dropped ?cc < 0 \<or> cc_prefered_dropped ?cc \<ge> ?size then ?size - 1
      else cc_prefered_dropped ?cc)"
    obtain found j where f: "search_dropped ?nodes (cc_dropped ?cc) (nat (preferred + 1)) = (found, j)" by force
    have "nat (preferred + 1) \<le> length (cc_dropped ?cc)" by (auto simp: preferred_def)
    with f have found: "is_node_alive ?nodes n \<and> \<not> is_member ?pc n" if "found = Some n" for n
      using search_dropped_found that drops by blast
    let ?cands = "filter (\<lambda>(n, ns). ns_is_alive ns \<and> \<not> is_member ?pc n \<and> n \<notin> me_assign_secondary_black_list env) ?nodes"
    obtain cs where "map_of ?nodes c = Some cs" "ns_is_alive cs" using alive_known [OF spare(1)] by blast
    with spare have "(c, cs) \<in> set ?cands" by (auto dest: map_of_SomeD)
    then have "?cands \<noteq> []" by (metis empty_iff list.set(1))
    then obtain n ns where b: "pick (partitions_key (fst pid) \<circ> snd) ?cands None = Some (n, ns)"
      by (cases "pick (partitions_key (fst pid) \<circ> snd) ?cands None") auto
    then have "min_server env ?pc (fst pid) ?nodes None = Some (n, ns)" by (simp only: min_server_pick)
    moreover have "?ok n" using pick_min [OF b] nodes by (auto simp: is_node_alive_def)
    ultimately show ?thesis using True f found
      by (cases found) (auto simp: choose_secondary_def preferred_def [symmetric] Let_def)
  next
    case False
    with e max have "cc_dropped ?cc \<noteq> []" "dr_node (last (cc_dropped ?cc)) \<notin> me_assign_secondary_black_list env"
      by (auto simp: is_emergency_def app_mutation_2pc_min_replica_count_def)
    with False e due drops show ?thesis by (auto simp: choose_secondary_def Let_def)
  qed
  then obtain n cc where n: "choose_secondary env (fst pid) ?nodes ?pc emergency ?cc = (Some n, cc)" "?ok n" by blast
  let ?act = "\<lparr>pa_target = Some q, pa_node = Some n, pa_type = CT_ADD_SECONDARY\<rparr>"
  have "cured env pid m ill ?act"
  proof (rule cured_by_proposal [OF part])
    show "cure_missing env pid p m = bind_result (propose_cure pid (p\<lparr>ps_cc := cc\<rparr>) ?act n (newly_add_partition (fst pid)) m)
        (\<lambda>m'. Inr (ill, m'))"
      using part(1) pc e n(1) by (simp add: cure_missing_def on_missing_secondary_def Let_def)
    show "map_of ?nodes n \<noteq> None" using n(2) alive_known by fastforce
  qed (use n(2) pc in \<open>auto simp: action_valid_def is_member_def is_primary_def group_alive_def\<close>)
  with n(2) show ?thesis by blast
qed

lemma put_same_context: "get_partition pid m = Inr p \<Longrightarrow> put_context pid p (ps_cc p) m = m"
  by (auto simp: get_partition_def put_context_def fun_upd_idem split: option.splits if_splits)

lemma cure_waits:
  assumes part: "get_partition pid m = Inr p" "la_acts (cc_lb_actions (ps_cc p)) = []"
    and pc: "pc_primary (ps_pc p) = Some q" "int (length (pc_secondaries (ps_pc p))) + 1 < pc_max_replica_count (ps_pc p)"
    and wait: "is_emergency env (ps_pc p) (ps_cc p) \<noteq> Inr True"
      "\<not> is_node_alive (m_nodes m) (dr_node (last (cc_dropped (ps_cc p))))"
  shows "cure env pid m = Inr (ill, no_action, m)"
proof -
  have "is_emergency env (ps_pc p) (ps_cc p) = Inr False"
    using wait(1) pc(2) by (auto simp: is_emergency_def app_mutation_2pc_min_replica_count_def)
  then have "on_missing_secondary env pid m = Inr (ill, m)"
    using part(1) wait(2) put_same_context [OF part(1)]
    by (simp add: on_missing_secondary_def choose_secondary_def Let_def)
  then show ?thesis using part pc by (simp add: cure_idle [OF part] cure_missing_def Let_def)
qed

lemma cured_remove:
  assumes part: "get_partition pid m = Inr p" "la_acts (cc_lb_actions (ps_cc p)) = []"
    and pc: "group_alive (m_nodes m) (ps_pc p)" "pc_primary (ps_pc p) = Some q" "0 < pc_max_replica_count (ps_pc p)"
      "int (length (pc_secondaries (ps_pc p))) \<ge> pc_max_replica_count (ps_pc p)"
  shows "\<exists>n. is_secondary (ps_pc p) n \<and> cured env pid m ill \<lparr>pa_target = Some q, pa_node = Some n, pa_type = CT_REMOVE\<rparr>"
proof -
  let ?ss = "pc_secondaries (ps_pc p)"
  have ne: "?ss \<noteq> []" using pc(3,4) by auto
  have known: "map_of (m_nodes m) n \<noteq> None" if "n \<in> set ?ss" for n
    using pc(1) that alive_known [of "m_nodes m" n] by (auto simp: group_alive_def is_member_def is_secondary_def)
  then obtain ns where ns: "map_of (m_nodes m) (hd ?ss) = Some ns" using ne by fastforce
  obtain n where n: "most_loaded (m_nodes m) ?ss (hd ?ss) (ns_total_partitions ns) = Inr n" "n \<in> set ?ss"
    using most_loaded_member [OF known] ne by (metis list.set_sel(1))
  let ?act = "\<lparr>pa_target = Some q, pa_node = Some n, pa_type = CT_REMOVE\<rparr>"
  let ?cc = "(ps_cc p)\<lparr>cc_lb_actions := assign_balancer_proposals [?act] (cc_lb_actions (ps_cc p))\<rparr>"
  let ?m = "put_context pid p ?cc m"
  have get: "get_partition pid ?m = Inr (p\<lparr>ps_cc := ?cc\<rparr>)" by (rule get_put_context(2) [OF part(1)])
  have "cure env pid m = Inr (ill, ?act, ?m)"
    using part(1) pc ns n(1) get
    by (simp add: cure_idle [OF part] cure_missing_def on_redundant_secondary_def Let_def)
  then have "cured env pid m ill ?act"
    by (rule curedI [OF _ get, of _ _ _ _ "[]"])
      (use n(2) pc in \<open>auto simp: action_valid_def is_member_def is_primary_def is_secondary_def group_alive_def\<close>)
  then show ?thesis using n(2) by (auto simp: is_secondary_def)
qed

text \<open>
  C13.
  Let the members of a group be alive, no dropped replica be a member, and let there be a
  spare node: a living one outside the group and the black list. A partition without pending
  proposals and without a primary gets the upgrade of its secondary with the least load, or,
  when it is new, the assignment of the living node with the least load. A partition with too
  few secondaries gets a living node outside the group and the black list in an emergency and
  when the node that was dropped last is alive again; otherwise the guardian waits for this
  node and proposes nothing. With too many secondaries one is removed; with exactly as many
  as wanted the partition is healthy and nothing changes. The proposal stays valid: in every
  later state in which the configuration and the queue of the partition are the same and the
  two nodes of the proposal are alive, the guardian repeats it and changes nothing, whatever
  has happened to the clock, the flags, the other nodes and the other partitions.
\<close>

theorem cure_proposes:
  assumes part: "get_partition pid m = Inr p" "la_acts (cc_lb_actions (ps_cc p)) = []" and nodes: "distinct (map fst (m_nodes m))"
    and group: "group_alive (m_nodes m) (ps_pc p)" "0 < pc_max_replica_count (ps_pc p)"
    and drops: "\<And>d. d \<in> set (cc_dropped (ps_cc p)) \<Longrightarrow> \<not> is_member (ps_pc p) (dr_node d)"
    and spare: "is_node_alive (m_nodes m) c" "\<not> is_member (ps_pc p) c" "c \<notin> me_assign_secondary_black_list env"
  shows "case pc_primary (ps_pc p) of
      None \<Rightarrow>
        if pc_secondaries (ps_pc p) \<noteq> []
        then \<exists>n. is_secondary (ps_pc p) n \<and> cured env pid m ill (primary_action CT_UPGRADE_TO_PRIMARY n) \<and>
          (\<forall>x. is_secondary (ps_pc p) x \<longrightarrow> primaries_key (fst pid) (the (map_of (m_nodes m) n))
             \<le> primaries_key (fst pid) (the (map_of (m_nodes m) x)))
        else pc_last_drops (ps_pc p) = [] \<longrightarrow>
          (\<exists>n. is_node_alive (m_nodes m) n \<and> cured env pid m ill (primary_action CT_ASSIGN_PRIMARY n) \<and>
            (\<forall>x. is_node_alive (m_nodes m) x \<longrightarrow> primaries_key (fst pid) (the (map_of (m_nodes m) n))
               \<le> primaries_key (fst pid) (the (map_of (m_nodes m) x))))
    | Some q \<Rightarrow>
        if int (length (pc_secondaries (ps_pc p))) + 1 < pc_max_replica_count (ps_pc p)
        then if is_emergency env (ps_pc p) (ps_cc p) = Inr True \<or>
            is_node_alive (m_nodes m) (dr_node (last (cc_dropped (ps_cc p))))
          then \<exists>n. is_node_alive (m_nodes m) n \<and> \<not> is_member (ps_pc p) n \<and> n \<notin> me_assign_secondary_black_list env \<and>
            cured env pid m ill \<lparr>pa_target = Some q, pa_node = Some n, pa_type = CT_ADD_SECONDARY\<rparr>
          else cure env pid m = Inr (ill, no_action, m)
        else if int (length (pc_secondaries (ps_pc p))) + 1 = pc_max_replica_count (ps_pc p)
        then cure env pid m = Inr (healthy, no_action, m)
        else \<exists>n. is_secondary (ps_pc p) n \<and> cured env pid m ill \<lparr>pa_target = Some q, pa_node = Some n, pa_type = CT_REMOVE\<rparr>"
proof (cases "pc_primary (ps_pc p)")
  case None
  then show ?thesis
    using cured_upgrade [OF part group(1) None] cured_assign [OF part nodes None _ _ spare(1)] by simp
next
  case (Some q)
  have "cure env pid m = Inr (healthy, no_action, m)"
    if "int (length (pc_secondaries (ps_pc p))) + 1 = pc_max_replica_count (ps_pc p)"
    using that Some part by (simp add: cure_idle [OF part] cure_missing_def Let_def)
  then show ?thesis
    using Some cured_add_secondary [OF part nodes group(1) Some _ drops spare]
      cure_waits [OF part Some] cured_remove [OF part group(1) Some group(2)] by auto
qed

section \<open>A partition all of whose replicas are dead\<close>

text \<open>The order in which the guardian prefers one of two dead replicas.\<close>

definition data_key :: "dropped_replica \<Rightarrow> ballot \<times> decree \<times> decree" where
  "data_key d = (dr_ballot d, dr_last_committed_decree d, dr_last_prepared_decree d)"

lemma find_from_dropped_Some: "find_from_dropped n cc = Some d \<Longrightarrow> dr_node d = n \<and> d \<in> set (cc_dropped cc)"
  by (auto simp: find_from_dropped_def find_Some_iff)

lemma collected_info_node: "collected_info nodes cc n = Inr d \<Longrightarrow> dr_node d = n \<and> is_node_alive nodes n"
  by (auto simp: collected_info_def is_node_alive_def Let_def find_from_dropped_Some split: option.splits if_splits)

lemma select_primary_best:
  assumes "select_primary committed d0 d1 = Inr n"
  shows "\<exists>d \<in> {d0, d1}. n = dr_node d \<and> (\<forall>d' \<in> {d0, d1}. data_key d' \<le> data_key d \<and>
    dr_last_committed_decree d' \<le> dr_last_committed_decree d) \<and>
    committed \<le> max (dr_last_prepared_decree d0) (dr_last_prepared_decree d1) \<and>
    max (dr_last_committed_decree d0) (dr_last_committed_decree d1) \<le> max (dr_last_prepared_decree d0) (dr_last_prepared_decree d1)"
  using assms
  by (auto simp: select_primary_def Let_def data_key_def zero_le_mult_iff not_le split: if_splits)

lemma choose_dead_primary_cases:
  assumes "choose_dead_primary nodes pc cc = Inr n" "2 \<le> length (pc_last_drops pc)"
  obtains d0 d1 where "collected_info nodes cc (pc_last_drops pc ! (length (pc_last_drops pc) - 2)) = Inr d0"
    "collected_info nodes cc (pc_last_drops pc ! (length (pc_last_drops pc) - 1)) = Inr d1"
    "\<not> (dr_ballot d0 = - 1 \<and> dr_ballot d1 = - 1)" "select_primary (pc_last_committed_decree pc) d0 d1 = Inr n"
  using assms by (auto simp: choose_dead_primary_def Let_def split: sum.splits if_splits)

lemma dead_partition_single:
  assumes part: "get_partition pid m = Inr p" "la_acts (cc_lb_actions (ps_cc p)) = []"
    and pc: "pc_primary (ps_pc p) = None" "pc_secondaries (ps_pc p) = []" "pc_last_drops (ps_pc p) = [n]"
    and node: "map_of (m_nodes m) n \<noteq> None"
  shows "\<exists>m'. cure env pid m = Inr (dead, primary_action CT_ASSIGN_PRIMARY n, m')"
  using assms get_put_context(1) [OF part(1)]
  by (auto simp: cure_idle [OF part] cure_missing_def on_missing_primary_def choose_dead_primary_def propose_cure_def Let_def)

lemma dead_partition_choice:
  assumes part: "get_partition pid m = Inr p" "la_acts (cc_lb_actions (ps_cc p)) = []"
    and pc: "pc_primary (ps_pc p) = None" "pc_secondaries (ps_pc p) = []" "2 \<le> length (pc_last_drops (ps_pc p))"
  shows "(\<exists>d0 d1. \<exists>d \<in> {d0, d1}.
      dr_node d0 = pc_last_drops (ps_pc p) ! (length (pc_last_drops (ps_pc p)) - 2) \<and>
      dr_node d1 = pc_last_drops (ps_pc p) ! (length (pc_last_drops (ps_pc p)) - 1) \<and>
      (\<forall>d' \<in> {d0, d1}. collected_info (m_nodes m) (ps_cc p) (dr_node d') = Inr d' \<and> is_node_alive (m_nodes m) (dr_node d') \<and>
         data_key d' \<le> data_key d \<and> dr_last_committed_decree d' \<le> dr_last_committed_decree d) \<and>
      (dr_ballot d0 \<noteq> invalid_ballot \<or> dr_ballot d1 \<noteq> invalid_ballot) \<and>
      max (pc_last_committed_decree (ps_pc p)) (dr_last_committed_decree d)
        \<le> max (dr_last_prepared_decree d0) (dr_last_prepared_decree d1) \<and>
      cured env pid m dead (primary_action CT_ASSIGN_PRIMARY (dr_node d))) \<or>
    (\<exists>m' info. cure env pid m = Inr (dead, no_action, m') \<and> m_ddd m' (pc_pid (ps_pc p)) = Some info \<and>
      m_nodes m' = m_nodes m \<and> m_parts m' = m_parts m)"
proof (cases "choose_dead_primary (m_nodes m) (ps_pc p) (ps_cc p)")
  case (Inl reason)
  define m' where "m' = m\<lparr>m_ddd := (m_ddd m)(pc_pid (ps_pc p) \<mapsto> ddd_info (m_nodes m) (ps_pc p) (ps_cc p) reason)\<rparr>"
  have "get_partition pid m' = Inr p" using part(1) by (auto simp: m'_def get_partition_def split: option.splits if_splits)
  moreover have "cure_missing env pid p m = Inr (dead, m')"
    using Inl part(1) pc by (auto simp: cure_missing_def on_missing_primary_def m'_def Let_def)
  ultimately have "cure env pid m = Inr (dead, no_action, m')" using part(2) by (simp add: cure_idle [OF part])
  then show ?thesis by (auto simp: m'_def)
next
  case (Inr n)
  let ?drops = "pc_last_drops (ps_pc p)"
  from choose_dead_primary_cases [OF Inr pc(3)] obtain d0 d1 where
    d: "collected_info (m_nodes m) (ps_cc p) (?drops ! (length ?drops - 2)) = Inr d0"
      "collected_info (m_nodes m) (ps_cc p) (?drops ! (length ?drops - 1)) = Inr d1"
      "\<not> (dr_ballot d0 = - 1 \<and> dr_ballot d1 = - 1)" "select_primary (pc_last_committed_decree (ps_pc p)) d0 d1 = Inr n" .
  from select_primary_best [OF d(4)] obtain e where e: "e \<in> {d0, d1}" "n = dr_node e"
    "\<forall>d' \<in> {d0, d1}. data_key d' \<le> data_key e \<and> dr_last_committed_decree d' \<le> dr_last_committed_decree e"
    "max (pc_last_committed_decree (ps_pc p)) (dr_last_committed_decree e)
        \<le> max (dr_last_prepared_decree d0) (dr_last_prepared_decree d1)" by fastforce
  note nodes = collected_info_node [OF d(1)] collected_info_node [OF d(2)]
  have alive: "is_node_alive (m_nodes m) n" using e nodes by auto
  have "cured env pid m dead (primary_action CT_ASSIGN_PRIMARY n)"
  proof (rule cured_by_proposal [OF part])
    show "cure_missing env pid p m = bind_result (propose_cure pid (p\<lparr>ps_cc := ps_cc p\<rparr>)
        (primary_action CT_ASSIGN_PRIMARY n) n (newly_add_primary (fst pid) False) m) (\<lambda>m'. Inr (dead, m'))"
      using part(1) pc Inr by (auto simp: cure_missing_def on_missing_primary_def Let_def)
    show "map_of (m_nodes m) n \<noteq> None" using alive_known [OF alive] by auto
  qed (use alive pc in \<open>auto simp: action_valid_def primary_action_def is_secondary_def\<close>)
  with d(1-3) e nodes show ?thesis by (intro disjI1 exI [of _ d0] exI [of _ d1] bexI [of _ e]) auto
qed

text \<open>
  C10.
  A partition without members of which at least two replicas were dropped gets a primary only
  from the two that were dropped last, and only when both are alive and what they hold is
  known. The chosen replica is the one with the larger ballot, committed decree and prepared
  decree, in this order; it has committed at least as much as the other one. One of the two,
  not necessarily the chosen one, has prepared everything that the two or the meta server know
  to be committed. Otherwise no proposal is made and the partition is reported to the
  administrator. When only one replica was dropped and its node is known, it is proposed
  without any of these checks, even when it is not alive.
\<close>

theorem dead_partition_primary:
  assumes part: "get_partition pid m = Inr p" "la_acts (cc_lb_actions (ps_cc p)) = []"
    and pc: "pc_primary (ps_pc p) = None" "pc_secondaries (ps_pc p) = []" "pc_last_drops (ps_pc p) \<noteq> []"
  shows "if length (pc_last_drops (ps_pc p)) = 1
    then map_of (m_nodes m) (hd (pc_last_drops (ps_pc p))) \<noteq> None \<longrightarrow>
      (\<exists>m'. cure env pid m = Inr (dead, primary_action CT_ASSIGN_PRIMARY (hd (pc_last_drops (ps_pc p))), m'))
    else (\<exists>d0 d1. \<exists>d \<in> {d0, d1}.
      dr_node d0 = pc_last_drops (ps_pc p) ! (length (pc_last_drops (ps_pc p)) - 2) \<and>
      dr_node d1 = pc_last_drops (ps_pc p) ! (length (pc_last_drops (ps_pc p)) - 1) \<and>
      (\<forall>d' \<in> {d0, d1}. collected_info (m_nodes m) (ps_cc p) (dr_node d') = Inr d' \<and> is_node_alive (m_nodes m) (dr_node d') \<and>
         data_key d' \<le> data_key d \<and> dr_last_committed_decree d' \<le> dr_last_committed_decree d) \<and>
      (dr_ballot d0 \<noteq> invalid_ballot \<or> dr_ballot d1 \<noteq> invalid_ballot) \<and>
      max (pc_last_committed_decree (ps_pc p)) (dr_last_committed_decree d)
        \<le> max (dr_last_prepared_decree d0) (dr_last_prepared_decree d1) \<and>
      cured env pid m dead (primary_action CT_ASSIGN_PRIMARY (dr_node d))) \<or>
    (\<exists>m' info. cure env pid m = Inr (dead, no_action, m') \<and> m_ddd m' (pc_pid (ps_pc p)) = Some info \<and>
      m_nodes m' = m_nodes m \<and> m_parts m' = m_parts m)"
proof (cases "length (pc_last_drops (ps_pc p)) = 1")
  case True
  then obtain n where "pc_last_drops (ps_pc p) = [n]" by (auto simp: length_Suc_conv)
  with dead_partition_single [OF part pc(1,2)] show ?thesis by simp
next
  case False
  with pc(3) have "2 \<le> length (pc_last_drops (ps_pc p))"
    by (cases "pc_last_drops (ps_pc p)") (auto simp: Suc_le_eq)
  from dead_partition_choice [OF part pc(1,2) this] False show ?thesis by (simp only: if_False)
qed

section \<open>Defects\<close>

text \<open>
  A black-listed node that was dropped and has come back is proposed when no other node is
  eligible, although the code says that it refuses to use it.
\<close>

lemma black_listed_proposed:
  assumes part: "get_partition pid m = Inr p" "la_acts (cc_lb_actions (ps_cc p)) = []"
    and pc: "pc_primary (ps_pc p) = Some q" "is_node_alive (m_nodes m) q"
      "int (length (pc_secondaries (ps_pc p))) + 1 < pc_max_replica_count (ps_pc p)" "\<not> is_member (ps_pc p) n"
    and dropped: "cc_dropped (ps_cc p) = [d]" "dr_node d = n" "is_node_alive (m_nodes m) n"
    and black: "n \<in> me_assign_secondary_black_list env"
    and none: "\<And>x. is_node_alive (m_nodes m) x \<Longrightarrow> is_member (ps_pc p) x \<or> x \<in> me_assign_secondary_black_list env"
    and nodes: "distinct (map fst (m_nodes m))"
  shows "cured env pid m ill \<lparr>pa_target = Some q, pa_node = Some n, pa_type = CT_ADD_SECONDARY\<rparr>"
proof -
  let ?cc = "(ps_cc p)\<lparr>cc_prefered_dropped := - 1\<rparr>"
  let ?act = "\<lparr>pa_target = Some q, pa_node = Some n, pa_type = CT_ADD_SECONDARY\<rparr>"
  have e: "is_emergency env (ps_pc p) (ps_cc p) = Inr True"
    using pc(3) dropped black by (simp add: is_emergency_def app_mutation_2pc_min_replica_count_def)
  have "is_member (ps_pc p) x \<or> x \<in> me_assign_secondary_black_list env" if "(x, ns) \<in> set (m_nodes m)" "ns_is_alive ns" for x ns
    using none [of x] nodes that by (simp add: is_node_alive_def)
  then have "min_server env (ps_pc p) (fst pid) (m_nodes m) None = None"
    by (auto simp: min_server_pick filter_empty_conv)
  then have c: "choose_secondary env (fst pid) (m_nodes m) (ps_pc p) True (ps_cc p) = (Some n, ?cc)"
    using dropped black by (cases "cc_prefered_dropped (ps_cc p) = 0") (auto simp: choose_secondary_def Let_def)
  show ?thesis
  proof (rule cured_by_proposal [OF part])
    show "cure_missing env pid p m = bind_result (propose_cure pid (p\<lparr>ps_cc := ?cc\<rparr>) ?act n (newly_add_partition (fst pid)) m)
        (\<lambda>m'. Inr (ill, m'))"
      using part(1) pc e c by (simp add: cure_missing_def on_missing_secondary_def Let_def)
    show "map_of (m_nodes m) n \<noteq> None" using alive_known [OF dropped(3)] by auto
  qed (use pc dropped(3) in \<open>auto simp: action_valid_def is_member_def is_primary_def\<close>)
qed

text \<open>
  C35.
  The meta server dereferences a null pointer when a partition without members has exactly one
  last dropped node and this node is not known: after a restart the meta server only knows the
  members of groups and the nodes that have connected since.
\<close>

theorem single_drop_unknown_node:
  assumes "get_partition pid m = Inr p" "la_acts (cc_lb_actions (ps_cc p)) = []"
    and "pc_primary (ps_pc p) = None" "pc_secondaries (ps_pc p) = []" "pc_last_drops (ps_pc p) = [n]"
    and "map_of (m_nodes m) n = None"
  shows "cure env pid m = Inl (Out_of_bounds ''newly_partitions'')"
  using assms
  by (simp add: cure_idle cure_missing_def on_missing_primary_def choose_dead_primary_def propose_cure_def Let_def)

section \<open>Examples\<close>

text \<open>A meta server with one table and four living nodes, of which nodes 1 and 2 form a group.\<close>

definition sample_node :: node_state where
  "sample_node = node_state_init\<lparr>ns_is_alive := True, ns_has_collected := True\<rparr>"

definition sample_env :: meta_env where
  "sample_env = \<lparr>me_now_ms = 5000, me_replica_assign_delay_ms_for_dropouts = 1000, me_assign_secondary_black_list = {},
     me_mutation_2pc_min_replica_count = 0, me_max_reserved_dropped_replicas = 1, me_function_level = 500,
     me_add_secondary_enable_flow_control = False, me_add_secondary_max_count_for_one_node = 10\<rparr>"

definition sample_meta :: "meta_configuration \<Rightarrow> config_context \<Rightarrow> meta" where
  "sample_meta pc cc =
     \<lparr>m_apps = [1 \<mapsto> \<lparr>as_status = AS_AVAILABLE, as_partition_count = 1, as_max_replica_count = 3, as_expire_second = 0,
        as_partitions_in_progress = 0, as_pending_response = None\<rparr>], m_exist_apps = [1],
      m_parts = [(1, 0) \<mapsto> \<lparr>ps_pc = pc, ps_cc = cc\<rparr>],
      m_nodes = [(1, put_partition (1, 0) True sample_node), (2, put_partition (1, 0) False sample_node),
                 (3, sample_node), (4, sample_node)], m_ddd = Map.empty, m_effects = []\<rparr>"

lemma sample_meta_facts [simp]:
  "get_partition (1, 0) (sample_meta pc cc) = Inr \<lparr>ps_pc = pc, ps_cc = cc\<rparr>"
  "m_apps (sample_meta pc cc) = [1 \<mapsto> \<lparr>as_status = AS_AVAILABLE, as_partition_count = 1, as_max_replica_count = 3,
     as_expire_second = 0, as_partitions_in_progress = 0, as_pending_response = None\<rparr>]"
  "m_parts (sample_meta pc cc) = [(1, 0) \<mapsto> \<lparr>ps_pc = pc, ps_cc = cc\<rparr>]"
  "distinct (map fst (m_nodes (sample_meta pc cc)))"
  "is_node_alive (m_nodes (sample_meta pc cc)) n \<longleftrightarrow> n \<in> {1, 2, 3, 4}"
  "map_of (m_nodes (sample_meta pc cc)) n = None \<longleftrightarrow> n \<notin> {1, 2, 3, 4}"
  by (simp_all add: sample_meta_def get_partition_def is_node_alive_def sample_node_def put_partition_def)

theorem cure_proposes_witness:
  "\<exists>n \<in> {3, 4}. cured sample_env (1, 0) (sample_meta sample_pc sample_cc) ill
     \<lparr>pa_target = Some 1, pa_node = Some n, pa_type = CT_ADD_SECONDARY\<rparr>"
proof -
  have "is_emergency sample_env sample_pc sample_cc = Inr True"
    by (simp add: is_emergency_def sample_env_def app_mutation_2pc_min_replica_count_def)
  moreover have "pc_primary sample_pc = Some 1" "pc_secondaries sample_pc = [2]" by (simp_all add: sample_pc_def)
  ultimately show ?thesis
    using cure_proposes [of "(1, 0)" "sample_meta sample_pc sample_cc" "\<lparr>ps_pc = sample_pc, ps_cc = sample_cc\<rparr>" 3 sample_env]
    by (auto simp: group_alive_def sample_env_def)
qed

theorem dead_partition_primary_witness:
  "cured sample_env (1, 0)
     (sample_meta (sample_pc\<lparr>pc_primary := None, pc_secondaries := [], pc_last_drops := [3, 4]\<rparr>)
        (sample_cc\<lparr>cc_dropped := [\<lparr>dr_node = 3, dr_time = 1000, dr_ballot = 4, dr_last_committed_decree = 19, dr_last_prepared_decree = 22\<rparr>,
           \<lparr>dr_node = 4, dr_time = 2000, dr_ballot = 4, dr_last_committed_decree = 20, dr_last_prepared_decree = 21\<rparr>]\<rparr>))
     dead (primary_action CT_ASSIGN_PRIMARY 4)"
  (is "cured _ _ (sample_meta ?pc ?cc) _ _")
proof -
  have nodes: "map_of (m_nodes (sample_meta ?pc ?cc)) 3 = Some sample_node" "map_of (m_nodes (sample_meta ?pc ?cc)) 4 = Some sample_node"
    by (simp_all add: sample_meta_def)
  have "collected_info (m_nodes (sample_meta ?pc ?cc)) ?cc 3 = Inr \<lparr>dr_node = 3, dr_time = 1000, dr_ballot = 4,
      dr_last_committed_decree = 19, dr_last_prepared_decree = 22\<rparr>"
    "collected_info (m_nodes (sample_meta ?pc ?cc)) ?cc 4 = Inr \<lparr>dr_node = 4, dr_time = 2000, dr_ballot = 4,
      dr_last_committed_decree = 20, dr_last_prepared_decree = 21\<rparr>"
    by (simp_all add: collected_info_def nodes find_from_dropped_def Let_def sample_node_def)
  moreover have "cure sample_env (1, 0) (sample_meta ?pc ?cc) \<noteq> Inr (dead, no_action, m')" for m'
  proof -
    have "choose_dead_primary (m_nodes (sample_meta ?pc ?cc)) ?pc ?cc = Inr 4"
      using calculation by (simp add: choose_dead_primary_def select_primary_def Let_def sample_pc_def)
    then show ?thesis
      by (simp add: cure_idle cure_missing_def on_missing_primary_def propose_cure_def get_put_context Let_def
          no_action_def primary_action_def)
  qed
  ultimately show ?thesis
    using dead_partition_primary [of "(1, 0)" "sample_meta ?pc ?cc" "\<lparr>ps_pc = ?pc, ps_cc = ?cc\<rparr>" sample_env]
    by (auto simp: data_key_def)
qed

theorem single_drop_unknown_node_witness:
  "cure sample_env (1, 0) (sample_meta (sample_pc\<lparr>pc_primary := None, pc_secondaries := []\<rparr>) sample_cc) =
     Inl (Out_of_bounds ''newly_partitions'')"
  (is "cure _ _ (sample_meta ?pc _) = _")
proof -
  have "pc_last_drops ?pc = [5]" by (simp add: sample_pc_def)
  then show ?thesis
    by (intro single_drop_unknown_node [where n = 5 and p = "\<lparr>ps_pc = ?pc, ps_cc = sample_cc\<rparr>"]) simp_all
qed

end
