(* ===== verification/Meta_Updates.thy ===== *)
theory Meta_Updates
  imports Server_State Guardian_Cure
begin

text \<open>
  The configurations of the meta server over any sequence of its handlers: a partition has at
  most one configuration per ballot, its members are distinct, known and not among the dropped
  ones, and what every node serves agrees with the configurations. The cure of partitions only
  touches proposals and loads, which one relation on states captures.
\<close>

text \<open>A partition id is a pair, but is not taken apart here.\<close>

declare split_paired_All [simp del]

section \<open>Consistent states\<close>

definition pc_wf :: "meta_configuration \<Rightarrow> bool" where
  "pc_wf pc \<longleftrightarrow> distinct (pc_secondaries pc) \<and> (\<forall>n. pc_primary pc = Some n \<longrightarrow> n \<notin> set (pc_secondaries pc)) \<and>
     distinct (pc_last_drops pc) \<and> length (pc_last_drops pc) \<le> 3 \<and> (\<forall>n. is_member pc n \<longrightarrow> n \<notin> set (pc_last_drops pc))"

text \<open>
  What every node serves, as a primary and at all, agrees with the configuration: what
  \<open>check_consistency\<close> demands, and that no other node serves the partition.
\<close>

definition served_by :: "node_mapper \<Rightarrow> gpid \<Rightarrow> node \<Rightarrow> bool \<times> bool" where
  "served_by nodes pid n =
     (case map_of nodes n of None \<Rightarrow> (False, False) | Some ns \<Rightarrow> (pid \<in> ns_primaries ns, pid \<in> ns_partitions ns))"

definition role_in :: "meta_configuration \<Rightarrow> node \<Rightarrow> bool \<times> bool" where
  "role_in pc n = (is_primary pc n, is_member pc n)"

definition served_ok :: "node_mapper \<Rightarrow> gpid \<Rightarrow> meta_configuration \<Rightarrow> bool" where
  "served_ok nodes pid pc \<longleftrightarrow>
     (\<forall>n. is_member pc n \<longrightarrow> map_of nodes n \<noteq> None) \<and> (\<forall>n. served_by nodes pid n = role_in pc n)"

text \<open>How a request of a type changes the members of a group.\<close>

definition members_change :: "meta_configuration \<Rightarrow> update_request \<Rightarrow> bool" where
  "members_change pc request =
     (let new = ur_config request; prim = pc_primary pc; secs = set (pc_secondaries pc)
      in if ur_type request = CT_DROP_PARTITION then pc_primary new = None \<and> pc_secondaries new = []
         else case ur_node request of
                None \<Rightarrow> False
              | Some n \<Rightarrow>
                  if ur_type request = CT_ASSIGN_PRIMARY \<or> ur_type request = CT_UPGRADE_TO_PRIMARY
                  then prim = None \<and> pc_primary new = Some n \<and> set (pc_secondaries new) = secs - {n}
                  else if ur_type request = CT_UPGRADE_TO_SECONDARY
                  then prim \<noteq> Some n \<and> pc_primary new = prim \<and> set (pc_secondaries new) = insert n secs
                  else if ur_type request = CT_DOWNGRADE_TO_SECONDARY
                  then prim = Some n \<and> pc_primary new = None \<and> set (pc_secondaries new) = insert n secs
                  else if ur_type request = CT_DOWNGRADE_TO_INACTIVE \<or> ur_type request = CT_REMOVE
                  then is_member pc n \<and> pc_primary new = (if prim = Some n then None else prim) \<and>
                    set (pc_secondaries new) = secs - {n}
                  else if ur_type request = CT_PRIMARY_FORCE_UPDATE_BALLOT
                  then pc_primary new = prim \<and> set (pc_secondaries new) = secs
                  else False)"

text \<open>A request that may be installed, and a request as a replica server builds it from the current configuration.\<close>

definition update_ok :: "meta_configuration \<Rightarrow> update_request \<Rightarrow> bool" where
  "update_ok pc request \<longleftrightarrow>
     pc_pid (ur_config request) = pc_pid pc \<and> pc_ballot (ur_config request) = pc_ballot pc + 1 \<and>
     pc_wf (ur_config request) \<and> members_change pc request \<and>
     (ur_type request = CT_DROP_PARTITION \<longrightarrow> (\<forall>n. is_member pc n \<longrightarrow> n \<in> set (pc_last_drops (ur_config request))))"

definition request_ok :: "meta_configuration \<Rightarrow> update_request \<Rightarrow> bool" where
  "request_ok pc request \<longleftrightarrow>
     pc_pid (ur_config request) = pc_pid pc \<and> ur_type request \<noteq> CT_DROP_PARTITION \<and>
     distinct (pc_secondaries (ur_config request)) \<and>
     (\<forall>n. pc_primary (ur_config request) = Some n \<longrightarrow> n \<notin> set (pc_secondaries (ur_config request))) \<and>
     pc_last_drops (ur_config request) = pc_last_drops pc \<and> members_change pc request"

definition context_ok :: "meta_configuration \<Rightarrow> config_context \<Rightarrow> bool" where
  "context_ok pc cc \<longleftrightarrow>
     history_ok cc \<and> (\<forall>d \<in> set (cc_dropped cc). \<not> is_member pc (dr_node d)) \<and>
     (cc_stage cc = pending_remote_sync \<longrightarrow>
        (\<exists>request. cc_pending_sync_request cc = Some request \<and> update_ok pc request))"

definition meta_ok :: "meta \<Rightarrow> bool" where
  "meta_ok m \<longleftrightarrow>
     (\<forall>pid p. m_parts m pid = Some p \<longrightarrow>
        pc_pid (ps_pc p) = pid \<and> pc_wf (ps_pc p) \<and> served_ok (m_nodes m) pid (ps_pc p) \<and> context_ok (ps_pc p) (ps_cc p))"

text \<open>Ballots only grow, and a configuration is determined by its ballot.\<close>

definition views_grow :: "meta \<Rightarrow> meta \<Rightarrow> bool" where
  "views_grow m m' \<longleftrightarrow>
     (\<forall>pid p. m_parts m pid = Some p \<longrightarrow>
        (\<exists>p'. m_parts m' pid = Some p' \<and> pc_ballot (ps_pc p) \<le> pc_ballot (ps_pc p') \<and>
           (pc_ballot (ps_pc p) = pc_ballot (ps_pc p') \<longrightarrow> ps_pc p' = ps_pc p)))"

lemma views_grow_refl [simp]: "views_grow m m"
  by (simp add: views_grow_def)

lemma views_growE:
  assumes "views_grow m m'" "m_parts m pid = Some p"
  obtains p' where "m_parts m' pid = Some p'" "pc_ballot (ps_pc p) \<le> pc_ballot (ps_pc p')"
    "pc_ballot (ps_pc p) = pc_ballot (ps_pc p') \<longrightarrow> ps_pc p' = ps_pc p"
  using assms unfolding views_grow_def by blast

lemma views_grow_trans:
  assumes "views_grow m m'" "views_grow m' m''"
  shows "views_grow m m''"
  unfolding views_grow_def
proof (intro allI impI)
  fix pid p
  assume "m_parts m pid = Some p"
  with assms(1) obtain p1 where p1: "m_parts m' pid = Some p1" "pc_ballot (ps_pc p) \<le> pc_ballot (ps_pc p1)"
    "pc_ballot (ps_pc p) = pc_ballot (ps_pc p1) \<longrightarrow> ps_pc p1 = ps_pc p" by (rule views_growE)
  from assms(2) p1(1) obtain p2 where p2: "m_parts m'' pid = Some p2" "pc_ballot (ps_pc p1) \<le> pc_ballot (ps_pc p2)"
    "pc_ballot (ps_pc p1) = pc_ballot (ps_pc p2) \<longrightarrow> ps_pc p2 = ps_pc p1" by (rule views_growE)
  have "ps_pc p2 = ps_pc p" if "pc_ballot (ps_pc p) = pc_ballot (ps_pc p2)"
    using p1(2) p2(2) that p1(3) p2(3) by (metis order_antisym)
  with p2(1) order_trans [OF p1(2) p2(2)]
  show "\<exists>p''. m_parts m'' pid = Some p'' \<and> pc_ballot (ps_pc p) \<le> pc_ballot (ps_pc p'') \<and>
      (pc_ballot (ps_pc p) = pc_ballot (ps_pc p'') \<longrightarrow> ps_pc p'' = ps_pc p)" by blast
qed

section \<open>Changes that keep the configurations\<close>

text \<open>The nodes stay known and serve the same partitions; new nodes serve none.\<close>

definition nodes_keep :: "node_mapper \<Rightarrow> node_mapper \<Rightarrow> bool" where
  "nodes_keep nodes nodes' \<longleftrightarrow>
     dom (map_of nodes) \<subseteq> dom (map_of nodes') \<and> (\<forall>pid n. served_by nodes' pid n = served_by nodes pid n)"

definition context_keeps :: "config_context \<Rightarrow> config_context \<Rightarrow> bool" where
  "context_keeps cc cc' \<longleftrightarrow>
     cc_dropped cc' = cc_dropped cc \<and> cc_stage cc' = cc_stage cc \<and>
     cc_pending_sync_request cc' = cc_pending_sync_request cc \<and> (history_ok cc \<longrightarrow> history_ok cc')"

definition part_keeps :: "partition_state \<Rightarrow> partition_state \<Rightarrow> bool" where
  "part_keeps p p' \<longleftrightarrow> ps_pc p' = ps_pc p \<and> context_keeps (ps_cc p) (ps_cc p')"

definition quiet :: "meta \<Rightarrow> meta \<Rightarrow> bool" where
  "quiet m m' \<longleftrightarrow> m_apps m' = m_apps m \<and> nodes_keep (m_nodes m) (m_nodes m') \<and>
     (\<forall>pid. rel_option part_keeps (m_parts m pid) (m_parts m' pid))"

lemma nodes_keep_refl [simp]: "nodes_keep nodes nodes"
  by (simp add: nodes_keep_def)

lemma nodes_keep_trans: "nodes_keep a b \<Longrightarrow> nodes_keep b c \<Longrightarrow> nodes_keep a c"
  unfolding nodes_keep_def by (intro conjI) (blast, simp)

lemma served_by_update_node:
  "served_by (update_node n f nodes) pid x =
     (if x = n then case map_of nodes n of None \<Rightarrow> (False, False) | Some ns \<Rightarrow> (pid \<in> ns_primaries (f ns), pid \<in> ns_partitions (f ns))
      else served_by nodes pid x)"
  by (simp add: served_by_def map_of_update_node split: option.split)

lemma dom_update_node [simp]: "dom (map_of (update_node n f nodes)) = dom (map_of nodes)"
  by (auto simp: map_of_update_node dom_def split: if_splits)

lemma nodes_keep_update:
  "(\<And>ns. ns_primaries (f ns) = ns_primaries ns \<and> ns_partitions (f ns) = ns_partitions ns) \<Longrightarrow> nodes_keep nodes (update_node n f nodes)"
  by (auto simp: nodes_keep_def served_by_def map_of_update_node split: option.split)

lemma nodes_keep_newly [simp]: "nodes_keep nodes (set_newly n f nodes)"
  by (simp add: set_newly_def nodes_keep_update)

lemma nodes_keep_ensure: "nodes_keep nodes (ensure_node n nodes)"
  by (auto simp: nodes_keep_def ensure_node_def served_by_def node_state_init_def map_add_def split: option.splits)

lemma context_keeps_refl [simp]: "context_keeps cc cc"
  by (simp add: context_keeps_def)

lemma context_keeps_actions [simp]: "context_keeps cc (cc\<lparr>cc_lb_actions := la\<rparr>)"
  by (simp add: context_keeps_def history_ok_def)

lemma context_keeps_trans: "context_keeps a b \<Longrightarrow> context_keeps b c \<Longrightarrow> context_keeps a c"
  by (simp add: context_keeps_def)

lemma part_keeps_refl [simp]: "part_keeps p p"
  by (simp add: part_keeps_def)

lemma part_keeps_transp: "transp part_keeps"
  by (auto simp: transp_def part_keeps_def intro: context_keeps_trans)

lemma quiet_refl [simp]: "quiet m m"
  by (simp add: quiet_def option.rel_refl)

lemma quiet_trans: "quiet a b \<Longrightarrow> quiet b c \<Longrightarrow> quiet a c"
  unfolding quiet_def by (metis nodes_keep_trans option.rel_transp part_keeps_transp transpE)

lemma quiet_put_context:
  "m_parts m pid = Some p \<Longrightarrow> ps_pc q = ps_pc p \<Longrightarrow> context_keeps (ps_cc p) cc \<Longrightarrow> nodes_keep (m_nodes m) nodes \<Longrightarrow>
   quiet m (put_context pid q cc (m\<lparr>m_nodes := nodes\<rparr>))"
  "m_parts m pid = Some p \<Longrightarrow> ps_pc q = ps_pc p \<Longrightarrow> context_keeps (ps_cc p) cc \<Longrightarrow> quiet m (put_context pid q cc m)"
  by (auto simp: quiet_def put_context_def part_keeps_def option.rel_refl)

lemma quiet_effects [simp]: "quiet m (meta_emit e m)" "quiet m (m\<lparr>m_ddd := d\<rparr>)"
  by (auto simp: quiet_def meta_emit_def option.rel_refl)

lemma served_ok_keep:
  assumes keep: "nodes_keep nodes nodes'" and ok: "served_ok nodes pid pc"
  shows "served_ok nodes' pid pc"
  unfolding served_ok_def
proof (intro conjI allI impI)
  fix n
  show "served_by nodes' pid n = role_in pc n" using keep ok by (simp add: nodes_keep_def served_ok_def)
  assume "is_member pc n"
  with ok have "n \<in> dom (map_of nodes)" by (simp add: served_ok_def domIff)
  with keep show "map_of nodes' n \<noteq> None" unfolding nodes_keep_def domIff [symmetric] by blast
qed

lemma context_ok_keep: "context_keeps cc cc' \<Longrightarrow> context_ok pc cc \<Longrightarrow> context_ok pc cc'"
  by (simp add: context_keeps_def context_ok_def)

lemma quiet_part:
  assumes "quiet m m'" "m_parts m' pid = Some p'"
  obtains p where "m_parts m pid = Some p" "part_keeps p p'"
  using assms that by (cases "m_parts m pid") (auto simp: quiet_def dest!: spec [of _ pid])

lemma quiet_meta_ok:
  assumes "quiet m m'" "meta_ok m"
  shows "meta_ok m'"
  unfolding meta_ok_def
proof (intro allI impI)
  fix pid p'
  assume "m_parts m' pid = Some p'"
  with assms(1) obtain p where p: "m_parts m pid = Some p" "part_keeps p p'" by (rule quiet_part)
  with assms show "pc_pid (ps_pc p') = pid \<and> pc_wf (ps_pc p') \<and> served_ok (m_nodes m') pid (ps_pc p') \<and>
      context_ok (ps_pc p') (ps_cc p')"
    by (auto simp: meta_ok_def part_keeps_def quiet_def intro: served_ok_keep context_ok_keep)
qed

lemma quiet_views_grow: "quiet m m' \<Longrightarrow> views_grow m m'"
  unfolding views_grow_def
proof (intro allI impI)
  fix pid p
  assume "quiet m m'" "m_parts m pid = Some p"
  then have "rel_option part_keeps (Some p) (m_parts m' pid)" by (metis quiet_def)
  then obtain p' where "m_parts m' pid = Some p'" "part_keeps p p'" by (auto simp: option_rel_Some1)
  then show "\<exists>p'. m_parts m' pid = Some p' \<and> pc_ballot (ps_pc p) \<le> pc_ballot (ps_pc p') \<and>
      (pc_ballot (ps_pc p) = pc_ballot (ps_pc p') \<longrightarrow> ps_pc p' = ps_pc p)"
    by (auto simp: part_keeps_def)
qed

section \<open>The guardian keeps the configurations\<close>

lemma get_partition_Some: "get_partition pid m = Inr p \<Longrightarrow> m_parts m pid = Some p"
  by (auto simp: get_partition_def split: option.splits if_splits)

lemma finish_cure_keeps: "finish_cure_proposal pid act nodes = Inr nodes' \<Longrightarrow> nodes_keep nodes nodes'"
  by (auto simp: finish_cure_proposal_def result_simps split: option.splits)

lemma drain_keeps: "drain_actions pid acts la nodes = Inr (la', nodes') \<Longrightarrow> nodes_keep nodes nodes'"
  by (induction pid acts la nodes rule: drain_actions.induct)
    (auto simp: result_simps intro: nodes_keep_trans finish_cure_keeps split: if_splits)

lemma from_proposals_quiet:
  assumes "from_proposals pid m = Inr (b, act, m')"
  shows "quiet m m'"
proof -
  from assms obtain p where p: "get_partition pid m = Inr p" by (auto simp: from_proposals_def result_simps)
  show ?thesis
  proof (cases "la_acts (cc_lb_actions (ps_cc p))")
    case (Cons a as)
    with assms p show ?thesis
      by (auto simp: from_proposals_def Let_def result_simps simp del: drain_actions.simps split: if_splits
          intro!: quiet_put_context(1) [OF get_partition_Some] intro: drain_keeps)
  qed (use assms p in \<open>simp add: from_proposals_def\<close>)
qed

lemma propose_cure_quiet:
  assumes "propose_cure pid q act n add m = Inr m'" "m_parts m pid = Some p" "ps_pc q = ps_pc p"
    "context_keeps (ps_cc p) (ps_cc q)"
  shows "quiet m m'"
  using assms
  by (auto simp: propose_cure_def result_simps split: if_splits
      intro!: quiet_put_context(1) intro: context_keeps_trans [OF _ context_keeps_actions])

lemma on_missing_primary_quiet: "on_missing_primary pid m = Inr (st, m') \<Longrightarrow> quiet m m'"
  by (auto simp: on_missing_primary_def result_simps Let_def split: if_splits option.splits sum.splits
      dest!: get_partition_Some intro: propose_cure_quiet)

lemma search_dropped_index: "search_dropped nodes ds i = (found, j) \<Longrightarrow> - 1 \<le> j \<and> j < max 0 (int i)"
  by (induction i) (auto split: if_splits)

lemma choose_secondary_keeps:
  assumes "choose_secondary env app nodes pc emergency cc = (n, cc')"
  shows "context_keeps cc cc'"
proof -
  have "context_keeps cc (cc\<lparr>cc_prefered_dropped := j\<rparr>)"
    if "search_dropped nodes (cc_dropped cc) i = (found, j)" "i \<le> length (cc_dropped cc)" for i j found
    using search_dropped_index [OF that(1)] that(2) by (auto simp: context_keeps_def history_ok_def split: if_splits)
  with assms show ?thesis by (auto simp: choose_secondary_def Let_def split: if_splits prod.splits)
qed

lemma on_missing_secondary_quiet:
  assumes "on_missing_secondary env pid m = Inr (st, m')"
  shows "quiet m m'"
proof -
  from assms obtain p emergency where p: "get_partition pid m = Inr p" "is_emergency env (ps_pc p) (ps_cc p) = Inr emergency"
    by (auto simp: on_missing_secondary_def result_simps)
  obtain n cc where c: "choose_secondary env (fst pid) (m_nodes m) (ps_pc p) emergency (ps_cc p) = (n, cc)" by force
  from choose_secondary_keeps [OF c] get_partition_Some [OF p(1)] assms p c show ?thesis
    by (cases n) (auto simp: on_missing_secondary_def result_simps intro: quiet_put_context(2) propose_cure_quiet)
qed

lemma on_redundant_secondary_quiet: "on_redundant_secondary pid m = Inr (st, m') \<Longrightarrow> quiet m m'"
  by (auto simp: on_redundant_secondary_def result_simps Let_def split: option.splits
      dest!: get_partition_Some intro!: quiet_put_context(2))

lemma cure_quiet:
  assumes "cure env pid m = Inr (st, act, m')"
  shows "quiet m m'"
proof -
  have "quiet m1 m2" if "cure_missing env pid p m1 = Inr (st2, m2)" for p m1 st2 m2
    using that by (auto simp: cure_missing_def Let_def split: if_splits
        intro: on_missing_primary_quiet on_missing_secondary_quiet on_redundant_secondary_quiet)
  with assms show ?thesis
    by (auto simp: cure_def result_simps split: if_splits dest!: from_proposals_quiet intro: quiet_trans)
qed

lemma register_proposals_quiet: "register_proposals pid acts m = Inr (err, m') \<Longrightarrow> quiet m m'"
  by (auto simp: register_proposals_def result_simps split: if_splits option.splits
      dest!: get_partition_Some intro!: quiet_put_context(2))

lemma clear_proposals_quiet: "quiet m (clear_proposals m)"
  by (auto simp: quiet_def clear_proposals_def option.rel_refl part_keeps_def option_rel_Some1 split: option.split
      simp: rel_option_iff)

lemma quiet_send_action [simp]: "quiet m (send_action pc act m)"
  by (simp add: send_action_def)

lemma cure_all_quiet: "cure_all env pids s = Inr (m', adds', k') \<Longrightarrow> quiet (fst s) m'"
proof (induction pids arbitrary: s)
  case (Cons pid pids)
  obtain m adds k where s: "s = (m, adds, k)" by (cases s)
  from Cons.prems s obtain a p where p: "get_app_partition pid m = Inr (a, p)" by (auto simp: result_simps)
  show ?case
  proof (cases "cc_stage (ps_cc p) \<noteq> pending_remote_sync \<and> pc_ballot (ps_pc p) \<noteq> invalid_ballot")
    case True
    with Cons.prems s p obtain st act m1 where c: "cure env (pc_pid (ps_pc p)) m = Inr (st, act, m1)"
      by (auto simp: result_simps)
    let ?s1 = "if st = healthy then (m1, adds, k + 1) else if pa_type act = CT_INVALID then (m1, adds, k)
      else if is_adding_secondary (pa_type act) then (m1, adds @ [(pid, act)], k) else (send_action (ps_pc p) act m1, adds, k)"
    have "cure_all env pids ?s1 = Inr (m', adds', k')" using Cons.prems s p c True by simp
    from Cons.IH [OF this] have rest: "quiet (fst ?s1) m'" .
    have "quiet m1 (fst ?s1)" by simp
    from quiet_trans [OF quiet_trans [OF cure_quiet [OF c] this] rest] show ?thesis unfolding s fst_conv .
  next
    case False
    with Cons.prems s p have "cure_all env pids (m, adds, k) = Inr (m', adds', k')" by auto
    from Cons.IH [OF this] show ?thesis using s by simp
  qed
qed simp

lemma send_adds_quiet: "send_adds env sel adds (m, r) = Inr (left, m', r') \<Longrightarrow> quiet m m'"
proof (induction adds arbitrary: m r left)
  case (Cons x adds)
  obtain pid act where x: "x = (pid, act)" by (cases x)
  from Cons.prems x obtain p where p: "get_partition pid m = Inr p" by (auto simp: result_simps)
  have "(\<exists>left1. send_adds env sel adds (m, r) = Inr (left1, m', r')) \<or>
      (\<exists>r1. send_adds env sel adds (send_action (ps_pc p) act m, r1) = Inr (left, m', r'))"
    using Cons.prems x p by (auto simp: Let_def result_simps split: if_splits option.splits)
  then show ?case using Cons.IH quiet_trans quiet_send_action by blast
qed simp

lemma quiet_ddd [simp]: "quiet (m\<lparr>m_ddd := d\<rparr>) m' \<longleftrightarrow> quiet m m'"
  by (simp add: quiet_def)

lemma check_all_partitions_quiet:
  assumes "check_all_partitions env m = Inr (b, m')"
  shows "quiet m m'"
proof (cases "me_function_level env \<le> 300")
  case False
  with assms obtain m1 adds k left m2 r2 left3 r3 where
    "cure_all env (checked_partitions m) (m\<lparr>m_ddd := Map.empty\<rparr>, [], 0) = Inr (m1, adds, k)"
    "send_adds env (\<lambda>pc. pc_secondaries pc = []) adds (m1, \<lambda>_. 0) = Inr (left, m2, r2)"
    "send_adds env (\<lambda>_. True) left (m2, r2) = Inr (left3, m', r3)"
    by (clarsimp simp: check_all_partitions_def Let_def result_simps)
  then have "quiet m m1" "quiet m1 m2" "quiet m2 m'"
    using cure_all_quiet [where s = "(m\<lparr>m_ddd := Map.empty\<rparr>, [], 0)"] send_adds_quiet by auto
  then show ?thesis by (blast intro: quiet_trans)
qed (use assms in \<open>simp add: check_all_partitions_def\<close>)

section \<open>Starting an update\<close>

lemma maintain_drops_wf:
  assumes "maintain_drops drops n t = Inr drops'" "distinct drops" "length drops \<le> 3"
  shows "distinct drops' \<and> length drops' \<le> 3 \<and> set drops' \<subseteq> insert n (set drops) \<and>
    (when_update_replicas t = Some True \<longrightarrow> n \<notin> set drops') \<and> (when_update_replicas t \<noteq> Some False \<longrightarrow> set drops' \<subseteq> set drops)"
proof (cases "when_update_replicas t")
  case None
  with assms show ?thesis by (auto simp: maintain_drops_def)
next
  case (Some adding)
  with assms show ?thesis
    by (cases adding; cases drops)
      (auto simp: maintain_drops_def result_simps Let_def distinct_remove1 length_remove1 dest: notin_set_remove1 split: if_splits)
qed

lemma update_type_cases:
  assumes "members_change pc request" "ur_node request = Some n"
  shows "(\<forall>x. is_member (ur_config request) x \<longrightarrow> is_member pc x \<or> x = n) \<and>
    (when_update_replicas (ur_type request) = Some False \<longrightarrow> \<not> is_member (ur_config request) n) \<and>
    (when_update_replicas (ur_type request) = None \<longrightarrow> (\<forall>x. is_member (ur_config request) x \<longrightarrow> is_member pc x))"
  using assms
  by (cases "ur_type request"; cases "pc_primary pc = Some n")
    (auto simp: members_change_def when_update_replicas_def is_member_def is_primary_def is_secondary_def Let_def)

lemma members_change_drops [simp]:
  "members_change pc (request\<lparr>ur_config := (ur_config request)\<lparr>pc_last_drops := drops\<rparr>\<rparr>) = members_change pc request"
  by (simp add: members_change_def Let_def cong: if_cong option.case_cong)

lemma request_update_ok:
  assumes wf: "pc_wf pc" and req: "request_ok pc request" "pc_ballot (ur_config request) = pc_ballot pc + 1"
    and n: "ur_node request = Some n"
    and drops: "maintain_drops (pc_last_drops (ur_config request)) n (ur_type request) = Inr drops"
  shows "update_ok pc (request\<lparr>ur_config := (ur_config request)\<lparr>pc_last_drops := drops\<rparr>\<rparr>)"
proof -
  let ?new = "ur_config request"
  have d: "distinct (pc_last_drops ?new)" "length (pc_last_drops ?new) \<le> 3"
    "\<And>x. is_member pc x \<Longrightarrow> x \<notin> set (pc_last_drops ?new)"
    using wf req(1) by (auto simp: pc_wf_def request_ok_def)
  have change: "members_change pc request" using req(1) by (simp add: request_ok_def)
  note u = update_type_cases [OF change n] and w = maintain_drops_wf [OF drops d(1,2)]
  have "x \<notin> set drops" if "is_member ?new x" for x
    using that u w d(3) by (cases "when_update_replicas (ur_type request)") auto
  then have "pc_wf (?new\<lparr>pc_last_drops := drops\<rparr>)"
    using w req(1) by (auto simp: pc_wf_def request_ok_def is_member_def is_primary_def is_secondary_def)
  then show ?thesis
    using req change by (simp add: update_ok_def request_ok_def)
qed

lemma start_sync_ok:
  assumes "meta_ok m" "m_parts m pid = Some p" "ps_pc q = ps_pc p" "cc_dropped (ps_cc q) = cc_dropped (ps_cc p)"
    "cc_prefered_dropped (ps_cc q) = cc_prefered_dropped (ps_cc p)" "update_ok (ps_pc p) request"
  shows "meta_ok (start_sync env pid q request msg m) \<and> views_grow m (start_sync env pid q request msg m)"
proof -
  let ?cc = "(ps_cc q)\<lparr>cc_stage := pending_remote_sync, cc_pending_sync_request := Some request, cc_msg := msg\<rparr>"
  let ?m = "put_context pid q ?cc m"
  have "context_ok (ps_pc p) (ps_cc p)" using assms(1,2) by (auto simp: meta_ok_def)
  with assms(4-6) have "context_ok (ps_pc p) ?cc" by (auto simp: context_ok_def history_ok_def)
  with assms(1-3) have "meta_ok ?m" by (auto simp: meta_ok_def put_context_def)
  moreover have "views_grow m ?m" using assms(2,3) by (auto simp: views_grow_def put_context_def)
  moreover have "quiet ?m (start_sync env pid q request msg m)"
    by (simp add: start_sync_def update_configuration_on_remote_def)
  ultimately show ?thesis using quiet_meta_ok quiet_views_grow views_grow_trans by blast
qed

lemma on_update_configuration_ok:
  assumes "on_update_configuration env request msg m = Inr m'" "meta_ok m"
    and req: "\<And>p. m_parts m (pc_pid (ur_config request)) = Some p \<Longrightarrow>
      pc_ballot (ur_config request) = pc_ballot (ps_pc p) + 1 \<Longrightarrow> request_ok (ps_pc p) request"
  shows "meta_ok m' \<and> views_grow m m'"
proof -
  let ?pid = "pc_pid (ur_config request)"
  from assms(1) obtain a p where gp: "get_app_partition ?pid m = Inr (a, p)"
    by (auto simp: on_update_configuration_def Let_def result_simps)
  then have p: "m_parts m ?pid = Some p" by (auto simp: get_app_partition_def split: option.splits)
  have wf: "pc_wf (ps_pc p)" using assms(2) p by (auto simp: meta_ok_def)
  consider (quiet) "quiet m m'" |
    (sync) n drops where "pc_ballot (ur_config request) = pc_ballot (ps_pc p) + 1" "ur_node request = Some n"
      "maintain_drops (pc_last_drops (ur_config request)) n (ur_type request) = Inr drops"
      "m' = start_sync env ?pid p (request\<lparr>ur_config := (ur_config request)\<lparr>pc_last_drops := drops\<rparr>\<rparr>) (Some msg) m"
    using assms(1) gp by (auto simp: on_update_configuration_def Let_def result_simps split: if_splits option.splits)
  then show ?thesis
  proof cases
    case quiet
    with assms(2) show ?thesis by (auto intro: quiet_meta_ok quiet_views_grow)
  next
    case sync
    from request_update_ok [OF wf req [OF p sync(1)] sync(1-3)] show ?thesis
      unfolding sync(4) by (intro start_sync_ok [OF assms(2) p]) simp_all
  qed
qed

section \<open>Failures, drops and reports\<close>

text \<open>A change that keeps consistent states consistent and lets the views grow.\<close>

definition sound :: "meta \<Rightarrow> meta \<Rightarrow> bool" where
  "sound m m' \<longleftrightarrow> (meta_ok m \<longrightarrow> meta_ok m' \<and> views_grow m m')"

lemma sound_trans: "sound a b \<Longrightarrow> sound b c \<Longrightarrow> sound a c"
  unfolding sound_def using views_grow_trans by blast

lemma quiet_sound: "quiet m m' \<Longrightarrow> sound m m'"
  by (simp add: sound_def quiet_meta_ok quiet_views_grow)

lemma sound_refl [simp]: "sound m m"
  by (simp add: quiet_sound)

lemma get_app_partition_Some: "get_app_partition pid m = Inr (a, p) \<Longrightarrow> m_parts m pid = Some p"
  by (auto simp: get_app_partition_def split: option.splits)

lemma downgrade_update_ok:
  assumes "pc_wf pc" "pc_primary pc = Some n" "maintain_drops (pc_last_drops pc) n CT_DOWNGRADE_TO_INACTIVE = Inr drops"
  shows "update_ok pc \<lparr>ur_type = CT_DOWNGRADE_TO_INACTIVE, ur_node = Some n,
    ur_config = pc\<lparr>pc_ballot := pc_ballot pc + 1, pc_primary := None, pc_last_drops := drops\<rparr>\<rparr>"
proof -
  have "distinct drops \<and> length drops \<le> 3 \<and> set drops \<subseteq> insert n (set (pc_last_drops pc))"
    using maintain_drops_wf [OF assms(3)] assms(1) by (simp add: pc_wf_def)
  moreover have "n \<notin> set (pc_secondaries pc)" "\<And>x. x \<in> set (pc_secondaries pc) \<Longrightarrow> x \<notin> set (pc_last_drops pc)"
    using assms(1,2) by (auto simp: pc_wf_def is_member_def is_secondary_def)
  ultimately show ?thesis
    using assms(1,2)
    by (auto simp: update_ok_def pc_wf_def members_change_def is_member_def is_primary_def is_secondary_def)
qed

lemma downgrade_primary_sound:
  assumes "downgrade_primary_to_inactive env pid app p n m = Inr m'" "m_parts m pid = Some p" "is_primary (ps_pc p) n"
  shows "sound m m'"
  unfolding sound_def
proof
  assume ok: "meta_ok m"
  then have wf: "pc_wf (ps_pc p)" using assms(2) by (auto simp: meta_ok_def)
  consider "m' = m" |
    (sync) q drops where "maintain_drops (pc_last_drops (ps_pc p)) n CT_DOWNGRADE_TO_INACTIVE = Inr drops"
      "q \<in> {p, p\<lparr>ps_cc := cancel_sync (ps_cc p)\<rparr>}"
      "m' = start_sync env pid q \<lparr>ur_type = CT_DOWNGRADE_TO_INACTIVE, ur_node = Some n,
        ur_config = (ps_pc p)\<lparr>pc_ballot := pc_ballot (ps_pc p) + 1, pc_primary := None, pc_last_drops := drops\<rparr>\<rparr> None m"
    using assms(1) by (auto simp: downgrade_primary_to_inactive_def Let_def result_simps split: if_splits option.splits)
  then show "meta_ok m' \<and> views_grow m m'"
  proof cases
    case sync
    have "update_ok (ps_pc p) \<lparr>ur_type = CT_DOWNGRADE_TO_INACTIVE, ur_node = Some n,
        ur_config = (ps_pc p)\<lparr>pc_ballot := pc_ballot (ps_pc p) + 1, pc_primary := None, pc_last_drops := drops\<rparr>\<rparr>"
      by (rule downgrade_update_ok [OF wf _ sync(1)]) (use assms(3) in \<open>simp add: is_primary_def\<close>)
    then show ?thesis unfolding sync(3)
      using sync(2) by (intro start_sync_ok [OF ok assms(2)]) (auto simp: cancel_sync_def)
  qed (use ok in simp)
qed

lemma on_partition_node_dead_sound: "on_partition_node_dead env pid n m = Inr m' \<Longrightarrow> sound m m'"
  by (auto simp: on_partition_node_dead_def downgrade_secondary_to_inactive_def result_simps split: if_splits
      dest!: get_app_partition_Some intro: downgrade_primary_sound quiet_sound quiet_effects(1))

lemma partitions_node_dead_sound: "partitions_node_dead env pids n m = Inr m' \<Longrightarrow> sound m m'"
  by (induction pids arbitrary: m) (auto simp: result_simps dest: on_partition_node_dead_sound intro: sound_trans)

lemma quiet_nodes: "nodes_keep (m_nodes m) nodes \<Longrightarrow> quiet m (m\<lparr>m_nodes := nodes\<rparr>)"
  by (simp add: quiet_def option.rel_refl)

lemma on_change_node_state_sound:
  assumes "on_change_node_state env n alive m = Inr m'"
  shows "sound m m'"
proof (cases "\<not> alive \<and> map_of (m_nodes m) n \<noteq> None")
  case True
  let ?m = "m\<lparr>m_nodes := update_node n (\<lambda>ns. ns\<lparr>ns_is_alive := False, ns_has_collected := False\<rparr>) (m_nodes m)\<rparr>"
  have "quiet m ?m" by (intro quiet_nodes nodes_keep_update) simp
  moreover obtain pids where "partitions_node_dead env pids n ?m = Inr m'"
    using assms True by (auto simp: on_change_node_state_def)
  ultimately show ?thesis using quiet_sound partitions_node_dead_sound sound_trans by blast
next
  case False
  have "nodes_keep (m_nodes m) (update_node n (\<lambda>ns. ns\<lparr>ns_is_alive := True\<rparr>) (ensure_node n (m_nodes m)))"
    by (rule nodes_keep_trans [OF nodes_keep_ensure nodes_keep_update]) simp
  with False assms show ?thesis
    by (auto simp: on_change_node_state_def split: if_splits option.splits intro!: quiet_sound quiet_nodes)
qed

text \<open>Dropping a partition of at most three members: all of them are last drops.\<close>

lemma drop_members_eq:
  assumes "drop_members ns drops = Inr drops'" "length drops \<le> 3"
  shows "drop_members ns drops = Inr (drop (length (drops @ ns) - 3) (drops @ ns)) \<and>
    (distinct drops \<longrightarrow> distinct (drop (length (drops @ ns) - 3) (drops @ ns)))"
  using assms
proof (induction ns arbitrary: drops)
  case (Cons n ns)
  from Cons.prems(1) have n: "n \<notin> set drops"
    and rest: "drop_members ns (if length drops = 3 then tl (drops @ [n]) else drops @ [n]) = Inr drops'"
    using Cons.prems(2) by (auto simp: maintain_drops_def when_update_replicas_def result_simps Let_def split: if_splits)
  show ?case
  proof (cases "length drops = 3")
    case True
    then obtain d ds where d: "drops = d # ds" "length ds = 2" by (cases drops) auto
    have "drop_members ns (ds @ [n]) = Inr drops'" using rest True d by simp
    from Cons.IH [OF this] this Cons.prems(1) n True d show ?thesis by auto
  next
    case False
    then have "drop_members ns (drops @ [n]) = Inr drops'" using rest by simp
    from Cons.IH [OF this] this Cons.prems False n show ?thesis by auto
  qed
qed simp

lemma drop_partition_sound:
  assumes "drop_partition env pid m = Inr m'" "\<And>p. m_parts m pid = Some p \<Longrightarrow> replica_count (ps_pc p) \<le> 3"
  shows "sound m m'"
  unfolding sound_def
proof
  assume ok: "meta_ok m"
  from assms(1) obtain a p where "get_app_partition pid m = Inr (a, p)"
    by (auto simp: drop_partition_def result_simps)
  note gp = this and p = get_app_partition_Some [OF this]
  let ?pc = "ps_pc p" and ?cc = "if cc_stage (ps_cc p) = pending_remote_sync then cancel_sync (ps_cc p) else ps_cc p"
  let ?ns = "pc_secondaries ?pc @ (case pc_primary ?pc of None \<Rightarrow> [] | Some n \<Rightarrow> [n])"
  from assms(1) gp obtain drops where d: "drop_members ?ns (pc_last_drops ?pc) = Inr drops"
    and m': "m' = start_sync env pid (p\<lparr>ps_cc := ?cc\<rparr>) \<lparr>ur_type = CT_DROP_PARTITION, ur_node = pc_primary ?pc,
      ur_config = ?pc\<lparr>pc_last_drops := drops, pc_primary := None, pc_secondaries := [],
        pc_partition_flags := set_bit 0 (pc_partition_flags ?pc), pc_ballot := pc_ballot ?pc + 1\<rparr>\<rparr> None m"
    by (auto simp: drop_partition_def result_simps Let_def)
  have wf: "pc_wf ?pc" using ok p by (auto simp: meta_ok_def)
  have drops: "drops = drop (length (pc_last_drops ?pc @ ?ns) - 3) (pc_last_drops ?pc @ ?ns)" "distinct drops"
    using drop_members_eq [OF d] d wf by (auto simp: pc_wf_def)
  have "length ?ns \<le> 3" using assms(2) [OF p] by (auto simp: replica_count_def split: option.splits)
  then have "set ?ns \<subseteq> set drops" unfolding drops(1) by (simp only: drop_append) auto
  moreover have "is_member ?pc n \<longleftrightarrow> n \<in> set ?ns" for n
    by (auto simp: is_member_def is_primary_def is_secondary_def split: option.splits)
  ultimately have "update_ok ?pc \<lparr>ur_type = CT_DROP_PARTITION, ur_node = pc_primary ?pc,
      ur_config = ?pc\<lparr>pc_last_drops := drops, pc_primary := None, pc_secondaries := [],
        pc_partition_flags := set_bit 0 (pc_partition_flags ?pc), pc_ballot := pc_ballot ?pc + 1\<rparr>\<rparr>"
    using drops by (auto simp: update_ok_def pc_wf_def members_change_def is_member_def is_primary_def is_secondary_def)
  then show "meta_ok m' \<and> views_grow m m'"
    unfolding m' by (intro start_sync_ok [OF ok p]) (auto simp: cancel_sync_def)
qed

end
