(* ===== verification/Meta_Run.thy ===== *)
theory Meta_Run
  imports Meta_Updates
begin

text \<open>
  Runs of the meta server: installing a synced update, the reports of replica servers, and
  the invariant over any sequence of handlers, with an example run.
\<close>

section \<open>Installing an update\<close>

lemma put_partition_sets [simp]:
  "ns_primaries (put_partition pid b ns) = (if b then insert pid (ns_primaries ns) else ns_primaries ns)"
  "ns_partitions (put_partition pid b ns) = insert pid (ns_partitions ns)"
  by (simp_all add: put_partition_def Let_def)

lemma remove_partition_sets [simp]:
  "ns_primaries (remove_partition pid b ns) = ns_primaries ns - {pid}"
  "ns_partitions (remove_partition pid b ns) = (if b then ns_partitions ns else ns_partitions ns - {pid})"
  by (simp_all add: remove_partition_def Let_def)

text \<open>One partition gets a new configuration, and the nodes serve the others as before.\<close>

definition reserved_for :: "gpid \<Rightarrow> node_mapper \<Rightarrow> node_mapper \<Rightarrow> meta_configuration \<Rightarrow> bool" where
  "reserved_for pid nodes nodes' new \<longleftrightarrow>
     served_ok nodes' pid new \<and> dom (map_of nodes') = dom (map_of nodes) \<and>
     (\<forall>pid' n. pid' \<noteq> pid \<longrightarrow> served_by nodes' pid' n = served_by nodes pid' n)"

lemma reserved_for_other:
  assumes "reserved_for pid nodes nodes' new" "pid' \<noteq> pid" "served_ok nodes pid' pc"
  shows "served_ok nodes' pid' pc"
proof -
  have "map_of nodes' n \<noteq> None \<longleftrightarrow> map_of nodes n \<noteq> None" for n
    using assms(1) unfolding reserved_for_def domIff [symmetric] by simp
  with assms show ?thesis unfolding served_ok_def reserved_for_def by simp
qed

lemma served_step:
  assumes ok: "served_ok nodes pid pc" and n: "map_of nodes n = Some ns"
    and others: "\<And>x. x \<noteq> n \<Longrightarrow> role_in new x = role_in pc x"
    and own: "(pid \<in> ns_primaries (f ns), pid \<in> ns_partitions (f ns)) = role_in new n"
    and pids: "\<And>pid'. pid' \<noteq> pid \<Longrightarrow> (pid' \<in> ns_primaries (f ns)) = (pid' \<in> ns_primaries ns)"
      "\<And>pid'. pid' \<noteq> pid \<Longrightarrow> (pid' \<in> ns_partitions (f ns)) = (pid' \<in> ns_partitions ns)"
  shows "reserved_for pid nodes (update_node n f nodes) new"
  unfolding reserved_for_def served_ok_def
proof (intro conjI allI impI)
  show "dom (map_of (update_node n f nodes)) = dom (map_of nodes)" by simp
  show "served_by (update_node n f nodes) pid x = role_in new x" for x
    using ok n others [of x] own by (simp add: served_by_update_node served_ok_def)
  show "served_by (update_node n f nodes) pid' x = served_by nodes pid' x" if "pid' \<noteq> pid" for pid' x
    using n pids [OF that] by (simp add: served_by_update_node) (simp add: served_by_def)
  show "map_of (update_node n f nodes) x \<noteq> None" if "is_member new x" for x
    using that ok n others [of x] by (cases "x = n") (simp_all add: map_of_update_node role_in_def served_ok_def)
qed

lemma served_by_remove:
  "served_by (update_node n (remove_partition pid False) nodes) pid' x =
     (if pid' = pid \<and> x = n then (False, False) else served_by nodes pid' x)"
  by (auto simp: served_by_def map_of_update_node split: option.split)

lemma served_by_fold_remove:
  "served_by (fold (\<lambda>n. update_node n (remove_partition pid False)) ns nodes) pid' x =
     (if pid' = pid \<and> x \<in> set ns then (False, False) else served_by nodes pid' x)"
  by (induction ns arbitrary: nodes) (auto simp: served_by_remove)

lemma dom_fold_remove [simp]:
  "dom (map_of (fold (\<lambda>n. update_node n (remove_partition pid False)) ns nodes)) = dom (map_of nodes)"
  by (induction ns arbitrary: nodes) simp_all

lemma update_served_ok:
  assumes up: "update_ok pc request" and pid: "pc_pid pc = pid" and ok: "served_ok nodes pid pc" and wf: "pc_wf pc"
    and served: "update_served request nodes = Inr nodes'"
  shows "reserved_for pid nodes nodes' (ur_config request)"
proof (cases "ur_type request = CT_DROP_PARTITION")
  case True
  let ?drops = "pc_last_drops (ur_config request)"
  have new: "\<not> is_member (ur_config request) n" "role_in (ur_config request) n = (False, False)" for n
    using up True by (auto simp: update_ok_def members_change_def Let_def role_in_def is_member_def is_primary_def is_secondary_def)
  have nodes': "nodes' = fold (\<lambda>n. update_node n (remove_partition pid False)) ?drops nodes"
    using served True up pid by (auto simp: update_served_def update_ok_def Let_def)
  have "served_by nodes' pid n = (False, False)" for n
  proof (cases "n \<in> set ?drops")
    case False
    then have "\<not> is_member pc n" using up True by (auto simp: update_ok_def)
    with ok False show ?thesis by (simp add: nodes' served_by_fold_remove served_ok_def role_in_def is_member_def)
  qed (simp add: nodes' served_by_fold_remove)
  with new show ?thesis
    by (simp add: reserved_for_def served_ok_def nodes' served_by_fold_remove)
next
  case False
  from served False obtain n ns where n: "ur_node request = Some n" "map_of nodes n = Some ns"
    by (auto simp: update_served_def Let_def split: option.splits if_splits)
  have role: "(pid \<in> ns_primaries ns, pid \<in> ns_partitions ns) = role_in pc n"
    using ok n(2) by (simp add: served_ok_def served_by_def split: option.splits)
  have pid': "pc_pid (ur_config request) = pid" using up pid by (simp add: update_ok_def)
  have change: "members_change pc request" and wf': "pc_wf (ur_config request)" using up by (simp_all add: update_ok_def)
  note defs = members_change_def role_in_def is_member_def is_primary_def is_secondary_def pc_wf_def
  have others: "role_in (ur_config request) x = role_in pc x" if "x \<noteq> n" for x
    using change n(1) False that by (cases "ur_type request"; cases "pc_primary pc = Some n") (auto simp: defs Let_def)
  show ?thesis
  proof (cases "ur_type request = CT_PRIMARY_FORCE_UPDATE_BALLOT")
    case True
    then have "role_in (ur_config request) x = role_in pc x" for x using change n(1) by (auto simp: defs Let_def)
    moreover have "nodes' = nodes" using served True n by (simp add: update_served_def Let_def)
    ultimately show ?thesis using ok by (simp add: reserved_for_def served_ok_def role_in_def)
  next
    case other: False
    define f where "f = (case ur_type request of
        CT_ASSIGN_PRIMARY \<Rightarrow> put_partition pid True | CT_UPGRADE_TO_PRIMARY \<Rightarrow> put_partition pid True
      | CT_UPGRADE_TO_SECONDARY \<Rightarrow> put_partition pid False | CT_DOWNGRADE_TO_SECONDARY \<Rightarrow> remove_partition pid True
      | _ \<Rightarrow> remove_partition pid False)"
    have nodes': "nodes' = update_node n f nodes"
      using change n False other served pid'
      by (cases "ur_type request") (auto simp: update_served_def members_change_def f_def Let_def)
    have "f \<in> {put_partition pid True, put_partition pid False, remove_partition pid True, remove_partition pid False}"
      by (cases "ur_type request") (simp_all add: f_def)
    moreover have "(pid \<in> ns_primaries (f ns), pid \<in> ns_partitions (f ns)) = role_in (ur_config request) n"
      using change n(1) False other role wf wf' by (cases "ur_type request") (auto simp: defs f_def Let_def)
    ultimately show ?thesis unfolding nodes'
      by (intro served_step [OF ok n(2) others]) auto
  qed
qed

section \<open>The drop history after an update\<close>

lemma check_size_fields [simp]:
  "cc_stage (check_size reserved pc cc) = cc_stage cc" "cc_lb_actions (check_size reserved pc cc) = cc_lb_actions cc"
  by (simp_all add: check_size_def split: prod.split)

lemma record_drop_history_stage [simp]: "cc_stage (snd (record_drop_history reserved now pc n cc)) = cc_stage cc"
  by (simp add: record_drop_history_def Let_def)

lemma remove_from_dropped_stage [simp]: "cc_stage (snd (remove_from_dropped n cc)) = cc_stage cc"
  by (simp add: remove_from_dropped_def Let_def)

text \<open>The clock is past the recorded drops.\<close>

definition clock_past :: "meta_env \<Rightarrow> config_context \<Rightarrow> bool" where
  "clock_past env cc \<longleftrightarrow> (\<forall>d \<in> set (cc_dropped cc). dr_key d \<le> (me_now_ms env, - 1, - 1, - 1))"

lemma record_drops_ok:
  "history_ok cc \<Longrightarrow> clock_past env cc \<Longrightarrow>
   history_ok (record_drops env pc ns cc) \<and> cc_stage (record_drops env pc ns cc) = cc_stage cc"
proof (induction env pc ns cc rule: record_drops.induct)
  case (2 env pc n ns cc)
  from record_drop_history_ok [OF "2.prems"(1), of "me_now_ms env" "me_max_reserved_dropped_replicas env" pc n] "2.prems"(2)
  show ?case using "2.IH" by (simp add: clock_past_def)
qed simp

lemma remove_from_serving_dropped [simp]:
  "cc_dropped (remove_from_serving n cc) = cc_dropped cc" "cc_stage (remove_from_serving n cc) = cc_stage cc"
  "cc_prefered_dropped (remove_from_serving n cc) = cc_prefered_dropped cc"
  by (simp_all add: remove_from_serving_def)

lemma reconfig_drops_ok:
  assumes re: "reconfig_drops env request (ur_config request) cc = Inr cc'" and up: "update_ok pc request"
    and cc: "history_ok cc" "cc_stage cc = not_pending" "clock_past env cc"
    and dropped: "\<And>d. d \<in> set (cc_dropped cc) \<Longrightarrow> \<not> is_member pc (dr_node d)"
  shows "context_ok (ur_config request) cc'"
proof (cases "ur_type request = CT_DROP_PARTITION")
  case True
  let ?cc = "cc\<lparr>cc_serving := []\<rparr>"
  have "history_ok ?cc" "clock_past env ?cc" using cc by (simp_all add: history_ok_def clock_past_def)
  from record_drops_ok [OF this, of "ur_config request" "pc_last_drops (ur_config request)"] re True cc(2)
  have "history_ok cc'" "cc_stage cc' = not_pending" by (auto simp: reconfig_drops_def)
  moreover have "\<not> is_member (ur_config request) n" for n
    using up True by (auto simp: update_ok_def members_change_def Let_def is_member_def is_primary_def is_secondary_def)
  ultimately show ?thesis by (simp add: context_ok_def)
next
  case False
  then obtain n where n: "ur_node request = Some n" using up by (auto simp: update_ok_def members_change_def Let_def split: option.splits)
  have "members_change pc request" using up by (simp add: update_ok_def)
  note u = update_type_cases [OF this n]
  show ?thesis
  proof (cases "when_update_replicas (ur_type request)")
    case None
    with re False n have "cc' = cc" by (simp add: reconfig_drops_def)
    with cc u None dropped show ?thesis by (auto simp: context_ok_def)
  next
    case (Some adding)
    show ?thesis
    proof (cases adding)
      case True
      let ?cc = "snd (remove_from_dropped n cc)"
      have cc': "cc' = check_size (me_max_reserved_dropped_replicas env) (ur_config request) ?cc"
        using re False n Some True by (simp add: reconfig_drops_def)
      have "history_ok cc'" unfolding cc' by (intro check_size_ok remove_from_dropped_ok cc(1))
      moreover have "dr_node d \<in> dr_node ` set (cc_dropped cc) - {n}" if "d \<in> set (cc_dropped cc')" for d
        using that remove_from_dropped_nodes [OF cc(1), of n] unfolding cc' by (auto dest!: in_set_dropD)
      ultimately show ?thesis using cc(2) u dropped by (fastforce simp: context_ok_def cc')
    next
      case rem: False
      let ?cc = "remove_from_serving n cc"
      have ok: "history_ok ?cc" "clock_past env ?cc" using cc by (simp_all add: history_ok_def clock_past_def)
      have cc': "cc' = snd (record_drop_history (me_max_reserved_dropped_replicas env) (me_now_ms env) (ur_config request) n ?cc)"
        using re False n Some rem by (auto simp: reconfig_drops_def result_simps split: prod.splits)
      have "history_ok cc'" unfolding cc' 
        using record_drop_history_ok [OF ok(1), of "me_now_ms env" "me_max_reserved_dropped_replicas env" "ur_config request" n] ok(2)
        by (simp add: clock_past_def)
      moreover have "dr_node d \<in> insert n (dr_node ` set (cc_dropped cc))" if "d \<in> set (cc_dropped cc')" for d
        using that record_drop_history_nodes [of "me_max_reserved_dropped_replicas env" "me_now_ms env" "ur_config request" n ?cc]
        unfolding cc' by auto
      ultimately show ?thesis using cc(2) u Some rem dropped by (fastforce simp: context_ok_def cc')
    qed
  qed
qed

section \<open>The reply of the remote storage\<close>

lemma reconfig_outcome:
  assumes "reconfig env request m = Inr m'" "m_parts m (pc_pid (ur_config request)) = Some p"
  obtains nodes la cc where "nodes_keep (m_nodes m) nodes"
    "reconfig_drops env request (ps_pc p) ((ps_cc p)\<lparr>cc_lb_actions := la\<rparr>) = Inr cc"
    "m' = put_context (pc_pid (ur_config request)) p cc (m\<lparr>m_nodes := nodes\<rparr>)"
proof -
  from assms have p: "get_partition (pc_pid (ur_config request)) m = Inr p"
    using get_partition_Some by (fastforce simp: reconfig_def Let_def result_simps)
  show thesis
  proof (cases "la_acts (cc_lb_actions (ps_cc p))")
    case Nil
    with assms(1) p obtain cc where "reconfig_drops env request (ps_pc p) (ps_cc p) = Inr cc"
      "m' = put_context (pc_pid (ur_config request)) p cc m" by (auto simp: reconfig_def Let_def result_simps)
    then show ?thesis by (intro that [of "m_nodes m" "cc_lb_actions (ps_cc p)" cc]) simp_all
  next
    case (Cons act acts)
    with assms(1) p obtain nodes cc where
      "(if la_from_balancer (cc_lb_actions (ps_cc p)) then Inr (m_nodes m)
        else finish_cure_proposal (pc_pid (ur_config request)) act (m_nodes m)) = Inr nodes"
      "reconfig_drops env request (ps_pc p) ((ps_cc p)\<lparr>cc_lb_actions := pop_front_action (cc_lb_actions (ps_cc p))\<rparr>) = Inr cc"
      "m' = put_context (pc_pid (ur_config request)) p cc (m\<lparr>m_nodes := nodes\<rparr>)"
      by (auto simp: reconfig_def Let_def result_simps simp del: if_split)
    then show ?thesis
      by (intro that [of nodes "pop_front_action (cc_lb_actions (ps_cc p))" cc])
        (auto intro: finish_cure_keeps split: if_splits)
  qed
qed

lemma process_one_partition_quiet:
  "process_one_partition a app m = Inr m' \<Longrightarrow> m_parts m' = m_parts m \<and> m_nodes m' = m_nodes m"
  by (auto simp: process_one_partition_def transition_staging_state_def meta_emit_def Let_def split: if_splits option.splits)

lemma propose_next_quiet: "propose_next env request m = Inr m' \<Longrightarrow> quiet m m'"
  by (auto simp: propose_next_def result_simps split: if_splits dest!: cure_quiet intro: quiet_trans quiet_send_action)

lemma reply_ok_sound:
  assumes reply: "on_update_configuration_on_remote_reply env ERR_OK request m = Inr m'"
    and p: "m_parts m (pc_pid (ur_config request)) = Some p"
    and pending: "cc_stage (ps_cc p) = pending_remote_sync" "cc_pending_sync_request (ps_cc p) = Some request"
    and clock: "clock_past env (ps_cc p)"
  shows "sound m m'"
  unfolding sound_def
proof
  assume ok: "meta_ok m"
  let ?pid = "pc_pid (ur_config request)" and ?new = "ur_config request"
  have pok: "pc_pid (ps_pc p) = ?pid" "pc_wf (ps_pc p)" "served_ok (m_nodes m) ?pid (ps_pc p)" "context_ok (ps_pc p) (ps_cc p)"
    using ok p by (auto simp: meta_ok_def)
  then have up: "update_ok (ps_pc p) request" using pending by (auto simp: context_ok_def)
  from reply p obtain a where gp: "get_app_partition ?pid m = Inr (a, p)"
    by (auto simp: on_update_configuration_on_remote_reply_def get_app_partition_def result_simps split: option.splits)
  from reply gp obtain m1 m2 m3 where
    m1: "update_configuration_locally env a p request m = Inr m1" and m2: "finish_sync request m1 = Inr m2"
    and m3: "reconfig env request m2 = Inr m3"
    and m': "(if ur_type request = CT_DROP_PARTITION then process_one_partition (fst ?pid) a m3
      else propose_next env request m3) = Inr m'"
    by (auto simp: on_update_configuration_on_remote_reply_def result_simps simp del: if_split)
  from m1 obtain nodes where served: "update_served request (m_nodes m) = Inr nodes"
    and m1': "m1 = m\<lparr>m_nodes := nodes, m_parts := (m_parts m)(?pid \<mapsto> p\<lparr>ps_pc := ?new\<rparr>)\<rparr>"
    by (auto simp: update_configuration_locally_def result_simps)
  note re = update_served_ok [OF up pok(1,3,2) served]
  let ?cc = "(ps_cc p)\<lparr>cc_pending_sync_request := None, cc_stage := not_pending, cc_msg := None\<rparr>"
  have m2': "m_parts m2 = (m_parts m)(?pid \<mapsto> p\<lparr>ps_pc := ?new, ps_cc := ?cc\<rparr>)" "m_nodes m2 = nodes"
    using m2 gp unfolding m1'
    by (auto simp: finish_sync_def get_app_partition_def put_context_def meta_emit_def Let_def split: option.splits)
  have "m_parts m2 ?pid = Some (p\<lparr>ps_pc := ?new, ps_cc := ?cc\<rparr>)" using m2' by simp
  from reconfig_outcome [OF m3 this] obtain nodes3 la cc3 where
    keep: "nodes_keep nodes nodes3" and drops: "reconfig_drops env request ?new (?cc\<lparr>cc_lb_actions := la\<rparr>) = Inr cc3"
    and m3': "m3 = put_context ?pid (p\<lparr>ps_pc := ?new, ps_cc := ?cc\<rparr>) cc3 (m2\<lparr>m_nodes := nodes3\<rparr>)"
    by (auto simp: m2')
  have ctx: "context_ok ?new cc3"
    by (rule reconfig_drops_ok [OF drops up]) (use pok(4) clock in \<open>auto simp: context_ok_def history_ok_def clock_past_def\<close>)
  have parts3: "m_parts m3 = (m_parts m)(?pid \<mapsto> p\<lparr>ps_pc := ?new, ps_cc := cc3\<rparr>)" "m_nodes m3 = nodes3"
    by (simp_all add: m3' put_context_def m2')
  have served3: "served_ok nodes3 pid (ps_pc q)" if "m_parts m pid = Some q" "pid \<noteq> ?pid" for pid q
  proof -
    have "served_ok (m_nodes m) pid (ps_pc q)" using ok that(1) by (auto simp: meta_ok_def)
    from served_ok_keep [OF keep reserved_for_other [OF re that(2) this]] show ?thesis .
  qed
  have "served_ok nodes3 ?pid ?new" using re by (auto simp: reserved_for_def intro: served_ok_keep [OF keep])
  then have ok3: "meta_ok m3" unfolding meta_ok_def parts3
    using ok served3 ctx up by (auto simp: meta_ok_def update_ok_def)
  have grow3: "views_grow m m3" unfolding views_grow_def parts3 using p up by (auto simp: update_ok_def)
  show "meta_ok m' \<and> views_grow m m'"
  proof (cases "ur_type request = CT_DROP_PARTITION")
    case True
    with m' process_one_partition_quiet have "m_parts m' = m_parts m3" "m_nodes m' = m_nodes m3" by auto
    with ok3 grow3 show ?thesis by (simp add: meta_ok_def views_grow_def)
  next
    case False
    with m' have "quiet m3 m'" by (simp add: propose_next_quiet)
    with ok3 grow3 show ?thesis using quiet_meta_ok quiet_views_grow views_grow_trans by blast
  qed
qed

section \<open>Config sync\<close>

lemma collect_replica_context:
  assumes "collect_replica reserved pc n rep cc = Inr (useful, cc')" "context_ok pc cc"
  shows "context_ok pc cc'"
proof -
  consider "cc' = cc" | (serving) "cc' = collect_serving_replica n rep cc" |
    (dropped) la ans where "\<not> is_member pc n" "collect_drop_replica reserved pc n rep (cc\<lparr>cc_lb_actions := la\<rparr>) = Inr (ans, cc')"
    using assms(1) by (auto simp: collect_replica_def adjust_proposal_def result_simps split: if_splits)
  then show ?thesis
  proof cases
    case serving
    with assms(2) show ?thesis by (simp add: collect_serving_replica_def context_ok_def history_ok_def)
  next
    case dropped
    let ?cc = "cc\<lparr>cc_lb_actions := la\<rparr>" and ?ds = "with_reported n rep (cc\<lparr>cc_lb_actions := la\<rparr>)"
    have ok: "history_ok ?cc" using assms(2) by (simp add: context_ok_def history_ok_def)
    have cc': "cc' = check_size reserved pc (?cc\<lparr>cc_dropped := ?ds, cc_prefered_dropped := int (length ?ds) - 1\<rparr>)"
      using dropped(2) by (auto simp: collect_drop_replica_eq [OF ok] Let_def result_simps split: if_splits)
    have "history_ok cc'" unfolding cc' by (rule check_size_ok, rule with_reported_ok [OF ok])
    moreover have "\<not> is_member pc (dr_node d)" if "d \<in> set (cc_dropped cc')" for d
    proof -
      from that have "d \<in> set ?ds" unfolding cc' by (auto dest: in_set_dropD)
      then have "dr_node d = n \<or> d \<in> set (cc_dropped cc)" by (auto simp: with_reported_def set_insort_key reported_def)
      with dropped(1) assms(2) show ?thesis by (auto simp: context_ok_def)
    qed
    moreover have "cc_stage cc' = cc_stage cc" "cc_pending_sync_request cc' = cc_pending_sync_request cc"
      by (simp_all add: cc' check_size_def split: prod.split)
    ultimately show ?thesis using assms(2) by (simp add: context_ok_def)
  qed (use assms(2) in simp)
qed

lemma put_context_sound:
  assumes "m_parts m pid = Some p" "context_ok (ps_pc p) (ps_cc p) \<Longrightarrow> context_ok (ps_pc p) cc"
  shows "sound m (put_context pid p cc m)"
  using assms by (auto simp: sound_def meta_ok_def views_grow_def put_context_def)

lemma collect_stored_sound:
  assumes "collect_stored env n rep (m, gc) = Inr (m', gc')"
  shows "sound m m'"
proof -
  have "m' = m \<or> (\<exists>p useful cc. m_parts m (ri_pid rep) = Some p \<and>
      collect_replica (me_max_reserved_dropped_replicas env) (ps_pc p) n rep (ps_cc p) = Inr (useful, cc) \<and>
      m' = put_context (ri_pid rep) p cc m)"
  proof (cases "m_apps m (fst (ri_pid rep))")
    case (Some app)
    with assms show ?thesis
      by (cases "snd (ri_pid rep) \<ge> as_partition_count app"; cases "as_status app = AS_DROPPED"; cases "as_status app = AS_AVAILABLE")
        (auto simp: collect_stored_def Let_def result_simps split: if_splits dest!: get_partition_Some)
  qed (use assms in \<open>simp add: collect_stored_def\<close>)
  then show ?thesis
  proof (elim disjE exE conjE)
    fix p useful cc
    assume p: "m_parts m (ri_pid rep) = Some p"
      and c: "collect_replica (me_max_reserved_dropped_replicas env) (ps_pc p) n rep (ps_cc p) = Inr (useful, cc)"
      and m': "m' = put_context (ri_pid rep) p cc m"
    show ?thesis unfolding m' by (rule put_context_sound [OF p]) (rule collect_replica_context [OF c])
  qed simp
qed

lemma collect_all_stored_sound: "collect_all_stored env n reps (m, gc) = Inr (m', gc') \<Longrightarrow> sound m m'"
  by (induction reps arbitrary: m gc) (auto simp: result_simps dest: collect_stored_sound intro: sound_trans)

lemma on_config_sync_sound:
  assumes "on_config_sync env n stored m = Inr (resp, m')"
  shows "sound m m'"
proof -
  let ?m = "m\<lparr>m_nodes := update_node n (\<lambda>ns. ns\<lparr>ns_has_collected := True\<rparr>) (m_nodes m)\<rparr>"
  have "m' = m \<or> (\<exists>reps gc. collect_all_stored env n reps (?m, []) = Inr (m', gc))"
    using assms by (auto simp: on_config_sync_def result_simps split: option.splits if_splits)
  moreover have "sound m ?m" by (intro quiet_sound quiet_nodes nodes_keep_update) simp
  ultimately show ?thesis using collect_all_stored_sound sound_trans sound_refl by blast
qed

section \<open>Runs\<close>

text \<open>
  The steps of the meta server. A request with the next ballot is one that a replica server has
  built from the current configuration; the reply of the storage is for the pending request, as
  the task of a cancelled one does not run.
\<close>

inductive meta_step :: "meta \<Rightarrow> meta \<Rightarrow> bool" where
  request: "on_update_configuration env request msg m = Inr m' \<Longrightarrow>
    (\<forall>p. m_parts m (pc_pid (ur_config request)) = Some p \<longrightarrow>
       pc_ballot (ur_config request) = pc_ballot (ps_pc p) + 1 \<longrightarrow> request_ok (ps_pc p) request) \<Longrightarrow> meta_step m m'"
| stored: "m_parts m (pc_pid (ur_config request)) = Some p \<Longrightarrow> cc_stage (ps_cc p) = pending_remote_sync \<Longrightarrow>
    cc_pending_sync_request (ps_cc p) = Some request \<Longrightarrow> clock_past env (ps_cc p) \<Longrightarrow>
    on_update_configuration_on_remote_reply env ERR_OK request m = Inr m' \<Longrightarrow> meta_step m m'"
| retry: "on_update_configuration_on_remote_reply env ERR_TIMEOUT request m = Inr m' \<Longrightarrow> meta_step m m'"
| node: "on_change_node_state env n alive m = Inr m' \<Longrightarrow> meta_step m m'"
| sync: "on_config_sync env n reps m = Inr (resp, m') \<Longrightarrow> meta_step m m'"
| round: "check_all_partitions env m = Inr (b, m') \<Longrightarrow> meta_step m m'"
| balance: "register_proposals pid acts m = Inr (err, m') \<Longrightarrow> meta_step m m'"
| clear: "meta_step m (clear_proposals m)"
| drop: "drop_partition env pid m = Inr m' \<Longrightarrow> (\<forall>p. m_parts m pid = Some p \<longrightarrow> replica_count (ps_pc p) \<le> 3) \<Longrightarrow> meta_step m m'"

lemma meta_step_sound: "meta_step m m' \<Longrightarrow> sound m m'"
proof (induction rule: meta_step.induct)
  case (request env req msg m m')
  then show ?case unfolding sound_def by (intro impI on_update_configuration_ok) auto
next
  case (stored m req p env m')
  then show ?case by (intro reply_ok_sound)
next
  case (retry env req m m')
  then show ?case
    by (auto simp: on_update_configuration_on_remote_reply_def update_configuration_on_remote_def result_simps
        intro!: quiet_sound split: if_splits)
qed (auto intro: on_change_node_state_sound on_config_sync_sound drop_partition_sound quiet_sound
    check_all_partitions_quiet register_proposals_quiet clear_proposals_quiet)

interpretation meta_run: stepwise_invariant "\<lambda>m. m = m0 \<and> meta_ok m0" meta_step "\<lambda>m. meta_ok m \<and> views_grow m0 m" for m0
  by unfold_locales (auto dest!: meta_step_sound simp: sound_def intro: views_grow_trans)

text \<open>\<open>check_consistency\<close> of debug builds.\<close>

definition check_consistency :: "node_mapper \<Rightarrow> gpid \<Rightarrow> meta_configuration \<Rightarrow> bool" where
  "check_consistency nodes pid pc =
     (let serves = (\<lambda>st n. (case map_of nodes n of None \<Rightarrow> False | Some ns \<Rightarrow> served_as ns pid = st) \<and>
            n \<notin> set (pc_last_drops pc))
      in (case pc_primary pc of None \<Rightarrow> True | Some n \<Rightarrow> serves PS_PRIMARY n) \<and>
         list_all (serves PS_SECONDARY) (pc_secondaries pc))"

lemma check_consistency_ok: "pc_wf pc \<Longrightarrow> served_ok nodes pid pc \<Longrightarrow> check_consistency nodes pid pc"
  by (fastforce simp: check_consistency_def pc_wf_def served_ok_def served_by_def served_as_def role_in_def is_member_def
      is_primary_def is_secondary_def list_all_iff split: option.splits)

text \<open>
  C2.
  Over any sequence of the steps of \<open>meta_step\<close> every partition stays consistent: its members
  are distinct and known, none of them is among the dropped replicas, what every node serves
  agrees with the configuration, the drop history is ordered, and a pending update is one that
  may be installed. The ballot of a partition never goes back, and its configuration is determined
  by its ballot: there is at most one primary per ballot. The steps are the handlers under these
  conditions: a request of a replica server that carries the next ballot is one that such a
  server builds from the current configuration (\<open>request_ok\<close>), requests with another ballot
  are arbitrary; the storage confirms only the pending update, at a time that is not before the
  drop history; and a partition is dropped only when its group has at most three members. For
  larger groups the consistency is lost, as the theory \<^verbatim>\<open>Meta_Defects\<close> shows. Changes of the
  replica count of a table are not among the steps.
\<close>

theorem meta_views_consistent:
  assumes "meta_ok m" "meta_step\<^sup>*\<^sup>* m m'"
  shows "meta_ok m' \<and> views_grow m m' \<and>
    (\<forall>pid p. m_parts m' pid = Some p \<longrightarrow> check_consistency (m_nodes m') pid (ps_pc p) \<and> check_order (cc_dropped (ps_cc p)))"
proof -
  have "meta_ok m' \<and> views_grow m m'" using assms by (intro meta_run.inv_reachable [of m m]) simp_all
  then show ?thesis
    by (auto simp: meta_ok_def context_ok_def history_ok_def check_order_sorted intro: check_consistency_ok)
qed

section \<open>An example run\<close>

lemma sample_meta_ok: "meta_ok (sample_meta sample_pc sample_cc)"
proof -
  have "served_by (m_nodes (sample_meta sample_pc sample_cc)) (1, 0) n = role_in sample_pc n" for n
    by (simp add: served_by_def sample_meta_def sample_node_def node_state_init_def role_in_def is_primary_def)
      (auto simp: sample_pc_def put_partition_def)
  moreover have "pc_wf sample_pc" "pc_pid sample_pc = (1, 0)" by (auto simp: pc_wf_def) (auto simp: sample_pc_def)
  moreover have "context_ok sample_pc sample_cc"
    by (simp add: context_ok_def history_ok_def) (simp add: sample_cc_def config_context_init_def)
  ultimately show ?thesis by (auto simp: meta_ok_def served_ok_def)
qed

text \<open>The primary of the sample dies, and the downgrade is stored: the secondary is left and is to be the primary.\<close>

theorem meta_views_consistent_witness:
  "\<exists>m'. meta_step\<^sup>*\<^sup>* (sample_meta sample_pc sample_cc) m' \<and> meta_ok m' \<and>
     map_option ps_pc (m_parts m' (1, 0)) =
       Some (sample_pc\<lparr>pc_ballot := 5, pc_primary := None, pc_last_drops := [5, 1]\<rparr>) \<and>
     served_by (m_nodes m') (1, 0) 1 = (False, False) \<and> served_by (m_nodes m') (1, 0) 2 = (False, True)"
proof -
  let ?m = "sample_meta sample_pc sample_cc" and ?p = "\<lparr>ps_pc = sample_pc, ps_cc = sample_cc\<rparr>"
  define request where "request = \<lparr>ur_type = CT_DOWNGRADE_TO_INACTIVE, ur_node = Some 1,
    ur_config = sample_pc\<lparr>pc_ballot := 5, pc_primary := None, pc_last_drops := [5, 1]\<rparr>\<rparr>"
  define m0 where "m0 = ?m\<lparr>m_nodes := update_node 1 (\<lambda>ns. ns\<lparr>ns_is_alive := False, ns_has_collected := False\<rparr>) (m_nodes ?m)\<rparr>"
  define m1 where "m1 = start_sync sample_env (1, 0) ?p request None m0"
  have pc: "pc_pid sample_pc = (1, 0)" "pc_primary sample_pc = Some 1" "pc_secondaries sample_pc = [2]" "pc_last_drops sample_pc = [5]"
    "is_primary sample_pc (Suc 0)" by (simp_all add: sample_pc_def is_primary_def)
  have cc: "cc_stage sample_cc = not_pending" by (simp add: sample_cc_def config_context_init_def)
  have node: "map_of (m_nodes ?m) 1 = Some (put_partition (1, 0) True sample_node)" by (simp add: sample_meta_def)
  have parts: "ns_partitions sample_node = {}" by (simp add: sample_node_def node_state_init_def)
  have "on_change_node_state sample_env 1 False ?m = Inr m1"
    unfolding on_change_node_state_def node m0_def [symmetric]
    by (simp add: parts on_partition_node_dead_def get_app_partition_def m0_def downgrade_primary_to_inactive_def pc cc
        maintain_drops_def when_update_replicas_def m1_def request_def)
  then have step1: "meta_step ?m m1" by (rule meta_step.node)
  define cc1 where "cc1 = sample_cc\<lparr>cc_stage := pending_remote_sync, cc_pending_sync_request := Some request, cc_msg := None\<rparr>"
  have m1: "m_parts m1 = [(1, 0) \<mapsto> \<lparr>ps_pc = sample_pc, ps_cc = cc1\<rparr>]" "m_apps m1 = m_apps ?m" "m_nodes m1 = m_nodes m0"
    by (simp_all add: m1_def start_sync_def put_context_def update_configuration_on_remote_def meta_emit_def m0_def cc1_def)
  let ?new = "ur_config request"
  define nodes where "nodes = update_node 1 (remove_partition (1, 0) False) (m_nodes m0)"
  have alive: "map_of nodes 2 = Some (put_partition (1, 0) False sample_node)" "map_of (m_nodes m0) 1 \<noteq> None"
    by (simp_all add: nodes_def m0_def map_of_update_node sample_meta_def)
  define cc2 where "cc2 = cc1\<lparr>cc_pending_sync_request := None, cc_stage := not_pending, cc_msg := None\<rparr>"
  define ma where "ma = m1\<lparr>m_nodes := nodes, m_parts := [(1, 0) \<mapsto> \<lparr>ps_pc = ?new, ps_cc = cc1\<rparr>]\<rparr>"
  define mb where "mb = put_context (1, 0) \<lparr>ps_pc = ?new, ps_cc = cc1\<rparr> cc2 ma"
  obtain a where app: "get_app_partition (1, 0) m1 = Inr (a, \<lparr>ps_pc = sample_pc, ps_cc = cc1\<rparr>)" "as_status a = AS_AVAILABLE"
    "as_max_replica_count a = 3" by (simp add: get_app_partition_def m1)
  have new: "pc_pid ?new = (1, 0)" "pc_ballot ?new = 5" "ur_type request = CT_DOWNGRADE_TO_INACTIVE" "ur_node request = Some 1"
    "pc_primary ?new = None" "pc_secondaries ?new = [2]" by (simp_all add: request_def pc)
  have a: "update_configuration_locally sample_env a \<lparr>ps_pc = sample_pc, ps_cc = cc1\<rparr> request m1 = Inr ma"
    using alive(2) by (auto simp: update_configuration_locally_def app_mutation_2pc_min_replica_count_def update_served_def
        new app m1 ma_def nodes_def sample_env_def Let_def)
  have b: "finish_sync request ma = Inr mb"
    by (simp add: finish_sync_def get_app_partition_def new ma_def m1 mb_def cc2_def cc1_def Let_def)
  have cc2: "cc_dropped cc2 = cc_dropped sample_cc" "la_acts (cc_lb_actions cc2) = []" by (simp_all add: cc2_def cc1_def)
  let ?cc = "remove_from_serving 1 cc2"
  have "find_from_dropped 1 ?cc = None" using cc2 by (simp add: find_from_dropped_None)
  moreover have "cc_lb_actions ?cc = cc_lb_actions cc2" by (simp add: remove_from_serving_def)
  moreover have "cc_lb_actions (check_size r pc cc) = cc_lb_actions cc" for r cc and pc :: meta_configuration
    by (simp add: check_size_def split: prod.split)
  ultimately obtain cc3 where cc3: "reconfig_drops sample_env request ?new cc2 = Inr cc3" "cc_lb_actions cc3 = cc_lb_actions cc2"
    by (simp add: reconfig_drops_def when_update_replicas_def new record_drop_history_def Let_def)
  then have c: "reconfig sample_env request mb = Inr (put_context (1, 0) \<lparr>ps_pc = ?new, ps_cc = cc2\<rparr> cc3 mb)"
    by (simp add: reconfig_def new get_partition_def mb_def ma_def put_context_def cc2 m1 Let_def)
  let ?m3 = "put_context (1, 0) \<lparr>ps_pc = ?new, ps_cc = cc2\<rparr> cc3 mb"
  have m3: "m_parts ?m3 (1, 0) = Some \<lparr>ps_pc = ?new, ps_cc = cc3\<rparr>" "m_nodes ?m3 = nodes" "m_apps ?m3 = m_apps ?m"
    by (simp_all add: put_context_def mb_def ma_def m1)
  then have "\<exists>n. cured sample_env (1, 0) ?m3 ill (primary_action CT_UPGRADE_TO_PRIMARY n)"
    using cured_upgrade [of "(1, 0)" ?m3 "\<lparr>ps_pc = ?new, ps_cc = cc3\<rparr>" sample_env] cc2 cc3(2) alive(1)
    by (auto simp: get_partition_def group_alive_def is_member_def is_primary_def is_secondary_def new is_node_alive_def
        sample_node_def put_partition_def)
  then obtain m2 where next2: "propose_next sample_env request ?m3 = Inr m2"
    by (auto simp: cured_def propose_next_def new)
  then have m2: "on_update_configuration_on_remote_reply sample_env ERR_OK request m1 = Inr m2"
    using a b c by (simp add: on_update_configuration_on_remote_reply_def new app)
  have step2: "meta_step m1 m2"
    by (rule meta_step.stored [OF _ _ _ _ m2, where p = "\<lparr>ps_pc = sample_pc, ps_cc = cc1\<rparr>"])
      (simp_all add: m1 cc1_def request_def pc clock_past_def sample_env_def dr_key_def)
  have run: "meta_step\<^sup>*\<^sup>* ?m m2" using step1 step2 by (meson rtranclp.rtrancl_into_rtrancl rtranclp.rtrancl_refl)
  have "rel_option part_keeps (m_parts ?m3 (1, 0)) (m_parts m2 (1, 0))"
    "served_by (m_nodes m2) (1, 0) n = served_by (m_nodes ?m3) (1, 0) n" for n
    using propose_next_quiet [OF next2] by (simp_all only: quiet_def nodes_keep_def)
  then have "map_option ps_pc (m_parts m2 (1, 0)) = Some ?new" "served_by (m_nodes m2) (1, 0) n = served_by nodes (1, 0) n" for n
    unfolding m3 by (auto simp: part_keeps_def option_rel_Some1)
  moreover have "served_by nodes (1, 0) 1 = (False, False)" "served_by nodes (1, 0) 2 = (False, True)"
    by (simp_all add: served_by_def alive nodes_def served_by_remove) (simp_all add: m0_def map_of_update_node sample_meta_def
        sample_node_def node_state_init_def put_partition_def)
  ultimately show ?thesis
    using meta_views_consistent [OF sample_meta_ok run] run by (auto simp: request_def)
qed

end
