(* ===== verification/Replica_Handlers.thy ===== *)
theory Replica_Handlers
  imports Replica
begin

unbundle bit_operations_syntax

text \<open>
  The handlers of a replica: client writes, prepare messages and their replies, completed log
  writes (\<^verbatim>\<open>src/src/replica/replica_2pc.cpp\<close>), failures of other members
  (\<^verbatim>\<open>src/src/replica/replica_failover.cpp\<close>), the reply of a split child
  (\<^verbatim>\<open>src/src/replica/split/replica_split_manager.cpp\<close>) and the reconfiguration of the
  replica group (\<^verbatim>\<open>src/src/replica/replica_config.cpp\<close>). Every handler takes the
  committer that executes mutations as an argument.
\<close>

section \<open>Client writes\<close>

text \<open>A write request: the message, its size, the time-out of the client, and whether its code is valid.\<close>

record write_request =
  wr_request :: client_request
  wr_body_size :: nat
  wr_timeout_ms :: int
  wr_code_valid :: bool

text \<open>\<open>disk_status_to_error_code\<close> of \<^verbatim>\<open>src/src/common/fs_manager.cpp\<close>.\<close>

definition disk_status_to_error_code :: "disk_status \<Rightarrow> error_code" where
  "disk_status_to_error_code ds =
     (case ds of SPACE_INSUFFICIENT \<Rightarrow> ERR_DISK_INSUFFICIENT | IO_ERROR \<Rightarrow> ERR_DISK_IO_ERROR | NORMAL \<Rightarrow> ERR_OK)"

text \<open>\<open>check_partition_hash\<close> compares in 64 bits.\<close>

definition check_partition_hash :: "rstate \<Rightarrow> 64 word \<Rightarrow> bool" where
  "check_partition_hash s partition_hash \<longleftrightarrow>
     (of_int (r_partition_version (repl s)) :: 64 word) AND partition_hash
       = of_int (snd (rc_pid (r_config (repl s))))"

text \<open>The checks before throttling: \<open>Some e\<close> is a reply with \<open>e\<close>, \<open>Some None\<close> silence.\<close>

definition write_refused :: "replica_env \<Rightarrow> write_request \<Rightarrow> rstate \<Rightarrow> error_code option option result" where
  "write_refused env req s =
     (let rq = wr_request req; r = repl s; bulk_load = (rq_code rq = ''RPC_RRDB_RRDB_BULK_LOAD'')
      in if \<not> re_allowed env rq then Inr (Some (Some ERR_ACL_DENY))
         else if dc_write (r_deny_client r)
         then Inr (Some (if dc_reconfig (r_deny_client r) then Some ERR_INVALID_STATE else None))
         else if re_max_allowed_write_size env > 0 \<and> wr_body_size req > re_max_allowed_write_size env
         then Inr (Some (Some ERR_INVALID_DATA))
         else if \<not> wr_code_valid req then Inr (Some (Some ERR_INVALID_PARAMETERS))
         else case re_specs env (rq_code rq) of
           None \<Rightarrow> Inr (Some (Some ERR_HANDLER_NOT_FOUND))
         | Some spec \<Rightarrow>
             if need_reject_non_idempotent s spec then Inr (Some (Some ERR_OPERATION_DISABLED))
             else if r_validate_partition_hash r \<and> r_partition_version r = - 1
             then Inr (Some (Some ERR_SPLITTING))
             else if r_validate_partition_hash r \<and> \<not> check_partition_hash s (rq_partition_hash rq)
             then Inr (Some (Some ERR_PARENT_PARTITION_MISUSED))
             else if status s \<noteq> PS_PRIMARY then Inr (Some (Some ERR_INVALID_STATE))
             else if re_reject_write_when_disk_insufficient env \<and>
                     (r_dir_status r \<noteq> NORMAL \<or> secondary_disk_abnormal (primary_states s))
             then Inr (Some (Some (disk_status_to_error_code (r_dir_status r))))
             else if r_is_bulk_load_ingestion r
             then Inr (Some (Some (if \<not> bulk_load then ERR_OPERATION_DISABLED else ERR_NO_NEED_OPERATE)))
             else bind_result (too_few_members env s) (\<lambda>few.
               Inr (if few then Some (Some ERR_NOT_ENOUGH_MEMBER) else None)))"

definition throttle_write :: "replica_env \<Rightarrow> write_request \<Rightarrow> rstate \<Rightarrow> (bool \<times> rstate) result" where
  "throttle_write env req s =
     bind_result (throttle_write_request (r_write_qps (repl s)) (r_write_size (repl s)) (re_now_s env)
       (wr_timeout_ms req) (int (wr_body_size req))) (\<lambda>(action, qps, size_c).
       let s1 = map_replica (\<lambda>r. r\<lparr>r_write_qps := qps, r_write_size := size_c\<rparr>) s
       in Inr (case action of
                 None \<Rightarrow> (False, s1)
               | Some (Delay_request ms) \<Rightarrow> (True, emit (Delay_write (wr_request req) ms) s1)
               | Some (Busy_after ms) \<Rightarrow> (True, emit (Busy_write_later (wr_request req) ms) s1)
               | Some Busy_now \<Rightarrow> (True, emit (Reply_write (wr_request req) ERR_BUSY) s1)))"

text \<open>The admission of a bulk load request, which marks the ingestion.\<close>

definition admit_bulk_load :: "replica_env \<Rightarrow> rstate \<Rightarrow> error_code \<times> rstate" where
  "admit_bulk_load env s =
     (if r_bulk_load_status (repl s) \<noteq> BLS_DOWNLOADED \<and> r_bulk_load_status (repl s) \<noteq> BLS_INGESTING
      then (ERR_INVALID_STATE, s)
      else if members_missing s then (ERR_NOT_ENOUGH_MEMBER, s)
      else (ERR_OK, map_replica (\<lambda>r. r\<lparr>r_is_bulk_load_ingestion := True,
                     r_bulk_load_ingestion_start_time_ms := re_now_ms env\<rparr>) s))"

definition enqueue_write :: "replica_env \<Rightarrow> replica committer \<Rightarrow> client_request \<Rightarrow> rstate \<Rightarrow> rstate result" where
  "enqueue_write env cm rq s =
     bind_result (add_work (queue_env_of env s) (Some rq)
       (px_write_queue (primary_states s), store_of s, r_next_mutation (repl s))) (\<lambda>(mu, q, h, nxt).
       let s1 = map_replica (\<lambda>r. r\<lparr>r_next_mutation := nxt\<rparr>)
                  (map_primary (\<lambda>px. px\<lparr>px_write_queue := q\<rparr>) (plist_of s, h, repl s))
       in case mu of None \<Rightarrow> Inr s1 | Some p \<Rightarrow> init_prepare env cm p False False s1)"

definition on_client_write :: "replica_env \<Rightarrow> replica committer \<Rightarrow> write_request \<Rightarrow> bool \<Rightarrow> rstate \<Rightarrow> rstate result" where
  "on_client_write env cm req ignore_throttling s =
     (let rq = wr_request req
      in bind_result (write_refused env req s) (\<lambda>refused.
         case refused of
           Some answer \<Rightarrow> Inr (case answer of None \<Rightarrow> s | Some e \<Rightarrow> response_client_write (Some rq) e s)
         | None \<Rightarrow>
             bind_result (if ignore_throttling then Inr (False, s) else throttle_write env req s) (\<lambda>(throttled, s1).
               if throttled then Inr s1
               else if rq_code rq = ''RPC_RRDB_RRDB_BULK_LOAD''
               then (case admit_bulk_load env s1 of (e, s2) \<Rightarrow>
                       if e \<noteq> ERR_OK then Inr (response_client_write (Some rq) e s2)
                       else enqueue_write env cm rq s2)
               else enqueue_write env cm rq s1)))"

section \<open>Preparing on the other members\<close>

text \<open>\<open>mutation::read_from\<close>: a mutation received in a prepare message has no client requests.\<close>

definition received_mutation :: "replica_env \<Rightarrow> nat \<Rightarrow> mutation_header \<Rightarrow> mutation_update list \<Rightarrow> mutation" where
  "received_mutation env request header updates =
     (mutation_init (re_sizeof_header env) (re_now_ns env))
       \<lparr>mu_header := header, mu_updates := updates,
        mu_client_requests := replicate (length updates) None, mu_prepare_requests := [request]\<rparr>"

definition handle_learning_error :: "replica_env \<Rightarrow> replica committer \<Rightarrow> error_code \<Rightarrow> bool \<Rightarrow> rstate \<Rightarrow> rstate result" where
  "handle_learning_error env cm err is_local_error s =
     (let s1 = map_replica (\<lambda>r. if is_local_error \<and> err = ERR_DISK_IO_ERROR then r\<lparr>r_dir_status := IO_ERROR\<rparr>
                 else if is_local_error \<and> err = ERR_RDB_CORRUPTION then r\<lparr>r_data_corrupted := True\<rparr> else r) s
      in bind_result (update_local_configuration_with_no_ballot_change env cm
           (if is_local_error then PS_ERROR else PS_INACTIVE) s1) (\<lambda>(_, s2). Inr s2))"

text \<open>The refusals of \<open>on_prepare\<close> once the configuration is up to date: the code to acknowledge.\<close>

definition prepare_refused :: "replica_configuration \<Rightarrow> rstate \<Rightarrow> error_code option" where
  "prepare_refused rconfig s =
     (let lx = r_potential_secondary_states (repl s)
      in case status s of
           PS_INACTIVE \<Rightarrow> Some (if r_inactive_is_transient (repl s) then ERR_INACTIVE_STATE else ERR_INVALID_STATE)
         | PS_ERROR \<Rightarrow> Some ERR_INVALID_STATE
         | PS_POTENTIAL_SECONDARY \<Rightarrow>
             if rc_learner_signature rconfig \<noteq> lx_learning_version lx then Some ERR_INVALID_STATE
             else if lx_learning_status lx \<noteq> LearningWithPrepare \<and> lx_learning_status lx \<noteq> LearningSucceeded
             then Some (if lx_learning_status lx = LearningWithoutPrepare then ERR_TRY_AGAIN else ERR_INVALID_STATE)
             else None
         | _ \<Rightarrow> None)"

definition prepare_new :: "replica_env \<Rightarrow> replica committer \<Rightarrow> bool \<Rightarrow> mutation_ptr \<Rightarrow> rstate \<Rightarrow> rstate result" where
  "prepare_new env cm pop_all p s =
     bind_result (prepare cm p (status s) pop_all True s) (\<lambda>(err, s1).
     bind_result (check (err = ERR_OK) ''prepare mutation failed'') (\<lambda>_.
       if status s1 = PS_POTENTIAL_SECONDARY \<or> status s1 = PS_SECONDARY
       then bind_result
              (check (mu_decree (store_of s1 p) \<le> lcd s1 + re_max_mutation_count_in_prepare_list env) ''CHECK_LE_MSG'') (\<lambda>_.
            bind_result (if is_splitting s1 then copy_mutation env p s1 else Inr s1) (append_log p))
       else ack_prepare_message ERR_INVALID_STATE p s1))"

definition real_prepare :: "replica_env \<Rightarrow> replica committer \<Rightarrow> nat \<Rightarrow> bool \<Rightarrow> mutation_ptr \<Rightarrow> rstate \<Rightarrow> rstate result" where
  "real_prepare env cm request pop_all p s0 =
     (let s = uniq_try_update (nat (h_timestamp (mu_header (store_of s0 p)))) s0;
          d = mu_decree (store_of s p)
      in bind_result (get_mutation_by_decree (pl_cache (plist_of s)) d) (\<lambda>mu2.
         case mu2 of
           Some q \<Rightarrow>
             if mu_ballot (store_of s q) = mu_ballot (store_of s p)
             then if is_logged (store_of s q) then ack_prepare_message ERR_OK p s
                  else Inr (map_mutation q (\<lambda>m. m\<lparr>mu_prepare_requests := mu_prepare_requests m @ [request]\<rparr>) s)
             else prepare_new env cm pop_all p s
         | None \<Rightarrow> prepare_new env cm pop_all p s))"

text \<open>\<open>on_prepare\<close> after the view has been compared and adopted.\<close>

definition prepare_in_view :: "replica_env \<Rightarrow> replica committer \<Rightarrow> nat \<Rightarrow> replica_configuration \<Rightarrow> bool
    \<Rightarrow> mutation_ptr \<Rightarrow> rstate \<Rightarrow> rstate result" where
  "prepare_in_view env cm request rconfig pop_all p s =
     (case prepare_refused rconfig s of
        Some e \<Rightarrow>
          bind_result
            (if status s = PS_POTENTIAL_SECONDARY \<and>
                rc_learner_signature rconfig \<noteq> lx_learning_version (r_potential_secondary_states (repl s))
             then handle_learning_error env cm ERR_INVALID_STATE False s else Inr s)
            (ack_prepare_message e p)
      | None \<Rightarrow>
          bind_result (check (rc_status rconfig = status s) ''CHECK_EQ'') (\<lambda>_.
            if mu_decree (store_of s p) \<le> lcd s then ack_prepare_message ERR_OK p s
            else real_prepare env cm request pop_all p s))"

definition on_prepare :: "replica_env \<Rightarrow> replica committer \<Rightarrow> nat \<Rightarrow> replica_configuration
    \<Rightarrow> mutation_header \<Rightarrow> mutation_update list \<Rightarrow> rstate \<Rightarrow> rstate result" where
  "on_prepare env cm request rconfig0 header updates s0 =
     (let m = (received_mutation env request header updates)
                \<lparr>mu_is_sync_to_child := rc_split_sync_to_child rconfig0\<rparr>;
          rconfig = rconfig0\<lparr>rc_split_sync_to_child := False, rc_pop_all := False\<rparr>;
          (p, s) = alloc_mutation m s0
      in bind_result (check ((h_app_id header, h_partition_index header) = rc_pid rconfig) ''CHECK_EQ'') (\<lambda>_.
         bind_result (check (h_ballot header = rc_ballot rconfig) ''CHECK_EQ'') (\<lambda>_.
           if h_ballot header < ballot_of s then Inr s
           else bind_result
             (if rc_ballot rconfig > ballot_of s then update_local_configuration env cm rconfig False s
              else Inr (True, s)) (\<lambda>(updated, s1).
             if \<not> updated then ack_prepare_message ERR_INVALID_STATE p s1
             else prepare_in_view env cm request rconfig (rc_pop_all rconfig0) p s1))))"

section \<open>Completed log writes\<close>

definition ack_parent :: "error_code \<Rightarrow> mutation_ptr \<Rightarrow> rstate \<Rightarrow> rstate result" where
  "ack_parent err p s =
     bind_result (check (mu_is_sync_to_child (store_of s p)) ''mutation should be copied synchronously'') (\<lambda>_.
       Inr (emit (Ack_parent err (mu_ballot (store_of s p)) (mu_decree (store_of s p))) s))"

definition logged_in_role :: "replica_env \<Rightarrow> replica committer \<Rightarrow> mutation_ptr \<Rightarrow> error_code \<Rightarrow> rstate \<Rightarrow> rstate result" where
  "logged_in_role env cm p err s =
     (let fail_local = (\<lambda>s. if err \<noteq> ERR_OK then handle_local_failure env cm err s else Inr s)
      in case status s of
           PS_PRIMARY \<Rightarrow>
             if err = ERR_OK then do_possible_commit_on_primary cm p s else handle_local_failure env cm err s
         | PS_SECONDARY \<Rightarrow>
             bind_result (fail_local s) (\<lambda>s1.
             bind_result (ack_prepare_message err p s1) (\<lambda>s2.
               commit cm (mu_last_committed_decree (store_of s2 p)) COMMIT_TO_DECREE_HARD s2))
         | PS_POTENTIAL_SECONDARY \<Rightarrow>
             bind_result (fail_local s) (\<lambda>s1.
             bind_result (ack_prepare_message err p s1) (\<lambda>s2.
               commit cm (mu_last_committed_decree (store_of s2 p)) COMMIT_TO_DECREE_HARD s2))
         | PS_PARTITION_SPLIT \<Rightarrow> bind_result (fail_local s) (ack_parent err p)
         | PS_ERROR \<Rightarrow> Inr s
         | _ \<Rightarrow> Inl (Check_failed ''invalid partition_status''))"

definition on_append_log_completed :: "replica_env \<Rightarrow> replica committer \<Rightarrow> mutation_ptr \<Rightarrow> error_code \<Rightarrow> rstate \<Rightarrow> rstate result" where
  "on_append_log_completed env cm p err s0 =
     bind_result
       (if err = ERR_OK
        then bind_result (set_logged (store_of s0 p)) (\<lambda>m. Inr (map_mutation p (\<lambda>_. m) s0)) else Inr s0) (\<lambda>s.
     bind_result
       (if mu_ballot (store_of s p) \<ge> ballot_of s \<and> status s \<noteq> PS_INACTIVE
        then logged_in_role env cm p err s else Inr s) (\<lambda>s1.
       Inr (if err \<noteq> ERR_OK then emit (Handle_log_failure err) s1 else s1)))"

section \<open>Reconfiguration of the group\<close>

record configuration_update_request =
  cu_type :: config_type
  cu_node :: node
  cu_config :: partition_configuration
  cu_duplicating :: bool

definition set_inactive_state_transient :: "bool \<Rightarrow> rstate \<Rightarrow> rstate" where
  "set_inactive_state_transient t s = (if status s = PS_INACTIVE then set_transient t s else s)"

definition update_configuration_on_meta_server :: "replica_env \<Rightarrow> replica committer \<Rightarrow> config_type \<Rightarrow> node
    \<Rightarrow> partition_configuration \<Rightarrow> rstate \<Rightarrow> rstate result" where
  "update_configuration_on_meta_server env cm type n pc s =
     (let new_pc = pc\<lparr>pc_last_committed_decree := lcd s\<rparr>
      in bind_result (check (type \<noteq> CT_REGISTER_CHILD) ''CHECK_NE_PREFIX'') (\<lambda>_.
         bind_result
           (if type = CT_PRIMARY_FORCE_UPDATE_BALLOT
            then bind_result (check (status s = PS_INACTIVE \<and> r_inactive_is_transient (repl s) \<and>
                   r_is_initializing (repl s)) ''CHECK'') (\<lambda>_.
                 check (pc_primary new_pc = Some n) ''CHECK_EQ'')
            else if type \<noteq> CT_ASSIGN_PRIMARY \<and> type \<noteq> CT_UPGRADE_TO_PRIMARY
            then bind_result (check (status s = PS_PRIMARY) ''CHECK_EQ'') (\<lambda>_.
                 check (pc_ballot new_pc = pc_ballot (px_pc (primary_states s))) ''CHECK_EQ'')
            else Inr ()) (\<lambda>_.
         bind_result (update_local_configuration_with_no_ballot_change env cm PS_INACTIVE s) (\<lambda>(_, s1).
           let s2 = set_inactive_state_transient True s1
           in Inr (map_primary (\<lambda>px. px\<lparr>px_reconfiguration_task := Some (re_new_task env)\<rparr>)
                (emit (Update_config_on_meta type n (new_pc\<lparr>pc_ballot := pc_ballot new_pc + 1\<rparr>)) s2))))))"

definition is_same_ballot_status_change_allowed :: "rstate \<Rightarrow> partition_status \<Rightarrow> partition_status \<Rightarrow> bool" where
  "is_same_ballot_status_change_allowed s olds news \<longleftrightarrow>
     olds = PS_INACTIVE \<and> news = PS_POTENTIAL_SECONDARY \<or>
     olds = PS_POTENTIAL_SECONDARY \<and> news = PS_SECONDARY \<or>
     olds = PS_INACTIVE \<and> news = PS_SECONDARY \<and> r_inactive_is_transient (repl s) \<or>
     olds = PS_INACTIVE \<and> news = PS_PRIMARY \<and> r_inactive_is_transient (repl s) \<or>
     olds = news"

definition update_configuration :: "replica_env \<Rightarrow> replica committer \<Rightarrow> partition_configuration
    \<Rightarrow> rstate \<Rightarrow> (bool \<times> rstate) result" where
  "update_configuration env cm pc s =
     bind_result (check (pc_ballot pc \<ge> ballot_of s) ''CHECK_GE'') (\<lambda>_.
       let rconfig = get_replica_config pc (re_node env);
           s1 = (if rc_status rconfig = PS_PRIMARY \<and> (rc_ballot rconfig > ballot_of s \<or> status s \<noteq> PS_PRIMARY)
                 then map_primary (reset_membership pc (pc_primary pc \<noteq> Some (re_node env))) s else s)
       in if pc_ballot pc > ballot_of s1 \<or> is_same_ballot_status_change_allowed s1 (status s1) (rc_status rconfig)
          then update_local_configuration env cm rconfig True s1 else Inr (False, s1))"

text \<open>Removing a node from the secondaries; whether it was there.\<close>

definition remove_secondary :: "node \<Rightarrow> partition_configuration \<Rightarrow> bool \<times> partition_configuration" where
  "remove_secondary n pc =
     (n \<in> set (pc_secondaries pc), pc\<lparr>pc_secondaries := remove1 n (pc_secondaries pc)\<rparr>)"

definition assign_primary :: "replica_env \<Rightarrow> replica committer \<Rightarrow> configuration_update_request \<Rightarrow> rstate \<Rightarrow> rstate result" where
  "assign_primary env cm proposal s =
     bind_result (check (cu_node proposal = re_node env) ''CHECK_EQ'') (\<lambda>_.
       if status s = PS_PRIMARY then Inr s
       else if cu_type proposal = CT_UPGRADE_TO_PRIMARY \<and>
               (status s \<noteq> PS_SECONDARY \<or> sx_checkpoint_is_running (r_secondary_states (repl s))) \<and>
               status s \<noteq> PS_PARTITION_SPLIT
       then Inr s
       else update_configuration_on_meta_server env cm (cu_type proposal) (cu_node proposal)
              (snd (remove_secondary (re_node env) ((cu_config proposal)\<lparr>pc_primary := Some (re_node env)\<rparr>))) s)"

text \<open>The checks that a proposal is for the current group.\<close>

definition check_same_group :: "configuration_update_request \<Rightarrow> rstate \<Rightarrow> unit result" where
  "check_same_group proposal s =
     (let pc = px_pc (primary_states s)
      in bind_result (check (pc_pid (cu_config proposal) = pc_pid pc) ''CHECK_EQ'') (\<lambda>_.
         bind_result (check (pc_primary (cu_config proposal) = pc_primary pc) ''CHECK_EQ'') (\<lambda>_.
           check (pc_secondaries (cu_config proposal) = pc_secondaries pc) ''CHECK'')))"

definition add_potential_secondary :: "configuration_update_request \<Rightarrow> rstate \<Rightarrow> rstate result" where
  "add_potential_secondary proposal s =
     (let px = primary_states s; n = cu_node proposal;
          learner = map_of (px_learners px) n;
          count = int (length (pc_secondaries (px_pc px)) + length (px_learners px));
          full = (count \<ge> pc_max_replica_count (px_pc px) - 1)
      in if status s \<noteq> PS_PRIMARY then Inr s
         else bind_result (check (pc_ballot (cu_config proposal) = ballot_of s) ''CHECK_EQ'') (\<lambda>_.
              bind_result (check_same_group proposal s) (\<lambda>_.
              bind_result (check (pc_primary (px_pc px) \<noteq> Some n) ''CHECK'') (\<lambda>_.
              bind_result (check (n \<notin> set (pc_secondaries (px_pc px))) ''CHECK'') (\<lambda>_.
              bind_result (check (full \<longrightarrow> cu_type proposal \<in> {CT_ADD_SECONDARY, CT_ADD_SECONDARY_FOR_LB})
                ''invalid config_type'') (\<lambda>_.
                if full \<and> (cu_type proposal = CT_ADD_SECONDARY \<and> learner = None \<or>
                           cu_type proposal = CT_ADD_SECONDARY_FOR_LB \<and> count \<ge> pc_max_replica_count (px_pc px))
                then Inr s
                else let version = px_next_learning_version px + 1;
                         signature = (case learner of Some l \<Rightarrow> ls_signature l | None \<Rightarrow> sint version);
                         s1 = (case learner of
                                 Some _ \<Rightarrow> s
                               | None \<Rightarrow> map_primary (\<lambda>px. px\<lparr>px_next_learning_version := version,
                                   px_learners := px_learners px @ [(n, \<lparr>ls_signature = signature,
                                     ls_prepare_start_decree = invalid_decree\<rparr>)],
                                   px_statuses := (px_statuses px)(n \<mapsto> PS_POTENTIAL_SECONDARY)\<rparr>) s)
                     in Inr (emit (Add_learner_rpc n
                          (member_config (primary_states s1) PS_POTENTIAL_SECONDARY signature) (lcd s1)) s1)))))))"

definition upgrade_to_secondary_on_primary :: "replica_env \<Rightarrow> replica committer \<Rightarrow> node \<Rightarrow> rstate \<Rightarrow> rstate result" where
  "upgrade_to_secondary_on_primary env cm n s =
     (let pc = px_pc (primary_states s)
      in update_configuration_on_meta_server env cm CT_UPGRADE_TO_SECONDARY n
           (pc\<lparr>pc_secondaries := pc_secondaries pc @ [n]\<rparr>) s)"

definition outdated_proposal :: "configuration_update_request \<Rightarrow> rstate \<Rightarrow> bool" where
  "outdated_proposal proposal s \<longleftrightarrow> pc_ballot (cu_config proposal) \<noteq> ballot_of s \<or> status s \<noteq> PS_PRIMARY"

definition downgrade_to_secondary_on_primary :: "replica_env \<Rightarrow> replica committer
    \<Rightarrow> configuration_update_request \<Rightarrow> rstate \<Rightarrow> rstate result" where
  "downgrade_to_secondary_on_primary env cm proposal s =
     (if outdated_proposal proposal s then Inr s
      else bind_result (check_same_group proposal s) (\<lambda>_.
           bind_result (check (Some (cu_node proposal) = pc_primary (cu_config proposal)) ''CHECK_EQ'') (\<lambda>_.
             let pc = cu_config proposal
             in update_configuration_on_meta_server env cm CT_DOWNGRADE_TO_SECONDARY (cu_node proposal)
                  (pc\<lparr>pc_primary := None, pc_secondaries := pc_secondaries pc @ [cu_node proposal]\<rparr>) s)))"

definition downgrade_to_inactive_on_primary :: "replica_env \<Rightarrow> replica committer
    \<Rightarrow> configuration_update_request \<Rightarrow> rstate \<Rightarrow> rstate result" where
  "downgrade_to_inactive_on_primary env cm proposal s =
     (let n = cu_node proposal; pc = cu_config proposal
      in if outdated_proposal proposal s then Inr s
         else bind_result (check_same_group proposal s) (\<lambda>_.
              bind_result
                (if pc_primary pc = Some n then Inr (pc\<lparr>pc_primary := None\<rparr>)
                 else case remove_secondary n pc of (found, pc') \<Rightarrow>
                   bind_result (check found ''remove node failed'') (\<lambda>_. Inr pc'))
                (\<lambda>pc'. update_configuration_on_meta_server env cm CT_DOWNGRADE_TO_INACTIVE n pc' s)))"

definition remove_member :: "replica_env \<Rightarrow> replica committer \<Rightarrow> configuration_update_request \<Rightarrow> rstate \<Rightarrow> rstate result" where
  "remove_member env cm proposal s =
     (let n = cu_node proposal; pc = cu_config proposal
      in if outdated_proposal proposal s then Inr s
         else bind_result (check_same_group proposal s) (\<lambda>_.
              bind_result
                (case get_node_status (primary_states s) n of
                   PS_PRIMARY \<Rightarrow>
                     bind_result (check (pc_primary pc = Some n) ''CHECK_EQ'') (\<lambda>_. Inr (pc\<lparr>pc_primary := None\<rparr>))
                 | PS_SECONDARY \<Rightarrow>
                     (case remove_secondary n pc of (found, pc') \<Rightarrow>
                        bind_result (check found ''remove node failed'') (\<lambda>_. Inr pc'))
                 | _ \<Rightarrow> Inr pc)
                (\<lambda>pc'. update_configuration_on_meta_server env cm CT_REMOVE n pc' s)))"

definition on_remove :: "replica_env \<Rightarrow> replica committer \<Rightarrow> replica_configuration \<Rightarrow> rstate \<Rightarrow> rstate result" where
  "on_remove env cm request s =
     (if rc_ballot request < ballot_of s then Inr s
      else if rc_ballot request = ballot_of s \<and> status s = PS_POTENTIAL_SECONDARY then Inr s
      else bind_result (check (rc_status request = PS_INACTIVE) ''CHECK_EQ'') (\<lambda>_.
           bind_result (update_local_configuration env cm request False s) (\<lambda>(_, s1). Inr s1)))"

definition on_config_proposal :: "replica_env \<Rightarrow> replica committer \<Rightarrow> configuration_update_request \<Rightarrow> rstate \<Rightarrow> rstate result" where
  "on_config_proposal env cm proposal s =
     (let pc = cu_config proposal
      in if pc_ballot pc < ballot_of s then Inr s
         else if px_reconfiguration_task (primary_states s) \<noteq> None then Inr s
         else bind_result
           (if pc_ballot pc > ballot_of s then update_configuration env cm pc s else Inr (True, s)) (\<lambda>(ok, s1).
           if \<not> ok then Inr s1
           else let s2 = map_replica (\<lambda>r. r\<lparr>r_duplicating := cu_duplicating proposal\<rparr>) s1
                in case cu_type proposal of
                     CT_ASSIGN_PRIMARY \<Rightarrow> assign_primary env cm proposal s2
                   | CT_UPGRADE_TO_PRIMARY \<Rightarrow> assign_primary env cm proposal s2
                   | CT_ADD_SECONDARY \<Rightarrow> add_potential_secondary proposal s2
                   | CT_ADD_SECONDARY_FOR_LB \<Rightarrow> add_potential_secondary proposal s2
                   | CT_DOWNGRADE_TO_SECONDARY \<Rightarrow> downgrade_to_secondary_on_primary env cm proposal s2
                   | CT_DOWNGRADE_TO_INACTIVE \<Rightarrow> downgrade_to_inactive_on_primary env cm proposal s2
                   | CT_REMOVE \<Rightarrow> remove_member env cm proposal s2
                   | _ \<Rightarrow> Inl (Check_failed ''invalid config_type'')))"

definition on_meta_server_disconnected :: "replica_env \<Rightarrow> replica committer \<Rightarrow> rstate \<Rightarrow> rstate result" where
  "on_meta_server_disconnected env cm s =
     bind_result (update_local_configuration_with_no_ballot_change env cm PS_INACTIVE s) (\<lambda>(_, s1).
       Inr (if status s = PS_PRIMARY \<or> status s = PS_SECONDARY then set_inactive_state_transient True s1 else s1))"

text \<open>
  The reply of the meta server to a configuration update: \<open>err\<close> is the outcome of the call,
  the response carries its own code and the new configuration. After a failed call the
  response is the default one, whose code is \<open>ERR_OK\<close>.
\<close>

record configuration_update_response =
  cr_err :: error_code
  cr_config :: partition_configuration

definition post_update :: "replica_env \<Rightarrow> configuration_update_request \<Rightarrow> configuration_update_response
    \<Rightarrow> rstate \<Rightarrow> rstate result" where
  "post_update env req resp s =
     (let pc = cr_config resp
      in bind_result (check (pc_pid (cu_config req) = pc_pid pc) ''CHECK_EQ'') (\<lambda>_.
         bind_result (check (pc_primary (cu_config req) = pc_primary pc) ''CHECK_EQ'') (\<lambda>_.
         bind_result (check (pc_secondaries (cu_config req) = pc_secondaries pc) ''CHECK'') (\<lambda>_.
           case cu_type req of
             CT_UPGRADE_TO_PRIMARY \<Rightarrow>
               Inr (map_primary (\<lambda>px. px\<lparr>px_last_prepare_decree_on_new_primary := max_prepared s\<rparr>) s)
           | CT_ASSIGN_PRIMARY \<Rightarrow>
               Inr (map_primary (\<lambda>px. px\<lparr>px_last_prepare_decree_on_new_primary := 0\<rparr>) s)
           | CT_DOWNGRADE_TO_SECONDARY \<Rightarrow> Inr s
           | CT_DOWNGRADE_TO_INACTIVE \<Rightarrow> Inr s
           | CT_UPGRADE_TO_SECONDARY \<Rightarrow> Inr s
           | CT_REMOVE \<Rightarrow>
               Inr (if cu_node req \<noteq> re_node env
                    then emit (Remove_replica_rpc (cu_node req) (get_replica_config pc (cu_node req))) s else s)
           | CT_PRIMARY_FORCE_UPDATE_BALLOT \<Rightarrow>
               bind_result (check (r_is_initializing (repl s)) ''CHECK'') (\<lambda>_.
                 Inr (map_replica (\<lambda>r. r\<lparr>r_is_initializing := False\<rparr>) s))
           | _ \<Rightarrow> Inl (Check_failed ''invalid config_type'')))))"

definition on_update_configuration_on_meta_server_reply :: "replica_env \<Rightarrow> replica committer \<Rightarrow> error_code
    \<Rightarrow> configuration_update_request \<Rightarrow> configuration_update_response \<Rightarrow> rstate \<Rightarrow> rstate result" where
  "on_update_configuration_on_meta_server_reply env cm err0 req resp s =
     (let finish = map_primary (\<lambda>px. px\<lparr>px_reconfiguration_task := None\<rparr>);
          err = (if err0 = ERR_OK then cr_err resp else err0);
          resp_err = (if err0 = ERR_OK then cr_err resp else ERR_OK)
      in if status s \<noteq> PS_INACTIVE \<or> \<not> re_is_connected env then Inr (finish s)
         else if err \<noteq> ERR_OK \<and> err \<noteq> ERR_INVALID_VERSION
         then Inr (map_primary (\<lambda>px. px\<lparr>px_reconfiguration_task := Some (re_new_task env)\<rparr>) s)
         else if pc_ballot (cr_config resp) < ballot_of s then Inr (finish s)
         else bind_result (if resp_err = ERR_OK then post_update env req resp s else Inr s) (\<lambda>s1.
              bind_result (update_configuration env cm (cr_config resp) s1) (\<lambda>(_, s2). Inr (finish s2))))"

section \<open>Replies to prepare messages\<close>

definition handle_remote_failure :: "replica_env \<Rightarrow> replica committer \<Rightarrow> partition_status \<Rightarrow> node \<Rightarrow> rstate \<Rightarrow> rstate result" where
  "handle_remote_failure env cm st n s =
     bind_result (check (status s = PS_PRIMARY) ''CHECK_EQ'') (\<lambda>_.
     bind_result (check (n \<noteq> re_node env) ''CHECK_NE'') (\<lambda>_.
       case st of
         PS_SECONDARY \<Rightarrow>
           bind_result (check_exist (primary_states s) n PS_SECONDARY) (\<lambda>ex.
           bind_result (check ex ''invalid node address'') (\<lambda>_.
             downgrade_to_inactive_on_primary env cm
               \<lparr>cu_type = CT_DOWNGRADE_TO_INACTIVE, cu_node = n, cu_config = px_pc (primary_states s),
                cu_duplicating = False\<rparr> s))
       | PS_POTENTIAL_SECONDARY \<Rightarrow>
           Inr (map_primary (\<lambda>px. px\<lparr>px_learners := filter (\<lambda>l. fst l \<noteq> n) (px_learners px),
                  px_statuses := (px_statuses px)(n := None)\<rparr>) s)
       | PS_INACTIVE \<Rightarrow> Inr s
       | PS_ERROR \<Rightarrow> Inr s
       | _ \<Rightarrow> Inl (Check_failed ''invalid partition_status'')))"

definition count_secondary_ack :: "replica committer \<Rightarrow> mutation_ptr \<Rightarrow> rstate \<Rightarrow> rstate result" where
  "count_secondary_ack cm p s =
     bind_result (check (0 < unat (mu_left_secondary_ack_count (store_of s p))) ''CHECK_GT'') (\<lambda>_.
       case decrease_left_secondary_ack_count (store_of s p) of (left, m) \<Rightarrow>
         let s1 = map_mutation p (\<lambda>_. m) s
         in if left = 0 then do_possible_commit_on_primary cm p s1 else Inr s1)"

definition count_learner_ack :: "replica committer \<Rightarrow> mutation_ptr \<Rightarrow> rstate \<Rightarrow> rstate result" where
  "count_learner_ack cm p s =
     bind_result (check (0 < unat (mu_left_potential_secondary_ack_count (store_of s p))) ''CHECK_GT'') (\<lambda>_.
       case decrease_left_potential_secondary_ack_count (store_of s p) of (left, m) \<Rightarrow>
         let s1 = map_mutation p (\<lambda>_. m) s
         in if left = 0 then do_possible_commit_on_primary cm p s1 else Inr s1)"

definition prepare_succeeded :: "replica committer \<Rightarrow> mutation_ptr \<Rightarrow> partition_status \<Rightarrow> node \<Rightarrow> prepare_ack
    \<Rightarrow> rstate \<Rightarrow> rstate result" where
  "prepare_succeeded cm p target_status n resp s =
     bind_result (check (pa_ballot resp = ballot_of s) ''CHECK_EQ'') (\<lambda>_.
     bind_result (check (pa_decree resp = mu_decree (store_of s p)) ''CHECK_EQ'') (\<lambda>_.
       case target_status of
         PS_SECONDARY \<Rightarrow>
           bind_result (check_exist (primary_states s) n PS_SECONDARY) (\<lambda>ex.
           bind_result (check ex ''invalid secondary node address'') (\<lambda>_. count_secondary_ack cm p s))
       | PS_POTENTIAL_SECONDARY \<Rightarrow> count_learner_ack cm p s
       | _ \<Rightarrow> Inr s))"

definition is_prepare_close_to_timeout :: "replica_env \<Rightarrow> mutation \<Rightarrow> int \<Rightarrow> int \<Rightarrow> bool" where
  "is_prepare_close_to_timeout env m gap_ms timeout_ms \<longleftrightarrow>
     re_now_ms env + gap_ms \<ge> mu_prepare_ts_ms m + timeout_ms"

definition prepare_failed :: "replica_env \<Rightarrow> replica committer \<Rightarrow> mutation_ptr \<Rightarrow> partition_status \<Rightarrow> node \<Rightarrow> error_code
    \<Rightarrow> rstate \<Rightarrow> rstate result" where
  "prepare_failed env cm p target_status n err s =
     (let timeout = (if target_status = PS_SECONDARY then re_prepare_timeout_ms_for_secondaries env
                     else re_prepare_timeout_ms_for_potential_secondaries env);
          learn_signature =
            (if target_status = PS_POTENTIAL_SECONDARY
             then (case map_of (px_learners (primary_states s)) n of None \<Rightarrow> invalid_signature | Some l \<Rightarrow> ls_signature l)
             else invalid_signature)
      in if (err = ERR_INACTIVE_STATE \<or> err = ERR_TRY_AGAIN) \<and>
            \<not> is_prepare_close_to_timeout env (store_of s p) 7 timeout
         then Inr (emit (Retry_prepare_later n target_status p timeout learn_signature) s)
         else bind_result (handle_remote_failure env cm (get_node_status (primary_states s) n) n s) (\<lambda>s1.
                if target_status = PS_POTENTIAL_SECONDARY then count_learner_ack cm p s1 else Inr s1))"

definition on_prepare_reply :: "replica_env \<Rightarrow> replica committer \<Rightarrow> mutation_ptr \<Rightarrow> partition_status \<Rightarrow> node
    \<Rightarrow> error_code \<Rightarrow> prepare_ack \<Rightarrow> rstate \<Rightarrow> rstate result" where
  "on_prepare_reply env cm p target_status n err resp s =
     (let mu = store_of s p; resp_err = (if err \<noteq> ERR_OK then err else pa_err resp)
      in if status s \<noteq> PS_PRIMARY \<or> mu_ballot mu < ballot_of s \<or> mu_decree mu \<le> lcd s then Inr s
         else bind_result (check (mu_ballot mu = ballot_of s) ''invalid mutation ballot'') (\<lambda>_.
           if resp_err = ERR_OK then prepare_succeeded cm p target_status n resp s
           else prepare_failed env cm p target_status n resp_err s))"

text \<open>The delayed task that sends a prepare message again.\<close>

definition retry_prepare :: "node \<Rightarrow> partition_status \<Rightarrow> mutation_ptr \<Rightarrow> int \<Rightarrow> rstate \<Rightarrow> rstate" where
  "retry_prepare n target_status p learn_signature s =
     (if status s = PS_PRIMARY \<and> ballot_of s = mu_ballot (store_of s p) \<and> mu_decree (store_of s p) > lcd s
      then send_prepare_message n target_status p False learn_signature s else s)"

section \<open>Replies of a split child\<close>

definition on_copy_mutation_reply :: "replica_env \<Rightarrow> replica committer \<Rightarrow> error_code \<Rightarrow> ballot \<Rightarrow> decree \<Rightarrow> rstate \<Rightarrow> rstate result" where
  "on_copy_mutation_reply env cm ec b d s0 =
     bind_result (get_mutation_by_decree (pl_cache (plist_of s0)) d) (\<lambda>mu.
       case mu of
         None \<Rightarrow> Inr s0
       | Some p \<Rightarrow>
           if mu_ballot (store_of s0 p) \<noteq> b then Inr s0
           else let s = (if ec = ERR_OK then map_mutation p (\<lambda>m. m\<lparr>mu_wait_child := False\<rparr>) s0 else s0);
                    fail_local = (\<lambda>s. if ec \<noteq> ERR_OK then handle_local_failure env cm ec s else Inr s)
                in if mu_ballot (store_of s p) \<ge> ballot_of s \<and> status s \<noteq> PS_INACTIVE
                   then case status s of
                          PS_PRIMARY \<Rightarrow>
                            if ec \<noteq> ERR_OK then handle_local_failure env cm ec s
                            else do_possible_commit_on_primary cm p s
                        | PS_SECONDARY \<Rightarrow> bind_result (fail_local s) (ack_prepare_message ec p)
                        | PS_POTENTIAL_SECONDARY \<Rightarrow> bind_result (fail_local s) (ack_prepare_message ec p)
                        | PS_ERROR \<Rightarrow> Inr s
                        | _ \<Rightarrow> Inl (Check_failed ''wrong status'')
                   else Inr s)"

section \<open>Reads\<close>

text \<open>
  \<open>last_prepared_decree\<close>: the end of the run of logged mutations above the committed point.
  Nothing is cached above the highest decree, so the first test never decides anything; it
  makes the recursion well-founded.
\<close>

function last_prepared_from :: "mutation_store \<Rightarrow> prepare_list \<Rightarrow> decree \<Rightarrow> ballot \<Rightarrow> decree result" where
  "last_prepared_from h pl start last_ballot =
     (if start \<ge> max_decree (pl_cache pl) then Inr start
      else bind_result (get_mutation_by_decree (pl_cache pl) (start + 1)) (\<lambda>mu.
        case mu of
          None \<Rightarrow> Inr start
        | Some p \<Rightarrow>
            if mu_ballot (h p) < last_ballot \<or> \<not> is_logged (h p) then Inr start
            else last_prepared_from h pl (start + 1) (mu_ballot (h p))))"
  by pat_completeness auto
termination
  by (relation "measure (\<lambda>(_, pl, start, _). nat (max_decree (pl_cache pl) - start))") auto

declare last_prepared_from.simps [simp del]

definition last_prepared_decree :: "rstate \<Rightarrow> decree result" where
  "last_prepared_decree s = last_prepared_from (store_of s) (plist_of s) (lcd s) 0"

end
