(* ===== verification/Replica_Views.thy ===== *)
theory Replica_Views
  imports Replica_Handlers
begin

text \<open>
  What every handler of a replica keeps. The observation of a replica is its configuration,
  the last decree its storage engine has applied, and the decrees that were handed to the
  storage engine. A relation on observations that holds for an adopted configuration, an
  applied mutation and a failed one holds for every handler; the relation that views grow and
  the relation that mutations are applied in order are two such relations.
\<close>

section \<open>Observations\<close>

type_synonym observation = "replica_configuration \<times> decree \<times> decree list"

fun applied_decree :: "effect \<Rightarrow> decree option" where
  "applied_decree (Apply d) = Some d"
| "applied_decree _ = None"

definition applied_decrees :: "rstate \<Rightarrow> decree list" where
  "applied_decrees s = List.map_filter applied_decree (r_effects (repl s))"

definition obs :: "rstate \<Rightarrow> observation" where
  "obs s = (r_config (repl s), r_app_decree (repl s), applied_decrees s)"

definition wobs :: "replica \<Rightarrow> observation" where
  "wobs w = (r_config w, r_app_decree w, List.map_filter applied_decree (r_effects w))"

definition keeps :: "(observation \<Rightarrow> observation \<Rightarrow> bool) \<Rightarrow> observation \<Rightarrow> rstate result \<Rightarrow> bool" where
  "keeps R b r \<longleftrightarrow> (case r of Inl _ \<Rightarrow> True | Inr s \<Rightarrow> R b (obs s))"

definition keeps2 :: "(observation \<Rightarrow> observation \<Rightarrow> bool) \<Rightarrow> observation \<Rightarrow> ('a \<times> rstate) result \<Rightarrow> bool" where
  "keeps2 R b r \<longleftrightarrow> (case r of Inl _ \<Rightarrow> True | Inr (_, s) \<Rightarrow> R b (obs s))"

lemma keeps_simps [simp]:
  "keeps R b (Inl e)" "keeps2 R b (Inl e)"
  "keeps R b (Inr s) \<longleftrightarrow> R b (obs s)" "keeps2 R b (Inr (x, s)) \<longleftrightarrow> R b (obs s)"
  by (simp_all add: keeps_def keeps2_def)

lemma keeps_value:
  "(\<And>x. r = Inr x \<Longrightarrow> keeps R b (f x)) \<Longrightarrow> keeps R b (bind_result r f)"
  "(\<And>x. r = Inr x \<Longrightarrow> keeps2 R b (g x)) \<Longrightarrow> keeps2 R b (bind_result r g)"
  by (cases r; simp)+

lemma keeps_check:
  "(c \<Longrightarrow> keeps R b (f ())) \<Longrightarrow> keeps R b (bind_result (check c m) f)"
  "(c \<Longrightarrow> keeps2 R b (g ())) \<Longrightarrow> keeps2 R b (bind_result (check c m) g)"
  by (simp_all add: check_def)

lemma keeps_exact: "keeps (=) b' r \<Longrightarrow> R b b' \<Longrightarrow> keeps R b r"
  by (cases r) auto

lemma keeps_split:
  "(c \<Longrightarrow> keeps R b r1) \<Longrightarrow> (\<not> c \<Longrightarrow> keeps R b r2) \<Longrightarrow> keeps R b (if c then r1 else r2)"
  "(c \<Longrightarrow> keeps2 R b q1) \<Longrightarrow> (\<not> c \<Longrightarrow> keeps2 R b q2) \<Longrightarrow> keeps2 R b (if c then q1 else q2)"
  by simp_all

section \<open>Operations that are not observed\<close>

lemma applied_simps [simp]:
  "applied_decrees (map_mutation p g s) = applied_decrees s"
  "(\<And>r. r_effects (f r) = r_effects r) \<Longrightarrow> applied_decrees (map_replica f s) = applied_decrees s"
  "applied_decrees (emit e s) = applied_decrees s @ (case applied_decree e of None \<Rightarrow> [] | Some d \<Rightarrow> [d])"
  "applied_decrees (pl, snd s) = applied_decrees s"
  by (simp_all add: applied_decrees_def map_mutation_def map_replica_def emit_def map_filter_def split: option.split)

lemma obs_basic [simp]:
  "obs (map_mutation p g s) = obs s"
  "applied_decree e = None \<Longrightarrow> obs (emit e s) = obs s"
  "(\<And>r. r_config (f r) = r_config r \<and> r_app_decree (f r) = r_app_decree r \<and> r_effects (f r) = r_effects r) \<Longrightarrow>
   obs (map_replica f s) = obs s"
  "obs (pl, snd s) = obs s"
  "obs (pl, h, w) = wobs w"
  by (simp_all add: obs_def wobs_def applied_decrees_def [of "(pl, h, w)"]) (simp_all add: map_mutation_def emit_def map_replica_def)

lemma config_basic [simp]:
  "r_config (repl (map_mutation p g s)) = r_config (repl s)"
  "r_config (repl (emit e s)) = r_config (repl s)"
  "(\<And>r. r_config (f r) = r_config r) \<Longrightarrow> r_config (repl (map_replica f s)) = r_config (repl s)"
  by (simp_all add: map_mutation_def emit_def map_replica_def)

lemma obs_fold: "(\<And>x s. obs (f x s) = obs s) \<Longrightarrow> obs (fold f xs s) = obs s"
  by (induction xs arbitrary: s) auto

lemma obs_response [simp]: "obs (response_client_write rq e s) = obs s"
  by (simp add: response_client_write_def split: option.split)

lemma obs_reply [simp]: "obs (reply_with_error p e s) = obs s"
  by (simp add: reply_with_error_def obs_fold split: option.split)

lemma obs_alloc: "alloc_mutation m s = (p, s') \<Longrightarrow> obs s' = obs s"
  by (auto simp: alloc_mutation_def Let_def)

lemma obs_try_update [simp]: "obs (uniq_try_update ts s) = obs s"
  by (simp add: uniq_try_update_def)

lemma obs_send [simp]: "obs (send_prepare_message n st p pop sig s) = obs s"
  by (simp add: send_prepare_message_def Let_def)

lemma obs_remote [simp]: "obs (remote_prepare env p pop s) = obs s"
  by (simp add: remote_prepare_def Let_def obs_fold split_def)

lemma obs_assign [simp]: "obs (assign_id env p s) = obs s"
  by (simp add: assign_id_def uniq_next_def Let_def)

lemma obs_parent_cleanup [simp]: "obs (parent_cleanup_split_context s) = obs s"
  by (simp add: parent_cleanup_split_context_def)

lemma obs_clear_bulk [simp]: "obs (clear_bulk_load_states_if_needed old new s) = obs s"
  by (simp add: clear_bulk_load_states_if_needed_def)

lemma config_of_obs:
  "r_config (repl s) = fst (obs s)" "r_config w = fst (wobs w)"
  by (simp_all add: obs_def wobs_def)

lemma config_obs: "obs s' = obs s \<Longrightarrow> r_config (repl s') = r_config (repl s)"
  by (simp add: obs_def)

lemma obs_apply:
  assumes "apply_mutation env p s = Inr (e, s')" and "obs s = (c, a, ds)"
  shows "obs s' = (c, (if e = ERR_OK then a + 1 else a), ds @ [a + 1])"
  using assms
  by (auto simp: apply_mutation_def result_simps Let_def obs_def split: if_splits storage_status.splits)
    (auto simp: map_replica_def emit_def map_mutation_def)

lemma not_refused:
  assumes "change_refused config s = Inr (False, s')"
  shows "status s \<noteq> PS_ERROR \<and> obs s' = obs s"
  using assms by (auto simp: change_refused_def result_simps split: partition_status.splits if_splits)

lemma obs_adopt:
  assumes "adopt_config config s = Inr s'" "obs s = (c, a, ds)"
  shows "obs s' = (config, a, ds)"
proof -
  have "obs (map_replica (r_config_update (\<lambda>_. config)) s) = (config, a, ds)"
    using assms(2) by (simp add: obs_def) (simp add: map_replica_def)
  with assms(1) show ?thesis by (auto simp: adopt_config_def result_simps Let_def)
qed

section \<open>Preorders of observations\<close>

text \<open>Most operations are not observed at all: they keep every preorder on observations.\<close>

locale observed =
  fixes R :: "observation \<Rightarrow> observation \<Rightarrow> bool"
  assumes R_refl: "R b b"
    and R_trans: "R b1 b2 \<Longrightarrow> R b2 b3 \<Longrightarrow> R b1 b3"
begin

lemma keeps_same: "obs s' = b \<Longrightarrow> keeps R b (Inr s')" "obs s' = b \<Longrightarrow> keeps2 R b (Inr (x, s'))"
  by (auto simp: R_refl)

lemma keeps_from: "R b b' \<Longrightarrow> keeps R b' r \<Longrightarrow> keeps R b r" "R b b' \<Longrightarrow> keeps2 R b' q \<Longrightarrow> keeps2 R b q"
  by (auto simp: keeps_def keeps2_def intro: R_trans split: sum.splits)

lemma keeps_observed: "obs s = b \<Longrightarrow> keeps R (obs s) r \<Longrightarrow> keeps R b r"
  by simp

lemma keeps_observed2: "obs s = b \<Longrightarrow> keeps2 R (obs s) r \<Longrightarrow> keeps2 R b r"
  by simp

lemma keeps_bind:
  "keeps R b r \<Longrightarrow> (\<And>s1. keeps R (obs s1) (f s1)) \<Longrightarrow> keeps R b (bind_result r f)"
  "keeps R b r \<Longrightarrow> (\<And>s1. keeps2 R (obs s1) (g s1)) \<Longrightarrow> keeps2 R b (bind_result r g)"
  by (cases r; auto intro: keeps_from)+

lemma keeps_bind2:
  "keeps2 R b r \<Longrightarrow> (\<And>x s1. keeps R (obs s1) (f (x, s1))) \<Longrightarrow> keeps R b (bind_result r f)"
  "keeps2 R b r \<Longrightarrow> (\<And>x s1. keeps2 R (obs s1) (g (x, s1))) \<Longrightarrow> keeps2 R b (bind_result r g)"
  by (cases r; auto intro: keeps_from)+

lemmas keeps_rules = keeps_bind keeps_bind2 keeps_value keeps_split keeps_same

lemma keeps_ack: "keeps R (obs s) (ack_prepare_message e p s)"
  unfolding ack_prepare_message_def Let_def
  by (intro keeps_value keeps_same) (simp add: obs_fold)

lemma keeps_copy: "keeps R (obs s) (copy_mutation env p s)"
  unfolding copy_mutation_def Let_def by (intro keeps_value keeps_same) simp

lemma keeps_append: "keeps R (obs s) (append_log p s)"
  unfolding append_log_def Let_def by (intro keeps_value keeps_same) simp

lemma keeps_make_idempotent: "keeps2 R (obs s) (make_idempotent env p s)"
  unfolding make_idempotent_def Let_def
  by (intro keeps_value) (auto intro!: keeps_value simp: R_refl alloc_mutation_def Let_def split: option.split)

lemma keeps_make_room: "keeps R (obs s) (make_room d pop s)"
  by (cases s) (auto simp: make_room_def R_refl intro!: keeps_value)

lemma keeps_put_list: "keeps2 R (obs s) (put_list p s)"
  by (cases s) (auto simp: put_list_def R_refl intro!: keeps_value)

lemma keeps_put_list_checked: "keeps2 R (obs s) (put_list_checked p s)"
  unfolding put_list_checked_def
  by (rule keeps_bind2 [OF keeps_put_list]) (auto simp: R_refl intro!: keeps_value)

lemma keeps_cleanup_decrees: "keeps R (obs s) (cleanup_decrees wait ds s)"
proof (induction ds arbitrary: s wait)
  case (Cons d ds)
  show ?case
    by (auto simp: Let_def intro!: keeps_value keeps_observed [OF _ Cons.IH] split: option.split)
qed (simp add: R_refl)

lemma keeps_cleanup_preparing: "keeps R (obs s) (cleanup_preparing_mutations wait s)"
  unfolding cleanup_preparing_mutations_def by (rule keeps_cleanup_decrees)

lemma keeps_clean_primary: "keeps R (obs s) (clean_primary b s)"
  unfolding clean_primary_def by (intro keeps_value keeps_same) simp

lemma keeps_clean_split: "keeps R (obs s) (clean_split b s)"
  unfolding clean_split_def by (intro keeps_value) (auto simp: R_refl)

lemma keeps_init_group_check: "keeps R (obs s) (init_group_check env s)"
  unfolding init_group_check_def by (intro keeps_value keeps_split keeps_same) simp_all

lemma keeps_change_refused: "keeps2 R (obs s) (change_refused config s)"
  unfolding change_refused_def
  by (auto simp: R_refl intro!: keeps_value split: partition_status.split)

end

interpretation unobserved: observed "(=)"
  by unfold_locales simp_all

text \<open>A local failure takes the replica into error and is not observed otherwise.\<close>

lemma keeps_leave_to_error:
  assumes "rc_status config = PS_ERROR" "st \<noteq> PS_ERROR"
  shows "keeps (=) (obs s) (leave_status env cm st b config s)"
proof -
  note prim = unobserved.keeps_bind(1) [OF unobserved.keeps_observed [OF _ unobserved.keeps_clean_primary]]
  note rules = unobserved.keeps_bind(1) [OF unobserved.keeps_cleanup_preparing] prim
    unobserved.keeps_bind(1) [OF prim] unobserved.keeps_clean_split
    keeps_value(1) [of "secondary_cleanup f x" for f x] keeps_value(1) [of "learner_cleanup f x" for f x]
  show ?thesis
    using assms
    by (cases st; simp add: leave_status_def leave_primary_def leave_secondary_def leave_potential_secondary_def
        leave_split_def leave_inactive_def Let_def)
      (auto intro!: rules)
qed

lemma keeps_update_to_error:
  assumes c: "obs s = (c, a, ds)" "rc_status c \<noteq> PS_ERROR"
  shows "keeps2 (=) (c\<lparr>rc_status := PS_ERROR\<rparr>, a, ds)
    (update_local_configuration env cm (c\<lparr>rc_status := PS_ERROR\<rparr>) True s)"
proof -
  let ?e = "c\<lparr>rc_status := PS_ERROR\<rparr>"
  have conf: "r_config (repl s) = c" using c by (simp add: config_of_obs(1))
  have leave: "keeps2 (=) (?e, a, ds)
      (bind_result (leave_status env cm (rc_status c) (rc_ballot c) ?e s2) f :: (bool \<times> rstate) result)"
    if "obs s2 = (?e, a, ds)" "\<And>s3. obs s3 = (?e, a, ds) \<Longrightarrow> keeps2 (=) (?e, a, ds) (f s3)" for s2 f
    using keeps_leave_to_error [of ?e "rc_status c" s2 env cm "rc_ballot c"] that c(2)
    by (auto simp: keeps_def split: sum.splits)
  have refused: "\<not> fst x" if "change_refused ?e s = Inr x" for x
    using that conf c(2) by (auto simp: change_refused_def result_simps split: partition_status.splits if_splits)
  have adopt: "keeps2 (=) (?e, a, ds) (bind_result (adopt_config ?e s1) f :: (bool \<times> rstate) result)"
    if "change_refused ?e s = Inr (False, s1)" "\<And>s2. obs s2 = (?e, a, ds) \<Longrightarrow> keeps2 (=) (?e, a, ds) (f s2)" for s1 f
  proof (intro keeps_value that(2))
    fix s2 assume "adopt_config ?e s1 = Inr s2"
    from obs_adopt [OF this] show "obs s2 = (?e, a, ds)"
      using not_refused [OF that(1)] c(1) by simp
  qed
  have st: "status s3 = PS_ERROR" if "obs s3 = (?e, a, ds)" for s3
    using that by (simp add: obs_def)
  show ?thesis
    unfolding update_local_configuration_def conf Let_def
  proof (rule keeps_check, rule keeps_check, rule keeps_split, goal_cases)
    case 1
    from 1(3) have "rc_status c = PS_ERROR" by simp
    with c(2) show ?case by contradiction
  next
    case 2
    show ?case
    proof (rule keeps_value, goal_cases)
      case (1 x)
      then obtain s1 where x: "x = (False, s1)" "change_refused ?e s = Inr (False, s1)"
        using refused by (cases x) auto
      show ?case
        unfolding x(1) prod.case if_False
        by (rule adopt [OF x(2)], rule leave, assumption) (use c(2) in \<open>simp add: st\<close>)
    qed
  qed
qed

lemma keeps_handle_local_failure:
  assumes "obs s = (c, a, ds)"
  shows "keeps (=) (c\<lparr>rc_status := PS_ERROR\<rparr>, a, ds) (handle_local_failure env cm err s)"
proof -
  have same: "c\<lparr>rc_status := PS_ERROR\<rparr> = c" if "rc_status c = PS_ERROR" using that by simp
  have upd: "keeps2 (=) (c\<lparr>rc_status := PS_ERROR\<rparr>, a, ds)
      (update_local_configuration_with_no_ballot_change env cm PS_ERROR s')" if "obs s' = (c, a, ds)" for s'
    using keeps_update_to_error [OF that] that
    by (auto simp: update_local_configuration_with_no_ballot_change_def config_of_obs(1) same)
  show ?thesis
    unfolding handle_local_failure_def Let_def
    by (rule unobserved.keeps_bind2(1) [OF upd]) (use assms in auto)
qed

section \<open>Relations kept by the handlers\<close>

text \<open>
  The contract: a preorder on observations that allows a replica that is not in error to
  adopt a configuration of the same partition whose ballot is not lower, to apply the next
  decree, and to fail on it and go into error.
\<close>

locale replica_relation =
  observed R for R :: "observation \<Rightarrow> observation \<Rightarrow> bool" +
  assumes R_config: "rc_status c \<noteq> PS_ERROR \<Longrightarrow> rc_pid c' = rc_pid c \<Longrightarrow> rc_ballot c \<le> rc_ballot c' \<Longrightarrow>
      R (c, a, ds) (c', a, ds)"
    and R_apply: "rc_status c \<noteq> PS_ERROR \<Longrightarrow> R (c, a, ds) (c, a + 1, ds @ [a + 1])"
    and R_fail: "rc_status c \<noteq> PS_ERROR \<Longrightarrow> R (c, a, ds) (c\<lparr>rc_status := PS_ERROR\<rparr>, a, ds @ [a + 1])"
begin

text \<open>The operations that commit, over a committer that keeps the relation.\<close>

lemma keeps_commit_hard:
  assumes cm: "\<And>p s. keeps R (obs s) (cm p s)"
  shows "keeps R (obs s) (commit_hard cm n d bt s)"
proof (induction n arbitrary: d bt s)
  case (Suc n)
  obtain pl h w where s: "s = (pl, h, w)" by (metis prod_cases3)
  have "keeps R (wobs w) (cm p (pl', h, w))" for p pl'
    using cm [of "(pl', h, w)" p] by simp
  then show ?case
    unfolding s commit_hard.simps prod.case
    by (intro keeps_value) (auto intro!: keeps_check keeps_bind Suc.IH split: option.split)
qed (simp add: R_refl)

lemma keeps_commit_soft:
  assumes cm: "\<And>p s. keeps R (obs s) (cm p s)"
  shows "keeps R (obs s) (commit_soft cm n d bt s)"
proof (induction n arbitrary: d bt s)
  case (Suc n)
  obtain pl h w where s: "s = (pl, h, w)" by (metis prod_cases3)
  have "keeps R (wobs w) (cm p (pl', h, w))" for p pl'
    using cm [of "(pl', h, w)" p] by simp
  then show ?case
    unfolding s commit_soft.simps prod.case
    by (intro keeps_value) (auto simp: R_refl intro!: keeps_bind Suc.IH split: option.split)
qed (simp add: R_refl)

lemma keeps_commit_ready:
  assumes cm: "\<And>p s. keeps R (obs s) (cm p s)" and "commit_ready cm mu bt s = Some r"
  shows "keeps R (obs s) r"
  using assms(2)
proof (rule commit_ready.raw_induct
    [where P = "\<lambda>c mu bt s r. c = cm \<longrightarrow> keeps R (obs s) r", rotated, THEN mp, OF _ _ refl], goal_cases)
  case (1 f c mu bt s r)
  obtain pl h w where s: "s = (pl, h, w)" by (metis prod_cases3)
  have "keeps R (wobs w) (cm p (pl', h, w))" for p pl'
    using cm [of "(pl', h, w)" p] by simp
  with 1 show ?case
    unfolding s by (fastforce simp: keeps_def R_refl intro: R_trans split: option.splits sum.splits if_splits)
qed

end

text \<open>A committer that keeps the relation, and what is built on it.\<close>

locale kept_committer = replica_relation R for R :: "observation \<Rightarrow> observation \<Rightarrow> bool" +
  fixes cm :: "replica committer"
  assumes cm_keeps: "keeps R (obs s) (cm p s)"
begin

lemma keeps_commit: "keeps R (obs s) (commit cm d ct s)"
proof (cases ct)
  case COMMIT_ALL_READY
  have "keeps R (obs s) (case commit_ready cm mu 0 s of None \<Rightarrow> Inl Diverges | Some r \<Rightarrow> r)" for mu
    by (auto intro: keeps_commit_ready cm_keeps split: option.split)
  with COMMIT_ALL_READY show ?thesis by (auto simp: commit_def Let_def R_refl intro!: keeps_value)
qed (simp_all add: commit_def Let_def R_refl keeps_commit_hard cm_keeps keeps_commit_soft)

lemma keeps_do_possible_commit: "keeps R (obs s) (do_possible_commit_on_primary cm p s)"
  unfolding do_possible_commit_on_primary_def
  by (intro keeps_check keeps_split keeps_commit) (simp add: R_refl)

lemma keeps_prepare: "keeps2 R (obs s) (prepare cm p st pop sec s)"
proof -
  note room = keeps_bind(2) [OF keeps_make_room keeps_put_list_checked]
  have learn: "keeps R (obs s) (if b then commit cm d COMMIT_TO_DECREE_HARD s else Inr s)" for b d
    by (simp add: keeps_commit R_refl)
  have catch_up: "keeps R (obs s)
      (if b1 then Inr (pl, snd s) else if b2 then commit cm d COMMIT_TO_DECREE_HARD s else Inr s)" for b1 b2 d pl
    by (simp add: keeps_commit R_refl)
  show ?thesis
    unfolding prepare_def Let_def
    by (rule keeps_check, cases st; simp only: partition_status.case keeps_simps)
      (rule keeps_bind(2), (rule learn catch_up room keeps_make_room keeps_put_list)+)+
qed

lemma keeps_start_2pc: "keeps R (obs s) (start_2pc env cm p pop s)"
proof -
  have "keeps R (obs s') (if is_splitting s' then copy_mutation env p s' else Inr s')" for s'
    by (simp add: keeps_copy R_refl)
  note split = keeps_observed [OF _ this]
  have "keeps R (obs s') (if is_logged (store_of s' p) then do_possible_commit_on_primary cm p s'
           else bind_result (check c m) (\<lambda>_. append_log p s'))" for s' c m
    by (simp add: keeps_do_possible_commit keeps_append keeps_check)
  note log = keeps_bind(1) [OF this]
  show ?thesis
    unfolding start_2pc_def Let_def
    by (rule keeps_value, rule keeps_bind, rule split, simp, rule log) (simp add: R_refl)
qed

lemma keeps_init_prepare: "keeps R (obs s) (init_prepare env cm p rec pop s)"
proof -
  have "keeps R (obs s') (bind_result (admission_error env p rec s') (\<lambda>e.
      if e \<noteq> ERR_OK then Inr (reply_with_error p e s')
      else bind_result (check (mu_decree (store_of s' p) > lcd s') ''CHECK_GT'') (\<lambda>_.
        bind_result (prepare cm p PS_PRIMARY pop True s') (\<lambda>(err, s2).
          if err \<noteq> ERR_OK then Inr (reply_with_error p err s2) else start_2pc env cm p pop s2))))" for p s'
    by (intro keeps_value(1) [of "admission_error env p rec s'"] keeps_split keeps_check keeps_bind2(1) [OF keeps_prepare])
      (simp_all add: R_refl keeps_start_2pc)
  note body = keeps_observed [OF _ this]
  show ?thesis
    unfolding init_prepare_def Let_def
    by (intro keeps_check keeps_bind2(1) [OF keeps_make_idempotent])
      (auto simp: R_refl intro!: body split: option.split)
qed

lemma keeps_replay_decrees: "keeps R (obs s) (replay_decrees env cm ds s)"
proof (induction ds arbitrary: s)
  case (Cons d ds)
  have "keeps R (obs s) (replay_decree env cm d s)" for s
    unfolding replay_decree_def
    by (intro keeps_value) (auto simp: alloc_mutation_def Let_def intro!: keeps_observed [OF _ keeps_init_prepare])
  from keeps_bind(1) [OF this Cons.IH] show ?case by simp
qed (simp add: R_refl)

lemma keeps_become_primary: "keeps R (obs s) (become_primary env cm s)"
  unfolding become_primary_def
  by (rule keeps_bind [OF keeps_init_group_check]) (simp add: replay_prepare_list_def keeps_replay_decrees)

lemma keeps_leave_status: "keeps R (obs s) (leave_status env cm st b config s)"
proof -
  note ob = keeps_observed [OF _ keeps_become_primary] keeps_observed [OF _ keeps_replay_decrees]
    keeps_observed [OF _ keeps_clean_split] keeps_bind(1) [OF keeps_observed [OF _ keeps_clean_split] keeps_become_primary]
  note prim = keeps_bind(1) [OF keeps_observed [OF _ keeps_clean_primary]]
  note rules = keeps_bind(1) [OF keeps_cleanup_preparing] prim keeps_bind(1) [OF prim] ob keeps_check
    keeps_value(1) [of "secondary_cleanup f x" for f x] keeps_value(1) [of "learner_cleanup f x" for f x]
    keeps_value(1) [of "truncate_list f x" for f x] keeps_value(1) [of "check_state_completeness x" for x]
  have "keeps R (obs s) (leave_primary env cm b config s)"
    by (auto simp: leave_primary_def replay_prepare_list_def R_refl intro!: rules split: partition_status.split)
  moreover have "keeps R (obs s) (leave_secondary env cm config s)"
    by (auto simp: leave_secondary_def Let_def R_refl intro!: rules split: partition_status.split)
  moreover have "keeps R (obs s) (leave_potential_secondary config s)"
    by (auto simp: leave_potential_secondary_def Let_def R_refl intro!: rules split: partition_status.split)
  moreover have "keeps R (obs s) (leave_split env cm config s)"
    by (auto simp: leave_split_def Let_def R_refl intro!: rules split: partition_status.split)
  moreover have "keeps R (obs s) (leave_inactive env cm config s)"
    by (auto simp: leave_inactive_def Let_def R_refl intro!: rules split: partition_status.split)
  ultimately show ?thesis by (auto simp: leave_status_def R_refl split: partition_status.split)
qed

lemma keeps_start_pending: "keeps R (obs s) (start_pending env cm s)"
proof -
  have "keeps R (obs s') (case nxt of None \<Rightarrow> Inr s' | Some p \<Rightarrow> init_prepare env cm p False False s')" for nxt s'
    by (simp add: R_refl keeps_init_prepare split: option.split)
  note nxt = keeps_bind(1) [OF keeps_observed [OF _ this]]
  show ?thesis
    unfolding start_pending_def Let_def
    by (rule keeps_value(1) [of "next_work e h n q" for e h n q])
      (auto simp: R_refl obs_fold intro!: nxt keeps_value(1) [of "too_few_members env x" for x] split: prod.split)
qed

lemma keeps_update_local_configuration: "keeps2 R (obs s) (update_local_configuration env cm config same s)"
proof -
  have adopt: "keeps2 R (obs s) (bind_result (adopt_config config s1) f :: (bool \<times> rstate) result)"
    if "change_refused config s = Inr (False, s1)" "\<And>s2. keeps2 R (obs s2) (f s2)"
      "rc_pid config = rc_pid (r_config (repl s))" "ballot_of s \<le> rc_ballot config" for s1 f
  proof (intro keeps_value)
    fix s2 assume s2: "adopt_config config s1 = Inr s2"
    from not_refused [OF that(1)] have "status s \<noteq> PS_ERROR" "obs s1 = obs s" by auto
    then have "R (obs s) (obs s2)"
      using obs_adopt [OF s2 obs_def] that(3,4) by (simp add: obs_def R_config)
    then show "keeps2 R (obs s) (f s2)" by (rule keeps_from) (rule that(2))
  qed
  have rest: "keeps2 R (obs s3) (if c then Inr (False, emit Begin_close (emit (Notify_state_update config c') s3))
      else bind_result (if b then start_pending env cm (emit (Notify_state_update config c') s3)
             else Inr (emit (Notify_state_update config c') s3)) (\<lambda>s5. Inr (True, s5)))" for s3 c c' b
    by (auto simp: R_refl intro!: keeps_bind(2) [OF keeps_observed [OF _ keeps_start_pending]])
  show ?thesis
    unfolding update_local_configuration_def Let_def
  proof (rule keeps_check, rule keeps_check, rule keeps_split, goal_cases)
    case 1
    then show ?case by (simp add: R_refl)
  next
    case 2
    show ?case
    proof (rule keeps_value, goal_cases)
      case (1 x)
      obtain refused s1 where x: "x = (refused, s1)" by (cases x)
      show ?case
      proof (cases refused)
        case True
        then show ?thesis using keeps_change_refused [of s config] 1 x by simp
      next
        case False
        show ?thesis
          unfolding x prod.case using False 1 2(1,2) x
          by (simp only: if_False) (intro adopt keeps_bind(2) [OF keeps_leave_status] rest, auto)
      qed
    qed
  qed
qed

lemma keeps_no_ballot_change: "keeps2 R (obs s) (update_local_configuration_with_no_ballot_change env cm st s)"
  by (simp add: update_local_configuration_with_no_ballot_change_def R_refl keeps_update_local_configuration)

lemma keeps_local_failure: "keeps R (obs s) (handle_local_failure env cm err s)"
proof -
  have "R (obs s) ((r_config (repl s))\<lparr>rc_status := PS_ERROR\<rparr>, r_app_decree (repl s), applied_decrees s)"
  proof (cases "status s = PS_ERROR")
    case True
    then have "(r_config (repl s))\<lparr>rc_status := PS_ERROR\<rparr> = r_config (repl s)" by simp
    then show ?thesis by (simp add: obs_def R_refl)
  qed (simp add: obs_def R_config)
  then show ?thesis by (rule keeps_exact [OF keeps_handle_local_failure [OF obs_def]])
qed

text \<open>Executing a mutation: skipped, applied, or failed and then in error.\<close>

lemma keeps_execute: "keeps R (obs s) (execute_mutation env cm p s)"
proof -
  have role: "e = ERR_OK \<and> obs s1 = obs s \<or> status s \<noteq> PS_ERROR \<and> apply_mutation env p s = Inr (e, s1)"
    if "apply_in_role env p s = Inr (e, s1)" for e s1
    using that by (auto simp: apply_in_role_def result_simps Let_def split: partition_status.splits if_splits)
  have outcome: "keeps R (obs s) (if e \<noteq> ERR_OK then handle_local_failure env cm e s1 else Inr s1)"
    if "apply_in_role env p s = Inr (e, s1)" for e s1
    using role [OF that]
  proof (elim disjE conjE)
    assume live: "status s \<noteq> PS_ERROR" and ap: "apply_mutation env p s = Inr (e, s1)"
    note ob = obs_apply [OF ap obs_def]
    show ?thesis
    proof (cases "e = ERR_OK")
      case True
      then show ?thesis using ob live by (simp add: obs_def [of s] R_apply)
    next
      case False
      then have "obs s1 = (r_config (repl s), r_app_decree (repl s), applied_decrees s @ [r_app_decree (repl s) + 1])"
        using ob by simp
      from keeps_exact [OF keeps_handle_local_failure [OF this], of R "obs s"] False live
      show ?thesis by (simp add: obs_def [of s] R_fail)
    qed
  qed (simp add: R_refl)
  have next_mutation: "keeps R (obs s') (case nxt of None \<Rightarrow> Inr s' | Some n \<Rightarrow> init_prepare env cm n False False s')" for nxt s'
    by (simp add: R_refl keeps_init_prepare split: option.split)
  show ?thesis
    unfolding execute_mutation_def Let_def
    by (rule keeps_value(1) [of "apply_in_role env p s"])
      (auto simp: R_refl intro!: keeps_bind(1) [OF outcome] keeps_value(1) [of "next_work e h n q" for e h n q]
        keeps_observed [OF _ next_mutation])
qed

end

text \<open>The committer of the replica keeps the relation, whatever the bound on the nesting.\<close>

context replica_relation begin

lemma replica_committer_keeps: "keeps R (obs s) (replica_committer env n p s)"
proof (induction n arbitrary: p s)
  case (Suc n)
  then have "kept_committer R (replica_committer env n)"
    by unfold_locales
  from kept_committer.keeps_execute [OF this] show ?case by simp
qed simp

end

sublocale replica_relation \<subseteq> own: kept_committer R "replica_committer env n" for env n
  by unfold_locales (rule replica_committer_keeps)

section \<open>The handlers\<close>

context kept_committer begin

lemma keeps_enqueue_write: "keeps R (obs s) (enqueue_write env cm rq s)"
proof -
  have ob: "obs (map_replica (r_next_mutation_update (\<lambda>_. n))
      (map_primary (px_write_queue_update (\<lambda>_. q)) (plist_of s, h, repl s))) = obs s" for n q h
    by (simp add: obs_def applied_decrees_def map_replica_def)
  show ?thesis
    unfolding enqueue_write_def Let_def
    by (rule keeps_value) (auto simp: ob R_refl intro!: keeps_observed [OF ob keeps_init_prepare] split: option.split)
qed

lemma keeps_throttle_write: "keeps2 R (obs s) (throttle_write env req s)"
  unfolding throttle_write_def Let_def
  by (rule keeps_value) (auto simp: R_refl split: option.split throttle_action.split)

lemma obs_admit: "obs (snd (admit_bulk_load env s)) = obs s"
  by (simp add: admit_bulk_load_def)

lemma keeps_on_client_write: "keeps R (obs s) (on_client_write env cm req ign s)"
proof -
  have bulk: "keeps R (obs s1) (case admit_bulk_load env s1 of (e, s2) \<Rightarrow>
      if e \<noteq> ERR_OK then Inr (response_client_write (Some rq) e s2) else enqueue_write env cm rq s2)" for s1 rq
    by (auto simp: split_def obs_admit R_refl intro!: keeps_observed [OF obs_admit keeps_enqueue_write])
  show ?thesis
    unfolding on_client_write_def Let_def
    by (rule keeps_value(1) [of "write_refused env req s"])
      (auto simp: R_refl bulk keeps_enqueue_write split: option.split
        intro!: keeps_bind2(1) [OF keeps_throttle_write] keeps_observed [OF _ bulk] keeps_observed [OF _ keeps_enqueue_write])
qed

lemma keeps_learning_error: "keeps R (obs s) (handle_learning_error env cm e loc s)"
  unfolding handle_learning_error_def Let_def
  by (rule keeps_bind2(1), rule keeps_observed2 [OF _ keeps_no_ballot_change]) (simp_all add: R_refl)

lemma keeps_prepare_new: "keeps R (obs s) (prepare_new env cm pop p s)"
proof -
  have copy: "keeps R (obs s1) (if is_splitting s1 then copy_mutation env p s1 else Inr s1)" for s1
    by (simp add: keeps_copy R_refl)
  show ?thesis
    unfolding prepare_new_def
    by (rule keeps_bind2(1) [OF keeps_prepare], unfold prod.case)
      (intro keeps_check keeps_split keeps_ack keeps_bind(1) [OF copy keeps_append])
qed

lemma keeps_real_prepare: "keeps R (obs s) (real_prepare env cm req pop p s)"
  unfolding real_prepare_def Let_def
  by (rule keeps_value(1) [of "get_mutation_by_decree c d" for c d])
    (auto simp: R_refl intro!: keeps_observed [OF _ keeps_prepare_new] keeps_observed [OF _ keeps_ack] split: option.split)

lemma keeps_prepare_in_view: "keeps R (obs s) (prepare_in_view env cm req rconfig pop p s)"
  by (auto simp: prepare_in_view_def keeps_ack keeps_real_prepare
      intro!: keeps_check keeps_bind(1) [OF keeps_learning_error keeps_ack] split: option.split)

lemma keeps_on_prepare: "keeps R (obs s) (on_prepare env cm req rconfig header us s)"
proof -
  have upd: "keeps2 R (obs s') (if b then update_local_configuration env cm c False s' else Inr (True, s'))" for b c s'
    by (simp add: R_refl keeps_update_local_configuration)
  show ?thesis
    unfolding on_prepare_def Let_def alloc_mutation_def prod.case
    by (intro keeps_check keeps_split keeps_bind2(1) [OF keeps_observed2 [OF _ upd]])
      (simp_all add: R_refl keeps_ack keeps_prepare_in_view)
qed

lemma keeps_fail_local: "keeps R (obs s) (if e \<noteq> ERR_OK then handle_local_failure env cm e s else Inr s)"
  by (simp add: R_refl keeps_local_failure)

lemma keeps_logged_in_role: "keeps R (obs s) (logged_in_role env cm p e s)"
proof -
  have parent: "keeps R (obs s1) (ack_parent e p s1)" for s1
    by (auto simp: ack_parent_def R_refl intro!: keeps_check)
  have ack: "keeps R (obs s1) (bind_result (ack_prepare_message e p s1) (\<lambda>s2.
      commit cm (mu_last_committed_decree (store_of s2 p)) COMMIT_TO_DECREE_HARD s2))" for s1
    by (rule keeps_bind(1) [OF keeps_ack keeps_commit])
  show ?thesis
    unfolding logged_in_role_def Let_def
    by (cases "status s"; simp only: partition_status.case)
      (intro keeps_split keeps_bind(1) [OF keeps_fail_local ack] keeps_bind(1) [OF keeps_fail_local parent]
        keeps_do_possible_commit keeps_local_failure keeps_same refl keeps_simps(1))+
qed

lemma keeps_on_append_log_completed: "keeps R (obs s) (on_append_log_completed env cm p e s)"
proof -
  have "keeps R (obs s) (if e = ERR_OK
      then bind_result (set_logged (store_of s p)) (\<lambda>m. Inr (map_mutation p (\<lambda>_. m) s)) else Inr s)"
    by (auto simp: R_refl intro!: keeps_value)
  moreover have "keeps R (obs s1) (if b then logged_in_role env cm p e s1 else Inr s1)" for b s1
    by (simp add: R_refl keeps_logged_in_role)
  ultimately show ?thesis
    unfolding on_append_log_completed_def by (intro keeps_bind(1)) (auto simp: R_refl)
qed

lemma keeps_update_on_meta: "keeps R (obs s) (update_configuration_on_meta_server env cm ct n pc s)"
  unfolding update_configuration_on_meta_server_def set_inactive_state_transient_def Let_def
  by (rule keeps_check, rule keeps_value, rule keeps_bind2(1) [OF keeps_no_ballot_change]) (simp add: R_refl)

lemma keeps_update_configuration: "keeps2 R (obs s) (update_configuration env cm pc s)"
  unfolding update_configuration_def Let_def
  by (intro keeps_check keeps_split keeps_observed2 [OF _ keeps_update_local_configuration]) (simp_all add: R_refl)

lemma keeps_on_remove: "keeps R (obs s) (on_remove env cm req s)"
  unfolding on_remove_def
  by (intro keeps_split keeps_check keeps_bind2(1) [OF keeps_update_local_configuration]) (simp_all add: R_refl)

lemma keeps_assign_primary: "keeps R (obs s) (assign_primary env cm proposal s)"
  unfolding assign_primary_def
  by (intro keeps_check keeps_split keeps_update_on_meta keeps_same refl)

lemma keeps_add_potential_secondary: "keeps R (obs s) (add_potential_secondary proposal s)"
  unfolding add_potential_secondary_def Let_def
  by (intro keeps_split keeps_check keeps_value(1) [of "check_same_group x y" for x y])
    (simp_all add: R_refl split: option.split)

lemma keeps_downgrade_secondary: "keeps R (obs s) (downgrade_to_secondary_on_primary env cm proposal s)"
  unfolding downgrade_to_secondary_on_primary_def Let_def
  by (intro keeps_split keeps_check keeps_value(1) [of "check_same_group x y" for x y] keeps_update_on_meta)
    (simp add: R_refl)

lemma keeps_downgrade_inactive: "keeps R (obs s) (downgrade_to_inactive_on_primary env cm proposal s)"
  unfolding downgrade_to_inactive_on_primary_def Let_def
  by (intro keeps_split keeps_value keeps_update_on_meta) (simp add: R_refl)

lemma keeps_remove_member: "keeps R (obs s) (remove_member env cm proposal s)"
  unfolding remove_member_def Let_def
  by (intro keeps_split keeps_value keeps_update_on_meta) (simp add: R_refl)

lemma keeps_on_config_proposal: "keeps R (obs s) (on_config_proposal env cm proposal s)"
proof -
  have upd: "keeps2 R (obs s) (if b then update_configuration env cm pc s else Inr (True, s))" for b pc
    by (simp add: R_refl keeps_update_configuration)
  have dup: "obs (map_replica (r_duplicating_update (\<lambda>_. x)) s1) = obs s1" for x s1
    by simp
  note acts = keeps_assign_primary keeps_add_potential_secondary keeps_downgrade_secondary
    keeps_downgrade_inactive keeps_remove_member
  show ?thesis
    unfolding on_config_proposal_def Let_def
    by (intro keeps_split keeps_bind2(1) [OF upd] keeps_same refl, unfold prod.case, intro keeps_split keeps_same refl,
        cases "cu_type proposal"; simp only: config_type.case)
      (intro keeps_simps(1) acts [THEN keeps_observed [OF dup]])+
qed

lemma keeps_on_disconnected: "keeps R (obs s) (on_meta_server_disconnected env cm s)"
  unfolding on_meta_server_disconnected_def set_inactive_state_transient_def
  by (rule keeps_bind2(1) [OF keeps_no_ballot_change]) (simp add: R_refl)

lemma keeps_post_update: "keeps R (obs s) (post_update env req resp s)"
  unfolding post_update_def Let_def
  by (intro keeps_check) (auto simp: R_refl intro!: keeps_check split: config_type.split)

lemma keeps_on_update_reply: "keeps R (obs s) (on_update_configuration_on_meta_server_reply env cm e req resp s)"
proof -
  have post: "keeps R (obs s) (if b then post_update env req resp s else Inr s)" for b
    by (simp add: R_refl keeps_post_update)
  show ?thesis
    unfolding on_update_configuration_on_meta_server_reply_def Let_def
    by (intro keeps_split keeps_bind(1) [OF post] keeps_bind2(1) [OF keeps_update_configuration]) (simp_all add: R_refl)
qed

lemma keeps_remote_failure: "keeps R (obs s) (handle_remote_failure env cm st n s)"
  unfolding handle_remote_failure_def
  by (intro keeps_check)
    (auto simp: R_refl keeps_downgrade_inactive intro!: keeps_value keeps_check split: partition_status.split)

lemma keeps_count_secondary_ack: "keeps R (obs s) (count_secondary_ack cm p s)"
  unfolding count_secondary_ack_def Let_def
  by (intro keeps_check)
    (auto simp: split_def R_refl intro!: keeps_observed [OF _ keeps_do_possible_commit])

lemma keeps_count_learner_ack: "keeps R (obs s) (count_learner_ack cm p s)"
  unfolding count_learner_ack_def Let_def
  by (intro keeps_check)
    (auto simp: split_def R_refl intro!: keeps_observed [OF _ keeps_do_possible_commit])

lemma keeps_on_prepare_reply: "keeps R (obs s) (on_prepare_reply env cm p st n e resp s)"
proof -
  have "keeps R (obs s) (prepare_succeeded cm p st n resp s)"
    unfolding prepare_succeeded_def
    by (intro keeps_check)
      (auto simp: R_refl keeps_count_secondary_ack keeps_count_learner_ack intro!: keeps_value split: partition_status.split)
  moreover have "keeps R (obs s) (prepare_failed env cm p st n e' s)" for e'
    unfolding prepare_failed_def Let_def
    by (intro keeps_split keeps_bind(1) [OF keeps_remote_failure] keeps_count_learner_ack) (simp_all add: R_refl)
  ultimately show ?thesis
    unfolding on_prepare_reply_def Let_def by (intro keeps_split keeps_check) (simp_all add: R_refl)
qed

lemma obs_retry_prepare: "obs (retry_prepare n st p sig s) = obs s"
  by (simp add: retry_prepare_def)

lemma keeps_on_copy_mutation_reply: "keeps R (obs s) (on_copy_mutation_reply env cm ec b d s)"
proof -
  have role: "keeps R (obs s) (case st of
       PS_PRIMARY \<Rightarrow> if ec \<noteq> ERR_OK then handle_local_failure env cm ec s else do_possible_commit_on_primary cm p s
     | PS_SECONDARY \<Rightarrow> bind_result (if ec \<noteq> ERR_OK then handle_local_failure env cm ec s else Inr s) (ack_prepare_message ec p)
     | PS_POTENTIAL_SECONDARY \<Rightarrow> bind_result (if ec \<noteq> ERR_OK then handle_local_failure env cm ec s else Inr s) (ack_prepare_message ec p)
     | PS_ERROR \<Rightarrow> Inr s | _ \<Rightarrow> Inl (Check_failed m))" for st s m p
    by (cases st; simp only: partition_status.case)
      (intro keeps_split keeps_bind(1) [OF keeps_fail_local keeps_ack] keeps_do_possible_commit keeps_local_failure
        keeps_same refl keeps_simps(1))+
  have ob: "obs (if ec = ERR_OK then map_mutation p g s else s) = obs s" for p g
    by simp
  show ?thesis
    unfolding on_copy_mutation_reply_def Let_def
    by (rule keeps_value) (auto simp only: split: option.split intro!: keeps_split keeps_observed [OF ob role] keeps_same ob)
qed

end

end
