(* ===== verification/Replica_Run.thy ===== *)
theory Replica_Run
  imports Replica_Views
begin

text \<open>
  Runs of a replica: the handlers as the steps of a transition system, in any order, with any
  arguments and with clocks, flags and the storage engine free to change from step to step.
\<close>

section \<open>Steps\<close>

inductive replica_step :: "rstate \<Rightarrow> rstate \<Rightarrow> bool" where
  client_write: "on_client_write env (replica_committer env n) req ign s = Inr s' \<Longrightarrow> replica_step s s'"
| prepare_message: "on_prepare env (replica_committer env n) rid rconfig header us s = Inr s' \<Longrightarrow> replica_step s s'"
| log_completed: "on_append_log_completed env (replica_committer env n) p e s = Inr s' \<Longrightarrow> replica_step s s'"
| prepare_reply: "on_prepare_reply env (replica_committer env n) p st nd e ack s = Inr s' \<Longrightarrow> replica_step s s'"
| prepare_again: "replica_step s (retry_prepare nd st p sig s)"
| proposal: "on_config_proposal env (replica_committer env n) prop s = Inr s' \<Longrightarrow> replica_step s s'"
| meta_reply: "on_update_configuration_on_meta_server_reply env (replica_committer env n) e req resp s = Inr s'
    \<Longrightarrow> replica_step s s'"
| upgrade: "upgrade_to_secondary_on_primary env (replica_committer env n) nd s = Inr s' \<Longrightarrow> replica_step s s'"
| removal: "on_remove env (replica_committer env n) rconfig s = Inr s' \<Longrightarrow> replica_step s s'"
| disconnected: "on_meta_server_disconnected env (replica_committer env n) s = Inr s' \<Longrightarrow> replica_step s s'"
| remote_failure: "handle_remote_failure env (replica_committer env n) st nd s = Inr s' \<Longrightarrow> replica_step s s'"
| local_failure: "handle_local_failure env (replica_committer env n) e s = Inr s' \<Longrightarrow> replica_step s s'"
| child_reply: "on_copy_mutation_reply env (replica_committer env n) ec b d s = Inr s' \<Longrightarrow> replica_step s s'"

context replica_relation begin

lemma step_keeps:
  assumes "replica_step s s'"
  shows "R (obs s) (obs s')"
proof -
  have D: "R (obs s) (obs t)" if "keeps R (obs s) r" "r = Inr t" for r t
    using that by simp
  have up: "keeps R (obs s) (upgrade_to_secondary_on_primary env (replica_committer env n) nd s)" for env n nd
    by (simp add: upgrade_to_secondary_on_primary_def Let_def own.keeps_update_on_meta)
  from assms show ?thesis
    by cases (auto simp: own.obs_retry_prepare R_refl intro: D own.keeps_on_client_write own.keeps_on_prepare
      own.keeps_on_append_log_completed own.keeps_on_prepare_reply own.keeps_on_config_proposal
      own.keeps_on_update_reply own.keeps_on_remove own.keeps_on_disconnected own.keeps_remote_failure
      own.keeps_local_failure own.keeps_on_copy_mutation_reply up)
qed

lemma run_keeps: "replica_step\<^sup>*\<^sup>* s s' \<Longrightarrow> R (obs s) (obs s')"
  by (induction rule: rtranclp_induct) (auto intro: R_refl R_trans step_keeps)

end

section \<open>Views grow\<close>

definition view_grows :: "observation \<Rightarrow> observation \<Rightarrow> bool" where
  "view_grows b b' \<longleftrightarrow>
     (case (b, b') of ((c, _, _), (c', _, _)) \<Rightarrow>
        rc_pid c' = rc_pid c \<and> rc_ballot c \<le> rc_ballot c' \<and> (rc_status c = PS_ERROR \<longrightarrow> c' = c))"

interpretation views: replica_relation view_grows
  by unfold_locales (auto simp: view_grows_def)

section \<open>Mutations are applied in order\<close>

text \<open>
  The decrees handed to the storage engine since decree \<open>a0\<close>: consecutive, and all applied
  except possibly the last one, whose failure took the replica into error.
\<close>

definition in_order :: "decree \<Rightarrow> observation \<Rightarrow> bool" where
  "in_order a0 b \<longleftrightarrow>
     (case b of (c, a, ds) \<Rightarrow>
        ds = [a0 + 1..a0 + int (length ds)] \<and>
        (a = a0 + int (length ds) \<or> rc_status c = PS_ERROR \<and> a + 1 = a0 + int (length ds)))"

definition keeps_order :: "observation \<Rightarrow> observation \<Rightarrow> bool" where
  "keeps_order b b' \<longleftrightarrow> (\<forall>a0. in_order a0 b \<longrightarrow> in_order a0 b')"

lemma in_order_next:
  "ds = [a0 + 1..a0 + int (length ds)] \<Longrightarrow>
   ds @ [a0 + int (length ds) + 1] = [a0 + 1..a0 + int (length (ds @ [a0 + int (length ds) + 1]))]"
  using upto_rec2 [of "a0 + 1" "a0 + int (length ds) + 1"] by (simp add: algebra_simps)

interpretation order: replica_relation keeps_order
proof unfold_locales
  fix c :: replica_configuration and a :: decree and ds
  assume "rc_status c \<noteq> PS_ERROR"
  then show "keeps_order (c, a, ds) (c, a + 1, ds @ [a + 1])"
    "keeps_order (c, a, ds) (c\<lparr>rc_status := PS_ERROR\<rparr>, a, ds @ [a + 1])"
    using in_order_next [of ds] by (auto simp: keeps_order_def in_order_def algebra_simps)
qed (auto simp: keeps_order_def in_order_def)

section \<open>A run\<close>

text \<open>
  A group of one replica, used in the examples: the table has one partition and one replica,
  node 7 is this node and the storage engine never fails.
\<close>

definition example_env :: replica_env where
  "example_env =
     \<lparr>re_specs = (\<lambda>code. if code = ''RPC_RRDB_RRDB_PUT''
        then Some \<lparr>ts_is_write_operation = True, ts_is_write_allow_batch = True, ts_is_write_idempotent = True\<rparr> else None),
      re_sizeof_header = 64, re_row_lock_map_capacity = 10, re_now_s = 5, re_now_ms = 5000, re_now_us = 5000000,
      re_now_ns = 5000000000, re_staleness_for_commit = 2, re_max_mutation_count_in_prepare_list = 4,
      re_mutation_2pc_min_replica_count = 0, re_reject_write_when_disk_insufficient = True,
      re_max_allowed_write_size = 0, re_group_check_disabled = False, re_verbose_commit_log = False,
      re_prepare_timeout_ms_for_secondaries = 1000, re_prepare_timeout_ms_for_potential_secondaries = 3000,
      re_node = 7, re_is_connected = True, re_allowed = (\<lambda>_. True), re_make_idempotent = (\<lambda>_. None),
      re_on_batched_write_requests = (\<lambda>_ _ _. kOk), re_split_exec_ok = True, re_new_task = (\<lambda>_. True)\<rparr>"

definition example_app :: app_info where
  "example_app = \<lparr>ai_partition_count = 1, ai_max_replica_count = 1, ai_duplicating = False, ai_atomic_idempotent = False\<rparr>"

definition example_write :: write_request where
  "example_write =
     \<lparr>wr_request = \<lparr>rq_id = 1, rq_code = ''RPC_RRDB_RRDB_PUT'', rq_format = 0, rq_partition_hash = 0, rq_payload = Some []\<rparr>,
      wr_body_size = 10, wr_timeout_ms = 1000, wr_code_valid = True\<rparr>"

text \<open>The meta server assigns the primary and confirms it; a client writes; the log is written.\<close>

definition example_group :: partition_configuration where
  "example_group = no_configuration\<lparr>pc_pid := (1, 0), pc_max_replica_count := 1\<rparr>"

definition example_assign :: "rstate \<Rightarrow> rstate result" where
  "example_assign =
     on_config_proposal example_env (replica_committer example_env 1)
       \<lparr>cu_type = CT_ASSIGN_PRIMARY, cu_node = 7, cu_config = example_group, cu_duplicating = False\<rparr>"

definition example_confirm :: "rstate \<Rightarrow> rstate result" where
  "example_confirm =
     (let pc = example_group\<lparr>pc_primary := Some 7, pc_ballot := 1\<rparr>
      in on_update_configuration_on_meta_server_reply example_env (replica_committer example_env 1) ERR_OK
           \<lparr>cu_type = CT_ASSIGN_PRIMARY, cu_node = 7, cu_config = pc, cu_duplicating = False\<rparr>
           \<lparr>cr_err = ERR_OK, cr_config = pc\<rparr>)"

definition example_put :: "rstate \<Rightarrow> rstate result" where
  "example_put = on_client_write example_env (replica_committer example_env 1) example_write False"

definition example_logged :: "mutation_ptr \<Rightarrow> rstate \<Rightarrow> rstate result" where
  "example_logged p = on_append_log_completed example_env (replica_committer example_env 1) p ERR_OK"

definition example_start :: "rstate result" where
  "example_start = replica_init example_env False (1, 0) example_app NORMAL"

text \<open>
  Evaluation: the definitions, and a congruence rule that keeps the continuation of an
  outcome folded until the outcome is known.
\<close>

lemma bind_result_weak_cong: "r = r' \<Longrightarrow> bind_result r f = bind_result r' f"
  by simp

lemma replicate_4: "replicate 4 x = [x, x, x, x]"
  by (simp add: numeral_eq_Suc)

lemmas example_defs = example_env_def example_app_def example_write_def example_group_def
  example_assign_def example_confirm_def example_put_def example_logged_def example_start_def

lemmas replica_eval =
  evict_rows.simps pop_committed.simps commit_ready.simps replicate_4 Let_def check_def to_int32_def
  add_int32_def get_replica_config_def cleanup_task_def cleanup_task_always_def no_configuration_def
  primary_context_init_def do_cleanup_pending_mutations_def cleanup_bulk_load_states_def
  cleanup_split_states_def primary_cleanup_def primary_is_cleaned_def reset_membership_def
  member_config_def check_exist_def get_node_status_def secondary_disk_abnormal_def
  secondary_context_init_def secondary_cleanup_def secondary_is_cleaned_def
  potential_secondary_context_init_def learner_soft_tasks_def learner_hard_tasks_def
  set_learner_tasks_def learner_cleanup_def learner_is_cleaned_def partition_split_context_init_def
  split_cleanup_def split_is_cleaned_def replica_init_def map_replica_def map_mutation_def emit_def
  queue_env_of_def alloc_mutation_def uniq_next_def uniq_try_update_def response_client_write_def
  reply_with_error_def ack_prepare_message_def need_reject_non_idempotent_def
  need_make_idempotent_request_def new_mutation_idempotent_def make_idempotent_def
  app_mutation_2pc_min_replica_count_def too_few_members_def members_missing_def
  send_prepare_message_def is_splitting_def parent_cleanup_split_context_def copy_mutation_def
  do_possible_commit_on_primary_def append_log_def prepare_learners_def remote_prepare_def
  assign_id_def admission_error_def start_2pc_def init_prepare_def check_state_completeness_def
  batched_writes_def apply_mutation_def cleanup_preparing_mutations_def replay_decree_def
  replay_prepare_list_def init_group_check_def clear_bulk_load_states_if_needed_def
  change_refused_def adopt_config_def clean_primary_def become_primary_def leave_primary_def
  leave_secondary_def leave_potential_secondary_def clean_split_def leave_split_def
  leave_inactive_def leave_status_def start_pending_def update_local_configuration_def
  update_local_configuration_with_no_ballot_change_def handle_local_failure_def apply_in_role_def
  execute_mutation_def disk_status_to_error_code_def check_partition_hash_def write_refused_def
  throttle_write_def admit_bulk_load_def enqueue_write_def on_client_write_def received_mutation_def
  handle_learning_error_def prepare_refused_def prepare_new_def real_prepare_def prepare_in_view_def
  on_prepare_def ack_parent_def logged_in_role_def on_append_log_completed_def
  set_inactive_state_transient_def update_configuration_on_meta_server_def
  is_same_ballot_status_change_allowed_def update_configuration_def remove_secondary_def
  assign_primary_def check_same_group_def add_potential_secondary_def
  upgrade_to_secondary_on_primary_def outdated_proposal_def downgrade_to_secondary_on_primary_def
  downgrade_to_inactive_on_primary_def remove_member_def on_remove_def on_config_proposal_def
  on_meta_server_disconnected_def post_update_def on_update_configuration_on_meta_server_reply_def
  handle_remote_failure_def count_secondary_ack_def count_learner_ack_def prepare_succeeded_def
  is_prepare_close_to_timeout_def prepare_failed_def on_prepare_reply_def retry_prepare_def
  on_copy_mutation_reply_def last_prepared_decree_def mutation_queue_init_def new_mutation_def
  new_mutation_blocking_def need_make_idempotent_spec_def applied_def check_rpc_request_is_write_def
  deref_row_def lock_row_def enter_2pc_def try_unblock_def try_block_def pop_or_block_pending_def
  promote_pending_def try_promote_pending_def promote_unbatchable_def dispatch_pending_def
  add_work_def next_work_def clear_queue_def locks_wf_def lru_exact_def lock_decree_def locked_def
  writes_ok_def hash_keys_def waiting_def keys_locked_def held_back_def all_writes_def
  same_locks_def hands_out_def sample_env_def sample_request_def sample_store_def sample_queue_def
  requests_of_def queue_owns_def array_at_def c_mod_def reset_cache_def mutation_cache_init_def
  put_def pop_min_def get_mutation_by_decree_def min_decree_def max_decree_def count_cache_def
  capacity_def slot_def in_window_def cache_map_def ring_wf_def cache_decrees_def near_window_def
  put_lo_def put_hi_def put_state_def pop_state_def prepare_list_init_def reset_list_def
  truncate_list_def commit_def make_room_def put_list_def put_list_checked_def prepare_def
  plist_wf_def room_target_def committed_to_def record_committer_def bounded_plist_def prepared_def
  empty_header_def mutation_init_def is_logged_def is_ready_for_commit_def set_logged_def
  set_left_secondary_ack_count_def set_left_potential_secondary_ack_count_def
  decrease_left_secondary_ack_count_def decrease_left_potential_secondary_ack_count_def set_id_def
  is_full_def add_client_request_def copy_from_def requests_match_updates_def sample_mutation_def
  throttling_controller_init_def to_int64_def parse_unit_def parse_arg_def parse_env_value_def
  units_per_partition_def parse_from_env_def reset_controller_def control_def throttle_request_def
  throttle_write_request_def throttle_read_request_def throttle_backup_request_def
  update_throttle_env_internal_def accepted_units_def refresh_def throttle_arg_def

definition example_run :: "rstate result" where
  "example_run = bind_result (bind_result (bind_result (bind_result example_start example_assign) example_confirm)
     example_put) (example_logged 0)"

lemma example_run_eval:
  "\<exists>s. example_run = Inr s \<and> status s = PS_PRIMARY \<and> ballot_of s = 1 \<and> lcd s = 1 \<and> r_app_decree (repl s) = 1 \<and>
     applied_decrees s = [1]"
  by (simp add: example_run_def example_defs replica_eval applied_decrees_def map_filter_def cong: bind_result_weak_cong)

lemma example_start_eval:
  "\<exists>s. example_start = Inr s \<and> status s = PS_INACTIVE \<and> ballot_of s = 0 \<and> r_app_decree (repl s) = 0 \<and>
     applied_decrees s = []"
  by (simp add: example_defs replica_eval applied_decrees_def map_filter_def cong: bind_result_weak_cong)

lemma example_reaches: "example_start = Inr s \<Longrightarrow> example_run = Inr s' \<Longrightarrow> replica_step\<^sup>*\<^sup>* s s'"
proof -
  assume "example_start = Inr s" "example_run = Inr s'"
  then obtain s1 s2 s3 where "example_assign s = Inr s1" "example_confirm s1 = Inr s2" "example_put s2 = Inr s3"
    "example_logged 0 s3 = Inr s'"
    unfolding example_run_def bind_result_eq_Inr by (metis sum.inject(2))
  then have "replica_step s s1" "replica_step s1 s2" "replica_step s2 s3" "replica_step s3 s'"
    unfolding example_assign_def example_confirm_def example_put_def example_logged_def Let_def
    by (blast intro: replica_step.intros)+
  then show ?thesis by (meson converse_rtranclp_into_rtranclp rtranclp.rtrancl_refl)
qed

section \<open>Claims\<close>

text \<open>
  C5.
  Over any run of its handlers a replica stays with its partition, its ballot never goes back,
  and once it is in error its configuration never changes again.
\<close>

theorem replica_views_grow:
  assumes "replica_step\<^sup>*\<^sup>* s s'"
  shows "rc_pid (r_config (repl s')) = rc_pid (r_config (repl s)) \<and> ballot_of s \<le> ballot_of s' \<and>
    (status s = PS_ERROR \<longrightarrow> r_config (repl s') = r_config (repl s))"
  using views.run_keeps [OF assms] by (simp add: view_grows_def obs_def)

theorem replica_views_grow_witness:
  "\<exists>s s'. replica_step\<^sup>*\<^sup>* s s' \<and> ballot_of s = 0 \<and> ballot_of s' = 1 \<and>
     rc_pid (r_config (repl s')) = rc_pid (r_config (repl s))"
proof -
  obtain s s' where "example_start = Inr s" "ballot_of s = 0" "example_run = Inr s'" "ballot_of s' = 1"
    using example_start_eval example_run_eval by blast
  with replica_views_grow [OF example_reaches] show ?thesis by (meson example_reaches)
qed

text \<open>
  C1.
  Over any run of its handlers a replica hands decrees to its storage engine one after the
  other, without gaps and without repeating one: the decrees handed over follow the last
  applied one, and all of them have been applied unless the replica is in error, where the last
  one may have failed.
\<close>

theorem mutations_applied_in_order:
  assumes "replica_step\<^sup>*\<^sup>* s s'" and "applied_decrees s = []"
  shows "\<exists>n. applied_decrees s' = [r_app_decree (repl s) + 1..r_app_decree (repl s) + int n] \<and>
    (r_app_decree (repl s') = r_app_decree (repl s) + int n \<or>
     status s' = PS_ERROR \<and> r_app_decree (repl s') + 1 = r_app_decree (repl s) + int n)"
proof -
  have "in_order (r_app_decree (repl s)) (obs s)"
    using assms(2) by (simp add: in_order_def obs_def)
  with order.run_keeps [OF assms(1)] have "in_order (r_app_decree (repl s)) (obs s')"
    by (simp add: keeps_order_def)
  then show ?thesis
    by (intro exI [of _ "length (applied_decrees s')"]) (simp add: in_order_def obs_def)
qed

theorem mutations_applied_in_order_witness:
  "\<exists>s s'. replica_step\<^sup>*\<^sup>* s s' \<and> applied_decrees s = [] \<and> applied_decrees s' = [1] \<and>
     (\<exists>n. applied_decrees s' = [1..int n])"
proof -
  obtain s s' where s: "example_start = Inr s" "applied_decrees s = []" "r_app_decree (repl s) = 0"
    and s': "example_run = Inr s'" "applied_decrees s' = [1]"
    using example_start_eval example_run_eval by blast
  have "\<exists>n. applied_decrees s' = [1..int n]"
    using mutations_applied_in_order [OF example_reaches [OF s(1) s'(1)] s(2)] s(3) by auto
  with s s' example_reaches [OF s(1) s'(1)] show ?thesis by blast
qed

end
