(* ===== verification/Replica_Commit.thy ===== *)
theory Replica_Commit
  imports Replica_Run
begin

text \<open>
  The two-phase commit: what a secondary acknowledges and applies, when the primary commits,
  and what a write does to the group. The committer of a secondary is passive: it only hands
  mutations to the storage engine.
\<close>

section \<open>The committer of a secondary\<close>

text \<open>A secondary that is not checkpointing, over a storage engine that does not fail.\<close>

definition applying_secondary :: "replica_env \<Rightarrow> mutation_store \<Rightarrow> replica \<Rightarrow> bool" where
  "applying_secondary env h w \<longleftrightarrow>
     rc_status (r_config w) = PS_SECONDARY \<and> \<not> sx_checkpoint_is_running (r_secondary_states w) \<and>
     (\<forall>d ts ws. re_on_batched_write_requests env d ts ws = kOk) \<and> (\<forall>p. mu_idem_writer (h p) = None)"

definition well_sized :: "mutation \<Rightarrow> bool" where
  "well_sized m \<longleftrightarrow> length (mu_updates m) = length (mu_client_requests m) \<and> mu_updates m \<noteq> []"

definition secondary_step :: "mutation_ptr \<Rightarrow> mutation_store \<Rightarrow> replica \<Rightarrow> replica result" where
  "secondary_step p h w =
     bind_result (check (mu_decree (h p) \<ge> r_durable_decree w) ''CHECK_GE'') (\<lambda>_.
     bind_result (check (r_app_decree w + 1 = mu_decree (h p)) ''CHECK_EQ'') (\<lambda>_.
     bind_result (check (length (mu_updates (h p)) = length (mu_client_requests (h p))) ''CHECK_EQ_PREFIX'') (\<lambda>_.
     bind_result (check (mu_updates (h p) \<noteq> []) ''CHECK_GT_PREFIX'') (\<lambda>_.
       Inr (w\<lparr>r_effects := r_effects w @ [Apply (mu_decree (h p))], r_app_decree := r_app_decree w + 1\<rparr>)))))"

interpretation secondary: passive_committer "execute_mutation env cm" secondary_step "applying_secondary env" for env cm
proof unfold_locales
  fix h w p and pl :: prepare_list
  assume ok: "applying_secondary env h w" and le: "pl_last_committed_decree pl \<le> max_decree (pl_cache pl)"
    and d: "mu_decree (h p) = pl_last_committed_decree pl"
  have same: "h(p := (h p)\<lparr>mu_idem_writer := None\<rparr>) = h"
    using ok by (auto simp: applying_secondary_def fun_eq_iff)
  show "execute_mutation env cm p (pl, h, w) = bind_result (secondary_step p h w) (\<lambda>w'. Inr (pl, h, w'))"
    using ok le d same
    by (auto simp: execute_mutation_def apply_in_role_def apply_mutation_def check_state_completeness_def
        secondary_step_def applying_secondary_def emit_def map_replica_def map_mutation_def Let_def check_def)
next
  fix h w p w'
  assume "applying_secondary env h w" "secondary_step p h w = Inr w'"
  then show "applying_secondary env h w'"
    by (auto simp: applying_secondary_def secondary_step_def result_simps)
qed

lemma run_secondary:
  assumes "map (\<lambda>p. mu_decree (h p)) ps = [r_app_decree w + 1..r_app_decree w + int (length ps)]"
    and "r_durable_decree w \<le> r_app_decree w" "\<forall>p \<in> set ps. well_sized (h p)"
  shows "run_steps secondary_step h ps w = Inr (w\<lparr>r_app_decree := r_app_decree w + int (length ps),
    r_effects := r_effects w @ map Apply [r_app_decree w + 1..r_app_decree w + int (length ps)]\<rparr>)"
  using assms
proof (induction ps arbitrary: w)
  case (Cons p ps)
  let ?a = "r_app_decree w"
  have up: "[?a + 1..?a + int (length (p # ps))] = (?a + 1) # [?a + 1 + 1..?a + 1 + int (length ps)]"
    by (subst upto_rec1) (simp_all add: algebra_simps)
  from Cons.prems(1) have hd: "mu_decree (h p) = ?a + 1"
    and tl: "map (\<lambda>p. mu_decree (h p)) ps = [?a + 1 + 1..?a + 1 + int (length ps)]"
    unfolding up by auto
  let ?w = "w\<lparr>r_effects := r_effects w @ [Apply (?a + 1)], r_app_decree := ?a + 1\<rparr>"
  have "run_steps secondary_step h ps ?w = Inr (?w\<lparr>r_app_decree := r_app_decree ?w + int (length ps),
      r_effects := r_effects ?w @ map Apply [r_app_decree ?w + 1..r_app_decree ?w + int (length ps)]\<rparr>)"
    by (rule Cons.IH) (use Cons.prems tl in \<open>auto simp: algebra_simps\<close>)
  moreover have "secondary_step p h w = Inr ?w"
    using hd Cons.prems(2,3) by (simp add: secondary_step_def well_sized_def check_def)
  ultimately show ?case
    unfolding up by (simp add: algebra_simps)
qed simp

lemma commit_secondary:
  assumes wf: "plist_wf h pl" and ok: "applying_secondary env h w"
    and app: "r_app_decree w = pl_last_committed_decree pl" "r_durable_decree w \<le> r_app_decree w"
    and d: "pl_last_committed_decree pl \<le> d"
    and ps: "map Some ps = map (pl_map pl) [pl_last_committed_decree pl + 1..d]"
    and logged: "\<forall>p \<in> set ps. is_logged (h p) \<and> 0 \<le> mu_ballot (h p) \<and> well_sized (h p)"
    and views: "sorted (map (\<lambda>p. mu_ballot (h p)) ps)"
  shows "commit (execute_mutation env cm) d COMMIT_TO_DECREE_HARD (pl, h, w) =
    Inr (pl\<lparr>pl_last_committed_decree := d\<rparr>, h, w\<lparr>r_app_decree := d,
      r_effects := r_effects w @ map Apply [pl_last_committed_decree pl + 1..d]\<rparr>)"
proof (cases "d = pl_last_committed_decree pl")
  case True
  then show ?thesis using app by (simp add: commit_def)
next
  case False
  let ?l = "pl_last_committed_decree pl" and ?n = "nat (d - pl_last_committed_decree pl)"
  from wf have w: "ring_wf (pl_cache pl)" "cache_decrees h (pl_cache pl)" by (simp_all add: plist_wf_def)
  have len: "length ps = ?n" using arg_cong [OF ps, of length] by simp
  have take: "take_ready is_logged h 0 (map (pl_map pl) [?l + 1..?l + 1 + int ?n - 1]) = ps"
    using take_ready_all [of ps is_logged h 0] logged views d ps by auto
  have decrees: "map (\<lambda>p. mu_decree (h p)) ps = [?l + 1..d]"
  proof (rule nth_equalityI)
    show "length (map (\<lambda>p. mu_decree (h p)) ps) = length [?l + 1..d]" using len by simp
    fix i assume "i < length (map (\<lambda>p. mu_decree (h p)) ps)"
    then have i: "i < length ps" by simp
    have "Some (ps ! i) = pl_map pl ([?l + 1..d] ! i)"
      using arg_cong [OF ps, of "\<lambda>xs. xs ! i"] i len by (simp add: nth_upto)
    then show "map (\<lambda>p. mu_decree (h p)) ps ! i = [?l + 1..d] ! i"
      using w(2) i by (simp add: cache_decrees_def)
  qed
  have "run_steps secondary_step h ps w = Inr (w\<lparr>r_app_decree := d,
      r_effects := r_effects w @ map Apply [?l + 1..d]\<rparr>)"
    using run_secondary [of h ps w] decrees logged app len d by simp
  with secondary.commit_hard_spec [OF w ok refl, where cm = cm and n = ?n and bt = 0] take len False d show ?thesis
    by (simp add: commit_def committed_to_def Let_def)
qed

section \<open>Acknowledging\<close>

lemma fold_emit:
  "fold (\<lambda>x. emit (f x)) xs (pl, h, w) = (pl, h, w\<lparr>r_effects := r_effects w @ map f xs\<rparr>)"
  by (induction xs arbitrary: w) (simp_all add: emit_def map_replica_def)

definition ok_ack :: "rstate \<Rightarrow> mutation \<Rightarrow> prepare_ack" where
  "ok_ack s m =
     \<lparr>pa_pid = rc_pid (r_config (repl s)), pa_err = ERR_OK, pa_ballot = ballot_of s, pa_decree = mu_decree m,
      pa_last_committed_decree_in_app = r_app_decree (repl s),
      pa_last_committed_decree_in_prepare_list = lcd s\<rparr>"

text \<open>
  C7.
  When a secondary has written a mutation to its log it acknowledges it with success to every
  prepare request it has for it (unless a split child still has to answer), and then commits up
  to the decree the primary had committed: the storage engine gets exactly the mutations in
  between, in order, and nothing else changes.
\<close>

theorem secondary_acks_and_applies:
  fixes s :: rstate and p :: mutation_ptr and n :: nat
  defines "m \<equiv> store_of s p" and "h \<equiv> (store_of s)(p := (store_of s p)\<lparr>mu_not_logged := 0\<rparr>)"
    and "d \<equiv> mu_last_committed_decree (store_of s p)"
  assumes wf: "plist_wf (store_of s) (plist_of s)" and ok: "applying_secondary env (store_of s) (repl s)"
    and app: "r_app_decree (repl s) = lcd s" "r_durable_decree (repl s) \<le> lcd s"
    and mu: "\<not> is_logged m" "ballot_of s \<le> mu_ballot m" "mu_prepare_requests m \<noteq> []" "lcd s \<le> d"
    and ps: "map Some ps = map (pl_map (plist_of s)) [lcd s + 1..d]"
      "\<forall>q \<in> set ps. is_logged (h q) \<and> 0 \<le> mu_ballot (h q) \<and> well_sized (h q)"
      "sorted (map (\<lambda>q. mu_ballot (h q)) ps)"
  shows "on_append_log_completed env (replica_committer env (Suc n)) p ERR_OK s =
    Inr ((plist_of s)\<lparr>pl_last_committed_decree := d\<rparr>, h, (repl s)\<lparr>r_app_decree := d,
      r_effects := r_effects (repl s) @
        (if mu_wait_child m then [] else map (\<lambda>r. Reply_prepare r (ok_ack s m)) (mu_prepare_requests m)) @
        map Apply [lcd s + 1..d]\<rparr>)"
proof -
  obtain pl h0 w where s: "s = (pl, h0, w)" by (metis prod_cases3)
  have h: "h p = m\<lparr>mu_not_logged := 0\<rparr>" by (simp add: h_def m_def)
  have wf': "plist_wf h pl"
    using wf by (auto simp: s plist_wf_def cache_decrees_def h_def)
  let ?w = "w\<lparr>r_effects := r_effects w @
    (if mu_wait_child m then [] else map (\<lambda>r. Reply_prepare r (ok_ack s m)) (mu_prepare_requests m))\<rparr>"
  have "commit (execute_mutation env (replica_committer env n)) d COMMIT_TO_DECREE_HARD (pl, h, ?w) =
      Inr (pl\<lparr>pl_last_committed_decree := d\<rparr>, h, ?w\<lparr>r_app_decree := d,
        r_effects := r_effects ?w @ map Apply [pl_last_committed_decree pl + 1..d]\<rparr>)"
    by (rule commit_secondary [OF wf'])
      (use ok app mu ps in \<open>auto simp: s applying_secondary_def h_def m_def\<close>)
  moreover have "ack_prepare_message ERR_OK p (pl, h, w) = Inr (pl, h, ?w)"
    using mu(3) h by (simp add: ack_prepare_message_def Let_def fold_emit check_def ok_ack_def s)
  ultimately show ?thesis
    using mu ok by (simp add: on_append_log_completed_def logged_in_role_def set_logged_def s m_def h_def d_def
        check_def map_mutation_def applying_secondary_def Let_def)
qed

section \<open>Starting the two-phase commit\<close>

text \<open>The prepare messages of a round: one per secondary, one per learner that takes part.\<close>

definition prepare_config :: "replica \<Rightarrow> bool \<Rightarrow> partition_status \<Rightarrow> int \<Rightarrow> replica_configuration" where
  "prepare_config w pop st sig =
     (member_config (r_primary_states w) st sig)\<lparr>rc_pop_all := pop,
       rc_split_sync_to_child := (st = PS_SECONDARY \<and> px_sync_send_write_request (r_primary_states w))\<rparr>"

definition prepare_messages :: "replica \<Rightarrow> bool \<Rightarrow> mutation \<Rightarrow> effect list" where
  "prepare_messages w pop m =
     map (\<lambda>n. Send_prepare n (prepare_config w pop PS_SECONDARY invalid_signature) m)
       (pc_secondaries (px_pc (r_primary_states w))) @
     map (\<lambda>(n, l). Send_prepare n (prepare_config w pop PS_POTENTIAL_SECONDARY (ls_signature l)) m)
       (prepare_learners (mu_decree m) (r_primary_states w))"

lemma fold_send:
  "fold (\<lambda>x. send_prepare_message (f x) st p pop (g x)) xs (pl, h, w) =
   (pl, h, w\<lparr>r_effects := r_effects w @ map (\<lambda>x. Send_prepare (f x) (prepare_config w pop st (g x)) (h p)) xs\<rparr>)"
  by (induction xs arbitrary: w)
    (simp_all add: send_prepare_message_def prepare_config_def emit_def map_replica_def Let_def)

lemma fold_send_secondaries:
  "fold (\<lambda>n. send_prepare_message n st p pop sig) xs (pl, h, w) =
   (pl, h, w\<lparr>r_effects := r_effects w @ map (\<lambda>n. Send_prepare n (prepare_config w pop st sig) (h p)) xs\<rparr>)"
  by (rule fold_send)

text \<open>The mutation in the messages, and the one in the list afterwards: the counts of the answers to wait for.\<close>

definition sent_mutation :: "replica_env \<Rightarrow> replica \<Rightarrow> mutation \<Rightarrow> mutation" where
  "sent_mutation env w m =
     set_left_secondary_ack_count (of_nat (length (pc_secondaries (px_pc (r_primary_states w)))))
       (m\<lparr>mu_prepare_ts_ms := re_now_ms env\<rparr>)"

definition waiting_mutation :: "replica_env \<Rightarrow> replica \<Rightarrow> mutation \<Rightarrow> mutation" where
  "waiting_mutation env w m =
     set_left_potential_secondary_ack_count
       (ucast (of_nat (length (prepare_learners (mu_decree m) (r_primary_states w))) :: 8 word)) (sent_mutation env w m)"

lemma remote_prepare_round:
  shows "remote_prepare env p pop (pl, h, w) =
    (pl, h(p := waiting_mutation env w (h p)),
     w\<lparr>r_effects := r_effects w @ prepare_messages w pop (sent_mutation env w (h p))\<rparr>)"
proof -
  have "mu_decree (sent_mutation env w (h p)) = mu_decree (h p)" by (simp add: sent_mutation_def set_left_secondary_ack_count_def)
  then show ?thesis
    by (simp add: remote_prepare_def prepare_messages_def Let_def split_def map_mutation_def fold_send_secondaries
        fold_send [of _ _ p pop "\<lambda>x. ls_signature (snd x)"] sent_mutation_def waiting_mutation_def prepare_config_def)
qed

lemma assign_id_fresh:
  assumes "mu_decree (h p) = invalid_decree"
  obtains m1 ts where "assign_id env p (pl, h, w) = (pl, h(p := m1), w\<lparr>r_last_ts := ts\<rparr>)"
    "mu_decree m1 = max_decree (pl_cache pl) + 1" "mu_ballot m1 = rc_ballot (r_config w)"
    "mu_last_committed_decree m1 = pl_last_committed_decree pl"
    "mu_updates m1 = mu_updates (h p)" "mu_client_requests m1 = mu_client_requests (h p)"
    "mu_not_logged m1 = mu_not_logged (h p)" "mu_log_task m1 = mu_log_task (h p)"
    "h_log_offset (mu_header m1) = h_log_offset (mu_header (h p))"
proof -
  define ts where "ts = max (re_now_us env) (r_last_ts w + 1)"
  define m1 where "m1 = (h p)\<lparr>mu_header := (mu_header (h p))\<lparr>h_last_committed_decree := pl_last_committed_decree pl,
      h_ballot := rc_ballot (r_config w), h_decree := max_decree (pl_cache pl) + 1, h_timestamp := int ts\<rparr>,
    mu_is_sync_to_child := px_sync_send_write_request (r_primary_states w)\<rparr>"
  have "assign_id env p (pl, h, w) = (pl, h(p := m1), w\<lparr>r_last_ts := ts\<rparr>)"
    using assms
    by (simp add: assign_id_def map_mutation_def map_replica_def uniq_next_def set_id_def Let_def m1_def ts_def)
  from that [OF this] show thesis by (simp add: m1_def)
qed

lemma bounded_plist_store:
  assumes "bounded_plist h pl" "\<And>x q. pl_map pl x = Some q \<Longrightarrow> q \<noteq> p"
  shows "bounded_plist (h(p := m)) pl"
  using assms by (auto simp: bounded_plist_def plist_wf_def cache_decrees_def)

lemma bounded_plist_decree:
  assumes "bounded_plist h pl" "mu_decree m = mu_decree (h p)"
  shows "bounded_plist (h(p := m)) pl"
  using assms by (auto simp: bounded_plist_def plist_wf_def cache_decrees_def)

lemma enter_2pc_total:
  assumes "lru_exact q" "writes_ok env (mu_client_requests (h p))"
  shows "\<exists>q'. enter_2pc env h p q = Inr q' \<and> lru_exact q'"
  using lock_rows_spec [OF assms, of "mu_decree (h p)"] evict_rows_spec by (fastforce simp: enter_2pc_def)

text \<open>The message round of a mutation that is in the list, with its effects.\<close>

lemma start_2pc_round:
  assumes lru: "lru_exact (px_write_queue (r_primary_states w))"
    and ok: "writes_ok (queue_env_of env (pl, h, w)) (mu_client_requests (h p))"
    and split: "\<not> is_splitting (pl, h, w)"
    and mu: "\<not> is_logged (h p)" "h_log_offset (mu_header (h p)) = invalid_offset" "\<not> mu_log_task (h p)"
  obtains w' where "start_2pc env cm p pop (pl, h, w) = Inr (pl, h(p := (waiting_mutation env w (h p))
       \<lparr>mu_log_task := True\<rparr>), w')"
    "r_config w' = r_config w" "r_effects w' = r_effects w @ prepare_messages w pop (sent_mutation env w (h p)) @ [Append_log p]"
proof -
  from enter_2pc_total [OF lru, of _ h p, OF ok] obtain q where q: "enter_2pc (queue_env_of env (pl, h, w)) h p
      (px_write_queue (r_primary_states w)) = Inr q" by blast
  let ?w = "w\<lparr>r_primary_states := (r_primary_states w)\<lparr>px_write_queue := q\<rparr>\<rparr>"
  let ?r = "?w\<lparr>r_effects := r_effects w @ prepare_messages w pop (sent_mutation env w (h p)) @ [Append_log p],
      r_primary_states := (r_primary_states ?w)\<lparr>px_last_prepare_ts_ms := re_now_ms env\<rparr>\<rparr>"
  have "prepare_messages ?w pop (sent_mutation env w (h p)) = prepare_messages w pop (sent_mutation env w (h p))"
    "prepare_learners d (r_primary_states ?w) = prepare_learners d (r_primary_states w)" for d
    by (simp_all add: prepare_messages_def prepare_config_def member_config_def prepare_learners_def)
  with q split mu have "start_2pc env cm p pop (pl, h, w) = Inr (pl, h(p := (waiting_mutation env w (h p))
       \<lparr>mu_log_task := True\<rparr>), ?r)"
    by (auto simp: start_2pc_def remote_prepare_round map_mutation_def map_replica_def emit_def append_log_def
        is_splitting_def check_def Let_def sent_mutation_def waiting_mutation_def set_left_potential_secondary_ack_count_def
        set_left_secondary_ack_count_def is_logged_def)
  then show thesis by (rule that) simp_all
qed

text \<open>
  C14.
  A write that enters the two-phase commit on a primary within the bound on uncommitted
  mutations gets the next decree, the current ballot and the committed point in its header. It
  is stored in the prepare list without losing an uncommitted mutation, exactly one prepare
  message goes to each secondary and to each learner that takes part, the mutation waits for
  that many answers, and it is appended to the log.
\<close>

theorem init_prepare_round:
  fixes s :: rstate and p :: mutation_ptr
  defines "m \<equiv> store_of s p" and "d \<equiv> max_prepared s + 1"
  assumes prim: "status s = PS_PRIMARY" "\<not> r_atomic_idempotent (repl s)" "\<not> is_splitting s"
    and list: "bounded_plist (store_of s) (plist_of s)" "\<And>x q. pl_map (plist_of s) x = Some q \<Longrightarrow> q \<noteq> p"
    and fresh: "mu_decree m = invalid_decree" "mu_client_requests m \<noteq> []" "\<not> is_logged m"
      "h_log_offset (mu_header m) = invalid_offset" "\<not> mu_log_task m"
    and room: "d \<le> lcd s + re_staleness_for_commit env" "re_staleness_for_commit env < capacity (pl_cache (plist_of s))"
    and admit: "bulk_load_check (members_missing s) (mu_updates m) (length (mu_client_requests m)) = Inr ERR_OK"
      "too_few_members env s = Inr False"
    and queue: "lru_exact (px_write_queue (primary_states s))" "writes_ok (queue_env_of env s) (mu_client_requests m)"
  shows "\<exists>s' m1. init_prepare env cm p False pop s = Inr s' \<and>
    mu_decree m1 = d \<and> mu_ballot m1 = ballot_of s \<and> mu_last_committed_decree m1 = lcd s \<and>
    mu_updates m1 = mu_updates m \<and> mu_client_requests m1 = mu_client_requests m \<and>
    store_of s' = (store_of s)(p := (waiting_mutation env (repl s) m1)\<lparr>mu_log_task := True\<rparr>) \<and>
    bounded_plist (store_of s') (plist_of s') \<and> prepared (plist_of s) d p (plist_of s') \<and>
    r_effects (repl s') = r_effects (repl s) @
      prepare_messages (repl s) pop (sent_mutation env (repl s) m1) @ [Append_log p]"
proof -
  obtain pl h w where s: "s = (pl, h, w)" by (metis prod_cases3)
  from fresh(1) have "mu_decree (h p) = invalid_decree" by (simp add: s m_def)
  then obtain m1 ts where asg: "assign_id env p (pl, h, w) = (pl, h(p := m1), w\<lparr>r_last_ts := ts\<rparr>)"
    and m1: "mu_decree m1 = d" "mu_ballot m1 = rc_ballot (r_config w)"
      "mu_last_committed_decree m1 = pl_last_committed_decree pl"
      "mu_updates m1 = mu_updates m" "mu_client_requests m1 = mu_client_requests m"
      "mu_not_logged m1 = mu_not_logged m" "mu_log_task m1 = mu_log_task m"
      "h_log_offset (mu_header m1) = h_log_offset (mu_header m)"
    by (rule assign_id_fresh [of h p env pl w]) (auto simp: s d_def m_def)
  let ?h = "h(p := m1)" and ?w = "w\<lparr>r_last_ts := ts\<rparr>"
  have b: "bounded_plist ?h pl"
    using bounded_plist_store [of h pl p m1] list by (simp add: s)
  have none: "pl_map pl d = None"
    using mcache.lookup_bounds(2) [of "pl_cache pl" d] list(1)
    by (force simp: s d_def bounded_plist_def plist_wf_def)
  have gt: "pl_last_committed_decree pl < d"
    using list(1) by (simp add: s d_def bounded_plist_def plist_wf_def)
  have "d = mu_decree (?h p)" using m1(1) by simp
  from make_room_put [where h = ?h and p = p and w = ?w and pop_all = pop, OF b this gt] none room
  obtain pl' where put: "bind_result (make_room d pop (pl, ?h, ?w)) (put_list p) = Inr (ERR_OK, pl', ?h, ?w)"
    and pl': "bounded_plist ?h pl'" "prepared pl d p pl'"
    by (auto simp: s)
  have idem: "make_idempotent env p s = Inr (Some p, s)"
    using prim(2) fresh(2) by (cases "hd (mu_client_requests m)")
      (auto simp: make_idempotent_def need_make_idempotent_request_def s m_def check_def Let_def)
  have adm: "admission_error env p False (pl, ?h, ?w) = Inr ERR_OK"
    using room(1) admit m1 by (simp add: admission_error_def s members_missing_def too_few_members_def Let_def)
  obtain w' where start: "start_2pc env cm p pop (pl', ?h, ?w) =
      Inr (pl', ?h(p := (waiting_mutation env ?w (?h p))\<lparr>mu_log_task := True\<rparr>), w')"
    "r_effects w' = r_effects ?w @ prepare_messages ?w pop (sent_mutation env ?w (?h p)) @ [Append_log p]"
    by (rule start_2pc_round [of ?w env pl' ?h p cm pop])
      (use queue prim(3) fresh m1 in \<open>auto simp: s m_def queue_env_of_def is_splitting_def is_logged_def\<close>)
  have same: "waiting_mutation env ?w m1 = waiting_mutation env w m1"
    "sent_mutation env ?w m1 = sent_mutation env w m1" "prepare_messages ?w = prepare_messages w"
    by (simp_all add: waiting_mutation_def sent_mutation_def prepare_messages_def prepare_config_def fun_eq_iff)
  let ?m = "(waiting_mutation env w m1)\<lparr>mu_log_task := True\<rparr>"
  have dec: "mu_decree ?m = d"
    using m1(1) by (simp add: waiting_mutation_def sent_mutation_def set_left_secondary_ack_count_def
        set_left_potential_secondary_ack_count_def)
  have "init_prepare env cm p False pop s = Inr (pl', h(p := ?m), w')"
    using prim(1) idem asg adm gt put start m1(1) same
    by (simp add: init_prepare_def s prepare_def check_def Let_def)
  moreover have "bounded_plist (h(p := ?m)) pl'"
    using bounded_plist_decree [OF pl'(1), of ?m p] dec m1(1) by simp
  ultimately show ?thesis
    using m1 pl'(2) start(2) same by (intro exI [of _ "(pl', h(p := ?m), w')"] exI [of _ m1]) (simp add: s)
qed

section \<open>Counting acknowledgements\<close>

text \<open>Positive replies of secondaries to the prepare messages of a mutation, one after the other.\<close>

primrec secondaries_reply :: "replica_env \<Rightarrow> replica committer \<Rightarrow> mutation_ptr \<Rightarrow> prepare_ack \<Rightarrow> node list
    \<Rightarrow> rstate \<Rightarrow> rstate result" where
  "secondaries_reply env cm p ack [] s = Inr s"
| "secondaries_reply env cm p ack (n # ns) s =
     bind_result (on_prepare_reply env cm p PS_SECONDARY n ERR_OK ack s) (secondaries_reply env cm p ack ns)"

definition with_left :: "mutation_ptr \<Rightarrow> nat \<Rightarrow> rstate \<Rightarrow> rstate" where
  "with_left p k s = map_mutation p (\<lambda>m. m\<lparr>mu_left_secondary_ack_count := of_nat k\<rparr>) s"

definition awaiting :: "mutation_ptr \<Rightarrow> nat \<Rightarrow> prepare_ack \<Rightarrow> rstate \<Rightarrow> bool" where
  "awaiting p k ack s \<longleftrightarrow>
     status s = PS_PRIMARY \<and> mu_ballot (store_of s p) = ballot_of s \<and> lcd s < mu_decree (store_of s p) \<and>
     k < 2 ^ 15 \<and> mu_left_secondary_ack_count (store_of s p) = of_nat k \<and>
     pa_err ack = ERR_OK \<and> pa_ballot ack = ballot_of s \<and> pa_decree ack = mu_decree (store_of s p)"

lemma one_reply:
  assumes "awaiting p (Suc k) ack s" "n \<in> set (pc_secondaries (px_pc (primary_states s)))"
  shows "on_prepare_reply env cm p PS_SECONDARY n ERR_OK ack s =
    (if k = 0 \<and> is_ready_for_commit (store_of (with_left p 0 s) p)
     then commit cm (mu_decree (store_of s p)) COMMIT_ALL_READY (with_left p 0 s) else Inr (with_left p k s))"
proof -
  have k: "Suc k < 2 ^ 15" using assms(1) by (simp add: awaiting_def)
  have un: "unat (of_nat j :: 15 word) = j" if "j < 2 ^ 15" for j
    using that by (simp add: unat_of_nat take_bit_nat_eq_self)
  have pos: "0 < unat (of_nat (Suc k) :: 15 word)" using un [of "Suc k"] k by simp
  have "unat (ucast (of_nat k :: 15 word) :: 32 word) = k"
    using unat_widen [of "of_nat k :: 15 word", where 'b = 32] un [of k] k by simp
  then have zero: "(ucast (of_nat k :: 15 word) :: 32 word) = 0 \<longleftrightarrow> k = 0" by (auto simp: unat_eq_0 [symmetric])
  have dec: "decrease_left_secondary_ack_count (store_of s p) =
      (ucast (of_nat k :: 15 word), (store_of s p)\<lparr>mu_left_secondary_ack_count := of_nat k\<rparr>)"
    using assms(1) by (simp add: awaiting_def decrease_left_secondary_ack_count_def Let_def)
  show ?thesis
    using assms pos zero
    by (auto simp: on_prepare_reply_def prepare_succeeded_def count_secondary_ack_def dec check_exist_def awaiting_def
        with_left_def map_mutation_def do_possible_commit_on_primary_def check_def Let_def)
qed

lemma awaiting_fewer:
  assumes "awaiting p (Suc k) ack s"
  shows "awaiting p k ack (with_left p k s)"
  using assms by (simp add: awaiting_def with_left_def map_mutation_def)

lemma with_left_twice [simp]: "with_left p j (with_left p k s) = with_left p j s"
  by (simp add: with_left_def map_mutation_def)

lemma with_left_members [simp]: "primary_states (with_left p k s) = primary_states s"
  "mu_decree (store_of (with_left p k s) p) = mu_decree (store_of s p)"
  by (simp_all add: with_left_def map_mutation_def)

text \<open>
  C4.
  The primary does not commit a mutation before every secondary has acknowledged it: as long as
  answers are missing, an acknowledgement only decreases the number of answers to wait for. The
  last one commits all ready mutations if the mutation is ready, that is logged and not awaited
  by a learner or a split child; otherwise nothing else happens.
\<close>

theorem commit_needs_all_acks:
  assumes "awaiting p k ack s" "set ns \<subseteq> set (pc_secondaries (px_pc (primary_states s)))"
  shows "(length ns < k \<longrightarrow> secondaries_reply env cm p ack ns s = Inr (with_left p (k - length ns) s)) \<and>
    (length ns = k \<and> 0 < k \<longrightarrow> secondaries_reply env cm p ack ns s =
       (if is_ready_for_commit (store_of (with_left p 0 s) p)
        then commit cm (mu_decree (store_of s p)) COMMIT_ALL_READY (with_left p 0 s)
        else Inr (with_left p 0 s)))"
  using assms
proof (induction ns arbitrary: k s)
  case Nil
  then have "with_left p k s = s"
    by (simp add: awaiting_def with_left_def map_mutation_def prod_eq_iff fun_eq_iff)
  then show ?case by auto
next
  case (Cons n ns)
  show ?case
  proof (cases k)
    case (Suc j)
    note reply = one_reply [OF Cons.prems(1) [unfolded Suc], of n env cm]
    have IH: "(length ns < j \<longrightarrow> secondaries_reply env cm p ack ns (with_left p j s) = Inr (with_left p (j - length ns) s)) \<and>
      (length ns = j \<and> 0 < j \<longrightarrow> secondaries_reply env cm p ack ns (with_left p j s) =
         (if is_ready_for_commit (store_of (with_left p 0 s) p)
          then commit cm (mu_decree (store_of s p)) COMMIT_ALL_READY (with_left p 0 s)
          else Inr (with_left p 0 s)))"
      using Cons.IH [OF awaiting_fewer [OF Cons.prems(1) [unfolded Suc]]] Cons.prems(2) by simp
    show ?thesis
    proof (cases "j = 0")
      case True
      have "bind_result r (secondaries_reply env cm p ack []) = r" for r by (cases r) simp_all
      with True reply Cons.prems(2) Suc show ?thesis by (cases ns) auto
    next
      case False
      with reply Cons.prems(2) IH Suc show ?thesis by simp
    qed
  qed simp
qed

section \<open>A refused write that looks successful\<close>

text \<open>
  C36.
  A write to a primary whose own disk is normal while the disk of a secondary is not is dropped,
  and the client is told that it succeeded: the reply carries the error code of the primary's own
  disk, which is \<open>ERR_OK\<close>.
\<close>

theorem write_dropped_with_ok:
  assumes "re_allowed env (wr_request req)" "\<not> dc_write (r_deny_client (repl s))" "re_max_allowed_write_size env = 0"
    "wr_code_valid req" "re_specs env (rq_code (wr_request req)) = Some spec" "\<not> need_reject_non_idempotent s spec"
    "\<not> r_validate_partition_hash (repl s)" "status s = PS_PRIMARY"
    and disk: "re_reject_write_when_disk_insufficient env" "r_dir_status (repl s) = NORMAL"
      "(n, ds) \<in> set (px_secondary_disk_status (primary_states s))" "ds \<noteq> NORMAL"
  shows "on_client_write env cm req ignore_throttling s = Inr (emit (Reply_write (wr_request req) ERR_OK) s)"
  using assms
  by (force simp: on_client_write_def write_refused_def secondary_disk_abnormal_def disk_status_to_error_code_def
      response_client_write_def Let_def)

section \<open>Examples\<close>

definition example_mutation :: mutation where
  "example_mutation =
     (mutation_init 64 0)\<lparr>mu_header := empty_header\<lparr>h_decree := invalid_decree, h_log_offset := invalid_offset\<rparr>,
       mu_updates := [\<lparr>u_code = ''RPC_RRDB_RRDB_PUT'', u_serialization_type = 0, u_data = []\<rparr>],
       mu_client_requests := [Some (wr_request example_write)], mu_prepare_requests := [5]\<rparr>"

definition example_replica :: "partition_status \<Rightarrow> replica" where
  "example_replica st =
     (let w = repl (projr example_start); pc = example_group\<lparr>pc_ballot := 3, pc_primary := Some 7, pc_secondaries := [8, 9]\<rparr>
      in w\<lparr>r_config := (r_config w)\<lparr>rc_status := st, rc_ballot := 3\<rparr>,
           r_primary_states := (r_primary_states w)\<lparr>px_pc := pc,
             px_secondary_disk_status := [(8, NORMAL), (9, SPACE_INSUFFICIENT)]\<rparr>,
           r_app_decree := 7\<rparr>)"

lemma example_replica_simps [simp]:
  "r_config (example_replica st) = \<lparr>rc_pid = (1, 0), rc_ballot = 3, rc_primary = None, rc_status = st,
     rc_learner_signature = 0, rc_pop_all = False, rc_split_sync_to_child = False\<rparr>"
  "r_effects (example_replica st) = []" "r_app_decree (example_replica st) = 7" "r_durable_decree (example_replica st) = 0"
  "r_secondary_states (example_replica st) = secondary_context_init"
  "\<not> r_atomic_idempotent (example_replica st)" "r_child_app_id (example_replica st) = 0"
  "pc_secondaries (px_pc (r_primary_states (example_replica st))) = [8, 9]"
  "px_learners (r_primary_states (example_replica st)) = []"
  "px_secondary_disk_status (r_primary_states (example_replica st)) = [(8, NORMAL), (9, SPACE_INSUFFICIENT)]"
  "r_max_replica_count (example_replica st) = 1" "r_dir_status (example_replica st) = NORMAL"
  "r_deny_client (example_replica st) = \<lparr>dc_read = False, dc_write = False, dc_reconfig = False\<rparr>"
  "\<not> r_validate_partition_hash (example_replica st)" "\<not> r_is_duplication_master (example_replica st)"
  "mq_row_locks (px_write_queue (r_primary_states (example_replica st))) = []"
  "mq_lru_rows (px_write_queue (r_primary_states (example_replica st))) = []"
  by (simp_all add: example_replica_def example_start_def replica_init_def mutation_queue_init_def check_def
      primary_context_init_def example_app_def example_group_def no_configuration_def Let_def)

theorem write_dropped_with_ok_witness:
  "on_client_write example_env (replica_committer example_env 1) example_write False
     (prepare_list_init 7 4, (\<lambda>_. example_mutation), example_replica PS_PRIMARY) =
   Inr (emit (Reply_write (wr_request example_write) ERR_OK)
     (prepare_list_init 7 4, (\<lambda>_. example_mutation), example_replica PS_PRIMARY))"
  by (rule write_dropped_with_ok [of _ _ _ "\<lparr>ts_is_write_operation = True, ts_is_write_allow_batch = True,
        ts_is_write_idempotent = True\<rparr>" 9 SPACE_INSUFFICIENT])
    (simp_all add: example_env_def example_write_def need_reject_non_idempotent_def)

theorem commit_needs_all_acks_witness:
  "\<exists>s ack. awaiting 0 2 ack s \<and>
     secondaries_reply example_env (replica_committer example_env 1) 0 ack [8] s = Inr (with_left 0 1 s) \<and>
     secondaries_reply example_env (replica_committer example_env 1) 0 ack [8, 9] s =
       (if is_ready_for_commit (store_of (with_left 0 0 s) 0)
        then commit (replica_committer example_env 1) 8 COMMIT_ALL_READY (with_left 0 0 s)
        else Inr (with_left 0 0 s))"
proof -
  define s :: rstate where "s = (prepare_list_init 7 4,
    (\<lambda>_. (set_id 3 8 example_mutation)\<lparr>mu_left_secondary_ack_count := 2, mu_not_logged := 0\<rparr>), example_replica PS_PRIMARY)"
  define ack where "ack = ok_ack s (store_of s 0)"
  have a: "awaiting 0 2 ack s"
    using init_facts [of 4 7]
    by (simp add: awaiting_def ack_def ok_ack_def s_def set_id_def)
  have d: "mu_decree (store_of s 0) = 8" by (simp add: s_def set_id_def)
  have "set [8, 9] \<subseteq> set (pc_secondaries (px_pc (primary_states s)))" by (simp add: s_def)
  with commit_needs_all_acks [OF a, of "[8]" example_env "replica_committer example_env 1"]
    commit_needs_all_acks [OF a, of "[8, 9]" example_env "replica_committer example_env 1"] d a
  show ?thesis by (intro exI [of _ s] exI [of _ ack]) simp
qed

theorem init_prepare_round_witness:
  "\<exists>s s' m1. init_prepare example_env (replica_committer example_env 1) 0 False False s = Inr s' \<and>
     mu_decree m1 = 8 \<and> mu_ballot m1 = 3 \<and> prepared (plist_of s) 8 0 (plist_of s') \<and>
     r_effects (repl s') = prepare_messages (repl s) False (sent_mutation example_env (repl s) m1) @ [Append_log 0]"
proof -
  define s :: rstate where "s = (prepare_list_init 7 4, (\<lambda>_. example_mutation), example_replica PS_PRIMARY)"
  have facts: "pl_last_committed_decree (prepare_list_init 7 4) = 7" "capacity (pl_cache (prepare_list_init 7 4)) = 4"
    "pl_map (prepare_list_init 7 4) = Map.empty" "max_decree (pl_cache (prepare_list_init 7 4)) = 7"
    using init_facts [of 4 7] by simp_all
  have "\<exists>s' m1. init_prepare example_env (replica_committer example_env 1) 0 False False s = Inr s' \<and>
    mu_decree m1 = max_prepared s + 1 \<and> mu_ballot m1 = ballot_of s \<and> mu_last_committed_decree m1 = lcd s \<and>
    mu_updates m1 = mu_updates (store_of s 0) \<and> mu_client_requests m1 = mu_client_requests (store_of s 0) \<and>
    store_of s' = (store_of s)(0 := (waiting_mutation example_env (repl s) m1)\<lparr>mu_log_task := True\<rparr>) \<and>
    bounded_plist (store_of s') (plist_of s') \<and> prepared (plist_of s) (max_prepared s + 1) 0 (plist_of s') \<and>
    r_effects (repl s') = r_effects (repl s) @
      prepare_messages (repl s) False (sent_mutation example_env (repl s) m1) @ [Append_log 0]"
  proof (rule init_prepare_round)
    show "bounded_plist (store_of s) (plist_of s)" unfolding s_def by (simp add: bounded_init)
    show "lru_exact (px_write_queue (primary_states s))" by (simp add: s_def lru_exact_def locks_wf_def)
    show "writes_ok (queue_env_of example_env s) (mu_client_requests (store_of s 0))"
      by (simp add: s_def example_mutation_def writes_ok_def queue_env_of_def example_env_def example_write_def)
  qed (simp_all add: s_def facts example_mutation_def mutation_init_def empty_header_def is_splitting_def is_logged_def
      example_env_def members_missing_def too_few_members_def app_mutation_2pc_min_replica_count_def check_def to_int32_def)
  moreover have "max_prepared s = 7" "ballot_of s = 3" "r_effects (repl s) = []"
    using facts by (simp_all add: s_def)
  ultimately have "\<exists>s' m1. init_prepare example_env (replica_committer example_env 1) 0 False False s = Inr s' \<and>
    mu_decree m1 = 8 \<and> mu_ballot m1 = 3 \<and> prepared (plist_of s) 8 0 (plist_of s') \<and>
    r_effects (repl s') = prepare_messages (repl s) False (sent_mutation example_env (repl s) m1) @ [Append_log 0]" by fastforce
  then show ?thesis by (rule exI [of _ s])
qed

theorem secondary_acks_and_applies_witness:
  "\<exists>s s'. on_append_log_completed example_env (replica_committer example_env 1) 1 ERR_OK s = Inr s' \<and>
     r_effects (repl s') = [Reply_prepare 5 (ok_ack s (store_of s 1)), Apply 8] \<and> lcd s' = 8 \<and> r_app_decree (repl s') = 8"
proof -
  define h where "h = (\<lambda>p :: nat. if p = 0 then (set_id 3 8 example_mutation)\<lparr>mu_not_logged := 0\<rparr>
    else (set_id 3 9 example_mutation)\<lparr>mu_header := (mu_header (set_id 3 9 example_mutation))\<lparr>h_last_committed_decree := 8\<rparr>\<rparr>)"
  have "mu_decree (h 0) = 8" by (simp add: h_def set_id_def)
  then obtain pl where pl: "bounded_plist h pl" "pl_last_committed_decree pl = 7" "pl_map pl = [8 \<mapsto> 0]"
    using sample_list_decree by metis
  define s :: rstate where "s = (pl, h, example_replica PS_SECONDARY)"
  have eq: "on_append_log_completed example_env (replica_committer example_env (Suc 0)) 1 ERR_OK s =
    Inr ((plist_of s)\<lparr>pl_last_committed_decree := mu_last_committed_decree (store_of s 1)\<rparr>,
      (store_of s)(1 := (store_of s 1)\<lparr>mu_not_logged := 0\<rparr>), (repl s)\<lparr>r_app_decree := mu_last_committed_decree (store_of s 1),
      r_effects := r_effects (repl s) @
        (if mu_wait_child (store_of s 1) then []
         else map (\<lambda>r. Reply_prepare r (ok_ack s (store_of s 1))) (mu_prepare_requests (store_of s 1))) @
        map Apply [lcd s + 1..mu_last_committed_decree (store_of s 1)]\<rparr>)"
    by (rule secondary_acks_and_applies [where ps = "[0]"])
      (use pl in \<open>auto simp: s_def h_def set_id_def bounded_plist_def applying_secondary_def example_env_def
        secondary_context_init_def example_mutation_def mutation_init_def is_logged_def well_sized_def\<close>)
  have "mu_last_committed_decree (store_of s 1) = 8" "\<not> mu_wait_child (store_of s 1)"
    "mu_prepare_requests (store_of s 1) = [5]" "lcd s = 7" "r_effects (repl s) = []"
    using pl by (simp_all add: s_def h_def set_id_def example_mutation_def mutation_init_def)
  with eq have "on_append_log_completed example_env (replica_committer example_env 1) 1 ERR_OK s =
    Inr ((plist_of s)\<lparr>pl_last_committed_decree := 8\<rparr>, (store_of s)(1 := (store_of s 1)\<lparr>mu_not_logged := 0\<rparr>),
      (repl s)\<lparr>r_app_decree := 8, r_effects := [Reply_prepare 5 (ok_ack s (store_of s 1)), Apply 8]\<rparr>)" by simp
  then show ?thesis by (intro exI conjI) (assumption, simp_all)
qed

end
