(* ===== verification/Reconfiguration.thy ===== *)
theory Reconfiguration
  imports Meta_Run Replica_Commit
begin

text \<open>
  The two sides of a reconfiguration together: the proposal that the meta server sends for a
  partition, the request that a replica server builds from it, and what the meta server does
  with the request.
\<close>

section \<open>Requests on the wire\<close>

text \<open>
  A replica server copies the configuration of the proposal and changes its members, so the
  last drops and the flags are those of the meta server.
\<close>

definition meta_request :: "meta_configuration \<Rightarrow> config_type \<Rightarrow> node \<Rightarrow> partition_configuration \<Rightarrow> update_request" where
  "meta_request pc t n new =
     \<lparr>ur_type = t, ur_node = Some n,
      ur_config = pc\<lparr>pc_pid := pc_pid new, pc_ballot := pc_ballot new, pc_max_replica_count := pc_max_replica_count new,
        pc_primary := pc_primary new, pc_secondaries := pc_secondaries new,
        pc_last_committed_decree := pc_last_committed_decree new\<rparr>\<rparr>"

text \<open>The request that a replica server sent last, if it waits for the reply of the meta server.\<close>

definition sent_request :: "rstate \<Rightarrow> (config_type \<times> node \<times> partition_configuration) option" where
  "sent_request s =
     (if px_reconfiguration_task (primary_states s) = None \<or> r_effects (repl s) = [] then None
      else case last (r_effects (repl s)) of Update_config_on_meta t n pc \<Rightarrow> Some (t, n, pc) | _ \<Rightarrow> None)"

lemma update_configuration_sent:
  assumes "update_configuration_on_meta_server env cm t n pc s = Inr s'"
  shows "sent_request s' = Some (t, n, pc\<lparr>pc_last_committed_decree := lcd s, pc_ballot := pc_ballot pc + 1\<rparr>)"
  using assms
  by (auto simp: update_configuration_on_meta_server_def sent_request_def Let_def result_simps emit_def map_replica_def
      split: prod.splits)

section \<open>Handling a proposal\<close>

definition proposal_of :: "meta_configuration \<Rightarrow> configuration_proposal_action \<Rightarrow> bool \<Rightarrow> configuration_update_request" where
  "proposal_of pc act dup =
     \<lparr>cu_type = pa_type act, cu_node = the (pa_node act), cu_config = partition_configuration.truncate pc, cu_duplicating = dup\<rparr>"

text \<open>The status of every member of the group, as the primary keeps it.\<close>

definition statuses_ok :: "meta_configuration \<Rightarrow> primary_context \<Rightarrow> bool" where
  "statuses_ok pc px \<longleftrightarrow>
     (\<forall>n. is_member pc n \<longrightarrow> get_node_status px n = (if is_primary pc n then PS_PRIMARY else PS_SECONDARY))"

lemma assign_primary_request:
  assumes "assign_primary env cm proposal s = Inr s'" "px_reconfiguration_task (primary_states s) = None"
    "px_reconfiguration_task (primary_states s') \<noteq> None"
  shows "cu_node proposal = re_node env \<and> (\<exists>d. sent_request s' = Some (cu_type proposal, cu_node proposal,
    (cu_config proposal)\<lparr>pc_primary := Some (re_node env),
      pc_secondaries := remove1 (re_node env) (pc_secondaries (cu_config proposal)),
      pc_last_committed_decree := d, pc_ballot := pc_ballot (cu_config proposal) + 1\<rparr>))"
  using assms
  by (auto simp: assign_primary_def remove_secondary_def result_simps split: if_splits dest!: update_configuration_sent)

lemma downgrade_to_secondary_request:
  assumes "downgrade_to_secondary_on_primary env cm proposal s = Inr s'" "px_reconfiguration_task (primary_states s) = None"
    "px_reconfiguration_task (primary_states s') \<noteq> None"
  shows "pc_primary (cu_config proposal) = Some (cu_node proposal) \<and> (\<exists>d. sent_request s' = Some (CT_DOWNGRADE_TO_SECONDARY,
    cu_node proposal, (cu_config proposal)\<lparr>pc_primary := None,
      pc_secondaries := pc_secondaries (cu_config proposal) @ [cu_node proposal],
      pc_last_committed_decree := d, pc_ballot := pc_ballot (cu_config proposal) + 1\<rparr>))"
  using assms
  by (auto simp: downgrade_to_secondary_on_primary_def check_same_group_def result_simps Let_def
      split: if_splits dest!: update_configuration_sent)

text \<open>The configuration without a member, as \<open>downgrade_to_inactive_on_primary\<close> and \<open>remove\<close> build it.\<close>

definition without_member :: "node \<Rightarrow> partition_configuration \<Rightarrow> partition_configuration" where
  "without_member n pc =
     (if pc_primary pc = Some n then pc\<lparr>pc_primary := None\<rparr> else pc\<lparr>pc_secondaries := remove1 n (pc_secondaries pc)\<rparr>)"

lemma downgrade_to_inactive_request:
  assumes "downgrade_to_inactive_on_primary env cm proposal s = Inr s'" "px_reconfiguration_task (primary_states s) = None"
    "px_reconfiguration_task (primary_states s') \<noteq> None"
  shows "\<exists>d. sent_request s' = Some (CT_DOWNGRADE_TO_INACTIVE, cu_node proposal,
    (without_member (cu_node proposal) (cu_config proposal))\<lparr>pc_last_committed_decree := d,
      pc_ballot := pc_ballot (cu_config proposal) + 1\<rparr>)"
  using assms
  by (auto simp: downgrade_to_inactive_on_primary_def without_member_def remove_secondary_def result_simps Let_def
      split: if_splits dest!: update_configuration_sent)

lemma remove_member_request:
  assumes "remove_member env cm proposal s = Inr s'" "px_reconfiguration_task (primary_states s) = None"
    "px_reconfiguration_task (primary_states s') \<noteq> None"
    and member: "get_node_status (primary_states s) (cu_node proposal) =
      (if pc_primary (cu_config proposal) = Some (cu_node proposal) then PS_PRIMARY else PS_SECONDARY)"
  shows "\<exists>d. sent_request s' = Some (CT_REMOVE, cu_node proposal,
    (without_member (cu_node proposal) (cu_config proposal))\<lparr>pc_last_committed_decree := d,
      pc_ballot := pc_ballot (cu_config proposal) + 1\<rparr>)"
  using assms
  by (auto simp: remove_member_def without_member_def remove_secondary_def result_simps Let_def
      split: if_splits dest!: update_configuration_sent)

lemma add_potential_secondary_task:
  "add_potential_secondary proposal s = Inr s' \<Longrightarrow>
     px_reconfiguration_task (primary_states s') = px_reconfiguration_task (primary_states s)"
  by (auto simp: add_potential_secondary_def emit_def map_replica_def result_simps Let_def split: if_splits option.splits)

text \<open>The members of a request that a replica server builds, and that the meta server may install it.\<close>

definition acceptable :: "meta_configuration \<Rightarrow> update_request \<Rightarrow> bool" where
  "acceptable pc request \<longleftrightarrow> request_ok pc request \<and> request_check pc request \<and> pc_ballot (ur_config request) = pc_ballot pc + 1"

lemma without_member_acceptable:
  assumes "pc_wf pc" "is_member pc n" "t = CT_DOWNGRADE_TO_INACTIVE \<or> t = CT_REMOVE"
  shows "acceptable pc (meta_request pc t n
    ((without_member n (partition_configuration.truncate pc))\<lparr>pc_last_committed_decree := d, pc_ballot := pc_ballot pc + 1\<rparr>))"
  using assms
  by (auto simp: acceptable_def meta_request_def without_member_def request_ok_def request_check_def members_change_def pc_wf_def
      is_member_def is_primary_def is_secondary_def partition_configuration.truncate_def Let_def)

lemma assign_acceptable:
  assumes "pc_wf pc" "pc_primary pc = None" "t = CT_ASSIGN_PRIMARY \<and> \<not> is_secondary pc n \<or> t = CT_UPGRADE_TO_PRIMARY \<and> is_secondary pc n"
  shows "acceptable pc (meta_request pc t n ((partition_configuration.truncate pc)\<lparr>pc_primary := Some n,
    pc_secondaries := remove1 n (pc_secondaries pc), pc_last_committed_decree := d, pc_ballot := pc_ballot pc + 1\<rparr>))"
  using assms
  by (auto simp: acceptable_def meta_request_def request_ok_def request_check_def members_change_def pc_wf_def
      is_secondary_def partition_configuration.truncate_def Let_def)

lemma downgrade_acceptable:
  assumes "pc_wf pc" "pc_primary pc = Some n"
  shows "acceptable pc (meta_request pc CT_DOWNGRADE_TO_SECONDARY n ((partition_configuration.truncate pc)\<lparr>pc_primary := None,
    pc_secondaries := pc_secondaries pc @ [n], pc_last_committed_decree := d, pc_ballot := pc_ballot pc + 1\<rparr>))"
  using assms
  by (auto simp: acceptable_def meta_request_def request_ok_def request_check_def members_change_def pc_wf_def
      is_secondary_def partition_configuration.truncate_def Let_def)

section \<open>The dispatch of a proposal\<close>

lemma meta_okD: "meta_ok m \<Longrightarrow> m_parts m pid = Some p \<Longrightarrow> pc_pid (ps_pc p) = pid \<and> pc_wf (ps_pc p)"
  by (simp add: meta_ok_def del: split_paired_All)

text \<open>The switch of \<open>on_config_proposal\<close>, once the view of the proposal is installed.\<close>

definition handle_proposal :: "replica_env \<Rightarrow> replica committer \<Rightarrow> configuration_update_request \<Rightarrow> rstate \<Rightarrow> rstate result" where
  "handle_proposal env cm proposal s =
     (case cu_type proposal of
        CT_ASSIGN_PRIMARY \<Rightarrow> assign_primary env cm proposal s
      | CT_UPGRADE_TO_PRIMARY \<Rightarrow> assign_primary env cm proposal s
      | CT_ADD_SECONDARY \<Rightarrow> add_potential_secondary proposal s
      | CT_ADD_SECONDARY_FOR_LB \<Rightarrow> add_potential_secondary proposal s
      | CT_DOWNGRADE_TO_SECONDARY \<Rightarrow> downgrade_to_secondary_on_primary env cm proposal s
      | CT_DOWNGRADE_TO_INACTIVE \<Rightarrow> downgrade_to_inactive_on_primary env cm proposal s
      | CT_REMOVE \<Rightarrow> remove_member env cm proposal s
      | _ \<Rightarrow> Inl (Check_failed ''invalid config_type''))"

lemma on_config_proposal_handles:
  assumes "px_reconfiguration_task (primary_states s) = None" "ballot_of s \<le> pc_ballot (cu_config proposal)"
    "(if ballot_of s < pc_ballot (cu_config proposal) then update_configuration env cm (cu_config proposal) s
      else Inr (True, s)) = Inr (True, s1)"
  shows "on_config_proposal env cm proposal s =
    handle_proposal env cm proposal (map_replica (\<lambda>r. r\<lparr>r_duplicating := cu_duplicating proposal\<rparr>) s1)"
  using assms unfolding on_config_proposal_def handle_proposal_def Let_def
  by (cases "ballot_of s < pc_ballot (cu_config proposal)") simp_all

lemma truncate_fields [simp]:
  "pc_ballot (partition_configuration.truncate pc) = pc_ballot pc" "pc_primary (partition_configuration.truncate pc) = pc_primary pc"
  "pc_secondaries (partition_configuration.truncate pc) = pc_secondaries pc"
  by (simp_all add: partition_configuration.truncate_def)

lemma proposal_of_fields [simp]:
  "cu_type (proposal_of pc act dup) = pa_type act" "cu_node (proposal_of pc act dup) = the (pa_node act)"
  "cu_config (proposal_of pc act dup) = partition_configuration.truncate pc"
  by (simp_all add: proposal_of_def)

lemma handled_acceptable:
  assumes wf: "pc_wf pc" and act: "action_valid nodes pc la act" "pa_target act = Some (re_node env)" "pa_node act = Some n"
    and run: "handle_proposal env cm (proposal_of pc act dup) s = Inr s'"
    and task: "px_reconfiguration_task (primary_states s) = None" "px_reconfiguration_task (primary_states s') \<noteq> None"
    and statuses: "pa_type act = CT_REMOVE \<longrightarrow> statuses_ok pc (primary_states s)"
  shows "\<exists>t new. sent_request s' = Some (t, n, new) \<and> acceptable pc (meta_request pc t n new)"
proof -
  consider "pa_type act = CT_ASSIGN_PRIMARY \<or> pa_type act = CT_UPGRADE_TO_PRIMARY" |
    "is_adding_secondary (pa_type act)" | "pa_type act = CT_DOWNGRADE_TO_SECONDARY" |
    "pa_type act = CT_DOWNGRADE_TO_INACTIVE" | "pa_type act = CT_REMOVE"
    using act by (cases "pa_type act") (auto simp: action_valid_def is_adding_secondary_def)
  then show ?thesis
  proof cases
    case 1
    with run have "assign_primary env cm (proposal_of pc act dup) s = Inr s'" by (auto simp: handle_proposal_def)
    from assign_primary_request [OF this task] 1 act show ?thesis
      using assign_acceptable [OF wf, of "pa_type act" n] by (auto simp: action_valid_def)
  next
    case 2
    with run have "add_potential_secondary (proposal_of pc act dup) s = Inr s'"
      by (auto simp: is_adding_secondary_def handle_proposal_def)
    with add_potential_secondary_task task show ?thesis by fastforce
  next
    case 3
    with run have "downgrade_to_secondary_on_primary env cm (proposal_of pc act dup) s = Inr s'" by (simp add: handle_proposal_def)
    from downgrade_to_secondary_request [OF this task] act(3) show ?thesis using downgrade_acceptable [OF wf] by auto
  next
    case 4
    with run have "downgrade_to_inactive_on_primary env cm (proposal_of pc act dup) s = Inr s'" by (simp add: handle_proposal_def)
    from downgrade_to_inactive_request [OF this task] act 4 show ?thesis
      using without_member_acceptable [OF wf] by (auto simp: action_valid_def)
  next
    case 5
    with run have "remove_member env cm (proposal_of pc act dup) s = Inr s'" by (simp add: handle_proposal_def)
    moreover have member: "is_member pc n" using act 5 by (auto simp: action_valid_def)
    moreover have "get_node_status (primary_states s) n = (if pc_primary pc = Some n then PS_PRIMARY else PS_SECONDARY)"
      using statuses 5 member by (auto simp: statuses_ok_def is_primary_def)
    ultimately show ?thesis
      using remove_member_request [of env cm "proposal_of pc act dup" s s'] task act(3) without_member_acceptable [OF wf member]
      by auto
  qed
qed

section \<open>The reply of the meta server\<close>

lemma acceptable_accepted:
  assumes ok: "meta_ok m" and p: "m_parts m pid = Some p" "m_apps m (fst pid) \<noteq> None" "cc_stage (ps_cc p) = not_pending"
    and req: "acceptable (ps_pc p) request" "ur_node request = Some n"
  shows "\<exists>m' p' r. on_update_configuration env request msg m = Inr m' \<and> m_parts m' pid = Some p' \<and>
    cc_pending_sync_request (ps_cc p') = Some r \<and> update_ok (ps_pc p) r"
proof -
  have pok: "pc_wf (ps_pc p)" "pc_pid (ps_pc p) = pid" using meta_okD [OF ok p(1)] by simp_all
  have r: "request_ok (ps_pc p) request" "pc_ballot (ur_config request) = pc_ballot (ps_pc p) + 1" "pc_pid (ur_config request) = pid"
    using req(1) pok(2) by (auto simp: acceptable_def request_ok_def)
  obtain a where gp: "get_app_partition pid m = Inr (a, p)" using p by (auto simp: get_app_partition_def)
  have "n \<notin> set (pc_last_drops (ur_config request))" if "when_update_replicas (ur_type request) = Some False"
    using that r(1) req(2) pok(1)
    by (cases "ur_type request") (auto simp: when_update_replicas_def request_ok_def members_change_def pc_wf_def Let_def)
  then have "\<exists>drops. maintain_drops (pc_last_drops (ur_config request)) n (ur_type request) = Inr drops"
    by (cases "when_update_replicas (ur_type request)"; cases "the (when_update_replicas (ur_type request))")
      (simp_all add: maintain_drops_def Let_def)
  then obtain drops where drops: "maintain_drops (pc_last_drops (ur_config request)) n (ur_type request) = Inr drops" ..
  let ?r = "request\<lparr>ur_config := (ur_config request)\<lparr>pc_last_drops := drops\<rparr>\<rparr>"
  have "on_update_configuration env request msg m = Inr (start_sync env pid p ?r (Some msg) m)"
    using gp p(3) r req(2) drops by (simp add: on_update_configuration_def is_partition_config_equal_def Let_def)
  moreover have "\<exists>p'. m_parts (start_sync env pid p ?r (Some msg) m) pid = Some p' \<and> cc_pending_sync_request (ps_cc p') = Some ?r"
    by (simp add: start_sync_def put_context_def update_configuration_on_remote_def meta_emit_def)
  ultimately show ?thesis using request_update_ok [OF pok(1) r(1,2) req(2) drops] by blast
qed

text \<open>
  C6.
  A replica server that acts on a valid proposal of the meta server sends a request that the
  meta server accepts: the request passes the checks of the meta server, changes the group by
  the proposed member only, carries the next ballot, and becomes the pending update of the
  partition that may be installed once it is stored.
\<close>

theorem proposal_request_accepted:
  assumes meta: "meta_ok m" "m_parts m pid = Some p" "m_apps m (fst pid) \<noteq> None" "cc_stage (ps_cc p) = not_pending"
    and act: "action_valid (m_nodes m) (ps_pc p) la act" "pa_target act = Some (re_node env)"
    and handled: "on_config_proposal env cm (proposal_of (ps_pc p) act dup) s = Inr s'"
      "px_reconfiguration_task (primary_states s') \<noteq> None" "px_reconfiguration_task (primary_states s) = None"
    and view: "ballot_of s \<le> pc_ballot (ps_pc p)"
      "(if ballot_of s < pc_ballot (ps_pc p) then update_configuration env cm (partition_configuration.truncate (ps_pc p)) s
        else Inr (True, s)) = Inr (True, s1)"
      "px_reconfiguration_task (primary_states s1) = None" "pa_type act = CT_REMOVE \<longrightarrow> statuses_ok (ps_pc p) (primary_states s1)"
  shows "\<exists>t n new. sent_request s' = Some (t, n, new) \<and> pa_node act = Some n \<and>
    (let request = meta_request (ps_pc p) t n new
     in acceptable (ps_pc p) request \<and>
        (\<exists>m' p' r. on_update_configuration menv request msg m = Inr m' \<and> m_parts m' pid = Some p' \<and>
           cc_pending_sync_request (ps_cc p') = Some r \<and> update_ok (ps_pc p) r))"
proof -
  let ?s = "map_replica (\<lambda>r. r\<lparr>r_duplicating := dup\<rparr>) s1"
  have s2: "primary_states ?s = primary_states s1" by (simp add: map_replica_def)
  from act(1) obtain n where n: "pa_node act = Some n" by (auto simp: action_valid_def split: option.splits)
  have "handle_proposal env cm (proposal_of (ps_pc p) act dup) ?s = Inr s'"
    using handled(1) on_config_proposal_handles [of s "proposal_of (ps_pc p) act dup" env cm s1, unfolded proposal_of_fields truncate_fields,
      OF handled(3) view(1,2)] by (simp add: proposal_of_def)
  from handled_acceptable [OF _ act n this, unfolded s2, OF _ view(3) handled(2) view(4)] meta_okD [OF meta(1,2)]
  obtain t new where new: "sent_request s' = Some (t, n, new)" "acceptable (ps_pc p) (meta_request (ps_pc p) t n new)" by blast
  have "ur_node (meta_request (ps_pc p) t n new) = Some n" by (simp add: meta_request_def)
  from acceptable_accepted [OF meta new(2) this, of menv msg] new n show ?thesis unfolding Let_def by blast
qed

text \<open>A table of one replica is created: its only node is assigned, sends the request and is to be installed as the primary.\<close>

definition new_pc :: meta_configuration where
  "new_pc = \<lparr>pc_pid = (1, 0), pc_ballot = 0, pc_max_replica_count = 1, pc_primary = None, pc_secondaries = [],
     pc_last_committed_decree = 0, pc_last_drops = [], pc_partition_flags = 0\<rparr>"

definition new_table :: meta where
  "new_table = (sample_meta new_pc config_context_init)\<lparr>m_nodes := [(7, sample_node)]\<rparr>"

lemma new_table_ok: "meta_ok new_table"
proof -
  have "\<not> is_member new_pc n" "role_in new_pc n = (False, False)" for n
    by (simp_all add: new_pc_def is_member_def is_primary_def is_secondary_def role_in_def)
  then show ?thesis
    by (simp add: meta_ok_def new_table_def pc_wf_def served_ok_def served_by_def context_ok_def history_ok_def del: split_paired_All)
      (simp add: new_pc_def sample_node_def node_state_init_def config_context_init_def)
qed

theorem proposal_request_accepted_witness:
  "\<exists>s s' t new m' p' r. example_start = Inr s \<and> example_assign s = Inr s' \<and> sent_request s' = Some (t, 7, new) \<and>
     on_update_configuration Guardian_Cure.sample_env (meta_request new_pc t 7 new) 1 new_table = Inr m' \<and>
     m_parts m' (1, 0) = Some p' \<and> cc_pending_sync_request (ps_cc p') = Some r \<and> update_ok new_pc r"
proof -
  let ?act = "primary_action CT_ASSIGN_PRIMARY 7" and ?p = "\<lparr>ps_pc = new_pc, ps_cc = config_context_init\<rparr>"
  obtain s s' where s: "example_start = Inr s" "example_assign s = Inr s'" "ballot_of s = 0"
    "px_reconfiguration_task (primary_states s) = None" "px_reconfiguration_task (primary_states s') \<noteq> None"
    by (simp add: example_defs replica_eval cong: bind_result_weak_cong)
  have "proposal_of new_pc ?act False =
      \<lparr>cu_type = CT_ASSIGN_PRIMARY, cu_node = 7, cu_config = example_group, cu_duplicating = False\<rparr>"
    by (simp add: proposal_of_def primary_action_def example_group_def no_configuration_def new_pc_def partition_configuration.truncate_def)
  then have run: "on_config_proposal example_env (replica_committer example_env 1) (proposal_of (ps_pc ?p) ?act False) s = Inr s'"
    using s(2) by (simp add: example_assign_def)
  have meta: "m_parts new_table (1, 0) = Some ?p" "m_apps new_table (fst (1, 0)) \<noteq> None" "cc_stage (ps_cc ?p) = not_pending"
    by (simp_all add: new_table_def config_context_init_def)
  have "action_valid (m_nodes new_table) (ps_pc ?p) (cc_lb_actions config_context_init) ?act" "pa_target ?act = Some (re_node example_env)"
    by (simp_all add: action_valid_def primary_action_def new_table_def is_node_alive_def sample_node_def new_pc_def is_secondary_def
        example_env_def config_context_init_def proposal_actions_init_def reset_tracked_current_learner_def is_abnormal_learning_proposal_def)
  from proposal_request_accepted [OF new_table_ok meta this run s(5,4), of s] show ?thesis
    using s by (fastforce simp: Let_def primary_action_def new_pc_def)
qed

end
