(* ===== verification/Meta_Defects.thy ===== *)
theory Meta_Defects
  imports Meta_Run
begin

text \<open>
  Two sequences of legal operations after which the meta server aborts: a member of a dropped
  table that the last drops do not hold keeps serving the table, and a lowered replica count
  makes the report of a dropped replica fail a check.
\<close>

section \<open>Members of a dropped table\<close>

lemma dropped_first_member:
  assumes "drop_members (n # ns) drops = Inr drops'" "length drops \<le> 3" "distinct (n # ns)" "3 \<le> length ns"
  shows "n \<notin> set drops'"
proof -
  have "drops' = drop (length (drops @ n # ns) - 3) (drops @ n # ns)" using drop_members_eq [OF assms(1,2)] assms(1) by simp
  also have "\<dots> = drop (length ns - 3) ns" using assms(4) by (simp add: drop_Cons')
  finally have "set drops' \<subseteq> set ns" by (simp add: set_drop_subset)
  with assms(3) show ?thesis by auto
qed

lemma drop_reply_served:
  assumes reply: "on_update_configuration_on_remote_reply env ERR_OK request m = Inr m'"
    and request: "ur_type request = CT_DROP_PARTITION" "pc_pid (ur_config request) = pid"
    and n: "n \<notin> set (pc_last_drops (ur_config request))"
  shows "served_by (m_nodes m') pid n = served_by (m_nodes m) pid n \<and> m_parts m' pid \<noteq> None"
proof -
  from reply request obtain a p m1 m2 m3 where gp: "get_app_partition pid m = Inr (a, p)"
    and m1: "update_configuration_locally env a p request m = Inr m1" and m2: "finish_sync request m1 = Inr m2"
    and m3: "reconfig env request m2 = Inr m3" and m': "process_one_partition (fst pid) a m3 = Inr m'"
    by (auto simp: on_update_configuration_on_remote_reply_def result_simps split: prod.splits)
  have nodes1: "m_nodes m1 = fold (\<lambda>n. update_node n (remove_partition pid False)) (pc_last_drops (ur_config request)) (m_nodes m)"
    "m_parts m1 pid = Some (p\<lparr>ps_pc := ur_config request\<rparr>)"
    using m1 request by (auto simp: update_configuration_locally_def update_served_def result_simps Let_def)
  obtain q where nodes2: "m_nodes m2 = m_nodes m1" "m_parts m2 pid = Some q"
    using m2 request nodes1
    by (auto simp: finish_sync_def get_app_partition_def put_context_def meta_emit_def Let_def result_simps split: option.splits)
  from reconfig_outcome [OF m3] nodes2 request obtain nodes cc where "nodes_keep (m_nodes m2) nodes"
    "m3 = put_context pid q cc (m2\<lparr>m_nodes := nodes\<rparr>)" by metis
  then have "served_by (m_nodes m3) pid n = served_by (m_nodes m1) pid n" "m_parts m3 pid \<noteq> None"
    by (simp_all add: put_context_def nodes_keep_def nodes2)
  with process_one_partition_quiet [OF m'] n show ?thesis by (simp add: nodes1 served_by_fold_remove)
qed

text \<open>
  C33.
  The last drops of a configuration hold three nodes, and the drop of a partition is installed
  for the nodes of the last drops only. So after a table is dropped, the first secondary of a
  group of four or more members still serves the partition for the meta server, and when that
  node dies the meta server aborts at the check that no node serves a dropped table.
\<close>

theorem dropped_member_still_served:
  assumes ok: "meta_ok m" and drop: "drop_partition env pid m = Inr m1" and p: "m_parts m pid = Some p"
    and pc: "pc_secondaries (ps_pc p) = n # ns" "pc_primary (ps_pc p) = Some q" "2 \<le> length ns"
    and pending: "m_parts m1 pid = Some p1" "cc_pending_sync_request (ps_cc p1) = Some request"
    and reply: "on_update_configuration_on_remote_reply env' ERR_OK request m1 = Inr m2"
    and app: "m_apps m2 (fst pid) = Some app" "as_status app = AS_DROPPED"
  shows "served_by (m_nodes m2) pid n = (False, True) \<and>
    partitions_node_dead env'' (pid # pids) n m2 = Inl (Check_failed ''invalid app'')"
proof -
  let ?pc = "ps_pc p"
  have pok: "pc_pid ?pc = pid" "pc_wf ?pc" "served_ok (m_nodes m) pid ?pc" using ok p by (auto simp: meta_ok_def)
  from drop p obtain a where gp: "get_app_partition pid m = Inr (a, p)"
    by (auto simp: drop_partition_def get_app_partition_def split: option.splits)
  from drop gp pc obtain drops cc where drops: "drop_members (n # ns @ [q]) (pc_last_drops ?pc) = Inr drops"
    and m1: "m1 = start_sync env pid (p\<lparr>ps_cc := cc\<rparr>) \<lparr>ur_type = CT_DROP_PARTITION, ur_node = Some q,
      ur_config = ?pc\<lparr>pc_last_drops := drops, pc_primary := None, pc_secondaries := [],
        pc_partition_flags := set_bit 0 (pc_partition_flags ?pc), pc_ballot := pc_ballot ?pc + 1\<rparr>\<rparr> None m"
    by (auto simp: drop_partition_def result_simps Let_def simp del: drop_members.simps)
  have "n \<notin> set drops" using pok(2) pc by (intro dropped_first_member [OF drops]) (auto simp: pc_wf_def)
  moreover have request: "ur_type request = CT_DROP_PARTITION" "pc_pid (ur_config request) = pid"
    "pc_last_drops (ur_config request) = drops" and nodes: "m_nodes m1 = m_nodes m"
    using pending m1 pok(1)
    by (auto simp: start_sync_def update_configuration_on_remote_def put_context_def meta_emit_def split: if_splits)
  ultimately have served: "served_by (m_nodes m2) pid n = served_by (m_nodes m) pid n" "m_parts m2 pid \<noteq> None"
    using drop_reply_served [OF reply request(1,2)] by simp_all
  have "served_by (m_nodes m) pid n = (False, True)"
    using pok pc by (auto simp: served_ok_def role_in_def pc_wf_def is_member_def is_primary_def is_secondary_def)
  with served app show ?thesis by simp
qed

section \<open>Lowered replica counts\<close>

text \<open>
  C34.
  Lowering the replica count of a partition leaves its drop history as long as it was. When
  the history is then longer than its new bound, the next report of the replica that was dropped
  first makes the meta server abort.
\<close>

theorem lowered_replica_count_aborts:
  assumes lower: "update_partition_max_replica_count_locally new_pc m = Inr m'"
    and p: "m_parts m (pc_pid new_pc) = Some p" "history_ok (ps_cc p)" "cc_dropped (ps_cc p) = d # ds"
    and oldest: "\<forall>x \<in> set ds. dr_time d < dr_time x"
    and bound: "drop_room (me_max_reserved_dropped_replicas env) new_pc < int (length (d # ds))"
    and app: "m_apps m (fst (pc_pid new_pc)) = Some app" "as_status app = AS_AVAILABLE"
      "snd (pc_pid new_pc) < as_partition_count app"
    and rep: "ri_pid info = pc_pid new_pc" "pc_ballot new_pc \<noteq> invalid_ballot" "\<not> is_member new_pc (dr_node d)"
      "list_all (\<lambda>act. pa_node act \<noteq> None) (la_acts (cc_lb_actions (ps_cc p)))"
  shows "collect_stored env (dr_node d) info (m', gc) =
    Inl (Check_failed ''adjust position of existing node failed, this is a bug'')"
proof -
  let ?n = "dr_node d" and ?cc = "ps_cc p" and ?reserved = "me_max_reserved_dropped_replicas env"
  obtain la where la: "track_current_learner ?n info (cc_lb_actions ?cc) = Inr la"
    using track_current_learner_total [OF rep(4)] by blast
  define cc1 where "cc1 = ?cc\<lparr>cc_lb_actions := la\<rparr>"
  have cc1: "history_ok cc1" "cc_dropped cc1 = d # ds" using p by (simp_all add: cc1_def history_ok_def)
  have old: "find_from_dropped ?n cc1 = Some d" by (simp add: find_from_dropped_def cc1)
  have "filter (\<lambda>x. dr_node x \<noteq> ?n) (d # ds) = ds" using cc1 by (auto simp: history_ok_def rev_image_eqI intro!: filter_True)
  moreover have "insort_key dr_key (reported ?n info cc1) ds = reported ?n info cc1 # ds"
    using oldest by (intro insort_is_Cons) (auto simp: reported_def old dr_key_def less_imp_le)
  ultimately have "with_reported ?n info cc1 = reported ?n info cc1 # ds" by (simp add: with_reported_def cc1)
  moreover have "?n \<notin> dr_node ` set (drop k ds)" for k using cc1 by (auto simp: history_ok_def dest!: in_set_dropD)
  moreover have "nat (1 + int (length ds) - drop_room ?reserved new_pc) = Suc (nat (int (length ds) - drop_room ?reserved new_pc))"
    using bound by simp
  ultimately have "collect_drop_replica ?reserved new_pc ?n info cc1 =
      Inl (Check_failed ''adjust position of existing node failed, this is a bug'')"
    by (simp add: collect_drop_replica_eq [OF cc1(1)] find_from_dropped_None old Let_def)
  moreover have "get_partition (pc_pid new_pc) m' = Inr (p\<lparr>ps_pc := new_pc\<rparr>)" "m_apps m' = m_apps m"
    using lower p(1) app by (auto simp: update_partition_max_replica_count_locally_def get_app_partition_def get_partition_def
        result_simps split: option.splits)
  ultimately show ?thesis using app rep la
    by (simp add: collect_stored_def collect_replica_def adjust_proposal_def cc1_def Let_def)
qed

section \<open>Examples\<close>

text \<open>A table that is being dropped, whose only partition has the members 1 to 4.\<close>

definition wide_pc :: meta_configuration where
  "wide_pc = sample_pc\<lparr>pc_max_replica_count := 4, pc_secondaries := [2, 3, 4], pc_last_drops := []\<rparr>"

definition wide_meta :: meta where
  "wide_meta = (sample_meta wide_pc config_context_init)
     \<lparr>m_apps := [1 \<mapsto> \<lparr>as_status = AS_DROPPING, as_partition_count = 1, as_max_replica_count = 4, as_expire_second = 0,
        as_partitions_in_progress = 1, as_pending_response = None\<rparr>],
      m_nodes := (1, put_partition (1, 0) True sample_node) # map (\<lambda>n. (n, put_partition (1, 0) False sample_node)) [2, 3, 4]\<rparr>"

lemma wide_meta_ok: "meta_ok wide_meta"
proof -
  have "served_by (m_nodes wide_meta) (1, 0) n = role_in wide_pc n" for n
    by (auto simp: served_by_def wide_meta_def sample_meta_def sample_node_def node_state_init_def role_in_def wide_pc_def
        sample_pc_def is_member_def is_primary_def is_secondary_def)
  moreover have "pc_wf wide_pc" "pc_pid wide_pc = (1, 0)" "is_member wide_pc n \<longleftrightarrow> n \<in> {1, 2, 3, 4}" for n
    by (auto simp: pc_wf_def wide_pc_def sample_pc_def is_member_def is_primary_def is_secondary_def)
  moreover have "context_ok wide_pc config_context_init"
    by (simp add: context_ok_def history_ok_def config_context_init_def)
  ultimately show ?thesis by (auto simp: meta_ok_def served_ok_def wide_meta_def)
qed

theorem dropped_member_still_served_witness:
  "\<exists>m1 p1 request m2. drop_partition sample_env (1, 0) wide_meta = Inr m1 \<and> m_parts m1 (1, 0) = Some p1 \<and>
     cc_pending_sync_request (ps_cc p1) = Some request \<and>
     on_update_configuration_on_remote_reply sample_env ERR_OK request m1 = Inr m2 \<and>
     served_by (m_nodes m2) (1, 0) 2 = (False, True) \<and>
     partitions_node_dead sample_env [(1, 0)] 2 m2 = Inl (Check_failed ''invalid app'')"
proof -
  define request where "request = \<lparr>ur_type = CT_DROP_PARTITION, ur_node = Some 1, ur_config = wide_pc\<lparr>pc_last_drops := [3, 4, 1],
    pc_primary := None, pc_secondaries := [], pc_partition_flags := set_bit 0 0, pc_ballot := 5\<rparr>\<rparr>"
  define m1 where "m1 = start_sync sample_env (1, 0) \<lparr>ps_pc = wide_pc, ps_cc = config_context_init\<rparr> request None wide_meta"
  have pc: "pc_secondaries wide_pc = [2, 3, 4]" "pc_primary wide_pc = Some 1" "pc_last_drops wide_pc = []"
    "pc_partition_flags wide_pc = 0" "pc_ballot wide_pc = 4" "pc_pid wide_pc = (1, 0)" "pc_max_replica_count wide_pc = 4"
    by (simp_all add: wide_pc_def sample_pc_def)
  have cc: "cc_stage config_context_init = not_pending" "cc_dropped config_context_init = []"
    "la_acts (cc_lb_actions config_context_init) = []"
    by (simp_all add: config_context_init_def proposal_actions_init_def reset_tracked_current_learner_def)
  have app: "get_app_partition (1, 0) wide_meta = Inr (\<lparr>as_status = AS_DROPPING, as_partition_count = 1, as_max_replica_count = 4,
      as_expire_second = 0, as_partitions_in_progress = 1, as_pending_response = None\<rparr>,
      \<lparr>ps_pc = wide_pc, ps_cc = config_context_init\<rparr>)"
    by (simp add: get_app_partition_def wide_meta_def)
  have m1: "drop_partition sample_env (1, 0) wide_meta = Inr m1"
    by (simp add: drop_partition_def app pc cc maintain_drops_def when_update_replicas_def m1_def request_def)
  have m1_parts: "\<exists>cc1. m_parts m1 (1, 0) = Some \<lparr>ps_pc = wide_pc, ps_cc = cc1\<rparr> \<and> cc_pending_sync_request cc1 = Some request"
    by (simp add: m1_def start_sync_def put_context_def update_configuration_on_remote_def meta_emit_def)
  have "\<exists>m2 app. on_update_configuration_on_remote_reply sample_env ERR_OK request m1 = Inr m2 \<and>
      m_apps m2 1 = Some app \<and> as_status app = AS_DROPPED"
    by (simp add: on_update_configuration_on_remote_reply_def request_def m1_def start_sync_def put_context_def
        update_configuration_on_remote_def meta_emit_def get_app_partition_def get_partition_def wide_meta_def
        update_configuration_locally_def
        update_served_def finish_sync_def reconfig_def reconfig_drops_def process_one_partition_def
        transition_staging_state_def sample_env_def app_mutation_2pc_min_replica_count_def pc cc Let_def)
  moreover have "m_parts wide_meta (1, 0) = Some \<lparr>ps_pc = wide_pc, ps_cc = config_context_init\<rparr>" by (simp add: wide_meta_def)
  ultimately show ?thesis
    using m1_parts m1 pc dropped_member_still_served [OF wide_meta_ok m1, where n = 2 and ns = "[3, 4]" and q = 1] by fastforce
qed

text \<open>A group of two members and one dropped replica, whose replica count is lowered to two.\<close>

theorem lowered_replica_count_aborts_witness:
  "\<exists>m'. update_partition_max_replica_count_locally (sample_pc\<lparr>pc_max_replica_count := 2, pc_ballot := 5\<rparr>)
       (sample_meta sample_pc sample_cc) = Inr m' \<and>
     collect_stored (sample_env\<lparr>me_max_reserved_dropped_replicas := 0\<rparr>) 5 sample_info (m', []) =
       Inl (Check_failed ''adjust position of existing node failed, this is a bug'')"
proof -
  let ?new = "sample_pc\<lparr>pc_max_replica_count := 2, pc_ballot := 5\<rparr>" and ?m = "sample_meta sample_pc sample_cc"
  have new: "pc_pid ?new = (1, 0)" "is_member ?new n \<longleftrightarrow> n = 1 \<or> n = 2" "replica_count ?new = 2" for n
    by (auto simp: sample_pc_def is_member_def is_primary_def is_secondary_def replica_count_def)
  obtain m' where m': "update_partition_max_replica_count_locally ?new ?m = Inr m'"
    by (simp add: update_partition_max_replica_count_locally_def get_app_partition_def new)
  moreover have "history_ok sample_cc" by (simp add: history_ok_def)
  moreover have "ri_pid sample_info = (1, 0)" by (simp add: sample_info_def)
  ultimately show ?thesis
    using lowered_replica_count_aborts [OF m', where env = "sample_env\<lparr>me_max_reserved_dropped_replicas := 0\<rparr>"
        and p = "\<lparr>ps_pc = sample_pc, ps_cc = sample_cc\<rparr>" and d = "hd (cc_dropped sample_cc)" and ds = "[]"
        and info = sample_info and gc = "[]"] new
    by (simp add: drop_room_def)
qed

end
