(* ===== verification/Rocksdb_Wrapper.thy ===== *)
theory Rocksdb_Wrapper
  imports Key_Schema Value_Schema
begin

text \<open>
  The storage engine below the write service: \<^verbatim>\<open>src/src/server/rocksdb_wrapper.cpp\<close>.
  The wrapper encodes records, collects a write batch and hands it to RocksDB together
  with the decree of the mutation.

  RocksDB is a library of another project. It is the parameter \<open>rocks\<close>: what \<open>Get\<close>
  answers, whether an entry can be added to a write batch, and what \<open>Write\<close> does. What
  the code relies on is the hypothesis \<open>rocks_correct\<close>, the documented behaviour of
  \<open>Get\<close> and \<open>Write\<close>; \<open>rocks_healthy\<close> says that no call fails.
  The clock shows one time during an operation; metrics, logs and the fail points of tests are
  left out.
\<close>

section \<open>RocksDB\<close>

text \<open>Status codes are integers; the code compares them with these.\<close>

abbreviation (input) kOk :: int where "kOk \<equiv> 0"
abbreviation (input) kNotFound :: int where "kNotFound \<equiv> 1"
abbreviation (input) kCorruption :: int where "kCorruption \<equiv> 2"
abbreviation (input) kInvalidArgument :: int where "kInvalidArgument \<equiv> 4"
abbreviation (input) kTryAgain :: int where "kTryAgain \<equiv> 13"

text \<open>Entries of a write batch: the data column family, and the decree in the meta one.\<close>

datatype batch_entry = Batch_put bytes bytes | Batch_delete bytes | Batch_decree decree

record 'db rocks =
  rk_get :: "'db \<Rightarrow> bytes \<Rightarrow> int \<times> bytes"
  rk_batch_status :: "batch_entry \<Rightarrow> int"
  rk_write :: "batch_entry list \<Rightarrow> 'db \<Rightarrow> int \<times> 'db"

text \<open>What a replica is configured with and what the clock shows during one write.\<close>

record server_env =
  se_data_version :: "32 word"
  se_epoch_now :: "32 word"
  se_cluster_id :: "8 word option"
  se_cluster_ids :: "8 word list"
  se_ignore_other_cluster_ids :: bool
  se_app_id :: int
  se_partition_index :: int
  se_server :: string
  se_inject_write_error :: int
  se_rocksdb_verbose_log :: bool

section \<open>Model of the wrapper\<close>

record 'db wrapper =
  rw_db :: 'db
  rw_batch :: "batch_entry list"
  rw_default_ttl :: "32 word"

record db_get_context =
  gc_raw_value :: bytes
  gc_found :: bool
  gc_expire_ts :: "32 word"
  gc_expired :: bool

record db_write_context =
  wc_decree :: decree
  wc_timestamp :: "64 word"
  wc_remote_timetag :: "64 word"
  wc_verify_timetag :: bool

definition create_write_context :: "decree \<Rightarrow> 64 word \<Rightarrow> db_write_context" where
  "create_write_context d timestamp =
     \<lparr>wc_decree = d, wc_timestamp = timestamp, wc_remote_timetag = 0, wc_verify_timetag = False\<rparr>"

definition empty_write_context :: "decree \<Rightarrow> db_write_context" where
  "empty_write_context d = create_write_context d 0"

definition create_duplicate_context :: "decree \<Rightarrow> 64 word \<Rightarrow> bool \<Rightarrow> db_write_context" where
  "create_duplicate_context d remote_timetag verify =
     \<lparr>wc_decree = d, wc_timestamp = 0, wc_remote_timetag = remote_timetag, wc_verify_timetag = verify\<rparr>"

definition is_duplicated_write :: "db_write_context \<Rightarrow> bool" where
  "is_duplicated_write ctx \<longleftrightarrow> wc_remote_timetag ctx > 0"

definition current_cluster_id_or_default :: "server_env \<Rightarrow> 8 word" where
  "current_cluster_id_or_default env = (case se_cluster_id env of Some c \<Rightarrow> c | None \<Rightarrow> 0)"

text \<open>A failed read logs the two parts of the key, which aborts on a malformed key.\<close>

definition db_get :: "server_env \<Rightarrow> 'db rocks \<Rightarrow> bytes \<Rightarrow> 'db \<Rightarrow> (int \<times> db_get_context) result" where
  "db_get env rk raw_key db =
     (let (s, v) = rk_get rk db raw_key
      in if s = kOk
         then bind_result (pegasus_extract_expire_ts (se_data_version env) v) (\<lambda>ts.
                Inr (kOk, \<lparr>gc_raw_value = v, gc_found = True, gc_expire_ts = ts,
                           gc_expired = check_if_ts_expired (se_epoch_now env) ts\<rparr>))
         else if s = kNotFound
         then Inr (kOk, \<lparr>gc_raw_value = v, gc_found = False, gc_expire_ts = 0, gc_expired = False\<rparr>)
         else bind_result (pegasus_restore_key raw_key) (\<lambda>_.
                Inr (s, \<lparr>gc_raw_value = v, gc_found = False, gc_expire_ts = 0, gc_expired = False\<rparr>)))"

definition db_expire_ts :: "server_env \<Rightarrow> 'db wrapper \<Rightarrow> 32 word \<Rightarrow> 32 word" where
  "db_expire_ts env w expire_ts =
     (if rw_default_ttl w \<noteq> 0 \<and> expire_ts = 0 then se_epoch_now env + rw_default_ttl w else expire_ts)"

definition set_default_ttl :: "32 word \<Rightarrow> 'db wrapper \<Rightarrow> 'db wrapper" where
  "set_default_ttl ttl w = (if rw_default_ttl w \<noteq> ttl then w\<lparr>rw_default_ttl := ttl\<rparr> else w)"

text \<open>Adding one entry to the batch; a refused entry logs the key.\<close>

definition batch_add :: "'db rocks \<Rightarrow> batch_entry \<Rightarrow> bytes \<Rightarrow> 'db wrapper \<Rightarrow> (int \<times> 'db wrapper) result" where
  "batch_add rk entry raw_key w =
     (let s = rk_batch_status rk entry
      in if s = kOk then Inr (s, w\<lparr>rw_batch := rw_batch w @ [entry]\<rparr>)
         else bind_result (pegasus_restore_key raw_key) (\<lambda>_. Inr (s, w)))"

text \<open>
  With \<open>verify_timetag\<close> the stored record is read first; a stale update is replaced by an
  empty record. The read can fail, which is the left alternative of the inner result.
\<close>

definition new_timetag :: "server_env \<Rightarrow> db_write_context \<Rightarrow> 64 word" where
  "new_timetag env ctx =
     (if is_duplicated_write ctx then wc_remote_timetag ctx
      else generate_timetag (wc_timestamp ctx) (current_cluster_id_or_default env) False)"

definition is_stale_update ::
  "server_env \<Rightarrow> 'db rocks \<Rightarrow> db_write_context \<Rightarrow> bytes \<Rightarrow> 'db \<Rightarrow> (int + bool) result" where
  "is_stale_update env rk ctx raw_key db =
     (if wc_verify_timetag ctx \<and> se_data_version env \<ge> 1 \<and> raw_key \<noteq> []
      then bind_result (db_get env rk raw_key db) (\<lambda>(err, get_ctx).
             if err \<noteq> kOk then Inr (Inl err)
             else if gc_found get_ctx \<and> \<not> gc_expired get_ctx
             then bind_result (pegasus_extract_timetag (se_data_version env) (gc_raw_value get_ctx)) (\<lambda>local.
                    Inr (Inr (local \<ge> new_timetag env ctx)))
             else Inr (Inr False))
      else Inr (Inr False))"

definition write_batch_put_ctx ::
  "server_env \<Rightarrow> 'db rocks \<Rightarrow> db_write_context \<Rightarrow> bytes \<Rightarrow> bytes \<Rightarrow> 32 word \<Rightarrow> 'db wrapper
   \<Rightarrow> (int \<times> 'db wrapper) result" where
  "write_batch_put_ctx env rk ctx raw_key value expire_sec w =
     bind_result (is_stale_update env rk ctx raw_key (rw_db w)) (\<lambda>stale.
       case stale of
         Inl err \<Rightarrow> Inr (err, w)
       | Inr ignored \<Rightarrow>
           (let raw_key' = (if ignored then [] else raw_key); value' = (if ignored then [] else value)
            in bind_result (generate_value (se_data_version env) value' (db_expire_ts env w expire_sec)
                              (new_timetag env ctx)) (\<lambda>svalue.
                 batch_add rk (Batch_put raw_key' svalue) raw_key' w)))"

definition write_batch_put ::
  "server_env \<Rightarrow> 'db rocks \<Rightarrow> decree \<Rightarrow> bytes \<Rightarrow> bytes \<Rightarrow> 32 word \<Rightarrow> 'db wrapper
   \<Rightarrow> (int \<times> 'db wrapper) result" where
  "write_batch_put env rk d raw_key value expire_sec w =
     write_batch_put_ctx env rk (empty_write_context d) raw_key value expire_sec w"

definition write_batch_delete ::
  "'db rocks \<Rightarrow> bytes \<Rightarrow> 'db wrapper \<Rightarrow> (int \<times> 'db wrapper) result" where
  "write_batch_delete rk raw_key w = batch_add rk (Batch_delete raw_key) raw_key w"

definition db_write :: "server_env \<Rightarrow> 'db rocks \<Rightarrow> decree \<Rightarrow> 'db wrapper \<Rightarrow> (int \<times> 'db wrapper) result" where
  "db_write env rk d w =
     bind_result (check (length (rw_batch w) > 0) ''CHECK_GT(_write_batch->Count(), 0)'') (\<lambda>_.
       if se_inject_write_error env \<noteq> kOk then Inr (se_inject_write_error env, w)
       else let status = rk_batch_status rk (Batch_decree d)
            in if status \<noteq> kOk then Inr (status, w)
               else let entries = rw_batch w @ [Batch_decree d]; (status', db') = rk_write rk entries (rw_db w)
                    in Inr (status', w\<lparr>rw_batch := entries, rw_db := db'\<rparr>))"

definition clear_up_write_batch :: "'db wrapper \<Rightarrow> 'db wrapper" where
  "clear_up_write_batch w = w\<lparr>rw_batch := []\<rparr>"

section \<open>What the code relies on\<close>

text \<open>The contents of the data column family, and what a batch entry does to them.\<close>

type_synonym contents = "bytes \<Rightarrow> bytes option"

definition apply_entry :: "batch_entry \<Rightarrow> contents \<Rightarrow> contents" where
  "apply_entry entry c =
     (case entry of Batch_put k v \<Rightarrow> c(k \<mapsto> v) | Batch_delete k \<Rightarrow> c(k := None) | Batch_decree _ \<Rightarrow> c)"

text \<open>
  The documented behaviour of RocksDB: \<open>Get\<close> that succeeds returns the stored value,
  \<open>NotFound\<close> means that there is none, and \<open>Write\<close> applies the whole batch in order or,
  with an error, nothing of it.
\<close>

definition rocks_correct :: "'db rocks \<Rightarrow> ('db \<Rightarrow> contents) \<Rightarrow> bool" where
  "rocks_correct rk contents \<longleftrightarrow>
     (\<forall>db k. (fst (rk_get rk db k) = kOk \<longrightarrow> contents db k = Some (snd (rk_get rk db k))) \<and>
             (fst (rk_get rk db k) = kNotFound \<longrightarrow> contents db k = None)) \<and>
     (\<forall>es db. contents (snd (rk_write rk es db)) =
        (if fst (rk_write rk es db) = kOk then fold apply_entry es (contents db) else contents db))"

definition rocks_healthy :: "'db rocks \<Rightarrow> bool" where
  "rocks_healthy rk \<longleftrightarrow>
     (\<forall>db k. fst (rk_get rk db k) = kOk \<or> fst (rk_get rk db k) = kNotFound) \<and>
     (\<forall>e. rk_batch_status rk e = kOk) \<and> (\<forall>es db. fst (rk_write rk es db) = kOk)"

text \<open>Every stored value has the header of the data version.\<close>

definition records_ok :: "server_env \<Rightarrow> contents \<Rightarrow> bool" where
  "records_ok env c \<longleftrightarrow> se_data_version env \<le> 1 \<and>
     (\<forall>k v. c k = Some v \<longrightarrow> (if se_data_version env = 0 then 4 else 12) \<le> length v)"

definition store_ok :: "server_env \<Rightarrow> 'db rocks \<Rightarrow> ('db \<Rightarrow> contents) \<Rightarrow> 'db wrapper \<Rightarrow> bool" where
  "store_ok env rk contents w \<longleftrightarrow>
     rocks_correct rk contents \<and> rocks_healthy rk \<and> records_ok env (contents (rw_db w)) \<and>
     se_inject_write_error env = kOk \<and> rw_batch w = []"

text \<open>What a client sees of a record: its data and its expiration time, not its time tag.\<close>

definition user_record :: "server_env \<Rightarrow> bytes \<Rightarrow> (bytes \<times> 32 word) option" where
  "user_record env v =
     (case pegasus_extract_user_data (se_data_version env) v of
        Inl _ \<Rightarrow> None
      | Inr data \<Rightarrow> (case pegasus_extract_expire_ts (se_data_version env) v of
                      Inl _ \<Rightarrow> None | Inr ts \<Rightarrow> Some (data, ts)))"

definition user_view :: "server_env \<Rightarrow> contents \<Rightarrow> bytes \<Rightarrow> (bytes \<times> 32 word) option" where
  "user_view env c k = (case c k of None \<Rightarrow> None | Some v \<Rightarrow> user_record env v)"

definition encode_record :: "server_env \<Rightarrow> bytes \<Rightarrow> 32 word \<Rightarrow> 64 word \<Rightarrow> bytes" where
  "encode_record env data ts tag =
     be_bytes 4 (unat ts) @ (if se_data_version env = 0 then [] else be_bytes 8 (unat tag)) @ data"

section \<open>Records\<close>

lemma version_cases: "(v :: 32 word) \<le> 1 \<Longrightarrow> v = 0 \<or> v = 1"
  by (auto simp: word_le_nat_alt word_unat_eq_iff)

lemma generate_value_encode:
  "se_data_version env \<le> 1 \<Longrightarrow>
   generate_value (se_data_version env) data ts tag = Inr (encode_record env data ts tag)"
  using version_cases [of "se_data_version env"]
  by (auto simp: generate_value_def generate_value_v0_def generate_value_v1_def write_u32_def write_u64_def
      encode_record_def)

lemma encode_record_length:
  "(if se_data_version env = 0 then 4 else 12) \<le> length (encode_record env data ts tag)"
  by (simp add: encode_record_def)

lemma extract_encoded:
  assumes "se_data_version env \<le> 1"
  shows "pegasus_extract_expire_ts (se_data_version env) (encode_record env data ts tag) = Inr ts"
    and "pegasus_extract_user_data (se_data_version env) (encode_record env data ts tag) = Inr data"
    and "se_data_version env = 1 \<Longrightarrow>
      pegasus_extract_timetag (se_data_version env) (encode_record env data ts tag) = Inr tag"
  using version_cases [OF assms] assms
  by (auto simp: pegasus_extract_expire_ts_def pegasus_extract_user_data_def pegasus_extract_timetag_def
      encode_record_def)

lemma user_record_encoded:
  "se_data_version env \<le> 1 \<Longrightarrow> user_record env (encode_record env data ts tag) = Some (data, ts)"
  by (simp add: user_record_def extract_encoded)

lemma extract_total:
  assumes "se_data_version env \<le> 1" "(if se_data_version env = 0 then 4 else 12) \<le> length v"
  shows "\<exists>ts. pegasus_extract_expire_ts (se_data_version env) v = Inr ts"
    and "\<exists>data. pegasus_extract_user_data (se_data_version env) v = Inr data"
  using version_cases [OF assms(1)] assms
  by (auto simp: pegasus_extract_expire_ts_def pegasus_extract_user_data_def read_u32_def read_unsigned_def
      skip_input_def check_def split: if_splits)

lemma extract_timetag_total:
  assumes "12 \<le> length v"
  obtains tag where "pegasus_extract_timetag 1 v = Inr tag"
proof -
  from assms have "8 \<le> length v - 4" by linarith
  with assms that show thesis
    by (auto simp: pegasus_extract_timetag_def skip_input_def read_u64_def read_unsigned_def)
qed

section \<open>Operations on a store that works\<close>

lemma store_okD:
  assumes "store_ok env rk contents w"
  shows "rocks_correct rk contents" "rocks_healthy rk" "records_ok env (contents (rw_db w))"
    "se_inject_write_error env = 0" "rw_batch w = []" "se_data_version env \<le> 1"
  using assms by (auto simp: store_ok_def records_ok_def)

lemma healthy_status [simp]: "rocks_healthy rk \<Longrightarrow> rk_batch_status rk e = 0"
  by (simp add: rocks_healthy_def)

lemma healthy_add [simp]:
  "rocks_healthy rk \<Longrightarrow> batch_add rk entry key w = Inr (0, w\<lparr>rw_batch := rw_batch w @ [entry]\<rparr>)"
  by (simp add: batch_add_def)

lemma healthy_delete:
  "rocks_healthy rk \<Longrightarrow>
   write_batch_delete rk key w = Inr (0, w\<lparr>rw_batch := rw_batch w @ [Batch_delete key]\<rparr>)"
  by (simp add: write_batch_delete_def)

text \<open>The entry that a put without a comparison of time tags adds.\<close>

definition put_entry :: "server_env \<Rightarrow> db_write_context \<Rightarrow> bytes \<Rightarrow> bytes \<Rightarrow> 32 word \<Rightarrow> 'db wrapper \<Rightarrow> batch_entry" where
  "put_entry env ctx key value expire w =
     Batch_put key (encode_record env value (db_expire_ts env w expire) (new_timetag env ctx))"

lemma put_entry_batch [simp]: "put_entry env ctx key value expire (w\<lparr>rw_batch := b\<rparr>) = put_entry env ctx key value expire w"
  by (simp add: put_entry_def db_expire_ts_def)

lemma healthy_put:
  assumes "rocks_healthy rk" "se_data_version env \<le> 1" "\<not> wc_verify_timetag ctx"
  shows "write_batch_put_ctx env rk ctx key value expire w
    = Inr (0, w\<lparr>rw_batch := rw_batch w @ [put_entry env ctx key value expire w]\<rparr>)"
  using assms
  by (simp add: write_batch_put_ctx_def is_stale_update_def generate_value_encode put_entry_def)

lemma contexts_do_not_verify [simp]:
  "\<not> wc_verify_timetag (create_write_context d ts)" "\<not> wc_verify_timetag (empty_write_context d)"
  "wc_decree (create_write_context d ts) = d" "wc_decree (empty_write_context d) = d"
  by (simp_all add: create_write_context_def empty_write_context_def)

definition committed :: "'db rocks \<Rightarrow> decree \<Rightarrow> 'db wrapper \<Rightarrow> 'db wrapper" where
  "committed rk d w = w\<lparr>rw_batch := [], rw_db := snd (rk_write rk (rw_batch w @ [Batch_decree d]) (rw_db w))\<rparr>"

lemma healthy_write:
  assumes "rocks_healthy rk" "se_inject_write_error env = 0" "rw_batch w \<noteq> []"
  shows "\<exists>w'. db_write env rk d w = Inr (0, w') \<and> clear_up_write_batch w' = committed rk d w"
  using assms
  by (auto simp: db_write_def committed_def clear_up_write_batch_def rocks_healthy_def split_beta Let_def)

lemma committed_contents:
  assumes "rocks_correct rk contents" "rocks_healthy rk"
  shows "contents (rw_db (committed rk d w)) = fold apply_entry (rw_batch w) (contents (rw_db w))"
  using assms by (simp add: committed_def rocks_correct_def rocks_healthy_def apply_entry_def)

lemma committed_simps [simp]:
  "rw_batch (committed rk d w) = []" "rw_default_ttl (committed rk d w) = rw_default_ttl w"
  by (simp_all add: committed_def)

lemma healthy_get:
  assumes "store_ok env rk contents w"
  obtains (absent) g where "contents (rw_db w) key = None" "db_get env rk key (rw_db w) = Inr (0, g)"
      "\<not> gc_found g" "\<not> gc_expired g"
  | (present) v g data where "contents (rw_db w) key = Some v" "db_get env rk key (rw_db w) = Inr (0, g)"
      "gc_found g" "gc_raw_value g = v" "gc_expired g = check_if_ts_expired (se_epoch_now env) (gc_expire_ts g)"
      "pegasus_extract_expire_ts (se_data_version env) v = Inr (gc_expire_ts g)"
      "pegasus_extract_user_data (se_data_version env) v = Inr data"
proof -
  note ok = store_okD [OF assms]
  obtain s v where sv: "rk_get rk (rw_db w) key = (s, v)" by fastforce
  from ok(2) sv have "s = 0 \<or> s = 1" by (metis fst_conv rocks_healthy_def)
  then show thesis
  proof
    assume "s = 1"
    with sv ok(1) have "contents (rw_db w) key = None" by (metis fst_conv rocks_correct_def)
    with sv \<open>s = 1\<close> show thesis by (intro absent) (auto simp: db_get_def)
  next
    assume "s = 0"
    with sv ok(1) have c: "contents (rw_db w) key = Some v" by (metis fst_conv snd_conv rocks_correct_def)
    with ok(3) have "(if se_data_version env = 0 then 4 else 12) \<le> length v" by (auto simp: records_ok_def)
    with extract_total [OF ok(6), of v] obtain ts data where
      "pegasus_extract_expire_ts (se_data_version env) v = Inr ts"
      "pegasus_extract_user_data (se_data_version env) v = Inr data" by auto
    with c sv \<open>s = 0\<close> show thesis by (intro present) (auto simp: db_get_def)
  qed
qed

end
