(* ===== verification/Write_Service.thy ===== *)
theory Write_Service
  imports Rocksdb_Wrapper String_Utils "HOL-Library.List_Lexorder" "HOL-Library.Sublist"
begin

text \<open>
  The write path of a replica over the storage engine:
  \<^verbatim>\<open>src/src/server/pegasus_write_service_impl.h\<close> (every write operation, the check of
  the conditional ones, and the translation of atomic writes into idempotent ones),
  \<^verbatim>\<open>src/src/server/pegasus_write_service.cpp\<close> (batches, duplicated writes) and
  \<^verbatim>\<open>src/src/server/pegasus_server_write.{h,cpp}\<close> (the dispatch of a committed mutation).
  Responses are in-out arguments of the code, so every operation takes the response and
  returns it changed. Metrics and capacity units are left out.
\<close>

section \<open>Requests and responses\<close>

datatype cas_check_type =
    CT_NO_CHECK
  | CT_VALUE_NOT_EXIST | CT_VALUE_NOT_EXIST_OR_EMPTY | CT_VALUE_EXIST | CT_VALUE_NOT_EMPTY
  | CT_VALUE_MATCH_ANYWHERE | CT_VALUE_MATCH_PREFIX | CT_VALUE_MATCH_POSTFIX
  | CT_VALUE_BYTES_LESS | CT_VALUE_BYTES_LESS_OR_EQUAL | CT_VALUE_BYTES_EQUAL
  | CT_VALUE_BYTES_GREATER_OR_EQUAL | CT_VALUE_BYTES_GREATER
  | CT_VALUE_INT_LESS | CT_VALUE_INT_LESS_OR_EQUAL | CT_VALUE_INT_EQUAL
  | CT_VALUE_INT_GREATER_OR_EQUAL | CT_VALUE_INT_GREATER
  | CT_UNKNOWN int

datatype mutate_operation = MO_PUT | MO_DELETE | MO_UNKNOWN int

datatype update_type =
    UT_PUT | UT_INCR | UT_CHECK_AND_SET | UT_CHECK_AND_MUTATE_PUT | UT_CHECK_AND_MUTATE_REMOVE

text \<open>The optional fields of a single-update request keep the default value while unset.\<close>

record put_request =
  pr_key :: bytes
  pr_value :: bytes
  pr_expire_ts_seconds :: int
  pr_type :: "update_type option"
  pr_check_value_returned :: bool
  pr_check_value_exist :: bool
  pr_check_value :: bytes

definition empty_put_request :: put_request where
  "empty_put_request = \<lparr>pr_key = [], pr_value = [], pr_expire_ts_seconds = 0, pr_type = None,
     pr_check_value_returned = False, pr_check_value_exist = False, pr_check_value = []\<rparr>"

record multi_put_request =
  mp_hash_key :: bytes
  mp_kvs :: "(bytes \<times> bytes) list"
  mp_expire_ts_seconds :: int

record multi_remove_request =
  mr_hash_key :: bytes
  mr_sort_keys :: "bytes list"

record incr_request =
  ir_key :: bytes
  ir_increment :: int
  ir_expire_ts_seconds :: int

record check_and_set_request =
  cs_hash_key :: bytes
  cs_check_sort_key :: bytes
  cs_check_type :: cas_check_type
  cs_check_operand :: bytes
  cs_set_diff_sort_key :: bool
  cs_set_sort_key :: bytes
  cs_set_value :: bytes
  cs_set_expire_ts_seconds :: int
  cs_return_check_value :: bool

record mutate =
  mu_operation :: mutate_operation
  mu_sort_key :: bytes
  mu_value :: bytes
  mu_set_expire_ts_seconds :: int

record check_and_mutate_request =
  cm_hash_key :: bytes
  cm_check_sort_key :: bytes
  cm_check_type :: cas_check_type
  cm_check_operand :: bytes
  cm_mutate_list :: "mutate list"
  cm_return_check_value :: bool

record write_response =
  rs_error :: int
  rs_app_id :: int
  rs_partition_index :: int
  rs_decree :: decree
  rs_server :: string

record incr_response = write_response +
  rs_new_value :: int

record multi_remove_response = write_response +
  rs_count :: nat

text \<open>The responses of the two conditional writes have the same fields.\<close>

record check_response = write_response +
  rs_check_value_returned :: bool
  rs_check_value_exist :: bool
  rs_check_value :: bytes

definition empty_write_response :: write_response where
  "empty_write_response =
     \<lparr>rs_error = 0, rs_app_id = 0, rs_partition_index = 0, rs_decree = 0, rs_server = []\<rparr>"

definition empty_incr_response :: incr_response where
  "empty_incr_response = \<lparr>rs_error = 0, rs_app_id = 0, rs_partition_index = 0, rs_decree = 0,
     rs_server = [], rs_new_value = 0\<rparr>"

definition empty_multi_remove_response :: multi_remove_response where
  "empty_multi_remove_response = \<lparr>rs_error = 0, rs_app_id = 0, rs_partition_index = 0, rs_decree = 0,
     rs_server = [], rs_count = 0\<rparr>"

definition empty_check_response :: check_response where
  "empty_check_response = \<lparr>rs_error = 0, rs_app_id = 0, rs_partition_index = 0, rs_decree = 0,
     rs_server = [], rs_check_value_returned = False, rs_check_value_exist = False, rs_check_value = []\<rparr>"

section \<open>Helpers\<close>

definition to_string_view :: "bytes \<Rightarrow> string" where
  "to_string_view = map (\<lambda>b. char_of (unat b))"

definition create_from_numeric :: "int \<Rightarrow> bytes" where
  "create_from_numeric i = map (\<lambda>c. word_of_nat (of_char c)) (decimal_int i)"

definition safe_add :: "int \<Rightarrow> int \<Rightarrow> int option" where
  "safe_add a b =
     (if b > 0 \<and> a > (2 ^ 63 - 1) - b then None
      else if b < 0 \<and> a < - (2 ^ 63) - b then None
      else Some (a + b))"

definition make_basic_response :: "server_env \<Rightarrow> decree \<Rightarrow> 'a write_response_scheme \<Rightarrow> 'a write_response_scheme" where
  "make_basic_response env d resp =
     resp\<lparr>rs_app_id := se_app_id env, rs_partition_index := se_partition_index env, rs_decree := d,
          rs_server := se_server env\<rparr>"

definition make_error_response ::
  "server_env \<Rightarrow> int \<Rightarrow> 'a write_response_scheme \<Rightarrow> 'a write_response_scheme result" where
  "make_error_response env err resp =
     bind_result (check (err \<noteq> kOk) ''this response is built only for error'') (\<lambda>_.
       Inr (resp\<lparr>rs_error := err, rs_app_id := se_app_id env, rs_partition_index := se_partition_index env,
                 rs_decree := - 1, rs_server := se_server env\<rparr>))"

definition calc_expire_on_non_existent :: "incr_request \<Rightarrow> int" where
  "calc_expire_on_non_existent req = (if ir_expire_ts_seconds req > 0 then ir_expire_ts_seconds req else 0)"

definition calc_expire_on_existing :: "incr_request \<Rightarrow> db_get_context \<Rightarrow> int" where
  "calc_expire_on_existing req get_ctx =
     (if ir_expire_ts_seconds req = 0 then sint (gc_expire_ts get_ctx)
      else if ir_expire_ts_seconds req < 0 then 0
      else ir_expire_ts_seconds req)"

definition make_idempotent_request ::
  "bytes \<Rightarrow> bytes \<Rightarrow> int \<Rightarrow> update_type \<Rightarrow> put_request \<Rightarrow> put_request" where
  "make_idempotent_request key value expire_ts_seconds ty update =
     update\<lparr>pr_key := key, pr_type := Some ty, pr_expire_ts_seconds := expire_ts_seconds, pr_value := value\<rparr>"

definition make_idempotent_request_for_check_and_mutate_remove :: "bytes \<Rightarrow> put_request \<Rightarrow> put_request" where
  "make_idempotent_request_for_check_and_mutate_remove key update =
     update\<lparr>pr_key := key, pr_type := Some UT_CHECK_AND_MUTATE_REMOVE\<rparr>"

text \<open>\<open>make_check_value\<close> is a template: one instance for responses, one for updates.\<close>

definition make_check_value_response :: "bool \<Rightarrow> bool \<Rightarrow> bytes \<Rightarrow> check_response \<Rightarrow> check_response" where
  "make_check_value_response return_check_value value_exist check_value resp =
     (let resp' = resp\<lparr>rs_check_value_returned := return_check_value,
                       rs_check_value_exist := return_check_value \<and> value_exist\<rparr>
      in if rs_check_value_exist resp' then resp'\<lparr>rs_check_value := check_value\<rparr> else resp')"

definition make_check_value_update :: "bool \<Rightarrow> bool \<Rightarrow> bytes \<Rightarrow> put_request \<Rightarrow> put_request" where
  "make_check_value_update return_check_value value_exist check_value update =
     (let update' = update\<lparr>pr_check_value_returned := return_check_value,
                           pr_check_value_exist := return_check_value \<and> value_exist\<rparr>
      in if pr_check_value_exist update' then update'\<lparr>pr_check_value := check_value\<rparr> else update')"

definition copy_check_value :: "put_request \<Rightarrow> check_response \<Rightarrow> check_response" where
  "copy_check_value update resp =
     resp\<lparr>rs_check_value_returned := pr_check_value_returned update,
          rs_check_value_exist := pr_check_value_exist update, rs_check_value := pr_check_value update\<rparr>"

section \<open>The check of a conditional write\<close>

definition is_check_type_supported :: "cas_check_type \<Rightarrow> bool" where
  "is_check_type_supported check_type \<longleftrightarrow> (case check_type of CT_UNKNOWN _ \<Rightarrow> False | _ \<Rightarrow> True)"

text \<open>
  The comparisons are three-way in the code: \<open>lt\<close> and \<open>gt\<close> say how the value compares
  with the operand, and the order of the enumeration picks the answer.
\<close>

definition bytes_check :: "cas_check_type \<Rightarrow> bool \<Rightarrow> bool \<Rightarrow> bool" where
  "bytes_check check_type lt gt =
     (if lt then check_type \<in> {CT_VALUE_BYTES_LESS, CT_VALUE_BYTES_LESS_OR_EQUAL}
      else if gt then check_type \<in> {CT_VALUE_BYTES_GREATER_OR_EQUAL, CT_VALUE_BYTES_GREATER}
      else check_type \<in> {CT_VALUE_BYTES_LESS_OR_EQUAL, CT_VALUE_BYTES_EQUAL, CT_VALUE_BYTES_GREATER_OR_EQUAL})"

definition int_check :: "cas_check_type \<Rightarrow> bool \<Rightarrow> bool \<Rightarrow> bool" where
  "int_check check_type lt gt =
     (if lt then check_type \<in> {CT_VALUE_INT_LESS, CT_VALUE_INT_LESS_OR_EQUAL}
      else if gt then check_type \<in> {CT_VALUE_INT_GREATER_OR_EQUAL, CT_VALUE_INT_GREATER}
      else check_type \<in> {CT_VALUE_INT_LESS_OR_EQUAL, CT_VALUE_INT_EQUAL, CT_VALUE_INT_GREATER_OR_EQUAL})"

text \<open>The first component says that the check passed, the second is \<open>invalid_argument\<close>.\<close>

definition match_check :: "(bytes \<Rightarrow> bytes \<Rightarrow> bool) \<Rightarrow> bytes \<Rightarrow> bool \<Rightarrow> bytes \<Rightarrow> bool" where
  "match_check matches check_operand value_exist check_value =
     (if \<not> value_exist then False
      else if check_operand = [] then True
      else if length check_value < length check_operand then False
      else matches check_operand check_value)"

definition compare_check :: "cas_check_type \<Rightarrow> bytes \<Rightarrow> bool \<Rightarrow> bytes \<Rightarrow> bool" where
  "compare_check check_type check_operand value_exist check_value =
     (value_exist \<and> bytes_check check_type (check_value < check_operand) (check_value > check_operand))"

definition compare_int_check :: "cas_check_type \<Rightarrow> bytes \<Rightarrow> bool \<Rightarrow> bytes \<Rightarrow> bool \<times> bool" where
  "compare_int_check check_type check_operand value_exist check_value =
     (if \<not> value_exist then (False, False)
      else case buf2int64 (to_string_view check_value) of
             None \<Rightarrow> (False, True)
           | Some check_value_int \<Rightarrow>
               (case buf2int64 (to_string_view check_operand) of
                  None \<Rightarrow> (False, True)
                | Some check_operand_int \<Rightarrow>
                    (int_check check_type (check_value_int < check_operand_int)
                       (check_value_int > check_operand_int), False)))"

definition validate_check :: "cas_check_type \<Rightarrow> bytes \<Rightarrow> bool \<Rightarrow> bytes \<Rightarrow> (bool \<times> bool) result" where
  "validate_check check_type check_operand value_exist check_value =
     (case check_type of
        CT_NO_CHECK \<Rightarrow> Inr (True, False)
      | CT_VALUE_NOT_EXIST \<Rightarrow> Inr (\<not> value_exist, False)
      | CT_VALUE_NOT_EXIST_OR_EMPTY \<Rightarrow> Inr (\<not> value_exist \<or> check_value = [], False)
      | CT_VALUE_EXIST \<Rightarrow> Inr (value_exist, False)
      | CT_VALUE_NOT_EMPTY \<Rightarrow> Inr (value_exist \<and> check_value \<noteq> [], False)
      | CT_VALUE_MATCH_ANYWHERE \<Rightarrow> Inr (match_check sublist check_operand value_exist check_value, False)
      | CT_VALUE_MATCH_PREFIX \<Rightarrow> Inr (match_check prefix check_operand value_exist check_value, False)
      | CT_VALUE_MATCH_POSTFIX \<Rightarrow> Inr (match_check suffix check_operand value_exist check_value, False)
      | CT_VALUE_BYTES_LESS \<Rightarrow> Inr (compare_check check_type check_operand value_exist check_value, False)
      | CT_VALUE_BYTES_LESS_OR_EQUAL \<Rightarrow> Inr (compare_check check_type check_operand value_exist check_value, False)
      | CT_VALUE_BYTES_EQUAL \<Rightarrow> Inr (compare_check check_type check_operand value_exist check_value, False)
      | CT_VALUE_BYTES_GREATER_OR_EQUAL \<Rightarrow> Inr (compare_check check_type check_operand value_exist check_value, False)
      | CT_VALUE_BYTES_GREATER \<Rightarrow> Inr (compare_check check_type check_operand value_exist check_value, False)
      | CT_UNKNOWN _ \<Rightarrow> Inl (Check_failed ''unsupported check type'')
      | _ \<Rightarrow> Inr (compare_int_check check_type check_operand value_exist check_value))"

section \<open>Operations of the implementation\<close>

text \<open>The scope guard that clears the batch on every return after the entries were added.\<close>

definition commit_batch :: "server_env \<Rightarrow> 'db rocks \<Rightarrow> decree \<Rightarrow> int \<times> 'db wrapper \<Rightarrow> (int \<times> 'db wrapper) result" where
  "commit_batch env rk d = (\<lambda>(err, w).
     if err \<noteq> kOk then Inr (err, clear_up_write_batch w)
     else bind_result (db_write env rk d w) (\<lambda>(err', w'). Inr (err', clear_up_write_batch w')))"

definition empty_put :: "server_env \<Rightarrow> 'db rocks \<Rightarrow> decree \<Rightarrow> 'db wrapper \<Rightarrow> (int \<times> 'db wrapper) result" where
  "empty_put env rk d w = bind_result (write_batch_put env rk d [] [] 0 w) (commit_batch env rk d)"

text \<open>A response with the given error, and an empty record to move the flushed decree.\<close>

definition reject_write ::
  "server_env \<Rightarrow> 'db rocks \<Rightarrow> decree \<Rightarrow> 'a write_response_scheme \<Rightarrow> 'db wrapper
   \<Rightarrow> (int \<times> 'a write_response_scheme \<times> 'db wrapper) result" where
  "reject_write env rk d resp w =
     bind_result (empty_put env rk d w) (\<lambda>(err, w'). Inr (err, resp\<lparr>rs_error := kInvalidArgument\<rparr>, w'))"

primrec multi_put_loop ::
  "server_env \<Rightarrow> 'db rocks \<Rightarrow> db_write_context \<Rightarrow> multi_put_request \<Rightarrow> (bytes \<times> bytes) list \<Rightarrow> 'db wrapper
   \<Rightarrow> (int \<times> 'db wrapper) result" where
  "multi_put_loop env rk ctx update [] w = Inr (kOk, w)"
| "multi_put_loop env rk ctx update (kv # kvs) w =
     bind_result (pegasus_generate_key (mp_hash_key update) (fst kv)) (\<lambda>raw_key.
     bind_result (write_batch_put_ctx env rk ctx raw_key (snd kv)
                    (word_of_int (mp_expire_ts_seconds update)) w) (\<lambda>(err, w').
       if err \<noteq> kOk then Inr (err, w') else multi_put_loop env rk ctx update kvs w'))"

definition multi_put ::
  "server_env \<Rightarrow> 'db rocks \<Rightarrow> db_write_context \<Rightarrow> multi_put_request \<Rightarrow> write_response \<Rightarrow> 'db wrapper
   \<Rightarrow> (int \<times> write_response \<times> 'db wrapper) result" where
  "multi_put env rk ctx update resp w =
     (let resp' = make_basic_response env (wc_decree ctx) resp
      in if mp_kvs update = [] then reject_write env rk (wc_decree ctx) resp' w
         else bind_result (bind_result (multi_put_loop env rk ctx update (mp_kvs update) w)
                             (commit_batch env rk (wc_decree ctx))) (\<lambda>(err, w').
                Inr (err, resp'\<lparr>rs_error := err\<rparr>, w')))"

primrec multi_remove_loop ::
  "'db rocks \<Rightarrow> bytes \<Rightarrow> bytes list \<Rightarrow> 'db wrapper \<Rightarrow> (int \<times> 'db wrapper) result" where
  "multi_remove_loop rk hash_key [] w = Inr (kOk, w)"
| "multi_remove_loop rk hash_key (skey # skeys) w =
     bind_result (pegasus_generate_key hash_key skey) (\<lambda>raw_key.
     bind_result (write_batch_delete rk raw_key w) (\<lambda>(err, w').
       if err \<noteq> kOk then Inr (err, w') else multi_remove_loop rk hash_key skeys w'))"

definition multi_remove ::
  "server_env \<Rightarrow> 'db rocks \<Rightarrow> decree \<Rightarrow> multi_remove_request \<Rightarrow> multi_remove_response \<Rightarrow> 'db wrapper
   \<Rightarrow> (int \<times> multi_remove_response \<times> 'db wrapper) result" where
  "multi_remove env rk d update resp w =
     (let resp' = make_basic_response env d resp
      in if mr_sort_keys update = [] then reject_write env rk d resp' w
         else bind_result (bind_result (multi_remove_loop rk (mr_hash_key update) (mr_sort_keys update) w)
                             (commit_batch env rk d)) (\<lambda>(err, w').
                let resp'' = resp'\<lparr>rs_error := err\<rparr>
                in Inr (err, if err = kOk then resp''\<lparr>rs_count := length (mr_sort_keys update)\<rparr> else resp'', w')))"

section \<open>incr\<close>

text \<open>
  The translation of an incr into a single put. It reads the store and returns the status,
  the response to send on an error, and the update.
\<close>

definition make_idempotent_incr ::
  "server_env \<Rightarrow> 'db rocks \<Rightarrow> incr_request \<Rightarrow> incr_response \<Rightarrow> put_request \<Rightarrow> 'db wrapper
   \<Rightarrow> (int \<times> incr_response \<times> put_request) result" where
  "make_idempotent_incr env rk req err_resp update w =
     bind_result (db_get env rk (ir_key req) (rw_db w)) (\<lambda>(err, get_ctx).
       let fail = (\<lambda>e resp. bind_result (make_error_response env e resp) (\<lambda>resp'. Inr (e, resp', update)));
           succeed = (\<lambda>value expire. Inr (kOk, err_resp,
             make_idempotent_request (ir_key req) (create_from_numeric value) expire UT_INCR update))
       in if err \<noteq> kOk then fail err err_resp
          else if \<not> gc_found get_ctx \<or> gc_expired get_ctx
          then succeed (ir_increment req) (calc_expire_on_non_existent req)
          else bind_result (pegasus_extract_user_data (se_data_version env) (gc_raw_value get_ctx)) (\<lambda>base_value.
            if base_value = [] then succeed (ir_increment req) (calc_expire_on_existing req get_ctx)
            else case buf2int64 (to_string_view base_value) of
                   None \<Rightarrow> fail kInvalidArgument err_resp
                 | Some base_int \<Rightarrow>
                     (case safe_add base_int (ir_increment req) of
                        None \<Rightarrow> fail kInvalidArgument (err_resp\<lparr>rs_new_value := base_int\<rparr>)
                      | Some new_int \<Rightarrow> succeed new_int (calc_expire_on_existing req get_ctx))))"

definition put_incr ::
  "server_env \<Rightarrow> 'db rocks \<Rightarrow> db_write_context \<Rightarrow> put_request \<Rightarrow> incr_response \<Rightarrow> 'db wrapper
   \<Rightarrow> (int \<times> incr_response \<times> 'db wrapper) result" where
  "put_incr env rk ctx update resp w =
     (let resp' = make_basic_response env (wc_decree ctx) resp
      in bind_result (bind_result (write_batch_put_ctx env rk ctx (pr_key update) (pr_value update)
                                     (word_of_int (pr_expire_ts_seconds update)) w)
                        (commit_batch env rk (wc_decree ctx))) (\<lambda>(err, w').
           if err \<noteq> kOk then Inr (err, resp'\<lparr>rs_error := err\<rparr>, w')
           else case buf2int64 (to_string_view (pr_value update)) of
                  None \<Rightarrow> Inl (Check_failed ''invalid int64 value for put idempotent incr'')
                | Some new_value \<Rightarrow> Inr (kOk, resp'\<lparr>rs_error := err, rs_new_value := new_value\<rparr>, w')))"

definition incr ::
  "server_env \<Rightarrow> 'db rocks \<Rightarrow> decree \<Rightarrow> incr_request \<Rightarrow> incr_response \<Rightarrow> 'db wrapper
   \<Rightarrow> (int \<times> incr_response \<times> 'db wrapper) result" where
  "incr env rk d update resp w =
     (let resp' = make_basic_response env d resp;
          requested = (if ir_expire_ts_seconds update > 0 then word_of_int (ir_expire_ts_seconds update) else 0);
          store = (\<lambda>new_value new_expire_ts.
            bind_result (bind_result (write_batch_put env rk d (ir_key update) (create_from_numeric new_value)
                                        new_expire_ts w) (commit_batch env rk d)) (\<lambda>(err, w').
              let resp'' = resp'\<lparr>rs_error := err\<rparr>
              in Inr (err, if err = kOk then resp''\<lparr>rs_new_value := new_value\<rparr> else resp'', w')))
      in bind_result (db_get env rk (ir_key update) (rw_db w)) (\<lambda>(err, get_ctx).
           if err \<noteq> kOk then Inr (err, resp'\<lparr>rs_error := err\<rparr>, w)
           else if \<not> gc_found get_ctx then store (ir_increment update) requested
           else if gc_expired get_ctx then store (ir_increment update) requested
           else bind_result (pegasus_extract_user_data (se_data_version env) (gc_raw_value get_ctx)) (\<lambda>old_value.
             let new_expire_ts = (if ir_expire_ts_seconds update = 0 then gc_expire_ts get_ctx
                                  else if ir_expire_ts_seconds update < 0 then 0
                                  else word_of_int (ir_expire_ts_seconds update))
             in if old_value = [] then store (ir_increment update) new_expire_ts
                else case buf2int64 (to_string_view old_value) of
                       None \<Rightarrow> reject_write env rk d resp' w
                     | Some old_value_int \<Rightarrow>
                         (case safe_add old_value_int (ir_increment update) of
                            None \<Rightarrow> reject_write env rk d (resp'\<lparr>rs_new_value := old_value_int\<rparr>) w
                          | Some new_value \<Rightarrow> store new_value new_expire_ts))))"

section \<open>check\_and\_set\<close>

text \<open>
  Reading the check value, the same statements in the four functions of the conditional
  writes: the status, whether a value that is not expired exists, and its user data.
\<close>

definition read_check_value :: "server_env \<Rightarrow> 'db rocks \<Rightarrow> bytes \<Rightarrow> 'db \<Rightarrow> (int \<times> bool \<times> bytes) result" where
  "read_check_value env rk check_key db =
     bind_result (db_get env rk check_key db) (\<lambda>(err, get_ctx).
       if err \<noteq> kOk then Inr (err, False, [])
       else if \<not> gc_expired get_ctx \<and> gc_found get_ctx
       then bind_result (pegasus_extract_user_data (se_data_version env) (gc_raw_value get_ctx)) (\<lambda>check_value.
              Inr (kOk, True, check_value))
       else Inr (kOk, False, []))"

definition make_idempotent_check_and_set ::
  "server_env \<Rightarrow> 'db rocks \<Rightarrow> check_and_set_request \<Rightarrow> check_response \<Rightarrow> put_request \<Rightarrow> 'db wrapper
   \<Rightarrow> (int \<times> check_response \<times> put_request) result" where
  "make_idempotent_check_and_set env rk req err_resp update w =
     (let fail = (\<lambda>e resp. bind_result (make_error_response env e resp) (\<lambda>resp'. Inr (e, resp', update)))
      in if \<not> is_check_type_supported (cs_check_type req) then fail kInvalidArgument err_resp
         else
           bind_result (pegasus_generate_key (cs_hash_key req) (cs_check_sort_key req)) (\<lambda>check_key.
           bind_result (read_check_value env rk check_key (rw_db w)) (\<lambda>(err, value_exist, check_value).
             if err \<noteq> kOk then fail err err_resp
             else
               bind_result (validate_check (cs_check_type req) (cs_check_operand req) value_exist check_value)
                 (\<lambda>(passed, invalid_argument).
               if \<not> passed
               then fail (if invalid_argument then kInvalidArgument else kTryAgain)
                      (make_check_value_response (cs_return_check_value req) value_exist check_value err_resp)
               else
                 bind_result (if cs_set_diff_sort_key req
                              then pegasus_generate_key (cs_hash_key req) (cs_set_sort_key req)
                              else Inr check_key) (\<lambda>set_key.
                 Inr (kOk, err_resp,
                   make_idempotent_request set_key (cs_set_value req) (cs_set_expire_ts_seconds req) UT_CHECK_AND_SET
                     (make_check_value_update (cs_return_check_value req) value_exist check_value update)))))))"

definition put_check_and_set ::
  "server_env \<Rightarrow> 'db rocks \<Rightarrow> db_write_context \<Rightarrow> put_request \<Rightarrow> check_response \<Rightarrow> 'db wrapper
   \<Rightarrow> (int \<times> check_response \<times> 'db wrapper) result" where
  "put_check_and_set env rk ctx update resp w =
     (let resp' = copy_check_value update (make_basic_response env (wc_decree ctx) resp)
      in bind_result (bind_result (write_batch_put_ctx env rk ctx (pr_key update) (pr_value update)
                                     (word_of_int (pr_expire_ts_seconds update)) w)
                        (commit_batch env rk (wc_decree ctx))) (\<lambda>(err, w').
           Inr (err, resp'\<lparr>rs_error := err\<rparr>, w')))"

text \<open>The check value of the direct operations is only set when it is asked for.\<close>

definition return_check_value :: "bool \<Rightarrow> bool \<Rightarrow> bytes \<Rightarrow> check_response \<Rightarrow> check_response" where
  "return_check_value wanted value_exist check_value resp =
     (if wanted
      then if value_exist
           then resp\<lparr>rs_check_value_returned := True, rs_check_value_exist := True, rs_check_value := check_value\<rparr>
           else resp\<lparr>rs_check_value_returned := True\<rparr>
      else resp)"

text \<open>The end of both direct operations: write the batch; a failed check is reported to the client only.\<close>

definition finish_check ::
  "server_env \<Rightarrow> 'db rocks \<Rightarrow> decree \<Rightarrow> bool \<Rightarrow> bool \<Rightarrow> check_response \<Rightarrow> int \<times> 'db wrapper
   \<Rightarrow> (int \<times> check_response \<times> 'db wrapper) result" where
  "finish_check env rk d passed invalid_argument resp batched =
     bind_result (commit_batch env rk d batched) (\<lambda>(err, w).
       if err \<noteq> kOk then Inr (err, resp\<lparr>rs_error := err\<rparr>, w)
       else Inr (kOk, if passed then resp\<lparr>rs_error := err\<rparr>
                      else resp\<lparr>rs_error := (if invalid_argument then kInvalidArgument else kTryAgain)\<rparr>, w))"

definition check_and_set ::
  "server_env \<Rightarrow> 'db rocks \<Rightarrow> decree \<Rightarrow> check_and_set_request \<Rightarrow> check_response \<Rightarrow> 'db wrapper
   \<Rightarrow> (int \<times> check_response \<times> 'db wrapper) result" where
  "check_and_set env rk d update resp w =
     (let resp' = make_basic_response env d resp
      in if \<not> is_check_type_supported (cs_check_type update) then reject_write env rk d resp' w
         else
           bind_result (pegasus_generate_key (cs_hash_key update) (cs_check_sort_key update)) (\<lambda>check_key.
           bind_result (read_check_value env rk check_key (rw_db w)) (\<lambda>(err, value_exist, check_value).
             if err \<noteq> kOk then Inr (err, resp'\<lparr>rs_error := err\<rparr>, w)
             else
               bind_result (validate_check (cs_check_type update) (cs_check_operand update) value_exist check_value)
                 (\<lambda>(passed, invalid_argument).
               bind_result
                 (if passed
                  then bind_result (if cs_set_diff_sort_key update
                                    then pegasus_generate_key (cs_hash_key update) (cs_set_sort_key update)
                                    else Inr check_key) (\<lambda>set_key.
                         write_batch_put env rk d set_key (cs_set_value update)
                           (word_of_int (cs_set_expire_ts_seconds update)) w)
                  else write_batch_put env rk d [] [] 0 w)
                 (finish_check env rk d passed invalid_argument
                    (return_check_value (cs_return_check_value update) value_exist check_value resp'))))))"

section \<open>check\_and\_mutate\<close>

definition valid_mutate :: "mutate \<Rightarrow> bool" where
  "valid_mutate mu \<longleftrightarrow> mu_operation mu = MO_PUT \<or> mu_operation mu = MO_DELETE"

primrec make_mutate_updates :: "bytes \<Rightarrow> mutate list \<Rightarrow> put_request list result" where
  "make_mutate_updates hash_key [] = Inr []"
| "make_mutate_updates hash_key (mu # mus) =
     bind_result (pegasus_generate_key hash_key (mu_sort_key mu)) (\<lambda>set_key.
     bind_result (case mu_operation mu of
                    MO_PUT \<Rightarrow> Inr (make_idempotent_request set_key (mu_value mu) (mu_set_expire_ts_seconds mu)
                                 UT_CHECK_AND_MUTATE_PUT empty_put_request)
                  | MO_DELETE \<Rightarrow> Inr (make_idempotent_request_for_check_and_mutate_remove set_key empty_put_request)
                  | MO_UNKNOWN _ \<Rightarrow> Inl (Check_failed ''invalid mutate_operation'')) (\<lambda>update.
     bind_result (make_mutate_updates hash_key mus) (\<lambda>updates. Inr (update # updates))))"

definition on_first :: "('a \<Rightarrow> 'a) \<Rightarrow> 'a list \<Rightarrow> 'a list" where
  "on_first f xs = (case xs of [] \<Rightarrow> [] | x # rest \<Rightarrow> f x # rest)"

definition make_idempotent_check_and_mutate ::
  "server_env \<Rightarrow> 'db rocks \<Rightarrow> check_and_mutate_request \<Rightarrow> check_response \<Rightarrow> put_request list \<Rightarrow> 'db wrapper
   \<Rightarrow> (int \<times> check_response \<times> put_request list) result" where
  "make_idempotent_check_and_mutate env rk req err_resp updates w =
     (let fail = (\<lambda>e resp. bind_result (make_error_response env e resp) (\<lambda>resp'. Inr (e, resp', updates)))
      in if cm_mutate_list req = [] then fail kInvalidArgument err_resp
         else if \<not> list_all valid_mutate (cm_mutate_list req) then fail kInvalidArgument err_resp
         else if \<not> is_check_type_supported (cm_check_type req) then fail kInvalidArgument err_resp
         else
           bind_result (pegasus_generate_key (cm_hash_key req) (cm_check_sort_key req)) (\<lambda>check_key.
           bind_result (read_check_value env rk check_key (rw_db w)) (\<lambda>(err, value_exist, check_value).
             if err \<noteq> kOk then fail err err_resp
             else
               bind_result (validate_check (cm_check_type req) (cm_check_operand req) value_exist check_value)
                 (\<lambda>(passed, invalid_argument).
               if \<not> passed
               then fail (if invalid_argument then kInvalidArgument else kTryAgain)
                      (make_check_value_response (cm_return_check_value req) value_exist check_value err_resp)
               else bind_result (make_mutate_updates (cm_hash_key req) (cm_mutate_list req)) (\<lambda>new_updates.
                 Inr (kOk, err_resp,
                   on_first (make_check_value_update (cm_return_check_value req) value_exist check_value)
                     new_updates))))))"

primrec put_mutate_loop ::
  "server_env \<Rightarrow> 'db rocks \<Rightarrow> db_write_context \<Rightarrow> put_request list \<Rightarrow> 'db wrapper \<Rightarrow> (int \<times> 'db wrapper) result" where
  "put_mutate_loop env rk ctx [] w = Inr (kOk, w)"
| "put_mutate_loop env rk ctx (update # updates) w =
     bind_result (if pr_type update = Some UT_CHECK_AND_MUTATE_PUT
                  then write_batch_put_ctx env rk ctx (pr_key update) (pr_value update)
                         (word_of_int (pr_expire_ts_seconds update)) w
                  else if pr_type update = Some UT_CHECK_AND_MUTATE_REMOVE
                  then write_batch_delete rk (pr_key update) w
                  else Inl (Check_failed ''invalid update_type for check_and_mutate'')) (\<lambda>(err, w').
       if err \<noteq> kOk then Inr (err, w') else put_mutate_loop env rk ctx updates w')"

definition put_check_and_mutate ::
  "server_env \<Rightarrow> 'db rocks \<Rightarrow> db_write_context \<Rightarrow> put_request list \<Rightarrow> check_response \<Rightarrow> 'db wrapper
   \<Rightarrow> (int \<times> check_response \<times> 'db wrapper) result" where
  "put_check_and_mutate env rk ctx updates resp w =
     bind_result (check (length updates > 0) ''CHECK_GT_PREFIX(updates.size(), 0)'') (\<lambda>_.
       let resp' = copy_check_value (hd updates) (make_basic_response env (wc_decree ctx) resp)
       in bind_result (bind_result (put_mutate_loop env rk ctx updates w) (commit_batch env rk (wc_decree ctx)))
            (\<lambda>(err, w'). Inr (err, resp'\<lparr>rs_error := err\<rparr>, w')))"

primrec mutate_loop ::
  "server_env \<Rightarrow> 'db rocks \<Rightarrow> decree \<Rightarrow> bytes \<Rightarrow> mutate list \<Rightarrow> 'db wrapper \<Rightarrow> (int \<times> 'db wrapper) result" where
  "mutate_loop env rk d hash_key [] w = Inr (kOk, w)"
| "mutate_loop env rk d hash_key (m # ms) w =
     bind_result (pegasus_generate_key hash_key (mu_sort_key m)) (\<lambda>key.
     bind_result (if mu_operation m = MO_PUT
                  then write_batch_put env rk d key (mu_value m) (word_of_int (mu_set_expire_ts_seconds m)) w
                  else bind_result (check (mu_operation m = MO_DELETE) ''CHECK_EQ(m.operation, MO_DELETE)'') (\<lambda>_.
                         write_batch_delete rk key w)) (\<lambda>(err, w').
       if err \<noteq> kOk then Inr (err, w') else mutate_loop env rk d hash_key ms w'))"

definition check_and_mutate ::
  "server_env \<Rightarrow> 'db rocks \<Rightarrow> decree \<Rightarrow> check_and_mutate_request \<Rightarrow> check_response \<Rightarrow> 'db wrapper
   \<Rightarrow> (int \<times> check_response \<times> 'db wrapper) result" where
  "check_and_mutate env rk d update resp w =
     (let resp' = make_basic_response env d resp
      in if cm_mutate_list update = [] then reject_write env rk d resp' w
         else if \<not> list_all valid_mutate (cm_mutate_list update) then reject_write env rk d resp' w
         else if \<not> is_check_type_supported (cm_check_type update) then reject_write env rk d resp' w
         else
           bind_result (pegasus_generate_key (cm_hash_key update) (cm_check_sort_key update)) (\<lambda>check_key.
           bind_result (read_check_value env rk check_key (rw_db w)) (\<lambda>(err, value_exist, check_value).
             if err \<noteq> kOk then Inr (err, resp'\<lparr>rs_error := err\<rparr>, w)
             else
               bind_result (validate_check (cm_check_type update) (cm_check_operand update) value_exist check_value)
                 (\<lambda>(passed, invalid_argument).
               bind_result
                 (if passed then mutate_loop env rk d (cm_hash_key update) (cm_mutate_list update) w
                  else write_batch_put env rk d [] [] 0 w)
                 (finish_check env rk d passed invalid_argument
                    (return_check_value (cm_return_check_value update) value_exist check_value resp'))))))"

end
