(* ===== verification/Server_Write.thy ===== *)
theory Server_Write
  imports Write_Service
begin

text \<open>
  Batches, duplicated writes and the dispatch of a committed mutation:
  \<^verbatim>\<open>src/src/server/pegasus_write_service.cpp\<close> and
  \<^verbatim>\<open>src/src/server/pegasus_server_write.{h,cpp}\<close>. A request arrives parsed; a message
  whose body cannot be parsed, for which the code catches an exception, is \<open>W_corrupt\<close>, and
  an entry of a duplicate request whose body cannot be parsed is \<open>D_corrupt\<close>.
  The files of a bulk load are ingested by a task in another thread, which is not modelled:
  its handler only starts it.
\<close>

section \<open>Messages\<close>

datatype rpc_code =
    RPC_RRDB_RRDB_PUT | RPC_RRDB_RRDB_REMOVE | RPC_RRDB_RRDB_MULTI_PUT | RPC_RRDB_RRDB_MULTI_REMOVE
  | RPC_RRDB_RRDB_INCR | RPC_RRDB_RRDB_DUPLICATE | RPC_RRDB_RRDB_CHECK_AND_SET
  | RPC_RRDB_RRDB_CHECK_AND_MUTATE | RPC_RRDB_RRDB_BULK_LOAD | RPC_OTHER

datatype dup_request =
    D_put put_request | D_remove bytes | D_multi_put multi_put_request
  | D_multi_remove multi_remove_request | D_corrupt | D_other string

record duplicate_entry =
  de_timestamp :: "64 word"
  de_cluster_id :: "8 word"
  de_verify_timetag :: bool
  de_request :: dup_request

datatype server_request =
    W_put put_request | W_remove bytes | W_multi_put multi_put_request
  | W_multi_remove multi_remove_request | W_incr incr_request | W_duplicate "duplicate_entry list"
  | W_check_and_set check_and_set_request | W_check_and_mutate check_and_mutate_request
  | W_bulk_load | W_corrupt rpc_code

primrec code_of :: "server_request \<Rightarrow> rpc_code" where
  "code_of (W_put _) = RPC_RRDB_RRDB_PUT"
| "code_of (W_remove _) = RPC_RRDB_RRDB_REMOVE"
| "code_of (W_multi_put _) = RPC_RRDB_RRDB_MULTI_PUT"
| "code_of (W_multi_remove _) = RPC_RRDB_RRDB_MULTI_REMOVE"
| "code_of (W_incr _) = RPC_RRDB_RRDB_INCR"
| "code_of (W_duplicate _) = RPC_RRDB_RRDB_DUPLICATE"
| "code_of (W_check_and_set _) = RPC_RRDB_RRDB_CHECK_AND_SET"
| "code_of (W_check_and_mutate _) = RPC_RRDB_RRDB_CHECK_AND_MUTATE"
| "code_of W_bulk_load = RPC_RRDB_RRDB_BULK_LOAD"
| "code_of (W_corrupt c) = c"

record write_message =
  wm_request :: server_request
  wm_partition_hash :: "64 word"
  wm_thread_hash :: int

record duplicate_response =
  dr_error :: int
  dr_error_hint :: string

record ingestion_response =
  gr_err :: error_code
  gr_rocksdb_error :: int

datatype write_reply =
    R_update write_response | R_multi_remove multi_remove_response | R_incr incr_response
  | R_check check_response | R_duplicate duplicate_response | R_ingestion ingestion_response

section \<open>Batches\<close>

text \<open>
  \<open>ws_batch_open\<close> stands for \<open>_batch_start_time\<close>, which is zero exactly between batches;
  \<open>ws_update_responses\<close> counts the responses that wait for the end of the batch, which all
  get the same contents.
\<close>

record 'db write_service =
  ws_rw :: "'db wrapper"
  ws_batch_open :: bool
  ws_update_responses :: nat

definition batch_prepare :: "'db write_service \<Rightarrow> 'db write_service result" where
  "batch_prepare svc =
     bind_result (check (\<not> ws_batch_open svc) ''batch_prepare and batch_commit/batch_abort must be called in pair'')
       (\<lambda>_. Inr (svc\<lparr>ws_batch_open := True\<rparr>))"

definition impl_batch_put ::
  "server_env \<Rightarrow> 'db rocks \<Rightarrow> db_write_context \<Rightarrow> put_request \<Rightarrow> 'db write_service
   \<Rightarrow> (int \<times> 'db write_service) result" where
  "impl_batch_put env rk ctx update svc =
     bind_result (write_batch_put_ctx env rk ctx (pr_key update) (pr_value update)
                    (word_of_int (pr_expire_ts_seconds update)) (ws_rw svc)) (\<lambda>(err, w).
       Inr (err, svc\<lparr>ws_rw := w, ws_update_responses := ws_update_responses svc + 1\<rparr>))"

definition impl_batch_remove ::
  "'db rocks \<Rightarrow> bytes \<Rightarrow> 'db write_service \<Rightarrow> (int \<times> 'db write_service) result" where
  "impl_batch_remove rk key svc =
     bind_result (write_batch_delete rk key (ws_rw svc)) (\<lambda>(err, w).
       Inr (err, svc\<lparr>ws_rw := w, ws_update_responses := ws_update_responses svc + 1\<rparr>))"

text \<open>The contents that every waiting response gets, if there is one.\<close>

definition clear_up_batch_states ::
  "server_env \<Rightarrow> decree \<Rightarrow> int \<Rightarrow> 'db write_service \<Rightarrow> write_response option \<times> 'db write_service" where
  "clear_up_batch_states env d err svc =
     (if ws_update_responses svc \<noteq> 0
      then Some (make_basic_response env d (empty_write_response\<lparr>rs_error := err\<rparr>)) else None,
      svc\<lparr>ws_update_responses := 0, ws_rw := clear_up_write_batch (ws_rw svc)\<rparr>)"

definition impl_batch_commit ::
  "server_env \<Rightarrow> 'db rocks \<Rightarrow> decree \<Rightarrow> 'db write_service
   \<Rightarrow> (int \<times> write_response option \<times> 'db write_service) result" where
  "impl_batch_commit env rk d svc =
     bind_result (db_write env rk d (ws_rw svc)) (\<lambda>(err, w).
       Inr (err, clear_up_batch_states env d err (svc\<lparr>ws_rw := w\<rparr>)))"

definition impl_batch_abort ::
  "server_env \<Rightarrow> decree \<Rightarrow> int \<Rightarrow> 'db write_service \<Rightarrow> write_response option \<times> 'db write_service" where
  "impl_batch_abort env d err svc = clear_up_batch_states env d err svc"

definition batch_put ::
  "server_env \<Rightarrow> 'db rocks \<Rightarrow> db_write_context \<Rightarrow> put_request \<Rightarrow> 'db write_service
   \<Rightarrow> (int \<times> 'db write_service) result" where
  "batch_put env rk ctx update svc =
     bind_result (check (ws_batch_open svc) ''batch_put must be called after batch_prepare'') (\<lambda>_.
       impl_batch_put env rk ctx update svc)"

definition batch_remove :: "'db rocks \<Rightarrow> bytes \<Rightarrow> 'db write_service \<Rightarrow> (int \<times> 'db write_service) result" where
  "batch_remove rk key svc =
     bind_result (check (ws_batch_open svc) ''batch_remove must be called after batch_prepare'') (\<lambda>_.
       impl_batch_remove rk key svc)"

definition batch_finish :: "'db write_service \<Rightarrow> 'db write_service" where
  "batch_finish svc = svc\<lparr>ws_batch_open := False\<rparr>"

definition batch_commit ::
  "server_env \<Rightarrow> 'db rocks \<Rightarrow> decree \<Rightarrow> 'db write_service
   \<Rightarrow> (int \<times> write_response option \<times> 'db write_service) result" where
  "batch_commit env rk d svc =
     bind_result (check (ws_batch_open svc) ''batch_commit must be called after batch_prepare'') (\<lambda>_.
     bind_result (impl_batch_commit env rk d svc) (\<lambda>(err, resp, svc'). Inr (err, resp, batch_finish svc')))"

definition batch_abort ::
  "server_env \<Rightarrow> decree \<Rightarrow> int \<Rightarrow> 'db write_service \<Rightarrow> (write_response option \<times> 'db write_service) result" where
  "batch_abort env d err svc =
     bind_result (check (ws_batch_open svc) ''batch_abort must be called after batch_prepare'') (\<lambda>_.
     bind_result (check (err \<noteq> 0) ''must abort on non-zero err'') (\<lambda>_.
       let (resp, svc') = impl_batch_abort env d err svc in Inr (resp, batch_finish svc')))"

section \<open>Duplicated writes\<close>

definition get_current_dup_cluster_id :: "server_env \<Rightarrow> 8 word result" where
  "get_current_dup_cluster_id env =
     (case se_cluster_id env of None \<Rightarrow> Inl (Check_failed ''get_value'') | Some c \<Rightarrow> Inr c)"

definition is_dup_cluster_id_configured :: "server_env \<Rightarrow> 8 word \<Rightarrow> bool result" where
  "is_dup_cluster_id_configured env cluster_id =
     bind_result (get_current_dup_cluster_id env) (\<lambda>current.
       if cluster_id \<noteq> current \<and> se_ignore_other_cluster_ids env then Inr True
       else Inr (cluster_id \<in> set (se_cluster_ids env)))"

definition lift_wrapper ::
  "'db write_service \<Rightarrow> (int \<times> 'a \<times> 'db wrapper) result \<Rightarrow> (int \<times> 'a \<times> 'db write_service) result" where
  "lift_wrapper svc r = bind_result r (\<lambda>(err, resp, w). Inr (err, resp, svc\<lparr>ws_rw := w\<rparr>))"

definition service_empty_put ::
  "server_env \<Rightarrow> 'db rocks \<Rightarrow> decree \<Rightarrow> 'db write_service \<Rightarrow> (int \<times> 'db write_service) result" where
  "service_empty_put env rk d svc =
     bind_result (empty_put env rk d (ws_rw svc)) (\<lambda>(err, w). Inr (err, svc\<lparr>ws_rw := w\<rparr>))"

text \<open>
  One entry of a duplicate request with a code that can be duplicated. \<open>duplicate\<close> deals
  with the entries of another code and with the corrupt ones itself.
\<close>

definition duplicate_one ::
  "server_env \<Rightarrow> 'db rocks \<Rightarrow> db_write_context \<Rightarrow> dup_request \<Rightarrow> 'db write_service
   \<Rightarrow> (int \<times> 'db write_service) result" where
  "duplicate_one env rk ctx request svc =
     (let batched = (\<lambda>(err, svc1).
            if err = kOk
            then bind_result (impl_batch_commit env rk (wc_decree ctx) svc1) (\<lambda>(err', _, svc2). Inr (err', svc2))
            else Inr (err, snd (impl_batch_abort env (wc_decree ctx) err svc1)))
      in case request of
           D_multi_put update \<Rightarrow>
             bind_result (lift_wrapper svc (multi_put env rk ctx update empty_write_response (ws_rw svc)))
               (\<lambda>(err, _, svc'). Inr (err, svc'))
         | D_multi_remove update \<Rightarrow>
             bind_result (lift_wrapper svc (multi_remove env rk (wc_decree ctx) update empty_multi_remove_response
                            (ws_rw svc))) (\<lambda>(err, _, svc'). Inr (err, svc'))
         | D_put update \<Rightarrow> bind_result (impl_batch_put env rk ctx update svc) batched
         | D_remove key \<Rightarrow> bind_result (impl_batch_remove rk key svc) batched
         | D_corrupt \<Rightarrow> Inr (kCorruption, svc)
         | D_other _ \<Rightarrow> Inr (kInvalidArgument, svc))"

definition is_delete :: "dup_request \<Rightarrow> bool" where
  "is_delete request \<longleftrightarrow> (case request of D_multi_remove _ \<Rightarrow> True | D_remove _ \<Rightarrow> True | _ \<Rightarrow> False)"

text \<open>
  The exception of a corrupt entry leaves \<open>duplicate\<close> and is caught in
  \<open>on_batched_write_requests\<close>, which returns \<open>kOk\<close>: the entries before it stay applied, the
  ones after it are dropped, and the reply is sent as it stands.
\<close>

primrec duplicate ::
  "server_env \<Rightarrow> 'db rocks \<Rightarrow> decree \<Rightarrow> duplicate_entry list \<Rightarrow> duplicate_response \<Rightarrow> 'db write_service
   \<Rightarrow> (int \<times> duplicate_response \<times> 'db write_service) result" where
  "duplicate env rk d [] resp svc = Inr (dr_error resp, resp, svc)"
| "duplicate env rk d (request # entries) resp svc =
     (let refuse = (\<lambda>hint. bind_result (service_empty_put env rk d svc) (\<lambda>(err, svc').
            Inr (err, resp\<lparr>dr_error := kInvalidArgument, dr_error_hint := hint\<rparr>, svc')))
      in bind_result (is_dup_cluster_id_configured env (de_cluster_id request)) (\<lambda>configured.
           if \<not> configured then refuse ''request cluster id is unconfigured''
           else bind_result (get_current_dup_cluster_id env) (\<lambda>current.
             if de_cluster_id request = current then refuse ''self-duplicating''
             else case de_request request of
                    D_other code \<Rightarrow> refuse (''unrecognized task code '' @ code)
                  | D_corrupt \<Rightarrow> Inr (kOk, resp, svc)
                  | body \<Rightarrow>
                      (let timetag = generate_timetag (de_timestamp request) (de_cluster_id request) (is_delete body);
                           ctx = create_duplicate_context d timetag (de_verify_timetag request)
                       in bind_result (duplicate_one env rk ctx body svc) (\<lambda>(err, svc').
                            let resp' = resp\<lparr>dr_error := err\<rparr>
                            in if err \<noteq> kOk then Inr (err, resp', svc')
                               else duplicate env rk d entries resp' svc')))))"

section \<open>Dispatch\<close>

definition request_key_check :: "server_env \<Rightarrow> write_message \<Rightarrow> bytes \<Rightarrow> unit result" where
  "request_key_check env msg key =
     bind_result (if wm_partition_hash msg \<noteq> 0
                  then bind_result (pegasus_key_hash key) (\<lambda>partition_hash.
                       bind_result (check (wm_partition_hash msg = partition_hash) ''inconsistent partition hash'') (\<lambda>_.
                         check (wm_thread_hash msg = se_app_id env * 7919 + se_partition_index env)
                           ''inconsistent thread hash''))
                  else Inr ()) (\<lambda>_.
       if se_rocksdb_verbose_log env then bind_result (pegasus_restore_key key) (\<lambda>_. Inr ()) else Inr ())"

text \<open>
  One request of a batch. The flag says whether the RPC gets a reply at the end of the
  batch: a put that comes from an atomic write does not. A corrupt write joins no batch.
\<close>

datatype batched = Ignored | Batched bool

definition batch_one ::
  "server_env \<Rightarrow> 'db rocks \<Rightarrow> db_write_context \<Rightarrow> write_message \<Rightarrow> 'db write_service
   \<Rightarrow> (int \<times> batched \<times> 'db write_service) result" where
  "batch_one env rk ctx msg svc =
     (case wm_request msg of
        W_put update \<Rightarrow>
          bind_result (batch_put env rk ctx update svc) (\<lambda>(err, svc').
          bind_result (request_key_check env msg (pr_key update)) (\<lambda>_.
            Inr (err, Batched (pr_type update = None \<or> pr_type update = Some UT_PUT), svc')))
      | W_remove key \<Rightarrow>
          bind_result (batch_remove rk key svc) (\<lambda>(err, svc').
          bind_result (request_key_check env msg key) (\<lambda>_. Inr (err, Batched True, svc')))
      | W_corrupt RPC_RRDB_RRDB_PUT \<Rightarrow> Inr (kOk, Ignored, svc)
      | W_corrupt RPC_RRDB_RRDB_REMOVE \<Rightarrow> Inr (kOk, Ignored, svc)
      | _ \<Rightarrow> Inl (Check_failed ''rpc code not allow batch''))"

primrec batch_loop ::
  "server_env \<Rightarrow> 'db rocks \<Rightarrow> db_write_context \<Rightarrow> write_message list \<Rightarrow> int \<Rightarrow> 'db write_service
   \<Rightarrow> (int \<times> batched list \<times> 'db write_service) result" where
  "batch_loop env rk ctx [] err svc = Inr (err, [], svc)"
| "batch_loop env rk ctx (msg # msgs) err svc =
     bind_result (batch_one env rk ctx msg svc) (\<lambda>(local_err, b, svc1).
     bind_result (batch_loop env rk ctx msgs (if err = kOk \<and> local_err \<noteq> kOk then local_err else err) svc1)
       (\<lambda>(err', bs, svc2). Inr (err', b # bs, svc2)))"

definition batch_replies :: "write_response option \<Rightarrow> batched list \<Rightarrow> write_reply list" where
  "batch_replies resp bs =
     (case resp of None \<Rightarrow> [] | Some r \<Rightarrow> map (\<lambda>_. R_update r) (filter (\<lambda>b. b = Batched True) bs))"

definition on_batched_writes ::
  "server_env \<Rightarrow> 'db rocks \<Rightarrow> db_write_context \<Rightarrow> write_message list \<Rightarrow> 'db write_service
   \<Rightarrow> (int \<times> write_reply list \<times> 'db write_service) result" where
  "on_batched_writes env rk ctx requests svc =
     bind_result (batch_prepare svc) (\<lambda>svc0.
     bind_result (batch_loop env rk ctx requests kOk svc0) (\<lambda>(err, bs, svc1).
       if err \<noteq> kOk \<or> list_all (\<lambda>b. b = Ignored) bs
       then bind_result (batch_abort env (wc_decree ctx) (if err = kOk then - 1 else err) svc1) (\<lambda>(resp, svc2).
              Inr (err, batch_replies resp bs, svc2))
       else bind_result (batch_commit env rk (wc_decree ctx) svc1) (\<lambda>(err', resp, svc2).
              Inr (err', batch_replies resp bs, svc2))))"

section \<open>Atomic writes made idempotent\<close>

text \<open>
  The template overloads for vectors: an incr and a \<open>check_and_set\<close> give one update.
  The writer keeps the atomic request and its updates until the mutation is committed.
\<close>

datatype idempotent_writer =
    IW_incr incr_request "put_request list"
  | IW_check_and_set check_and_set_request "put_request list"
  | IW_check_and_mutate check_and_mutate_request "put_request list"

definition put_single ::
  "(put_request \<Rightarrow> 'r \<Rightarrow> 'db wrapper \<Rightarrow> (int \<times> 'r \<times> 'db wrapper) result)
   \<Rightarrow> put_request list \<Rightarrow> 'r \<Rightarrow> 'db wrapper \<Rightarrow> (int \<times> 'r \<times> 'db wrapper) result" where
  "put_single put updates resp w =
     bind_result (check (length updates = 1) ''CHECK_EQ_PREFIX(updates.size(), 1)'') (\<lambda>_. put (hd updates) resp w)"

definition apply_writer ::
  "server_env \<Rightarrow> 'db rocks \<Rightarrow> db_write_context \<Rightarrow> idempotent_writer \<Rightarrow> 'db wrapper
   \<Rightarrow> (int \<times> write_reply \<times> 'db wrapper) result" where
  "apply_writer env rk ctx writer w =
     (case writer of
        IW_incr _ updates \<Rightarrow>
          bind_result (put_single (put_incr env rk ctx) updates empty_incr_response w) (\<lambda>(err, resp, w').
            Inr (err, R_incr resp, w'))
      | IW_check_and_set _ updates \<Rightarrow>
          bind_result (put_single (put_check_and_set env rk ctx) updates empty_check_response w) (\<lambda>(err, resp, w').
            Inr (err, R_check resp, w'))
      | IW_check_and_mutate _ updates \<Rightarrow>
          bind_result (put_check_and_mutate env rk ctx updates empty_check_response w) (\<lambda>(err, resp, w').
            Inr (err, R_check resp, w')))"

text \<open>Every update is sent with the code of a put and the hashes of the atomic request.\<close>

definition update_message :: "write_message \<Rightarrow> put_request \<Rightarrow> write_message" where
  "update_message msg update = msg\<lparr>wm_request := W_put update\<rparr>"

text \<open>
  The status, the new messages, the writer, and the reply that is sent at once when the
  translation fails.
\<close>

type_synonym idempotent_outcome = "int \<times> write_message list \<times> idempotent_writer option \<times> write_reply option"

definition finish_idempotent ::
  "write_message \<Rightarrow> (put_request list \<Rightarrow> idempotent_writer) \<Rightarrow> ('r \<Rightarrow> write_reply)
   \<Rightarrow> int \<Rightarrow> 'r \<Rightarrow> put_request list \<Rightarrow> idempotent_outcome" where
  "finish_idempotent msg writer reply err resp updates =
     (if err \<noteq> kOk then (err, [], None, Some (reply resp))
      else (kOk, map (update_message msg) updates, Some (writer updates), None))"

definition server_make_idempotent ::
  "server_env \<Rightarrow> 'db rocks \<Rightarrow> write_message \<Rightarrow> 'db wrapper \<Rightarrow> idempotent_outcome result" where
  "server_make_idempotent env rk msg w =
     (case wm_request msg of
        W_incr req \<Rightarrow>
          bind_result (make_idempotent_incr env rk req empty_incr_response empty_put_request w)
            (\<lambda>(err, resp, update). Inr (finish_idempotent msg (IW_incr req) R_incr err resp [update]))
      | W_check_and_set req \<Rightarrow>
          bind_result (make_idempotent_check_and_set env rk req empty_check_response empty_put_request w)
            (\<lambda>(err, resp, update). Inr (finish_idempotent msg (IW_check_and_set req) R_check err resp [update]))
      | W_check_and_mutate req \<Rightarrow>
          bind_result (make_idempotent_check_and_mutate env rk req empty_check_response [] w)
            (\<lambda>(err, resp, updates). Inr (finish_idempotent msg (IW_check_and_mutate req) R_check err resp updates))
      | W_corrupt c \<Rightarrow>
          Inr (if c \<in> {RPC_RRDB_RRDB_INCR, RPC_RRDB_RRDB_CHECK_AND_SET, RPC_RRDB_RRDB_CHECK_AND_MUTATE}
               then kCorruption else kOk, [], None, None)
      | _ \<Rightarrow> Inr (kOk, [], None, None))"

section \<open>A committed mutation\<close>

definition is_non_batch :: "rpc_code \<Rightarrow> bool" where
  "is_non_batch c \<longleftrightarrow> c \<in> {RPC_RRDB_RRDB_MULTI_PUT, RPC_RRDB_RRDB_MULTI_REMOVE, RPC_RRDB_RRDB_INCR,
     RPC_RRDB_RRDB_DUPLICATE, RPC_RRDB_RRDB_CHECK_AND_SET, RPC_RRDB_RRDB_CHECK_AND_MUTATE, RPC_RRDB_RRDB_BULK_LOAD}"

definition start_ingestion ::
  "server_env \<Rightarrow> 'db rocks \<Rightarrow> decree \<Rightarrow> 'db write_service \<Rightarrow> (int \<times> write_reply list \<times> 'db write_service) result" where
  "start_ingestion env rk d svc =
     bind_result (service_empty_put env rk d svc) (\<lambda>(err, svc').
       Inr (if err \<noteq> kOk then (err, [R_ingestion \<lparr>gr_err = ERR_TRY_AGAIN, gr_rocksdb_error = err\<rparr>], svc')
            else (kOk, [R_ingestion \<lparr>gr_err = ERR_OK, gr_rocksdb_error = err\<rparr>], svc')))"

definition replied ::
  "('r \<Rightarrow> write_reply) \<Rightarrow> (int \<times> 'r \<times> 'db write_service) result
   \<Rightarrow> (int \<times> write_reply list \<times> 'db write_service) result" where
  "replied reply r = bind_result r (\<lambda>(err, resp, svc). Inr (err, [reply resp], svc))"

definition non_batch_write ::
  "server_env \<Rightarrow> 'db rocks \<Rightarrow> db_write_context \<Rightarrow> server_request \<Rightarrow> 'db write_service
   \<Rightarrow> (int \<times> write_reply list \<times> 'db write_service) result" where
  "non_batch_write env rk ctx request svc =
     (let d = wc_decree ctx; w = ws_rw svc
      in case request of
           W_multi_put update \<Rightarrow>
             replied R_update (lift_wrapper svc (multi_put env rk ctx update empty_write_response w))
         | W_multi_remove update \<Rightarrow>
             replied R_multi_remove (lift_wrapper svc (multi_remove env rk d update empty_multi_remove_response w))
         | W_incr update \<Rightarrow> replied R_incr (lift_wrapper svc (incr env rk d update empty_incr_response w))
         | W_duplicate entries \<Rightarrow>
             replied R_duplicate (duplicate env rk d entries \<lparr>dr_error = 0, dr_error_hint = []\<rparr> svc)
         | W_check_and_set update \<Rightarrow>
             replied R_check (lift_wrapper svc (check_and_set env rk d update empty_check_response w))
         | W_check_and_mutate update \<Rightarrow>
             replied R_check (lift_wrapper svc (check_and_mutate env rk d update empty_check_response w))
         | W_bulk_load \<Rightarrow> start_ingestion env rk d svc
         | _ \<Rightarrow> Inr (kOk, [], svc))"

definition on_batched_write_requests ::
  "server_env \<Rightarrow> 'db rocks \<Rightarrow> write_message list \<Rightarrow> decree \<Rightarrow> 64 word \<Rightarrow> idempotent_writer option
   \<Rightarrow> 'db write_service \<Rightarrow> (int \<times> write_reply list \<times> 'db write_service) result" where
  "on_batched_write_requests env rk requests d timestamp idem_writer svc =
     (let ctx = create_write_context d timestamp
      in case requests of
           [] \<Rightarrow> bind_result (service_empty_put env rk d svc) (\<lambda>(err, svc'). Inr (err, [], svc'))
         | first # _ \<Rightarrow>
             (if is_non_batch (code_of (wm_request first))
              then bind_result (check (length requests = 1)
                     ''there should be only one request for the non-batch write'') (\<lambda>_.
                     non_batch_write env rk ctx (wm_request first) svc)
              else case idem_writer of
                     Some writer \<Rightarrow>
                       bind_result (lift_wrapper svc (apply_writer env rk ctx writer (ws_rw svc)))
                         (\<lambda>(err, reply, svc'). Inr (err, [reply], svc'))
                   | None \<Rightarrow> on_batched_writes env rk ctx requests svc))"

end
