(* ===== verification/Write_Idempotent.thy ===== *)
theory Write_Idempotent
  imports Server_Write
begin

text \<open>
  What the write path guarantees. An atomic write (incr, \<open>check_and_set\<close>,
  \<open>check_and_mutate\<close>) can be applied directly, on every replica, or be translated by the
  primary into single puts before the two-phase commit; the first part shows that both give
  the same answer and the same data on the primary. The second part compares the primary
  with the replicas that apply the single puts from a message.
\<close>

section \<open>Operations on a store that works\<close>

lemma healthy_commit:
  assumes "rocks_healthy rk" "se_inject_write_error env = 0" "rw_batch w \<noteq> []"
  shows "commit_batch env rk d (0, w) = Inr (0, committed rk d w)"
  using healthy_write [OF assms, of d] by (auto simp: commit_batch_def)

definition empty_entry :: "server_env \<Rightarrow> decree \<Rightarrow> 'db wrapper \<Rightarrow> batch_entry" where
  "empty_entry env d w = put_entry env (empty_write_context d) [] [] 0 w"

definition with_batch :: "batch_entry list \<Rightarrow> 'db wrapper \<Rightarrow> 'db wrapper" where
  "with_batch es w = w\<lparr>rw_batch := es\<rparr>"

lemma with_batch_simps [simp]:
  "rw_db (with_batch es w) = rw_db w" "rw_batch (with_batch es w) = es"
  "rw_default_ttl (with_batch es w) = rw_default_ttl w" "with_batch es (with_batch es' w) = with_batch es w"
  "put_entry env ctx k v e (with_batch es w) = put_entry env ctx k v e w"
  by (simp_all add: with_batch_def)

lemma put_ok:
  assumes "store_ok env rk contents w" "\<not> wc_verify_timetag ctx"
  shows "write_batch_put_ctx env rk ctx key value expire (with_batch es w)
    = Inr (0, with_batch (es @ [put_entry env ctx key value expire w]) w)"
  using healthy_put [OF store_okD(2,6) [OF assms(1)] assms(2)] by (simp add: with_batch_def)

lemma put_first_ok:
  assumes "store_ok env rk contents w" "\<not> wc_verify_timetag ctx"
  shows "write_batch_put_ctx env rk ctx key value expire w
    = Inr (0, with_batch [put_entry env ctx key value expire w] w)"
  using healthy_put [OF store_okD(2,6) [OF assms(1)] assms(2)] store_okD(5) [OF assms(1)]
  by (simp add: with_batch_def)

lemma delete_ok:
  assumes "store_ok env rk contents w"
  shows "write_batch_delete rk key (with_batch es w) = Inr (0, with_batch (es @ [Batch_delete key]) w)"
  using healthy_delete [OF store_okD(2) [OF assms]] by (simp add: with_batch_def)

lemma commit_ok:
  assumes "store_ok env rk contents w" "es \<noteq> []"
  shows "commit_batch env rk d (0, with_batch es w) = Inr (0, committed rk d (with_batch es w))"
  using healthy_commit [OF store_okD(2,4) [OF assms(1)], of "with_batch es w"] assms(2) by simp

lemma with_batch_empty: "store_ok env rk contents w \<Longrightarrow> with_batch [] w = w"
  by (simp add: with_batch_def store_ok_def)

lemma empty_put_ok:
  assumes "store_ok env rk contents w"
  shows "empty_put env rk d w = Inr (0, committed rk d (with_batch [empty_entry env d w] w))"
  using put_first_ok [OF assms, of "empty_write_context d"] commit_ok [OF assms]
  by (simp add: empty_put_def write_batch_put_def empty_entry_def)

lemma reject_ok:
  assumes "store_ok env rk contents w"
  shows "reject_write env rk d resp w = Inr (0, resp\<lparr>rs_error := 4\<rparr>, committed rk d (with_batch [empty_entry env d w] w))"
  by (simp add: reject_write_def empty_put_ok [OF assms])

section \<open>Integers in values\<close>

lemma byte_char [simp]: "char_of (unat (word_of_nat (of_char c) :: byte)) = c"
proof -
  have "(of_char c :: nat) < 256" by simp
  then have "unat (word_of_nat (of_char c) :: byte) = of_char c" by (simp add: unat_byte_of_nat)
  then show ?thesis by (simp only: char_of_char)
qed

lemma string_of_numeric [simp]: "to_string_view (create_from_numeric i) = decimal_int i"
  by (simp add: to_string_view_def create_from_numeric_def comp_def)

abbreviation (input) int64 :: "int \<Rightarrow> bool" where
  "int64 i \<equiv> - (2 ^ 63) \<le> i \<and> i < 2 ^ 63"

lemma numeric_roundtrip: "int64 i \<Longrightarrow> buf2int64 (decimal_int i) = Some i"
  using buf2signed_decimal [of 64 i] by (simp add: buf2int64_def)

lemma safe_add_range: "int64 a \<Longrightarrow> int64 b \<Longrightarrow> safe_add a b = Some c \<Longrightarrow> int64 c \<and> c = a + b"
  by (auto simp: safe_add_def split: if_splits)

lemma buf2int64_range: "buf2int64 s = Some i \<Longrightarrow> int64 i"
  by (auto simp: buf2int64_def buf2signed_def Let_def split: option.splits prod.splits if_splits)

section \<open>Batches of updates\<close>

text \<open>The entries that the primary adds for single updates.\<close>

definition update_entry :: "server_env \<Rightarrow> db_write_context \<Rightarrow> 'db wrapper \<Rightarrow> put_request \<Rightarrow> batch_entry" where
  "update_entry env ctx w u =
     (if pr_type u = Some UT_CHECK_AND_MUTATE_REMOVE then Batch_delete (pr_key u)
      else put_entry env ctx (pr_key u) (pr_value u) (word_of_int (pr_expire_ts_seconds u)) w)"

definition after_updates ::
  "server_env \<Rightarrow> 'db rocks \<Rightarrow> db_write_context \<Rightarrow> put_request list \<Rightarrow> 'db wrapper \<Rightarrow> 'db wrapper" where
  "after_updates env rk ctx us w = committed rk (wc_decree ctx) (with_batch (map (update_entry env ctx w) us) w)"

definition after_empty_put :: "server_env \<Rightarrow> 'db rocks \<Rightarrow> decree \<Rightarrow> 'db wrapper \<Rightarrow> 'db wrapper" where
  "after_empty_put env rk d w = committed rk d (with_batch [empty_entry env d w] w)"

lemma user_view_upd:
  assumes "se_data_version env \<le> 1"
  shows "user_view env (apply_entry (put_entry env ctx k v e w) c)
      = (user_view env c)(k \<mapsto> (v, db_expire_ts env w e))"
    and "user_view env (apply_entry (Batch_delete k) c) = (user_view env c)(k := None)"
  using assms by (auto simp: user_view_def apply_entry_def put_entry_def user_record_encoded)

lemma user_view_entry:
  assumes "se_data_version env \<le> 1" "user_view env c = user_view env c'"
  shows "user_view env (apply_entry (update_entry env ctx w u) c)
      = user_view env (apply_entry (update_entry env ctx' w u) c')"
  using assms by (simp add: update_entry_def user_view_upd)

lemma user_view_entries:
  assumes "se_data_version env \<le> 1"
  shows "user_view env c = user_view env c' \<Longrightarrow>
    user_view env (fold apply_entry (map (update_entry env ctx w) us) c)
      = user_view env (fold apply_entry (map (update_entry env ctx' w) us) c')"
proof (induction us arbitrary: c c')
  case (Cons u us)
  from Cons.IH [OF user_view_entry [OF assms Cons.prems]] show ?case by simp
qed simp

lemma after_updates_view:
  assumes "store_ok env rk contents w"
  shows "user_view env (contents (rw_db (after_updates env rk ctx us w)))
    = user_view env (contents (rw_db (after_updates env rk ctx' us w)))"
  using user_view_entries [OF store_okD(6) [OF assms] refl]
  by (simp add: after_updates_def committed_contents [OF store_okD(1,2) [OF assms]])

lemma after_empty_put_contents:
  assumes "store_ok env rk contents w" "k \<noteq> []"
  shows "contents (rw_db (after_empty_put env rk d w)) k = contents (rw_db w) k"
  using assms(2)
  by (simp add: after_empty_put_def committed_contents [OF store_okD(1,2) [OF assms(1)]]
      empty_entry_def put_entry_def apply_entry_def)

section \<open>Translation of incr\<close>

lemma expire_existing: "word_of_int (calc_expire_on_existing req g) =
    (if ir_expire_ts_seconds req = 0 then gc_expire_ts g
     else if ir_expire_ts_seconds req < 0 then 0 else word_of_int (ir_expire_ts_seconds req))"
  by (simp add: calc_expire_on_existing_def)

lemma expire_non_existent: "word_of_int (calc_expire_on_non_existent req) =
    (if ir_expire_ts_seconds req > 0 then word_of_int (ir_expire_ts_seconds req) else 0)"
  by (simp add: calc_expire_on_non_existent_def)

definition incr_update :: "incr_request \<Rightarrow> int \<Rightarrow> int \<Rightarrow> put_request" where
  "incr_update req value expire =
     make_idempotent_request (ir_key req) (create_from_numeric value) expire UT_INCR empty_put_request"

definition incr_done :: "server_env \<Rightarrow> decree \<Rightarrow> int \<Rightarrow> incr_response" where
  "incr_done env d value = (make_basic_response env d empty_incr_response)\<lparr>rs_error := 0, rs_new_value := value\<rparr>"

lemma put_incr_ok:
  assumes "store_ok env rk contents w" "int64 value"
  shows "put_incr env rk (create_write_context d ts) (incr_update req value expire) empty_incr_response w =
    Inr (0, incr_done env d value, after_updates env rk (create_write_context d ts) [incr_update req value expire] w)"
  by (simp add: put_incr_def put_first_ok [OF assms(1)] commit_ok [OF assms(1)] incr_update_def
      make_idempotent_request_def numeric_roundtrip [OF assms(2)] incr_done_def after_updates_def update_entry_def)

lemma incr_translation:
  assumes "store_ok env rk contents w" "int64 (ir_increment req)"
  obtains (translated) n expire where "int64 n"
      "make_idempotent_incr env rk req empty_incr_response empty_put_request w
        = Inr (0, empty_incr_response, incr_update req n expire)"
      "incr env rk d req empty_incr_response w
        = Inr (0, incr_done env d n, after_updates env rk (empty_write_context d) [incr_update req n expire] w)"
  | (refused) err resp where "err \<noteq> 0" "make_idempotent_incr env rk req empty_incr_response empty_put_request w
        = Inr (err, resp, empty_put_request)"
      "incr env rk d req empty_incr_response w = Inr (0, resp\<lparr>rs_decree := d\<rparr>, after_empty_put env rk d w)"
proof -
  note ok = put_first_ok [OF assms(1)] commit_ok [OF assms(1)] reject_ok [OF assms(1)]
  note ops = make_idempotent_incr_def incr_def write_batch_put_def incr_update_def make_idempotent_request_def
    incr_done_def after_updates_def update_entry_def after_empty_put_def make_error_response_def
    make_basic_response_def empty_incr_response_def
  show thesis
  proof (cases rule: healthy_get [OF assms(1), of "ir_key req"])
    case (1 g)
    then show thesis
      by (intro translated [OF assms(2), of "calc_expire_on_non_existent req"])
        (simp_all add: ops ok Let_def expire_non_existent)
  next
    case (2 v g data)
    show thesis
    proof (cases "gc_expired g \<or> data = []")
      case True
      with 2 show thesis
        by (intro translated [OF assms(2), of "if gc_expired g then calc_expire_on_non_existent req
              else calc_expire_on_existing req g"])
          (auto simp: ops ok Let_def expire_non_existent expire_existing)
    next
      case False
      show thesis
      proof (cases "buf2int64 (to_string_view data)")
        case None
        with False 2 show thesis by (intro refused [of 4]) (auto simp: ops ok Let_def)
      next
        case (Some old)
        show thesis
        proof (cases "safe_add old (ir_increment req)")
          case None
          with Some False 2 show thesis by (intro refused [of 4]) (auto simp: ops ok Let_def)
        next
          case (Some new)
          from \<open>buf2int64 _ = Some old\<close> have "int64 old" by (rule buf2int64_range)
          from safe_add_range [OF this assms(2) Some] have "int64 new" ..
          with \<open>buf2int64 _ = Some old\<close> Some False 2 show thesis
            by (intro translated [of new "calc_expire_on_existing req g"])
              (auto simp: ops ok Let_def expire_existing)
        qed
      qed
    qed
  qed
qed

section \<open>Translation of the conditional writes\<close>

definition key_fits :: "bytes \<Rightarrow> bytes \<Rightarrow> bool" where
  "key_fits hash_key skey \<longleftrightarrow> length hash_key < 65535 \<and> 2 + length hash_key + length skey < 2 ^ 31"

definition raw_key :: "bytes \<Rightarrow> bytes \<Rightarrow> bytes" where
  "raw_key hash_key skey = be_bytes 2 (length hash_key) @ hash_key @ skey"

lemma generate_key_ok: "key_fits hash_key skey \<Longrightarrow> pegasus_generate_key hash_key skey = Inr (raw_key hash_key skey)"
  by (simp add: pegasus_generate_key_def key_fits_def raw_key_def)

lemma read_check_ok:
  assumes "store_ok env rk contents w"
  obtains ve cv where "read_check_value env rk key (rw_db w) = Inr (0, ve, cv)"
proof (cases rule: healthy_get [OF assms, of key])
  case (1 g)
  then show thesis by (intro that [of False "[]"]) (simp add: read_check_value_def)
next
  case (2 v g data)
  then show thesis
    by (intro that [of "\<not> gc_expired g" "if gc_expired g then [] else data"]) (simp add: read_check_value_def)
qed

lemma validate_check_ok:
  assumes "is_check_type_supported ct"
  obtains passed invalid where "validate_check ct operand ve cv = Inr (passed, invalid)"
  using assms
  by (cases ct) (auto simp: validate_check_def is_check_type_supported_def prod_eq_iff
      intro: that [of "fst (compare_int_check ct operand ve cv)" "snd (compare_int_check ct operand ve cv)"])

definition check_done :: "server_env \<Rightarrow> decree \<Rightarrow> bool \<Rightarrow> bool \<Rightarrow> bytes \<Rightarrow> check_response" where
  "check_done env d wanted ve cv =
     return_check_value wanted ve cv (make_basic_response env d empty_check_response)"

lemma check_refused:
  assumes "err \<noteq> 0"
  shows "\<exists>resp. make_error_response env err (make_check_value_response wanted ve cv empty_check_response) = Inr resp \<and>
    resp\<lparr>rs_decree := d\<rparr> = (check_done env d wanted ve cv)\<lparr>rs_error := err\<rparr>"
  using assms
  by (auto simp: make_error_response_def make_check_value_response_def check_done_def return_check_value_def
      make_basic_response_def empty_check_response_def Let_def)

lemma check_copied:
  "copy_check_value (make_check_value_update wanted ve cv empty_put_request)
      (make_basic_response env d empty_check_response) = check_done env d wanted ve cv"
  by (auto simp: copy_check_value_def make_check_value_update_def check_done_def return_check_value_def
      make_basic_response_def empty_check_response_def empty_put_request_def Let_def)

definition rejected :: "server_env \<Rightarrow> check_response" where
  "rejected env = empty_check_response\<lparr>rs_error := 4, rs_app_id := se_app_id env,
     rs_partition_index := se_partition_index env, rs_decree := - 1, rs_server := se_server env\<rparr>"

lemma rejected_check:
  assumes "store_ok env rk contents w"
  shows "make_error_response env 4 empty_check_response = Inr (rejected env)" (is ?A)
    and "reject_write env rk d (make_basic_response env d empty_check_response) w
      = Inr (0, (rejected env)\<lparr>rs_decree := d\<rparr>, after_empty_put env rk d w)" (is ?B)
proof -
  show ?A by (simp add: make_error_response_def rejected_def empty_check_response_def)
  show ?B
    by (simp add: reject_ok [OF assms] make_basic_response_def empty_check_response_def rejected_def
        after_empty_put_def)
qed

text \<open>What the translation and the direct operation share once the check value is read.\<close>

definition cas_keys_fit :: "check_and_set_request \<Rightarrow> bool" where
  "cas_keys_fit req \<longleftrightarrow> key_fits (cs_hash_key req) (cs_check_sort_key req) \<and>
     key_fits (cs_hash_key req) (cs_set_sort_key req)"

definition cas_update :: "check_and_set_request \<Rightarrow> bool \<Rightarrow> bytes \<Rightarrow> put_request" where
  "cas_update req ve cv =
     make_idempotent_request
       (raw_key (cs_hash_key req) (if cs_set_diff_sort_key req then cs_set_sort_key req else cs_check_sort_key req))
       (cs_set_value req) (cs_set_expire_ts_seconds req) UT_CHECK_AND_SET
       (make_check_value_update (cs_return_check_value req) ve cv empty_put_request)"

lemma check_fields_independent [simp]:
  "copy_check_value (make_idempotent_request k v e t u) resp = copy_check_value u resp"
  by (simp add: copy_check_value_def make_idempotent_request_def)

lemma put_check_and_set_ok:
  assumes "store_ok env rk contents w"
  shows "put_check_and_set env rk (create_write_context d ts) (cas_update req ve cv) empty_check_response w =
    Inr (0, (check_done env d (cs_return_check_value req) ve cv)\<lparr>rs_error := 0\<rparr>,
         after_updates env rk (create_write_context d ts) [cas_update req ve cv] w)"
  by (simp add: put_check_and_set_def put_first_ok [OF assms(1)] commit_ok [OF assms(1)] cas_update_def
      check_copied after_updates_def update_entry_def) (simp add: make_idempotent_request_def)

lemma check_and_set_translation:
  assumes "store_ok env rk contents w" "cas_keys_fit req"
  obtains (translated) ve cv where
      "make_idempotent_check_and_set env rk req empty_check_response empty_put_request w
        = Inr (0, empty_check_response, cas_update req ve cv)"
      "check_and_set env rk d req empty_check_response w
        = Inr (0, (check_done env d (cs_return_check_value req) ve cv)\<lparr>rs_error := 0\<rparr>,
               after_updates env rk (empty_write_context d) [cas_update req ve cv] w)"
  | (refused) err resp where "err \<noteq> 0"
      "make_idempotent_check_and_set env rk req empty_check_response empty_put_request w
        = Inr (err, resp, empty_put_request)"
      "check_and_set env rk d req empty_check_response w = Inr (0, resp\<lparr>rs_decree := d\<rparr>, after_empty_put env rk d w)"
proof (cases "is_check_type_supported (cs_check_type req)")
  case False
  with rejected_check [OF assms(1)] show thesis
    by (intro refused [of 4]) (auto simp: make_idempotent_check_and_set_def check_and_set_def)
next
  case True
  from assms(2) have keys:
    "pegasus_generate_key (cs_hash_key req) (cs_check_sort_key req) = Inr (raw_key (cs_hash_key req) (cs_check_sort_key req))"
    "pegasus_generate_key (cs_hash_key req) (cs_set_sort_key req) = Inr (raw_key (cs_hash_key req) (cs_set_sort_key req))"
    by (simp_all add: cas_keys_fit_def generate_key_ok)
  obtain ve cv where read:
    "read_check_value env rk (raw_key (cs_hash_key req) (cs_check_sort_key req)) (rw_db w) = Inr (0, ve, cv)"
    by (rule read_check_ok [OF assms(1)])
  obtain passed invalid where valid:
    "validate_check (cs_check_type req) (cs_check_operand req) ve cv = Inr (passed, invalid)"
    by (rule validate_check_ok [OF True])
  note ops = make_idempotent_check_and_set_def check_and_set_def keys read valid True Let_def write_batch_put_def
    put_first_ok [OF assms(1)] finish_check_def commit_ok [OF assms(1)]
  show thesis
  proof (cases passed)
    case True
    then show thesis
      by (intro translated [of ve cv])
        (simp_all add: ops cas_update_def after_updates_def update_entry_def check_done_def
          make_idempotent_request_def)
  next
    case False
    define err where "err = (if invalid then 4 else 13 :: int)"
    then have "err \<noteq> 0" by simp
    from check_refused [OF this, of env "cs_return_check_value req" ve cv d] obtain resp where
      "make_error_response env err (make_check_value_response (cs_return_check_value req) ve cv empty_check_response) = Inr resp"
      "resp\<lparr>rs_decree := d\<rparr> = (check_done env d (cs_return_check_value req) ve cv)\<lparr>rs_error := err\<rparr>" by blast
    with False \<open>err \<noteq> 0\<close> show thesis
      by (intro refused [of err resp]) (simp_all add: ops err_def after_empty_put_def empty_entry_def check_done_def)
  qed
qed

definition cam_keys_fit :: "check_and_mutate_request \<Rightarrow> bool" where
  "cam_keys_fit req \<longleftrightarrow> key_fits (cm_hash_key req) (cm_check_sort_key req) \<and>
     list_all (\<lambda>mu. key_fits (cm_hash_key req) (mu_sort_key mu)) (cm_mutate_list req)"

definition mutate_update :: "bytes \<Rightarrow> mutate \<Rightarrow> put_request" where
  "mutate_update hash_key mu =
     (if mu_operation mu = MO_PUT
      then make_idempotent_request (raw_key hash_key (mu_sort_key mu)) (mu_value mu) (mu_set_expire_ts_seconds mu)
             UT_CHECK_AND_MUTATE_PUT empty_put_request
      else make_idempotent_request_for_check_and_mutate_remove (raw_key hash_key (mu_sort_key mu)) empty_put_request)"

definition cam_updates :: "check_and_mutate_request \<Rightarrow> bool \<Rightarrow> bytes \<Rightarrow> put_request list" where
  "cam_updates req ve cv =
     on_first (make_check_value_update (cm_return_check_value req) ve cv)
       (map (mutate_update (cm_hash_key req)) (cm_mutate_list req))"

lemmas mutate_defs = mutate_update_def make_idempotent_request_def
  make_idempotent_request_for_check_and_mutate_remove_def empty_put_request_def update_entry_def

lemma make_mutate_updates_ok:
  "list_all valid_mutate mus \<Longrightarrow> list_all (\<lambda>mu. key_fits hash_key (mu_sort_key mu)) mus \<Longrightarrow>
   make_mutate_updates hash_key mus = Inr (map (mutate_update hash_key) mus)"
  by (induction mus) (auto simp: generate_key_ok valid_mutate_def mutate_update_def)

lemma update_entry_first:
  "map (update_entry env ctx w) (on_first (make_check_value_update a ve cv) us) = map (update_entry env ctx w) us"
  by (auto simp: on_first_def update_entry_def make_check_value_update_def Let_def split: list.split)

lemma mutate_loop_ok:
  assumes "store_ok env rk contents w"
  shows "list_all valid_mutate mus \<Longrightarrow> list_all (\<lambda>mu. key_fits hash_key (mu_sort_key mu)) mus \<Longrightarrow>
    mutate_loop env rk d hash_key mus (with_batch es w) =
      Inr (0, with_batch (es @ map (\<lambda>mu. update_entry env (empty_write_context d) w (mutate_update hash_key mu)) mus) w)"
  by (induction mus arbitrary: es)
    (auto simp: generate_key_ok valid_mutate_def write_batch_put_def put_ok [OF assms] delete_ok [OF assms] mutate_defs)

definition mutate_type :: "put_request \<Rightarrow> bool" where
  "mutate_type u \<longleftrightarrow> pr_type u = Some UT_CHECK_AND_MUTATE_PUT \<or> pr_type u = Some UT_CHECK_AND_MUTATE_REMOVE"

lemma put_mutate_loop_ok:
  assumes "store_ok env rk contents w" "\<not> wc_verify_timetag ctx"
  shows "list_all mutate_type us \<Longrightarrow>
    put_mutate_loop env rk ctx us (with_batch es w) = Inr (0, with_batch (es @ map (update_entry env ctx w) us) w)"
  by (induction us arbitrary: es)
    (auto simp: mutate_type_def put_ok [OF assms] delete_ok [OF assms(1)] update_entry_def)

lemma cam_updates_types: "list_all mutate_type (cam_updates req ve cv)"
proof -
  have "mutate_type (mutate_update hash_key mu)" for hash_key mu
    by (simp add: mutate_type_def mutate_defs)
  then have "list_all mutate_type (map (mutate_update hash_key) mus)" for hash_key mus
    by (simp add: list_all_length)
  moreover have "mutate_type (make_check_value_update a ve cv u) = mutate_type u" for a u
    by (simp add: mutate_type_def make_check_value_update_def Let_def)
  then have "list_all mutate_type (on_first (make_check_value_update a ve cv) us) = list_all mutate_type us" for a us
    by (cases us) (simp_all add: on_first_def)
  ultimately show ?thesis by (simp only: cam_updates_def)
qed

lemma cam_updates_empty: "cam_updates req ve cv = [] \<longleftrightarrow> cm_mutate_list req = []"
  by (cases "cm_mutate_list req") (simp_all add: cam_updates_def on_first_def)

lemma cam_updates_copied:
  assumes "cm_mutate_list req \<noteq> []"
  shows "copy_check_value (hd (cam_updates req ve cv)) (make_basic_response env d empty_check_response)
    = check_done env d (cm_return_check_value req) ve cv"
  using assms check_copied [of "cm_return_check_value req" ve cv env d]
  by (cases "cm_mutate_list req")
    (auto simp: cam_updates_def on_first_def copy_check_value_def make_check_value_update_def mutate_defs Let_def)

lemma put_check_and_mutate_ok:
  assumes "store_ok env rk contents w" "cm_mutate_list req \<noteq> []"
  shows "put_check_and_mutate env rk (create_write_context d ts) (cam_updates req ve cv) empty_check_response w =
    Inr (0, (check_done env d (cm_return_check_value req) ve cv)\<lparr>rs_error := 0\<rparr>,
         after_updates env rk (create_write_context d ts) (cam_updates req ve cv) w)"
  using put_mutate_loop_ok [OF assms(1) _ cam_updates_types, of "create_write_context d ts" req ve cv "[]"]
    cam_updates_empty [of req ve cv] assms(2)
  by (simp add: put_check_and_mutate_def with_batch_empty [OF assms(1)] commit_ok [OF assms(1)]
      cam_updates_copied after_updates_def)

lemma check_and_mutate_translation:
  assumes "store_ok env rk contents w" "cam_keys_fit req"
  obtains (translated) ve cv where "cm_mutate_list req \<noteq> []" "list_all valid_mutate (cm_mutate_list req)"
      "make_idempotent_check_and_mutate env rk req empty_check_response [] w
        = Inr (0, empty_check_response, cam_updates req ve cv)"
      "check_and_mutate env rk d req empty_check_response w
        = Inr (0, (check_done env d (cm_return_check_value req) ve cv)\<lparr>rs_error := 0\<rparr>,
               after_updates env rk (empty_write_context d) (cam_updates req ve cv) w)"
  | (refused) err resp where "err \<noteq> 0"
      "make_idempotent_check_and_mutate env rk req empty_check_response [] w = Inr (err, resp, [])"
      "check_and_mutate env rk d req empty_check_response w
        = Inr (0, resp\<lparr>rs_decree := d\<rparr>, after_empty_put env rk d w)"
proof (cases "cm_mutate_list req = [] \<or> \<not> list_all valid_mutate (cm_mutate_list req) \<or>
    \<not> is_check_type_supported (cm_check_type req)")
  case True
  with rejected_check [OF assms(1)] show thesis
    by (intro refused [of 4]) (auto simp: make_idempotent_check_and_mutate_def check_and_mutate_def Let_def)
next
  case False
  let ?hk = "cm_hash_key req"
  let ?key = "raw_key ?hk (cm_check_sort_key req)"
  from assms(2) have keys: "pegasus_generate_key ?hk (cm_check_sort_key req) = Inr ?key"
    "list_all (\<lambda>mu. key_fits ?hk (mu_sort_key mu)) (cm_mutate_list req)"
    by (simp_all add: cam_keys_fit_def generate_key_ok)
  obtain ve cv where read: "read_check_value env rk ?key (rw_db w) = Inr (0, ve, cv)"
    by (rule read_check_ok [OF assms(1)])
  from False have "is_check_type_supported (cm_check_type req)" by simp
  then obtain passed invalid where valid:
    "validate_check (cm_check_type req) (cm_check_operand req) ve cv = Inr (passed, invalid)"
    by (rule validate_check_ok)
  note ops = make_idempotent_check_and_mutate_def check_and_mutate_def keys read valid Let_def write_batch_put_def
    put_first_ok [OF assms(1)] finish_check_def commit_ok [OF assms(1)]
  show thesis
  proof (cases passed)
    case True
    have loop: "mutate_loop env rk d ?hk (cm_mutate_list req) w =
        Inr (0, with_batch (map (update_entry env (empty_write_context d) w) (cam_updates req ve cv)) w)"
      using mutate_loop_ok [OF assms(1) _ keys(2), of d "[]"] False
      by (simp add: with_batch_empty [OF assms(1)] cam_updates_def update_entry_first comp_def)
    have "make_mutate_updates ?hk (cm_mutate_list req) = Inr (map (mutate_update ?hk) (cm_mutate_list req))"
      using False keys(2) by (intro make_mutate_updates_ok) auto
    with True False loop cam_updates_empty [of req ve cv] show thesis
      by (intro translated [of ve cv]) (simp_all add: ops after_updates_def check_done_def cam_updates_def)
  next
    case notpassed: False
    define err where "err = (if invalid then 4 else 13 :: int)"
    then have "err \<noteq> 0" by simp
    from check_refused [OF this, of env "cm_return_check_value req" ve cv d] obtain resp where
      "make_error_response env err (make_check_value_response (cm_return_check_value req) ve cv empty_check_response) = Inr resp"
      "resp\<lparr>rs_decree := d\<rparr> = (check_done env d (cm_return_check_value req) ve cv)\<lparr>rs_error := err\<rparr>" by blast
    with False notpassed \<open>err \<noteq> 0\<close> show thesis
      by (intro refused [of err resp]) (simp_all add: ops err_def after_empty_put_def empty_entry_def check_done_def)
  qed
qed

section \<open>Direct and idempotent atomic writes\<close>

definition atomic_ok :: "server_request \<Rightarrow> bool" where
  "atomic_ok request \<longleftrightarrow>
     (case request of
        W_incr req \<Rightarrow> int64 (ir_increment req)
      | W_check_and_set req \<Rightarrow> cas_keys_fit req
      | W_check_and_mutate req \<Rightarrow> cam_keys_fit req
      | _ \<Rightarrow> False)"

definition reply_at :: "decree \<Rightarrow> write_reply \<Rightarrow> write_reply" where
  "reply_at d reply =
     (case reply of
        R_incr r \<Rightarrow> R_incr (r\<lparr>rs_decree := d\<rparr>) | R_check r \<Rightarrow> R_check (r\<lparr>rs_decree := d\<rparr>) | _ \<Rightarrow> reply)"

definition atomic_update :: "put_request \<Rightarrow> bool" where
  "atomic_update u \<longleftrightarrow> pr_type u \<noteq> None \<and> pr_type u \<noteq> Some UT_PUT"

lemma lift_wrapper_Inr [simp]: "lift_wrapper svc (Inr (err, resp, w)) = Inr (err, resp, svc\<lparr>ws_rw := w\<rparr>)"
  by (simp add: lift_wrapper_def)

lemma replied_Inr [simp]: "replied f (Inr (err, resp, svc)) = Inr (err, [f resp], svc)"
  by (simp add: replied_def)

lemma single_update [simp]: "put_single f [u] resp w = f u resp w"
  by (simp add: put_single_def)

lemma update_message_simps [simp]:
  "wm_request (update_message msg u) = W_put u"
  "request_key_check env (update_message msg u) = request_key_check env msg"
  by (simp_all add: update_message_def request_key_check_def fun_eq_iff)

lemma put_messages_batch: "us \<noteq> [] \<Longrightarrow> on_batched_write_requests env rk (map (update_message msg) us) d ts (Some writer) svc =
    bind_result (lift_wrapper svc (apply_writer env rk (create_write_context d ts) writer (ws_rw svc)))
      (\<lambda>(err, reply, svc'). Inr (err, [reply], svc'))"
  by (cases us) (simp_all add: on_batched_write_requests_def is_non_batch_def Let_def)

text \<open>
  Every atomic write either becomes a list of updates, which the primary applies with the
  answer of the direct operation, or is refused, and then the direct operation gives the
  same answer and writes an empty record.
\<close>

lemma atomic_translation:
  assumes "store_ok env rk contents (ws_rw svc)" "atomic_ok (wm_request msg)"
  obtains (translated) us writer reply where "us \<noteq> []" "list_all atomic_update us"
      "server_make_idempotent env rk msg (ws_rw svc) = Inr (0, map (update_message msg) us, Some writer, None)"
      "on_batched_write_requests env rk [msg] d ts None svc
        = Inr (0, [reply], svc\<lparr>ws_rw := after_updates env rk (empty_write_context d) us (ws_rw svc)\<rparr>)"
      "on_batched_write_requests env rk (map (update_message msg) us) d ts (Some writer) svc
        = Inr (0, [reply], svc\<lparr>ws_rw := after_updates env rk (create_write_context d ts) us (ws_rw svc)\<rparr>)"
  | (refused) err reply where "err \<noteq> 0"
      "server_make_idempotent env rk msg (ws_rw svc) = Inr (err, [], None, Some reply)"
      "on_batched_write_requests env rk [msg] d ts None svc
        = Inr (0, [reply_at d reply], svc\<lparr>ws_rw := after_empty_put env rk d (ws_rw svc)\<rparr>)"
proof -
  let ?w = "ws_rw svc"
  note direct = on_batched_write_requests_def is_non_batch_def non_batch_write_def Let_def
  note idem = server_make_idempotent_def finish_idempotent_def
  consider (incr) req where "wm_request msg = W_incr req" "int64 (ir_increment req)"
    | (cas) req where "wm_request msg = W_check_and_set req" "cas_keys_fit req"
    | (cam) req where "wm_request msg = W_check_and_mutate req" "cam_keys_fit req"
    using assms(2) by (auto simp: atomic_ok_def split: server_request.splits)
  then show thesis
  proof cases
    case incr
    show thesis
    proof (cases rule: incr_translation [OF assms(1) incr(2), of d])
      case (1 n expire)
      show thesis
        by (rule translated [of "[incr_update req n expire]" "IW_incr req [incr_update req n expire]"])
          (use 1 incr put_incr_ok [OF assms(1) 1(1)] in
            \<open>simp_all add: direct idem apply_writer_def atomic_update_def
              incr_update_def make_idempotent_request_def\<close>)
    next
      case (2 err resp)
      with incr show thesis by (intro refused [of err "R_incr resp"]) (simp_all add: direct idem reply_at_def)
    qed
  next
    case cas
    show thesis
    proof (cases rule: check_and_set_translation [OF assms(1) cas(2), of d])
      case (1 ve cv)
      show thesis
        by (rule translated [of "[cas_update req ve cv]" "IW_check_and_set req [cas_update req ve cv]"])
          (use 1 cas put_check_and_set_ok [OF assms(1)] in
            \<open>simp_all add: direct idem apply_writer_def atomic_update_def
              cas_update_def make_idempotent_request_def\<close>)
    next
      case (2 err resp)
      with cas show thesis by (intro refused [of err "R_check resp"]) (simp_all add: direct idem reply_at_def)
    qed
  next
    case cam
    show thesis
    proof (cases rule: check_and_mutate_translation [OF assms(1) cam(2), of d])
      case (1 ve cv)
      have "list_all atomic_update (cam_updates req ve cv)"
        by (rule list.pred_mono_strong [OF cam_updates_types]) (auto simp: mutate_type_def atomic_update_def)
      moreover have ne: "cam_updates req ve cv \<noteq> []" using 1(1) cam_updates_empty by blast
      moreover have "on_batched_write_requests env rk (map (update_message msg) (cam_updates req ve cv)) d ts
          (Some (IW_check_and_mutate req (cam_updates req ve cv))) svc
        = Inr (0, [R_check ((check_done env d (cm_return_check_value req) ve cv)\<lparr>rs_error := 0\<rparr>)],
               svc\<lparr>ws_rw := after_updates env rk (create_write_context d ts) (cam_updates req ve cv) ?w\<rparr>)"
        using put_check_and_mutate_ok [OF assms(1) 1(1)] by (simp add: put_messages_batch [OF ne] apply_writer_def)
      ultimately show thesis
        by (intro translated) (use 1 cam in \<open>simp_all add: direct idem\<close>)
    next
      case (2 err resp)
      with cam show thesis by (intro refused [of err "R_check resp"]) (simp_all add: direct idem reply_at_def)
    qed
  qed
qed

text \<open>
  C8.
  Making an atomic write idempotent does not change it on the primary. If the translation
  of an incr, \<open>check_and_set\<close> or \<open>check_and_mutate\<close> succeeds, then committing the translated
  updates gives the client the same answer as the direct operation and leaves the same
  records (data and expiration times). If the translation is refused, it sends the answer
  of the direct operation, which leaves the records as they are. Neither way aborts.
\<close>

theorem atomic_write_equivalent:
  assumes "store_ok env rk contents (ws_rw svc)" "atomic_ok (wm_request msg)"
  shows "\<exists>err msgs writer reply direct svc1.
    server_make_idempotent env rk msg (ws_rw svc) = Inr (err, msgs, writer, reply) \<and>
    on_batched_write_requests env rk [msg] d ts None svc = Inr (kOk, [direct], svc1) \<and>
    (if err = kOk
     then \<exists>svc2. on_batched_write_requests env rk msgs d ts writer svc = Inr (kOk, [direct], svc2) \<and>
            user_view env (contents (rw_db (ws_rw svc1))) = user_view env (contents (rw_db (ws_rw svc2)))
     else msgs = [] \<and> (\<exists>r. reply = Some r \<and> direct = reply_at d r) \<and>
            (\<forall>k. k \<noteq> [] \<longrightarrow> contents (rw_db (ws_rw svc1)) k = contents (rw_db (ws_rw svc)) k))"
proof (cases rule: atomic_translation [OF assms, of d ts])
  case (1 us writer reply)
  then show ?thesis
    using after_updates_view [OF assms(1), of "empty_write_context d" us "create_write_context d ts"] by auto
next
  case (2 err reply)
  then show ?thesis using after_empty_put_contents [OF assms(1)] by auto
qed

text \<open>A store kept in a function, and a replica over it.\<close>

definition map_rocks :: "contents rocks" where
  "map_rocks = \<lparr>rk_get = (\<lambda>db k. case db k of None \<Rightarrow> (1, []) | Some v \<Rightarrow> (0, v)),
     rk_batch_status = (\<lambda>_. 0), rk_write = (\<lambda>es db. (0, fold apply_entry es db))\<rparr>"

definition sample_server :: server_env where
  "sample_server = \<lparr>se_data_version = 1, se_epoch_now = 100, se_cluster_id = Some 1, se_cluster_ids = [1, 2],
     se_ignore_other_cluster_ids = False, se_app_id = 2, se_partition_index = 3, se_server = ''server'',
     se_inject_write_error = 0, se_rocksdb_verbose_log = False\<rparr>"

definition sample_service :: "contents write_service" where
  "sample_service = \<lparr>ws_rw = \<lparr>rw_db = Map.empty, rw_batch = [], rw_default_ttl = 0\<rparr>, ws_batch_open = False,
     ws_update_responses = 0\<rparr>"

lemma map_rocks_ok: "rocks_correct map_rocks (\<lambda>db. db)" "rocks_healthy map_rocks"
  by (auto simp: rocks_correct_def rocks_healthy_def map_rocks_def split: option.splits)

lemma sample_store_ok: "store_ok sample_server map_rocks (\<lambda>db. db) (ws_rw sample_service)"
  by (simp add: store_ok_def map_rocks_ok records_ok_def sample_server_def sample_service_def word_le_nat_alt)

definition sample_message :: "server_request \<Rightarrow> write_message" where
  "sample_message request = \<lparr>wm_request = request, wm_partition_hash = 0, wm_thread_hash = 0\<rparr>"

definition sample_incr :: write_message where
  "sample_incr = sample_message (W_incr \<lparr>ir_key = [0, 1, 104, 115], ir_increment = 5, ir_expire_ts_seconds = 0\<rparr>)"

theorem atomic_write_equivalent_witness:
  "\<exists>err msgs writer reply direct svc1.
    server_make_idempotent sample_server map_rocks sample_incr (ws_rw sample_service) = Inr (err, msgs, writer, reply) \<and>
    on_batched_write_requests sample_server map_rocks [sample_incr] 7 9 None sample_service
      = Inr (kOk, [direct], svc1) \<and>
    (if err = kOk
     then \<exists>svc2. on_batched_write_requests sample_server map_rocks msgs 7 9 writer sample_service
              = Inr (kOk, [direct], svc2) \<and>
            user_view sample_server (rw_db (ws_rw svc1)) = user_view sample_server (rw_db (ws_rw svc2))
     else msgs = [] \<and> (\<exists>r. reply = Some r \<and> direct = reply_at 7 r) \<and>
            (\<forall>k. k \<noteq> [] \<longrightarrow> rw_db (ws_rw svc1) k = rw_db (ws_rw sample_service) k))"
proof -
  have "atomic_ok (wm_request sample_incr)" by (simp add: sample_incr_def sample_message_def atomic_ok_def)
  from atomic_write_equivalent [OF sample_store_ok this, of 7 9] show ?thesis .
qed

section \<open>Replicas that apply the translated updates\<close>

text \<open>
  A secondary, and any replica that replays its log, gets the updates as put messages and
  adds a put for each of them.
\<close>

definition plain_entry :: "server_env \<Rightarrow> db_write_context \<Rightarrow> 'db wrapper \<Rightarrow> put_request \<Rightarrow> batch_entry" where
  "plain_entry env ctx w u = put_entry env ctx (pr_key u) (pr_value u) (word_of_int (pr_expire_ts_seconds u)) w"

definition keys_checked :: "server_env \<Rightarrow> write_message \<Rightarrow> bool" where
  "keys_checked env msg \<longleftrightarrow>
     (case wm_request msg of W_put u \<Rightarrow> request_key_check env msg (pr_key u) = Inr () | _ \<Rightarrow> False)"

definition after_messages ::
  "server_env \<Rightarrow> 'db rocks \<Rightarrow> db_write_context \<Rightarrow> put_request list \<Rightarrow> 'db wrapper \<Rightarrow> 'db wrapper" where
  "after_messages env rk ctx us w = committed rk (wc_decree ctx) (with_batch (map (plain_entry env ctx w) us) w)"

lemma batch_one_put:
  assumes "store_ok env rk contents w" "\<not> wc_verify_timetag ctx" "ws_batch_open svc" "ws_rw svc = with_batch es w"
    "atomic_update u" "keys_checked env (update_message msg u)"
  shows "batch_one env rk ctx (update_message msg u) svc =
    Inr (0, Batched False, svc\<lparr>ws_rw := with_batch (es @ [plain_entry env ctx w u]) w,
           ws_update_responses := ws_update_responses svc + 1\<rparr>)"
  using assms(3-)
  by (simp add: batch_one_def batch_put_def impl_batch_put_def put_ok [OF assms(1,2)] keys_checked_def
      plain_entry_def atomic_update_def)

lemma batch_loop_puts:
  assumes "store_ok env rk contents w" "\<not> wc_verify_timetag ctx"
  shows "ws_batch_open svc \<Longrightarrow> ws_rw svc = with_batch es w \<Longrightarrow> list_all atomic_update us \<Longrightarrow>
    list_all (keys_checked env) (map (update_message msg) us) \<Longrightarrow>
    batch_loop env rk ctx (map (update_message msg) us) 0 svc =
      Inr (0, replicate (length us) (Batched False),
           svc\<lparr>ws_rw := with_batch (es @ map (plain_entry env ctx w) us) w,
               ws_update_responses := ws_update_responses svc + length us\<rparr>)"
proof (induction us arbitrary: svc es)
  case (Cons u us)
  let ?svc = "svc\<lparr>ws_rw := with_batch (es @ [plain_entry env ctx w u]) w,
    ws_update_responses := ws_update_responses svc + 1\<rparr>"
  from Cons.prems have "batch_one env rk ctx (update_message msg u) svc = Inr (0, Batched False, ?svc)"
    by (intro batch_one_put [OF assms]) simp_all
  moreover have "batch_loop env rk ctx (map (update_message msg) us) 0 ?svc =
      Inr (0, replicate (length us) (Batched False),
           ?svc\<lparr>ws_rw := with_batch ((es @ [plain_entry env ctx w u]) @ map (plain_entry env ctx w) us) w,
               ws_update_responses := ws_update_responses ?svc + length us\<rparr>)"
    using Cons.prems by (intro Cons.IH) simp_all
  ultimately show ?case by simp
qed simp

lemma messages_applied:
  assumes "store_ok env rk contents (ws_rw svc)" "\<not> ws_batch_open svc" "us \<noteq> []" "list_all atomic_update us"
    "list_all (keys_checked env) (map (update_message msg) us)"
  shows "\<exists>svc'. on_batched_write_requests env rk (map (update_message msg) us) d ts None svc = Inr (0, [], svc') \<and>
    ws_rw svc' = after_messages env rk (create_write_context d ts) us (ws_rw svc) \<and> \<not> ws_batch_open svc'"
proof -
  let ?ctx = "create_write_context d ts" and ?w = "ws_rw svc"
  let ?es = "map (plain_entry env ?ctx ?w) us"
  let ?svc = "svc\<lparr>ws_batch_open := True, ws_rw := with_batch ?es ?w,
    ws_update_responses := ws_update_responses svc + length us\<rparr>"
  have "batch_loop env rk ?ctx (map (update_message msg) us) 0 (svc\<lparr>ws_batch_open := True\<rparr>)
      = Inr (0, replicate (length us) (Batched False), ?svc)"
    using batch_loop_puts [OF assms(1), of ?ctx "svc\<lparr>ws_batch_open := True\<rparr>" "[]" us msg] assms
    by (simp add: with_batch_empty [OF assms(1)])
  moreover obtain w' where "db_write env rk d (with_batch ?es ?w) = Inr (0, w')"
    "clear_up_write_batch w' = committed rk d (with_batch ?es ?w)"
    using healthy_write [OF store_okD(2,4) [OF assms(1)], of "with_batch ?es ?w" d] assms(3) by auto
  moreover obtain u us' where "us = u # us'" using assms(3) by (cases us) auto
  ultimately show ?thesis
    using assms(2)
    by (auto simp: on_batched_write_requests_def is_non_batch_def Let_def on_batched_writes_def batch_prepare_def
        batch_commit_def impl_batch_commit_def clear_up_batch_states_def batch_finish_def batch_replies_def
        after_messages_def)
qed

text \<open>
  Two replicas of one table: the same data version, cluster and default time to live. Each
  has its own clock, from which it computes the expiration of a record under the default time
  to live.
\<close>

definition same_settings :: "server_env \<Rightarrow> 'a wrapper \<Rightarrow> server_env \<Rightarrow> 'b wrapper \<Rightarrow> bool" where
  "same_settings env w env' w' \<longleftrightarrow>
     se_data_version env = se_data_version env' \<and> se_cluster_id env = se_cluster_id env' \<and>
     rw_default_ttl w = rw_default_ttl w'"

text \<open>The stores are equal but for the first four bytes of the records, the expiration.\<close>

definition same_but_expiry :: "(bytes \<Rightarrow> bytes option) \<Rightarrow> (bytes \<Rightarrow> bytes option) \<Rightarrow> bool" where
  "same_but_expiry c c' \<longleftrightarrow> (\<forall>k. map_option (drop 4) (c k) = map_option (drop 4) (c' k))"

text \<open>
  The records of a key on the two replicas after the messages: equal, or both written by a
  message without an expiration under the default time to live, each with the expiration its
  replica computes.
\<close>

definition replicated_record ::
  "server_env \<Rightarrow> server_env \<Rightarrow> 32 word \<Rightarrow> db_write_context \<Rightarrow> put_request list \<Rightarrow> bytes
   \<Rightarrow> bytes option \<Rightarrow> bytes option \<Rightarrow> bool" where
  "replicated_record env env' ttl ctx us k r r' \<longleftrightarrow>
     r = r' \<or> ttl \<noteq> 0 \<and> (\<exists>u \<in> set us. pr_key u = k \<and> word_of_int (pr_expire_ts_seconds u) = (0 :: 32 word) \<and>
       r = Some (encode_record env (pr_value u) (se_epoch_now env + ttl) (new_timetag env ctx)) \<and>
       r' = Some (encode_record env' (pr_value u) (se_epoch_now env' + ttl) (new_timetag env' ctx)))"

definition put_requests :: "write_message list \<Rightarrow> put_request list" where
  "put_requests msgs = concat (map (\<lambda>m. case wm_request m of W_put u \<Rightarrow> [u] | _ \<Rightarrow> []) msgs)"

lemma put_requests_updates: "put_requests (map (update_message msg) us) = us"
  by (induction us) (simp_all add: put_requests_def update_message_def)

lemma same_timetag: "same_settings env w env' w' \<Longrightarrow> new_timetag env ctx = new_timetag env' ctx"
  by (simp add: same_settings_def new_timetag_def current_cluster_id_or_default_def)

lemma fold_plain_entries:
  assumes "\<forall>k. R k (c k) (c' k)"
    "\<forall>u \<in> set us. \<exists>r r'. plain_entry env ctx w u = Batch_put (pr_key u) r \<and>
       plain_entry env' ctx w' u = Batch_put (pr_key u) r' \<and> R (pr_key u) (Some r) (Some r')"
  shows "R k (fold apply_entry (map (plain_entry env ctx w) us) c k)
    (fold apply_entry (map (plain_entry env' ctx w') us) c' k)"
  using assms
proof (induction us arbitrary: c c')
  case (Cons u us)
  then obtain r r' where "plain_entry env ctx w u = Batch_put (pr_key u) r"
    "plain_entry env' ctx w' u = Batch_put (pr_key u) r'" "R (pr_key u) (Some r) (Some r')" by auto
  moreover from this Cons.prems(1) have "\<forall>k. R k ((c(pr_key u \<mapsto> r)) k) ((c'(pr_key u \<mapsto> r')) k)" by simp
  from Cons.IH [of "c(pr_key u \<mapsto> r)" "c'(pr_key u \<mapsto> r')", OF this] Cons.prems(2) have "R k
      (fold apply_entry (map (plain_entry env ctx w) us) (c(pr_key u \<mapsto> r)) k)
      (fold apply_entry (map (plain_entry env' ctx w') us) (c'(pr_key u \<mapsto> r')) k)" by (simp del: fun_upd_apply)
  ultimately show ?case by (simp add: apply_entry_def [of "Batch_put _ _"])
qed simp

lemma plain_entries_same_but_expiry:
  assumes "same_settings env w env' w'" "same_but_expiry c c'"
  shows "same_but_expiry (fold apply_entry (map (plain_entry env ctx w) us) c)
    (fold apply_entry (map (plain_entry env' ctx w') us) c')"
  unfolding same_but_expiry_def
proof
  fix k
  show "map_option (drop 4) (fold apply_entry (map (plain_entry env ctx w) us) c k)
      = map_option (drop 4) (fold apply_entry (map (plain_entry env' ctx w') us) c' k)"
    using assms same_timetag [OF assms(1), of ctx]
    by (intro fold_plain_entries [where R = "\<lambda>k r r'. map_option (drop 4) r = map_option (drop 4) r'"])
      (auto simp: same_but_expiry_def plain_entry_def put_entry_def encode_record_def same_settings_def)
qed

lemma plain_entries_replicated:
  assumes "same_settings env w env' w'"
  shows "replicated_record env env' (rw_default_ttl w) ctx us k
    (fold apply_entry (map (plain_entry env ctx w) us) c k)
    (fold apply_entry (map (plain_entry env' ctx w') us) c k)"
proof (rule fold_plain_entries)
  show "\<forall>u \<in> set us. \<exists>r r'. plain_entry env ctx w u = Batch_put (pr_key u) r \<and>
      plain_entry env' ctx w' u = Batch_put (pr_key u) r' \<and>
      replicated_record env env' (rw_default_ttl w) ctx us (pr_key u) (Some r) (Some r')"
    using assms same_timetag [OF assms, of ctx]
    by (auto simp: replicated_record_def plain_entry_def put_entry_def db_expire_ts_def same_settings_def
        encode_record_def)
qed (simp add: replicated_record_def)

definition removes_key :: "write_message \<Rightarrow> bool" where
  "removes_key msg \<longleftrightarrow>
     (case wm_request msg of W_put u \<Rightarrow> pr_type u = Some UT_CHECK_AND_MUTATE_REMOVE | _ \<Rightarrow> False)"

text \<open>
  C9.
  A replica with the same settings that applies the messages of a translated atomic write
  without a removal accepts them and sends no answer to the client, while the primary sends
  one. Whenever the two stores agree but for the expiration of their records before the
  write, they do so after it, time tags included. From equal stores, every key holds the
  same record on both replicas afterwards, expiration included, or it was written by a
  message without an expiration under a default time to live: then each replica has stored
  its own clock plus the default time to live. So the stores stay equal when the table has
  no default time to live, and when the clocks agree.
\<close>

theorem translated_write_replicated:
  assumes "store_ok env rk contents (ws_rw primary)" "atomic_ok (wm_request msg)"
    "server_make_idempotent env rk msg (ws_rw primary) = Inr (kOk, msgs, writer, reply)"
    "store_ok env' rk' contents' (ws_rw secondary)" "\<not> ws_batch_open secondary"
    "same_settings env (ws_rw primary) env' (ws_rw secondary)"
    "list_all (keys_checked env') msgs" "\<not> list_ex removes_key msgs"
  defines "before \<equiv> contents (rw_db (ws_rw primary))" and "before' \<equiv> contents' (rw_db (ws_rw secondary))"
    and "ttl \<equiv> rw_default_ttl (ws_rw primary)"
  shows "\<exists>answer primary' secondary' after after'.
    on_batched_write_requests env rk msgs d ts writer primary = Inr (kOk, [answer], primary') \<and>
    on_batched_write_requests env' rk' msgs d ts None secondary = Inr (kOk, [], secondary') \<and>
    after = contents (rw_db (ws_rw primary')) \<and> after' = contents' (rw_db (ws_rw secondary')) \<and>
    (same_but_expiry before before' \<longrightarrow> same_but_expiry after after') \<and>
    (before = before' \<longrightarrow>
      (\<forall>k. replicated_record env env' ttl (create_write_context d ts) (put_requests msgs) k (after k) (after' k))) \<and>
    (before = before' \<and> (ttl = 0 \<or> se_epoch_now env = se_epoch_now env') \<longrightarrow> after = after')"
proof (cases rule: atomic_translation [OF assms(1,2), of d ts])
  case (1 us writer' reply')
  let ?ctx = "create_write_context d ts"
  from 1 assms(3) have msgs: "msgs = map (update_message msg) us" "writer = Some writer'" by auto
  from messages_applied [OF assms(4,5) 1(1,2), of msg d ts] assms(7) msgs obtain secondary' where
    sec: "on_batched_write_requests env' rk' msgs d ts None secondary = Inr (0, [], secondary')"
    "ws_rw secondary' = after_messages env' rk' ?ctx us (ws_rw secondary)" by auto
  define after where "after = fold apply_entry (map (plain_entry env ?ctx (ws_rw primary)) us) before"
  define after' where "after' = fold apply_entry (map (plain_entry env' ?ctx (ws_rw secondary)) us) before'"
  have "update_entry env ?ctx (ws_rw primary) u = plain_entry env ?ctx (ws_rw primary) u" if "u \<in> set us" for u
    using that assms(8) by (auto simp: msgs update_entry_def plain_entry_def list_ex_iff removes_key_def)
  then have "map (update_entry env ?ctx (ws_rw primary)) us = map (plain_entry env ?ctx (ws_rw primary)) us"
    by simp
  then have "after = contents (rw_db (after_updates env rk ?ctx us (ws_rw primary)))"
    by (simp add: after_def before_def after_updates_def committed_contents [OF store_okD(1,2) [OF assms(1)]]
        del: map_eq_conv)
  moreover have "after' = contents' (rw_db (ws_rw secondary'))"
    by (simp add: after'_def before'_def sec(2) after_messages_def
        committed_contents [OF store_okD(1,2) [OF assms(4)]])
  moreover have "same_but_expiry before before' \<Longrightarrow> same_but_expiry after after'"
    using plain_entries_same_but_expiry [OF assms(6)] by (simp add: after_def after'_def)
  moreover have rep: "before = before' \<Longrightarrow>
      \<forall>k. replicated_record env env' ttl ?ctx (put_requests msgs) k (after k) (after' k)"
    using plain_entries_replicated [OF assms(6)]
    by (simp add: after_def after'_def msgs put_requests_updates ttl_def)
  moreover have "after = after'" if "before = before'" "ttl = 0 \<or> se_epoch_now env = se_epoch_now env'"
    using rep [OF that(1)] that(2) same_timetag [OF assms(6), of ?ctx] assms(6)
    by (intro ext) (auto simp: replicated_record_def encode_record_def same_settings_def)
  ultimately show ?thesis using 1(5) msgs sec(1) by auto
next
  case (2 err reply')
  with assms(3) show ?thesis by simp
qed

lemma sample_replica:
  "same_settings sample_server (ws_rw sample_service) sample_server (ws_rw sample_service)"
  "\<not> ws_batch_open sample_service"
  by (simp_all add: same_settings_def sample_service_def)

lemma sample_keys_checked: "keys_checked sample_server (update_message (sample_message r) u)"
  by (simp add: keys_checked_def request_key_check_def sample_message_def sample_server_def)

theorem translated_write_replicated_witness:
  "\<exists>msgs writer answer primary' secondary'.
    server_make_idempotent sample_server map_rocks sample_incr (ws_rw sample_service) = Inr (kOk, msgs, writer, None) \<and>
    on_batched_write_requests sample_server map_rocks msgs 7 9 writer sample_service = Inr (kOk, [answer], primary') \<and>
    on_batched_write_requests sample_server map_rocks msgs 7 9 None sample_service = Inr (kOk, [], secondary') \<and>
    rw_db (ws_rw secondary') = rw_db (ws_rw primary')"
proof -
  let ?u = "make_idempotent_request [0, 1, 104, 115] (create_from_numeric 5) 0 UT_INCR empty_put_request"
  have ok: "atomic_ok (wm_request sample_incr)" by (simp add: sample_incr_def sample_message_def atomic_ok_def)
  have made: "\<exists>writer. server_make_idempotent sample_server map_rocks sample_incr (ws_rw sample_service)
      = Inr (0, [update_message sample_incr ?u], writer, None)"
    by (simp add: server_make_idempotent_def sample_incr_def sample_message_def make_idempotent_incr_def db_get_def
        map_rocks_def sample_service_def finish_idempotent_def calc_expire_on_non_existent_def Let_def)
  then obtain writer where made: "server_make_idempotent sample_server map_rocks sample_incr (ws_rw sample_service)
      = Inr (0, [update_message sample_incr ?u], writer, None)" by blast
  moreover have keys: "list_all (keys_checked sample_server) [update_message sample_incr ?u]"
    using sample_keys_checked by (simp add: sample_incr_def)
  moreover have puts: "\<not> list_ex removes_key [update_message sample_incr ?u]"
    by (simp add: removes_key_def make_idempotent_request_def)
  ultimately show ?thesis
    using translated_write_replicated
      [OF sample_store_ok ok made sample_store_ok sample_replica(2,1) keys puts, of 7 9]
    by metis
qed

section \<open>A translated removal\<close>

lemma plain_entry_first:
  "map (plain_entry env ctx w) (on_first (make_check_value_update a ve cv) us) = map (plain_entry env ctx w) us"
  by (auto simp: on_first_def plain_entry_def make_check_value_update_def Let_def split: list.split)

lemma raw_key_inject [simp]: "raw_key hash_key s = raw_key hash_key s' \<longleftrightarrow> s = s'"
  by (simp add: raw_key_def)

definition entry_key :: "batch_entry \<Rightarrow> bytes option" where
  "entry_key entry = (case entry of Batch_put k _ \<Rightarrow> Some k | Batch_delete k \<Rightarrow> Some k | Batch_decree _ \<Rightarrow> None)"

lemma fold_other_keys: "\<forall>entry \<in> set es. entry_key entry \<noteq> Some k \<Longrightarrow> fold apply_entry es c k = c k"
  by (induction es arbitrary: c) (auto simp: apply_entry_def entry_key_def split: batch_entry.splits)

lemma fold_last_entry:
  assumes "\<forall>entry \<in> set post. entry_key entry \<noteq> Some k"
  shows "fold apply_entry (pre @ entry # post) c k = apply_entry entry (fold apply_entry pre c) k"
  using fold_other_keys [OF assms] by simp

lemma mutate_entries:
  "mu_operation mu = MO_DELETE \<Longrightarrow>
    update_entry env ctx w (mutate_update hash_key mu) = Batch_delete (raw_key hash_key (mu_sort_key mu))"
  "mu_operation mu = MO_DELETE \<Longrightarrow>
    plain_entry env ctx w (mutate_update hash_key mu) = put_entry env ctx (raw_key hash_key (mu_sort_key mu)) [] 0 w"
  "entry_key (update_entry env ctx w (mutate_update hash_key mu)) = Some (raw_key hash_key (mu_sort_key mu))"
  "entry_key (plain_entry env ctx w (mutate_update hash_key mu)) = Some (raw_key hash_key (mu_sort_key mu))"
  by (simp_all add: mutate_defs plain_entry_def put_entry_def entry_key_def)

text \<open>
  C32.
  A removal in a translated \<open>check_and_mutate\<close> is applied as a removal by the primary only:
  the message carries the code of a put, and the batch of the other replicas does not look
  at the type of the update. After the write the key is gone on the primary, and a
  secondary that had the same records stores an empty value under it.
\<close>

theorem translated_removal_diverges:
  assumes "store_ok env rk contents (ws_rw primary)"
    "wm_request msg = W_check_and_mutate req" "cam_keys_fit req"
    "cm_mutate_list req = pre @ mu # post" "mu_operation mu = MO_DELETE"
    "\<forall>other \<in> set post. mu_sort_key other \<noteq> mu_sort_key mu"
    "server_make_idempotent env rk msg (ws_rw primary) = Inr (kOk, msgs, writer, reply)"
    "store_ok env' rk' contents' (ws_rw secondary)" "\<not> ws_batch_open secondary" "list_all (keys_checked env') msgs"
  shows "\<exists>answer primary' secondary'.
    on_batched_write_requests env rk msgs d ts writer primary = Inr (kOk, [answer], primary') \<and>
    on_batched_write_requests env' rk' msgs d ts None secondary = Inr (kOk, [], secondary') \<and>
    contents (rw_db (ws_rw primary')) (raw_key (cm_hash_key req) (mu_sort_key mu)) = None \<and>
    user_view env' (contents' (rw_db (ws_rw secondary'))) (raw_key (cm_hash_key req) (mu_sort_key mu))
      = Some ([], db_expire_ts env' (ws_rw secondary) 0)"
proof (cases rule: check_and_mutate_translation [OF assms(1,3), of d])
  case (1 ve cv)
  let ?us = "cam_updates req ve cv" and ?ctx = "create_write_context d ts" and ?hk = "cm_hash_key req"
  let ?key = "raw_key ?hk (mu_sort_key mu)"
  have made: "msgs = map (update_message msg) ?us" "writer = Some (IW_check_and_mutate req ?us)"
    using 1 assms(2,7) by (auto simp: server_make_idempotent_def finish_idempotent_def)
  have ne: "?us \<noteq> []" using 1(1) cam_updates_empty by blast
  have atomic: "list_all atomic_update ?us"
    by (rule list.pred_mono_strong [OF cam_updates_types]) (auto simp: mutate_type_def atomic_update_def)
  have prim: "on_batched_write_requests env rk msgs d ts writer primary
      = Inr (0, [R_check ((check_done env d (cm_return_check_value req) ve cv)\<lparr>rs_error := 0\<rparr>)],
             primary\<lparr>ws_rw := after_updates env rk ?ctx ?us (ws_rw primary)\<rparr>)"
    using put_check_and_mutate_ok [OF assms(1) 1(1)] by (simp add: made put_messages_batch [OF ne] apply_writer_def)
  from messages_applied [OF assms(8,9) ne atomic, of msg d ts] assms(10) made obtain secondary' where
    sec: "on_batched_write_requests env' rk' msgs d ts None secondary = Inr (0, [], secondary')"
    "ws_rw secondary' = after_messages env' rk' ?ctx ?us (ws_rw secondary)" by auto
  have "contents (rw_db (after_updates env rk ?ctx ?us (ws_rw primary))) ?key = None"
    using assms(5,6)
    by (simp add: after_updates_def committed_contents [OF store_okD(1,2) [OF assms(1)]] cam_updates_def
        update_entry_first assms(4) fold_last_entry mutate_entries apply_entry_def del: fold_append)
  moreover have "user_view env' (contents' (rw_db (ws_rw secondary'))) ?key = Some ([], db_expire_ts env' (ws_rw secondary) 0)"
    using assms(5,6)
    by (simp add: sec(2) after_messages_def committed_contents [OF store_okD(1,2) [OF assms(8)]] cam_updates_def
        plain_entry_first assms(4) user_view_def fold_last_entry mutate_entries del: fold_append)
      (simp add: apply_entry_def put_entry_def user_record_encoded [OF store_okD(6) [OF assms(8)]])
  ultimately show ?thesis using prim sec(1) by auto
next
  case (2 err resp)
  with assms(2,7) show ?thesis by (simp add: server_make_idempotent_def finish_idempotent_def)
qed

definition sample_mutate :: check_and_mutate_request where
  "sample_mutate = \<lparr>cm_hash_key = [104], cm_check_sort_key = [115], cm_check_type = CT_NO_CHECK,
     cm_check_operand = [], cm_mutate_list = [\<lparr>mu_operation = MO_DELETE, mu_sort_key = [115], mu_value = [],
       mu_set_expire_ts_seconds = 0\<rparr>], cm_return_check_value = False\<rparr>"

text \<open>The sample replica with one record under the key.\<close>

definition sample_stored :: "contents write_service" where
  "sample_stored = sample_service\<lparr>ws_rw := \<lparr>rw_db = [raw_key [104] [115] \<mapsto> encode_record sample_server [1] 0 1],
     rw_batch = [], rw_default_ttl = 0\<rparr>\<rparr>"

lemma sample_stored_ok: "store_ok sample_server map_rocks (\<lambda>db. db) (ws_rw sample_stored)" "\<not> ws_batch_open sample_stored"
  using encode_record_length [of sample_server "[1]" 0 1]
  by (auto simp: store_ok_def map_rocks_ok records_ok_def sample_stored_def sample_service_def sample_server_def
      word_le_nat_alt split: if_splits)

theorem translated_removal_diverges_witness:
  "user_view sample_server (rw_db (ws_rw sample_stored)) (raw_key [104] [115]) = Some ([1], 0) \<and>
   (\<exists>msgs writer reply answer primary' secondary'.
     server_make_idempotent sample_server map_rocks (sample_message (W_check_and_mutate sample_mutate)) (ws_rw sample_stored)
       = Inr (kOk, msgs, writer, reply) \<and>
     on_batched_write_requests sample_server map_rocks msgs 7 9 writer sample_stored = Inr (kOk, [answer], primary') \<and>
     on_batched_write_requests sample_server map_rocks msgs 7 9 None sample_stored = Inr (kOk, [], secondary') \<and>
     rw_db (ws_rw primary') (raw_key [104] [115]) = None \<and>
     user_view sample_server (rw_db (ws_rw secondary')) (raw_key [104] [115]) = Some ([], 0))"
proof -
  let ?msg = "sample_message (W_check_and_mutate sample_mutate)"
  have version: "se_data_version sample_server \<le> 1" by (simp add: sample_server_def)
  have fit: "cam_keys_fit sample_mutate" by (simp add: cam_keys_fit_def sample_mutate_def key_fits_def)
  have req: "wm_request ?msg = W_check_and_mutate sample_mutate" by (simp add: sample_message_def)
  obtain mu where mu: "cm_mutate_list sample_mutate = [] @ mu # []" "mu_operation mu = MO_DELETE"
    "mu_sort_key mu = [115]" "cm_hash_key sample_mutate = [104]"
    by (simp add: sample_mutate_def)
  have made: "\<exists>us writer. server_make_idempotent sample_server map_rocks ?msg (ws_rw sample_stored)
      = Inr (0, map (update_message ?msg) us, writer, None)"
  proof (cases rule: check_and_mutate_translation [OF sample_stored_ok(1) fit, of 7])
    case (1 ve cv)
    then show ?thesis by (auto simp: server_make_idempotent_def finish_idempotent_def sample_message_def)
  next
    case (2 err resp)
    obtain ve cv where "read_check_value sample_server map_rocks (raw_key [104] [115]) (rw_db (ws_rw sample_stored)) = Inr (0, ve, cv)"
      by (rule read_check_ok [OF sample_stored_ok(1)])
    with 2 show ?thesis
      by (simp add: make_idempotent_check_and_mutate_def sample_mutate_def is_check_type_supported_def
          valid_mutate_def generate_key_ok key_fits_def validate_check_def)
  qed
  then obtain us writer where made: "server_make_idempotent sample_server map_rocks ?msg (ws_rw sample_stored)
      = Inr (0, map (update_message ?msg) us, writer, None)" by blast
  have checked: "list_all (keys_checked sample_server) (map (update_message ?msg) us)"
    by (simp add: list_all_iff sample_keys_checked)
  have post: "\<forall>other \<in> set []. mu_sort_key other \<noteq> mu_sort_key mu" by simp
  have ttl: "db_expire_ts sample_server (ws_rw sample_stored) 0 = 0" by (simp add: db_expire_ts_def sample_stored_def)
  have "user_view sample_server (rw_db (ws_rw sample_stored)) (raw_key [104] [115]) = Some ([1], 0)"
    by (simp add: user_view_def sample_stored_def user_record_encoded [OF version])
  with translated_removal_diverges [OF sample_stored_ok(1) req fit mu(1,2) post made sample_stored_ok checked, of 7 9] made
  show ?thesis unfolding mu(3,4) ttl by blast
qed

section \<open>Writes that leave no trace\<close>

text \<open>
  A batch in which no message can be parsed is reported as applied, but neither the store
  nor the flushed decree moves.
\<close>

lemma corrupt_batch_not_recorded:
  assumes "\<not> ws_batch_open svc" "msgs \<noteq> []" "\<forall>m \<in> set msgs. wm_request m = W_corrupt RPC_RRDB_RRDB_PUT"
    "rw_batch (ws_rw svc) = []" "ws_update_responses svc = 0"
  shows "on_batched_write_requests env rk msgs d ts None svc = Inr (kOk, [], svc)"
proof -
  have loop: "\<forall>m \<in> set ms. wm_request m = W_corrupt RPC_RRDB_RRDB_PUT \<Longrightarrow>
      batch_loop env rk ctx ms 0 s = Inr (0, replicate (length ms) Ignored, s)" for ms ctx and s :: "'a write_service"
    by (induction ms arbitrary: s) (simp_all add: batch_one_def)
  obtain m ms where ms: "msgs = m # ms" using assms(2) by (cases msgs) auto
  from assms(3) have "\<forall>m \<in> set (m # ms). wm_request m = W_corrupt RPC_RRDB_RRDB_PUT" by (simp only: ms)
  from loop [OF this] assms show ?thesis
    by (simp add: ms on_batched_write_requests_def is_non_batch_def Let_def on_batched_writes_def batch_prepare_def
        batch_abort_def impl_batch_abort_def clear_up_batch_states_def batch_finish_def batch_replies_def
        clear_up_write_batch_def list_all_iff)
qed

end
