(* ===== verification/Duplicated_Writes.thy ===== *)
theory Duplicated_Writes
  imports Write_Idempotent
begin

text \<open>
  Writes that arrive from another cluster (\<open>pegasus_write_service::duplicate\<close> of
  \<^verbatim>\<open>src/src/server/pegasus_write_service.cpp\<close>). With \<open>verify_timetag\<close> a record is only
  replaced by a newer one, so that the order in which the clusters' writes arrive does not
  matter.
\<close>

section \<open>A put that compares time tags\<close>

text \<open>Whether the stored record wins over a write with the given time tag.\<close>

definition keeps_record :: "server_env \<Rightarrow> bytes option \<Rightarrow> 64 word \<Rightarrow> bool" where
  "keeps_record env stored tag \<longleftrightarrow>
     (case stored of
        None \<Rightarrow> False
      | Some v \<Rightarrow>
          (case (pegasus_extract_expire_ts 1 v, pegasus_extract_timetag 1 v) of
             (Inr ts, Inr local) \<Rightarrow> \<not> check_if_ts_expired (se_epoch_now env) ts \<and> local \<ge> tag
           | _ \<Rightarrow> False))"

lemma stale_update:
  assumes "store_ok env rk contents w" "se_data_version env = 1" "wc_verify_timetag ctx" "key \<noteq> []"
  shows "is_stale_update env rk ctx key (rw_db w)
    = Inr (Inr (keeps_record env (contents (rw_db w) key) (new_timetag env ctx)))"
proof (cases rule: healthy_get [OF assms(1), of key])
  case (1 g)
  with assms(2-) show ?thesis by (simp add: is_stale_update_def keeps_record_def)
next
  case (2 v g data)
  have "12 \<le> length v"
    using store_okD(3) [OF assms(1)] 2(1) assms(2) by (auto simp: records_ok_def split: if_splits)
  then obtain tag where "pegasus_extract_timetag 1 v = Inr tag" by (rule extract_timetag_total)
  with 2 assms(2-) show ?thesis by (simp add: is_stale_update_def keeps_record_def)
qed

definition verified_entry ::
  "server_env \<Rightarrow> db_write_context \<Rightarrow> contents \<Rightarrow> bytes \<Rightarrow> bytes \<Rightarrow> 32 word \<Rightarrow> 'db wrapper \<Rightarrow> batch_entry" where
  "verified_entry env ctx c key v e w =
     (if keeps_record env (c key) (new_timetag env ctx) then put_entry env ctx [] [] e w else put_entry env ctx key v e w)"

lemma verified_put:
  assumes "store_ok env rk contents w" "se_data_version env = 1" "wc_verify_timetag ctx" "key \<noteq> []"
  shows "write_batch_put_ctx env rk ctx key v e w
    = Inr (0, with_batch [verified_entry env ctx (contents (rw_db w)) key v e w] w)"
  using stale_update [OF assms] store_okD(2,5) [OF assms(1)]
    generate_value_encode [OF store_okD(6) [OF assms(1)]]
  by (simp add: write_batch_put_ctx_def verified_entry_def put_entry_def with_batch_def)

section \<open>One duplicated put\<close>

definition dup_context :: "decree \<Rightarrow> duplicate_entry \<Rightarrow> db_write_context" where
  "dup_context d entry =
     create_duplicate_context d
       (generate_timetag (de_timestamp entry) (de_cluster_id entry) (is_delete (de_request entry)))
       (de_verify_timetag entry)"

text \<open>A put of a configured remote cluster that asks for the comparison.\<close>

definition dup_put :: "server_env \<Rightarrow> duplicate_entry \<Rightarrow> put_request \<Rightarrow> bool" where
  "dup_put env entry u \<longleftrightarrow>
     de_request entry = D_put u \<and> de_verify_timetag entry \<and> pr_key u \<noteq> [] \<and>
     (\<exists>current. se_cluster_id env = Some current \<and> de_cluster_id entry \<noteq> current) \<and>
     (se_ignore_other_cluster_ids env \<or> de_cluster_id entry \<in> set (se_cluster_ids env))"

definition dup_tag :: "duplicate_entry \<Rightarrow> 64 word" where
  "dup_tag entry = generate_timetag (de_timestamp entry) (de_cluster_id entry) False"

definition dup_record :: "server_env \<Rightarrow> duplicate_entry \<Rightarrow> put_request \<Rightarrow> 'db wrapper \<Rightarrow> bytes" where
  "dup_record env entry u w =
     encode_record env (pr_value u) (db_expire_ts env w (word_of_int (pr_expire_ts_seconds u))) (dup_tag entry)"

lemma dup_context_simps:
  assumes "dup_put env entry u" "dup_tag entry \<noteq> 0"
  shows "wc_verify_timetag (dup_context d entry)" "new_timetag env (dup_context d entry) = dup_tag entry"
    "wc_decree (dup_context d entry) = d"
  using assms
  by (auto simp: dup_context_def dup_put_def create_duplicate_context_def new_timetag_def is_duplicated_write_def
      dup_tag_def is_delete_def word_gt_0)

definition after_dup ::
  "server_env \<Rightarrow> 'db rocks \<Rightarrow> ('db \<Rightarrow> contents) \<Rightarrow> decree \<Rightarrow> duplicate_entry \<Rightarrow> put_request \<Rightarrow> 'db wrapper \<Rightarrow> 'db wrapper" where
  "after_dup env rk contents d entry u w =
     committed rk d (with_batch [verified_entry env (dup_context d entry) (contents (rw_db w)) (pr_key u) (pr_value u)
       (word_of_int (pr_expire_ts_seconds u)) w] w)"

lemma duplicate_put:
  assumes "store_ok env rk contents (ws_rw svc)" "se_data_version env = 1" "dup_put env entry u" "dup_tag entry \<noteq> 0"
  shows "\<exists>svc'. duplicate env rk d (entry # entries) resp svc = duplicate env rk d entries (resp\<lparr>dr_error := 0\<rparr>) svc' \<and>
    ws_rw svc' = after_dup env rk contents d entry u (ws_rw svc)"
proof -
  let ?w = "ws_rw svc" and ?ctx = "dup_context d entry"
  let ?entry = "verified_entry env ?ctx (contents (rw_db ?w)) (pr_key u) (pr_value u) (word_of_int (pr_expire_ts_seconds u)) ?w"
  note ctx = dup_context_simps [OF assms(3,4)]
  from assms(3) have "pr_key u \<noteq> []" by (simp add: dup_put_def)
  from verified_put [OF assms(1,2) ctx(1) this] have put:
    "write_batch_put_ctx env rk ?ctx (pr_key u) (pr_value u) (word_of_int (pr_expire_ts_seconds u)) ?w
      = Inr (0, with_batch [?entry] ?w)" .
  obtain w' where "db_write env rk d (with_batch [?entry] ?w) = Inr (0, w')"
    "clear_up_write_batch w' = committed rk d (with_batch [?entry] ?w)"
    using healthy_write [OF store_okD(2,4) [OF assms(1)], of "with_batch [?entry] ?w" d] by auto
  with put have one: "duplicate_one env rk ?ctx (D_put u) svc
      = Inr (0, svc\<lparr>ws_rw := after_dup env rk contents d entry u ?w, ws_update_responses := 0\<rparr>)"
    by (simp add: duplicate_one_def impl_batch_put_def impl_batch_commit_def clear_up_batch_states_def ctx(3)
        after_dup_def)
  moreover have "create_duplicate_context d (generate_timetag (de_timestamp entry) (de_cluster_id entry)
      (is_delete (D_put u))) (de_verify_timetag entry) = ?ctx"
    using assms(3) by (simp add: dup_context_def dup_put_def)
  ultimately show ?thesis
    using assms(3)
    by (auto simp: dup_put_def is_dup_cluster_id_configured_def get_current_dup_cluster_id_def Let_def)
qed

section \<open>Duplicated puts in any order\<close>

definition merge_record :: "server_env \<Rightarrow> 64 word \<Rightarrow> bytes \<Rightarrow> bytes option \<Rightarrow> bytes option" where
  "merge_record env tag new stored = (if keeps_record env stored tag then stored else Some new)"

lemma after_dup_contents:
  assumes "store_ok env rk contents w" "dup_put env entry u" "dup_tag entry \<noteq> 0" "k \<noteq> []"
  shows "contents (rw_db (after_dup env rk contents d entry u w)) k =
    (if k = pr_key u then merge_record env (dup_tag entry) (dup_record env entry u w) (contents (rw_db w) k)
     else contents (rw_db w) k)"
  using assms(4) dup_context_simps [OF assms(2,3), of d]
  by (auto simp: after_dup_def committed_contents [OF store_okD(1,2) [OF assms(1)]] verified_entry_def
      put_entry_def apply_entry_def dup_record_def merge_record_def)

lemma records_ok_put:
  "records_ok env c \<Longrightarrow> records_ok env (apply_entry (put_entry env ctx k v e w) c)"
  using encode_record_length [of env v] by (auto simp: records_ok_def apply_entry_def put_entry_def)

lemma after_dup_ok:
  assumes "store_ok env rk contents w"
  shows "store_ok env rk contents (after_dup env rk contents d entry u w)"
  using assms by (simp add: store_ok_def after_dup_def committed_contents verified_entry_def records_ok_put)

definition stays_alive :: "server_env \<Rightarrow> put_request \<Rightarrow> 'db wrapper \<Rightarrow> bool" where
  "stays_alive env u w \<longleftrightarrow>
     \<not> check_if_ts_expired (se_epoch_now env) (db_expire_ts env w (word_of_int (pr_expire_ts_seconds u)))"

lemma keeps_dup_record:
  assumes "se_data_version env = 1" "stays_alive env u w"
  shows "keeps_record env (Some (dup_record env entry u w)) tag \<longleftrightarrow> dup_tag entry \<ge> tag"
  using assms extract_encoded [of env]
  by (simp add: keeps_record_def dup_record_def stays_alive_def)

lemma keeps_mono: "keeps_record env stored tag \<Longrightarrow> tag' \<le> tag \<Longrightarrow> keeps_record env stored tag'"
  by (auto simp: keeps_record_def split: option.splits sum.splits)

text \<open>A verified put of another cluster whose record is not expired.\<close>

definition live_put :: "server_env \<Rightarrow> 'db wrapper \<Rightarrow> duplicate_entry \<Rightarrow> bool" where
  "live_put env w entry \<longleftrightarrow>
     dup_tag entry \<noteq> 0 \<and> (\<exists>u. dup_put env entry u \<and> stays_alive env u w)"

definition entry_put :: "duplicate_entry \<Rightarrow> put_request" where
  "entry_put entry = (case de_request entry of D_put u \<Rightarrow> u | _ \<Rightarrow> empty_put_request)"

lemma dup_put_entry: "dup_put env entry u \<Longrightarrow> u = entry_put entry"
  by (simp add: dup_put_def entry_put_def)

text \<open>
  The record that a store ends with: among the puts to the key the one with the largest time
  tag, unless the stored record is newer.
\<close>

definition newest_put :: "duplicate_entry list \<Rightarrow> bytes \<Rightarrow> duplicate_entry \<Rightarrow> bool" where
  "newest_put es k e \<longleftrightarrow> e \<in> set es \<and> pr_key (entry_put e) = k \<and>
     (\<forall>e' \<in> set es. pr_key (entry_put e') = k \<longrightarrow> dup_tag e' \<le> dup_tag e)"

definition merged ::
  "server_env \<Rightarrow> 'db wrapper \<Rightarrow> duplicate_entry list \<Rightarrow> bytes \<Rightarrow> bytes option \<Rightarrow> bytes option" where
  "merged env w es k stored =
     fold (\<lambda>e r. if pr_key (entry_put e) = k
                 then merge_record env (dup_tag e) (dup_record env e (entry_put e) w) r else r) es stored"

lemma merged_Cons:
  "merged env w (e # es) k stored = merged env w es k
     (if pr_key (entry_put e) = k then merge_record env (dup_tag e) (dup_record env e (entry_put e) w) stored
      else stored)"
  by (simp add: merged_def)

lemma merged_append: "merged env w (es @ es') k stored = merged env w es' k (merged env w es k stored)"
  by (simp add: merged_def)

lemma same_ttl:
  assumes "rw_default_ttl w = rw_default_ttl w'"
  shows "live_put env w = live_put env w'" "dup_record env e u w = dup_record env e u w'"
    "merged env w = merged env w'"
proof -
  show rec: "dup_record env e u w = dup_record env e u w'" for e u
    using assms by (simp add: dup_record_def db_expire_ts_def)
  show "merged env w = merged env w'" by (intro ext) (simp only: merged_def rec)
  show "live_put env w = live_put env w'"
    using assms by (intro ext) (simp add: live_put_def stays_alive_def db_expire_ts_def)
qed

lemma duplicate_puts:
  assumes "store_ok env rk contents (ws_rw svc)" "se_data_version env = 1" "\<forall>e \<in> set es. live_put env (ws_rw svc) e"
    "dr_error resp = 0"
  shows "\<exists>svc'. duplicate env rk d es resp svc = Inr (0, resp, svc') \<and>
    store_ok env rk contents (ws_rw svc') \<and> rw_default_ttl (ws_rw svc') = rw_default_ttl (ws_rw svc) \<and>
    (\<forall>k. k \<noteq> [] \<longrightarrow> contents (rw_db (ws_rw svc')) k = merged env (ws_rw svc) es k (contents (rw_db (ws_rw svc)) k))"
  using assms
proof (induction es arbitrary: svc)
  case Nil
  then show ?case by (simp add: merged_def)
next
  case (Cons e es)
  then have u: "dup_put env e (entry_put e)" "dup_tag e \<noteq> 0"
    using dup_put_entry [of env e] by (auto simp: live_put_def)
  have "resp\<lparr>dr_error := 0\<rparr> = resp" using Cons.prems(4) by (cases resp) simp
  with duplicate_put [OF Cons.prems(1,2) u, of d es resp] obtain svc1 where
    svc1: "duplicate env rk d (e # es) resp svc = duplicate env rk d es resp svc1"
    "ws_rw svc1 = after_dup env rk contents d e (entry_put e) (ws_rw svc)" by metis
  have ttl: "rw_default_ttl (ws_rw svc1) = rw_default_ttl (ws_rw svc)"
    by (simp add: svc1(2) after_dup_def)
  note same = same_ttl [OF this, of env]
  from Cons.IH [of svc1] after_dup_ok [OF Cons.prems(1), of d e "entry_put e"] Cons.prems same obtain svc' where
    svc': "duplicate env rk d es resp svc1 = Inr (0, resp, svc')" "store_ok env rk contents (ws_rw svc')"
    "rw_default_ttl (ws_rw svc') = rw_default_ttl (ws_rw svc1)"
    "\<forall>k. k \<noteq> [] \<longrightarrow> contents (rw_db (ws_rw svc')) k = merged env (ws_rw svc1) es k (contents (rw_db (ws_rw svc1)) k)"
    by (auto simp: svc1(2))
  have "contents (rw_db (ws_rw svc')) k = merged env (ws_rw svc) (e # es) k (contents (rw_db (ws_rw svc)) k)"
    if "k \<noteq> []" for k
  proof -
    have "contents (rw_db (ws_rw svc1)) k = (if pr_key (entry_put e) = k
        then merge_record env (dup_tag e) (dup_record env e (entry_put e) (ws_rw svc)) (contents (rw_db (ws_rw svc)) k)
        else contents (rw_db (ws_rw svc)) k)"
      using after_dup_contents [OF Cons.prems(1) u that, of d] by (auto simp: svc1(2))
    then show ?thesis using svc'(4) that by (simp only: merged_Cons same(3)) simp
  qed
  with svc' svc1(1) ttl show ?case by auto
qed

lemma keeps_live_put:
  assumes "se_data_version env = 1" "live_put env w e"
  shows "keeps_record env (Some (dup_record env e (entry_put e) w)) tag \<longleftrightarrow> dup_tag e \<ge> tag"
proof -
  from assms(2) obtain u where "dup_put env e u" "stays_alive env u w" by (auto simp: live_put_def)
  then have "stays_alive env (entry_put e) w" using dup_put_entry by blast
  with keeps_dup_record [OF assms(1)] show ?thesis by blast
qed

text \<open>A put that some record of the run beats leaves it in place.\<close>

lemma merged_kept:
  assumes "\<forall>e \<in> set es. pr_key (entry_put e) = k \<longrightarrow> keeps_record env r (dup_tag e)"
  shows "merged env w es k r = r"
  using assms
proof (induction es)
  case (Cons e es)
  then show ?case by (simp add: merged_Cons merge_record_def)
qed (simp add: merged_def)

lemma merged_newest:
  assumes "se_data_version env = 1" "\<forall>e \<in> set es. live_put env w e" "newest_put es k e"
    "\<forall>e' \<in> set es. pr_key (entry_put e') = k \<and> dup_tag e' = dup_tag e \<longrightarrow> e' = e"
  shows "merged env w es k stored = merge_record env (dup_tag e) (dup_record env e (entry_put e) w) stored"
  using assms
proof (induction es arbitrary: stored)
  case Nil
  then show ?case by (simp add: newest_put_def)
next
  case (Cons x xs)
  let ?r = "\<lambda>e. dup_record env e (entry_put e) w"
  have live: "live_put env w x" "live_put env w e" using Cons.prems(2,3) by (auto simp: newest_put_def)
  show ?case
  proof (cases "pr_key (entry_put x) = k")
    case False
    then have "newest_put xs k e" using Cons.prems(3) by (auto simp: newest_put_def)
    with Cons.IH [of stored] Cons.prems False show ?thesis by (simp add: merged_Cons)
  next
    case key: True
    have step: "merged env w (x # xs) k stored = merged env w xs k (merge_record env (dup_tag x) (?r x) stored)"
      using key by (simp add: merged_Cons)
    have le: "dup_tag y \<le> dup_tag e" if "y \<in> set (x # xs)" "pr_key (entry_put y) = k" for y
      using Cons.prems(3) that by (auto simp: newest_put_def)
    show ?thesis
    proof (cases "x = e")
      case True
      have "keeps_record env (merge_record env (dup_tag e) (?r e) stored) (dup_tag y)"
        if "y \<in> set xs" "pr_key (entry_put y) = k" for y
        using le [of y] that keeps_live_put [OF Cons.prems(1) live(2)] keeps_mono
        by (auto simp: merge_record_def)
      then show ?thesis using step True by (simp add: merged_kept)
    next
      case False
      then have "e \<in> set xs" using Cons.prems(3) by (simp add: newest_put_def)
      then have "newest_put xs k e" using Cons.prems(3) by (auto simp: newest_put_def)
      then have "merged env w (x # xs) k stored
          = merge_record env (dup_tag e) (?r e) (merge_record env (dup_tag x) (?r x) stored)"
        using step Cons.IH Cons.prems by simp
      moreover have "dup_tag x < dup_tag e"
        using le [of x] key False Cons.prems(4) by fastforce
      ultimately show ?thesis
        using keeps_live_put [OF Cons.prems(1) live(1), of "dup_tag e"] keeps_mono [of env stored "dup_tag e" "dup_tag x"]
        by (auto simp: merge_record_def)
    qed
  qed
qed

text \<open>The requests of the other clusters, one after the other, each with its decree.\<close>

primrec duplicate_all ::
  "server_env \<Rightarrow> 'db rocks \<Rightarrow> (decree \<times> duplicate_entry list) list \<Rightarrow> 'db write_service
   \<Rightarrow> (int list \<times> 'db write_service) result" where
  "duplicate_all env rk [] svc = Inr ([], svc)"
| "duplicate_all env rk (q # qs) svc =
     bind_result (duplicate env rk (fst q) (snd q) \<lparr>dr_error = 0, dr_error_hint = []\<rparr> svc) (\<lambda>(err, _, svc').
     bind_result (duplicate_all env rk qs svc') (\<lambda>(errs, svc''). Inr (err # errs, svc'')))"

lemma duplicate_all_merged:
  assumes "store_ok env rk contents (ws_rw svc)" "se_data_version env = 1"
    "\<forall>e \<in> set (concat (map snd qs)). live_put env (ws_rw svc) e"
  shows "\<exists>svc'. duplicate_all env rk qs svc = Inr (replicate (length qs) 0, svc') \<and>
    (\<forall>k. k \<noteq> [] \<longrightarrow> contents (rw_db (ws_rw svc')) k
       = merged env (ws_rw svc) (concat (map snd qs)) k (contents (rw_db (ws_rw svc)) k))"
  using assms
proof (induction qs arbitrary: svc)
  case Nil
  then show ?case by (simp add: merged_def)
next
  case (Cons q qs)
  from duplicate_puts [OF Cons.prems(1,2), of "snd q" "\<lparr>dr_error = 0, dr_error_hint = []\<rparr>" "fst q"] Cons.prems(3)
  obtain svc1 where svc1: "duplicate env rk (fst q) (snd q) \<lparr>dr_error = 0, dr_error_hint = []\<rparr> svc
      = Inr (0, \<lparr>dr_error = 0, dr_error_hint = []\<rparr>, svc1)"
    "store_ok env rk contents (ws_rw svc1)" "rw_default_ttl (ws_rw svc1) = rw_default_ttl (ws_rw svc)"
    "\<forall>k. k \<noteq> [] \<longrightarrow> contents (rw_db (ws_rw svc1)) k
       = merged env (ws_rw svc) (snd q) k (contents (rw_db (ws_rw svc)) k)" by auto
  note same = same_ttl [OF svc1(3), of env]
  from Cons.IH [OF svc1(2) Cons.prems(2)] Cons.prems(3) same obtain svc' where
    "duplicate_all env rk qs svc1 = Inr (replicate (length qs) 0, svc')"
    "\<forall>k. k \<noteq> [] \<longrightarrow> contents (rw_db (ws_rw svc')) k
       = merged env (ws_rw svc) (concat (map snd qs)) k (contents (rw_db (ws_rw svc1)) k)" by auto
  with svc1 show ?case by (simp add: merged_append)
qed

lemma merged_none:
  "\<forall>e \<in> set es. pr_key (entry_put e) \<noteq> k \<Longrightarrow> merged env w es k stored = stored"
proof (induction es)
  case (Cons e es)
  then show ?case by (simp add: merged_Cons)
qed (simp add: merged_def)

lemma newest_exists:
  assumes "e \<in> set es" "pr_key (entry_put e) = k"
  obtains e' where "newest_put es k e'"
proof -
  let ?tags = "dup_tag ` {e \<in> set es. pr_key (entry_put e) = k}"
  have "Max ?tags \<in> ?tags" using assms by (intro Max_in) auto
  then obtain e' where "e' \<in> set es" "pr_key (entry_put e') = k" "dup_tag e' = Max ?tags" by fastforce
  then have "newest_put es k e'" by (simp add: newest_put_def)
  then show thesis by (rule that)
qed

lemma merged_order:
  assumes "se_data_version env = 1" "\<forall>e \<in> set es. live_put env w e" "set es' = set es"
    "\<forall>e \<in> set es. \<forall>e' \<in> set es. pr_key (entry_put e) = pr_key (entry_put e') \<and> dup_tag e = dup_tag e' \<longrightarrow> e = e'"
  shows "merged env w es' k stored = merged env w es k stored"
    and "newest_put es k e \<Longrightarrow>
      merged env w es k stored = merge_record env (dup_tag e) (dup_record env e (entry_put e) w) stored"
proof -
  have unique: "\<forall>e' \<in> set es. pr_key (entry_put e') = k \<and> dup_tag e' = dup_tag e \<longrightarrow> e' = e"
    if "newest_put es k e" for e
    using that assms(4) unfolding newest_put_def by metis
  then show "newest_put es k e \<Longrightarrow>
      merged env w es k stored = merge_record env (dup_tag e) (dup_record env e (entry_put e) w) stored"
    using merged_newest [OF assms(1,2)] by blast
  show "merged env w es' k stored = merged env w es k stored"
  proof (cases "\<exists>e \<in> set es. pr_key (entry_put e) = k")
    case True
    then obtain e where e: "newest_put es k e" using newest_exists by blast
    then have "newest_put es' k e" using assms(3) by (simp add: newest_put_def)
    with e unique [OF e] assms show ?thesis
      using merged_newest [of env es w k e stored] merged_newest [of env es' w k e stored] by simp
  next
    case False
    then show ?thesis using assms(3) by (simp add: merged_none)
  qed
qed

text \<open>
  C17.
  Last writer wins. Requests of other clusters, with any number of puts that are verified by
  their time tags, are applied one after the other at a given time, and no put is expired by
  then; two puts to the same key with the same time tag are the same put. Then every request
  succeeds. A key without a put keeps its record. For every other key the put with the
  largest time tag decides: the store ends with its record, or keeps the record it had before
  all requests when that one is alive and its time tag is not smaller. So the result is the
  same for every order in which the puts arrive and for every way they are split into
  requests.
\<close>

theorem duplicated_puts_converge:
  assumes "store_ok env rk contents (ws_rw svc)" "se_data_version env = 1"
    "\<forall>e \<in> set (concat (map snd qs)). live_put env (ws_rw svc) e"
    "\<forall>e \<in> set (concat (map snd qs)). \<forall>e' \<in> set (concat (map snd qs)).
       pr_key (entry_put e) = pr_key (entry_put e') \<and> dup_tag e = dup_tag e' \<longrightarrow> e = e'"
    "set (concat (map snd qs')) = set (concat (map snd qs))"
  shows "\<exists>s s'. duplicate_all env rk qs svc = Inr (replicate (length qs) kOk, s) \<and>
    duplicate_all env rk qs' svc = Inr (replicate (length qs') kOk, s') \<and>
    (\<forall>k. k \<noteq> [] \<longrightarrow>
       contents (rw_db (ws_rw s')) k = contents (rw_db (ws_rw s)) k \<and>
       ((\<forall>e \<in> set (concat (map snd qs)). pr_key (entry_put e) \<noteq> k) \<longrightarrow>
          contents (rw_db (ws_rw s)) k = contents (rw_db (ws_rw svc)) k) \<and>
       (\<forall>e. newest_put (concat (map snd qs)) k e \<longrightarrow>
          contents (rw_db (ws_rw s)) k =
            (if keeps_record env (contents (rw_db (ws_rw svc)) k) (dup_tag e)
             then contents (rw_db (ws_rw svc)) k else Some (dup_record env e (entry_put e) (ws_rw svc)))))"
proof -
  let ?c = "contents (rw_db (ws_rw svc))"
  define es es' where "es = concat (map snd qs)" and "es' = concat (map snd qs')"
  note defs = es_def [symmetric] es'_def [symmetric]
  note asms = assms [unfolded defs]
  from duplicate_all_merged [OF assms(1-3), unfolded defs] obtain s where
    s: "duplicate_all env rk qs svc = Inr (replicate (length qs) 0, s)"
    "\<And>k. k \<noteq> [] \<Longrightarrow> contents (rw_db (ws_rw s)) k = merged env (ws_rw svc) es k (?c k)" by auto
  from duplicate_all_merged [OF assms(1,2), of qs', unfolded defs] asms(3,5) obtain s' where
    s': "duplicate_all env rk qs' svc = Inr (replicate (length qs') 0, s')"
    "\<And>k. k \<noteq> [] \<Longrightarrow> contents (rw_db (ws_rw s')) k = merged env (ws_rw svc) es' k (?c k)" by auto
  note order = merged_order [OF asms(2,3,5,4)]
  have "contents (rw_db (ws_rw s')) k = contents (rw_db (ws_rw s)) k"
    "\<forall>e \<in> set es. pr_key (entry_put e) \<noteq> k \<Longrightarrow> contents (rw_db (ws_rw s)) k = ?c k"
    "newest_put es k e \<Longrightarrow> contents (rw_db (ws_rw s)) k =
       (if keeps_record env (?c k) (dup_tag e) then ?c k else Some (dup_record env e (entry_put e) (ws_rw svc)))"
    if "k \<noteq> []" for k e
    using that by (simp_all only: s(2) s'(2) order(1) merged_none order(2) [of k e] merge_record_def not_False_eq_True)
  with s(1) s'(1) show ?thesis unfolding defs by blast
qed

definition sample_dup :: "64 word \<Rightarrow> bytes \<Rightarrow> duplicate_entry" where
  "sample_dup ts v = \<lparr>de_timestamp = ts, de_cluster_id = 2, de_verify_timetag = True,
     de_request = D_put (empty_put_request\<lparr>pr_key := raw_key [104] [115], pr_value := v\<rparr>)\<rparr>"

theorem duplicated_puts_converge_witness:
  "let old = sample_dup 1 [1]; new = sample_dup 2 [2] in
   \<exists>s s'. duplicate_all sample_server map_rocks [(7, [old]), (8, [new])] sample_service = Inr ([kOk, kOk], s) \<and>
     duplicate_all sample_server map_rocks [(7, [new, old])] sample_service = Inr ([kOk], s') \<and>
     rw_db (ws_rw s) (raw_key [104] [115])
       = Some (dup_record sample_server new (entry_put new) (ws_rw sample_service)) \<and>
     rw_db (ws_rw s') (raw_key [104] [115]) = rw_db (ws_rw s) (raw_key [104] [115])"
proof -
  let ?old = "sample_dup 1 [1]" and ?new = "sample_dup 2 [2]" and ?k = "raw_key [104] [115]"
  let ?qs = "[(7 :: decree, [?old]), (8, [?new])]" and ?qs' = "[(7 :: decree, [?new, ?old])]"
  have version: "se_data_version sample_server = 1" by (simp add: sample_server_def)
  have tags: "dup_tag ?old \<noteq> 0" "dup_tag ?new \<noteq> 0" "dup_tag ?old < dup_tag ?new"
    by (simp_all add: dup_tag_def sample_dup_def generate_timetag_def push_bit_eq_mult)
  have key: "pr_key (entry_put (sample_dup ts v)) = ?k" "?k \<noteq> []" for ts v
    by (simp_all add: entry_put_def sample_dup_def raw_key_def)
  have live: "live_put sample_server (ws_rw sample_service) e" if "e \<in> {?old, ?new}" for e
    using that tags
    by (auto simp: live_put_def dup_put_def sample_dup_def sample_server_def raw_key_def stays_alive_def
        check_if_ts_expired_def db_expire_ts_def sample_service_def empty_put_request_def)
  have newest: "newest_put (concat (map snd ?qs)) ?k ?new"
    using tags by (auto simp: newest_put_def key)
  have live': "\<forall>e \<in> set (concat (map snd ?qs)). live_put sample_server (ws_rw sample_service) e"
    using live by simp
  have unique: "\<forall>e \<in> set (concat (map snd ?qs)). \<forall>e' \<in> set (concat (map snd ?qs)).
      pr_key (entry_put e) = pr_key (entry_put e') \<and> dup_tag e = dup_tag e' \<longrightarrow> e = e'"
    using tags(3) by auto
  have same: "set (concat (map snd ?qs')) = set (concat (map snd ?qs))" by auto
  have none: "\<not> keeps_record sample_server (rw_db (ws_rw sample_service) ?k) (dup_tag ?new)"
    by (simp add: sample_service_def keeps_record_def)
  have "\<exists>s s'. duplicate_all sample_server map_rocks ?qs sample_service = Inr (replicate (length ?qs) kOk, s) \<and>
      duplicate_all sample_server map_rocks ?qs' sample_service = Inr (replicate (length ?qs') kOk, s') \<and>
      rw_db (ws_rw s) ?k = Some (dup_record sample_server ?new (entry_put ?new) (ws_rw sample_service)) \<and>
      rw_db (ws_rw s') ?k = rw_db (ws_rw s) ?k"
    using duplicated_puts_converge [OF sample_store_ok version live' unique same] newest key(2) none by metis
  then show ?thesis by (simp add: Let_def)
qed

end
