(* ===== verification/Spec2Isabelle.thy ===== *)
theory Spec2Isabelle
  imports Failure_Detector_Roles Perfect_Detector Key_Schema Value_Schema Reconfiguration Meta_Defects
    Duplicated_Writes
begin

text \<open>
  A verification of the replication core of Pegasus, a distributed key-value store. Paths are
  relative to the repository root, which is the directory \<^verbatim>\<open>src\<close>.

  \<^bold>\<open>The program.\<close> A table is divided into partitions, and every partition is a group of
  replicas: a primary, secondaries and learners. Clients write to the primary, which orders the
  writes by decrees and runs a two-phase commit with the other members over their logs. A meta
  server owns the configuration of every group and stores it remotely; a configuration has a
  ballot, which every change increments. Replica servers and meta servers watch each other with
  beacons. A replica applies committed mutations to its storage engine, whose keys and values have
  the layouts of \<^verbatim>\<open>src/src/base\<close>.

  \<^bold>\<open>Outcomes, effects and parameters.\<close> An operation that may abort the process has a value of
  \<open>'a result\<close>: the left side is a failed \<open>CHECK\<close>, an access out of bounds or a null pointer, a division by
  zero, or a loop that never ends. Messages, replies, log writes and calls of the storage engine
  are appended to a list of effects in the state. Clocks, flags, the storage engine, the network
  and the iteration order of the node map are parameters: records of the environment
  (\<open>replica_env\<close>, \<open>queue_env\<close>, \<open>meta_env\<close>) that are free to change from step to step. Machine integers
  are words where the code can wrap around (clocks, counters, checksums, partition hashes) and integers
  with the conversions written out elsewhere.

  \<^bold>\<open>The theories.\<close>

  \<^item> \<open>Pegasus_Prelude\<close>: outcomes, integer conversions, shared lemmas, the locale \<open>stepwise_invariant\<close> for
    invariants of transition systems.

  \<^item> \<open>Mutation\<close>, \<open>Mutation_Cache\<close>, \<open>Prepare_List\<close> (\<^verbatim>\<open>src/src/replica/mutation.cpp\<close>, \<^verbatim>\<open>mutation_cache.cpp\<close>,
    \<^verbatim>\<open>prepare_list.cpp\<close>): the mutations of a replica between prepare and commit. The cache is a ring
    that refines a map on a window of decrees (locale \<open>mutation_window\<close>). Shown: preparing loses no
    uncommitted mutation, a secondary commits exactly up to the decree of the primary in order, hard
    commits succeed exactly if all mutations are there and logged (the comments also ask that they are ready), and the
    commit loops end.

  \<^item> \<open>Mutation_Queue\<close> (the \<open>mutation_queue\<close> of \<^verbatim>\<open>src/src/replica/mutation.cpp\<close>): batching of writes and the row locks
    that hold back writes on keys whose previous write is not applied. Shown: no write is lost, locks
    are exact, and after \<open>clear\<close> the stale entry of any applied row makes the queue drop a lock that is still needed.

  \<^item> \<open>Replica_State\<close>, \<open>Replica\<close>, \<open>Replica_Handlers\<close> (\<^verbatim>\<open>src/src/replica/replica_context.cpp\<close>, \<^verbatim>\<open>replica_2pc.cpp\<close>,
    \<^verbatim>\<open>replica_config.cpp\<close>, \<^verbatim>\<open>replica_failover.cpp\<close>, \<^verbatim>\<open>replica_check.cpp\<close> and parts of \<^verbatim>\<open>replica.cpp\<close>,
    \<^verbatim>\<open>replication_app_base.cpp\<close>, \<^verbatim>\<open>split/replica_split_manager.cpp\<close>): a replica with its role contexts, and one
    definition per handler. The state is a prepare list, a store of mutations, and the record
    \<open>replica\<close>. Executing a mutation on a primary prepares the next write,
    which may commit again: this nesting goes through \<open>replica_committer\<close>, whose bound is an argument.
    A bound of one is enough for the handlers, as a mutation from the write queue is not logged yet; the
    theorems on runs hold for every bound.

  \<^item> \<open>Replica_Views\<close>, \<open>Replica_Run\<close>, \<open>Replica_Commit\<close>: a relation on what is observed of a replica that holds for three
    basic changes holds for every handler (locale \<open>replica_relation\<close>). Shown for any run: views grow,
    mutations are applied in order and once. Shown of the two-phase commit: what a write round does,
    that a primary commits after all acknowledgements, that a secondary acknowledges and applies, and that a
    write is dropped with a success reply when only the disk of a secondary is full.

  \<^item> \<open>Meta_Data\<close>, \<open>Partition_Guardian\<close>, \<open>Server_State\<close> (\<^verbatim>\<open>src/src/meta/meta_data.cpp\<close>, \<^verbatim>\<open>partition_guardian.cpp\<close>,
    \<^verbatim>\<open>server_load_balancer.cpp\<close>, \<^verbatim>\<open>server_state.cpp\<close>): the meta server. The record \<open>meta\<close> holds the tables, per
    partition the configuration and the \<open>config_context\<close>, and the nodes with what they serve. Definitions
    for requests of replica servers, replies of the remote storage, dead nodes, config sync, drops and the
    periodic round, and for the proposals by which the guardian repairs a partition.

  \<^item> \<open>Drop_History\<close>, \<open>Guardian_Cure\<close>, \<open>Meta_Updates\<close>, \<open>Meta_Run\<close>, \<open>Meta_Defects\<close>: what they do. Shown: the drop history
    keeps the replicas with the most data; a partition with living members that needs repair gets a proposal, when a
    spare node is there and the guardian does not wait for the last dropped one, and the proposal stays valid while the
    configuration, the queue and the life of its two nodes are the same; a dead partition with two last drops gets the
    better of these replicas; over any run of the steps of \<open>meta_step\<close> the configurations are
    consistent with what the nodes serve, and there is at most one configuration per ballot. Three
    ways to abort the meta server are proved: a single last drop that is unknown, a dropped table
    with a group of four members, and a lowered replica count.

  \<^item> \<open>Reconfiguration\<close>: both sides together. A replica server that acts on a proposal builds a request that
    the meta server accepts.

  \<^item> \<open>Group_Host_Port\<close>, \<open>Failure_Detector\<close>, \<open>Failure_Detector_Roles\<close>, \<open>Perfect_Detector\<close> (\<^verbatim>\<open>src/src/failure_detector\<close>,
    \<^verbatim>\<open>src/src/rpc/group_host_port.h\<close>, \<^verbatim>\<open>src/src/meta/meta_server_failure_detector.cpp\<close>): leases between
    servers. Shown: with a network that loses, duplicates and reorders messages a replica server has noticed that its
    lease is over before the meta server declares it dead; a replica server follows the leader of its group; two
    defects.

  \<^item> \<open>Byte_Codec\<close>, \<open>Key_Schema\<close>, \<open>Value_Schema\<close> (\<^verbatim>\<open>src/src/base\<close>, \<^verbatim>\<open>src/src/utils/endians.h\<close>): storage layouts. Shown: round
    trips of keys and of all fields of values, that a scan range holds exactly the keys of a hash key, that exactly one
    partition serves a key, and which values are misread. The three value layouts are instances of the locale
    \<open>value_schema\<close>, the two with a time tag of its extension \<open>tagged_value_schema\<close>.

  \<^item> \<open>Rocksdb_Wrapper\<close>, \<open>Write_Service\<close>, \<open>Server_Write\<close> (\<^verbatim>\<open>src/src/server/rocksdb_wrapper.cpp\<close>,
    \<^verbatim>\<open>pegasus_write_service_impl.h\<close>, \<^verbatim>\<open>pegasus_write_service.cpp\<close>, \<^verbatim>\<open>pegasus_server_write.cpp\<close>): the write path of the
    storage engine, from a committed mutation to the write batch. RocksDB is the parameter \<open>rocks\<close>. The state is
    the \<open>wrapper\<close> (the database, the pending batch, the default time to live) inside a \<open>write_service\<close>.

  \<^item> \<open>Write_Idempotent\<close>, \<open>Duplicated_Writes\<close>: what the write path does. Shown: an atomic write that the primary
    translates into single updates has the answer and the effect of the direct operation; a replica that
    applies the updates from messages gets the store of the primary, except that expirations under the default time to
    live follow the clock of each replica and that a translated removal becomes an empty
    value; of the verified writes of other clusters the one with the largest time tag stays, in whatever order they arrive.

  \<^item> \<open>Crc\<close>, \<open>Crc_Tables\<close> (\<^verbatim>\<open>src/src/utils/crc.cpp\<close>): table-driven checksums and their concatenation, against division of
    polynomials; the literal tables are those that the code would compute.

  \<^item> \<open>String_Utils\<close>, \<open>Throttling\<close> (\<^verbatim>\<open>src/src/utils/strings.cpp\<close>, \<^verbatim>\<open>string_conv.h\<close>, \<^verbatim>\<open>throttling_controller.cpp\<close>): splitting,
    replacing, number readers, and the request throttle with its environment strings.

  \<^bold>\<open>Assumptions that the theorems name.\<close> \<open>detector_perfect\<close> assumes a common rate of the clocks, that the check
  timer fires within every interval, and that a reply is not delivered after its timeout. The runs of
  the meta server take as steps the reply for the pending update only (a cancelled task does not run), a
  clock that does not go back behind the drop history, requests that a replica server builds from the current configuration
  (which \<open>Reconfiguration\<close> shows for proposals), and drops of groups of at most three members; changes of the replica count
  are not among them. The
  theorems on writes assume \<open>store_ok\<close>: RocksDB does what its documentation says and no call fails, stored
  values have a header, and no write error is injected; the clock does not move during one write. Duplicated puts are
  applied at one time, at which none of them is expired, and puts with equal time tags on a key are the same put.

  \<^bold>\<open>Not modelled.\<close> Pure I/O and scheduling: \<open>replica_stub\<close>, log files, checkpoints and learning by file
  copy, backup, duplication, \<^verbatim>\<open>src/src/rpc\<close>, \<^verbatim>\<open>task\<close>, \<^verbatim>\<open>aio\<close>, \<^verbatim>\<open>nfs\<close>, \<^verbatim>\<open>http\<close>, \<^verbatim>\<open>zookeeper\<close>, \<^verbatim>\<open>security\<close>. Code
  over third-party libraries: of \<^verbatim>\<open>src/src/server\<close> the reads and scans over iterators of RocksDB, its files and
  options, bulk load files, compaction, and capacity units. Of the meta server: the
  heuristics of the load balancers, whose proposals may be anything in the model; creating, recalling, renaming and
  configuring tables; recovery from replica servers; split, backup and bulk load services; stateless
  tables. Monitoring, logging and configuration files. Clients, shells and the programs in other languages,
  which only use the RPC interface.
\<close>

end
